(* ===== verification/Prelude.thy ===== *)
theory Prelude
  imports
    Main
    "HOL-Library.Word"
    "HOL-Library.Sublist"
    "HOL-Library.Char_ord"
    "HOL-Library.List_Lexorder"
begin

text \<open>
  What every component of the development shares: names for the machine integers of the Rust
  sources, Rust's saturating and checked arithmetic on \<open>u64\<close>, the result type of fallible
  operations, and generic lemmas on words, lists and maps. Unsigned 64-bit values keep their
  width (\<^typ>\<open>64 word\<close>), so additions wrap as they do in a release build.
\<close>

named_theorems model_defs \<open>definitions the component proofs unfold\<close>
named_theorems step_simps \<open>equations of the step functions of a component\<close>

type_synonym u8 = "8 word"
type_synonym u32 = "32 word"
type_synonym u64 = "64 word"
type_synonym bytes = "u8 list"

text \<open>A fallible Rust result: \<open>Inl\<close> is the \<open>Err\<close> branch, \<open>Inr\<close> the \<open>Ok\<close> branch.\<close>

type_synonym ('e, 'a) res = "'e + 'a"

abbreviation Ok :: "'a \<Rightarrow> ('e, 'a) res" where
  "Ok \<equiv> Inr"

abbreviation Err :: "'e \<Rightarrow> ('e, 'a) res" where
  "Err \<equiv> Inl"

definition is_ok :: "('e, 'a) res \<Rightarrow> bool" where
  "is_ok r = (case r of Inl _ \<Rightarrow> False | Inr _ \<Rightarrow> True)"

lemma is_ok_simps [simp]: "is_ok (Inr a)" "\<not> is_ok (Inl e)"
  by (simp_all add: is_ok_def)

lemma is_ok_conv: "is_ok r \<longleftrightarrow> (\<exists>a. r = Inr a)"
  by (cases r) simp_all

text \<open>\<open>Result::and_then\<close> and \<open>Result::map_err\<close>.\<close>

fun and_then :: "('e, 'a) res \<Rightarrow> ('a \<Rightarrow> ('e, 'b) res) \<Rightarrow> ('e, 'b) res" where
  "and_then (Inl e) f = Err e"
| "and_then (Inr a) f = f a"

definition map_err :: "('e \<Rightarrow> 'f) \<Rightarrow> ('e, 'a) res \<Rightarrow> ('f, 'a) res" where
  "map_err f r = (case r of Inl e \<Rightarrow> Err (f e) | Inr a \<Rightarrow> Ok a)"

lemma and_then_Ok: "and_then r f = Inr b \<longleftrightarrow> (\<exists>a. r = Inr a \<and> f a = Inr b)"
  by (cases r) simp_all

lemma map_err_Ok [simp]: "map_err f r = Inr a \<longleftrightarrow> r = Inr a"
  by (simp add: map_err_def split: sum.splits)

section \<open>Rust's arithmetic on \<open>u64\<close>\<close>

definition saturating_sub :: "u64 \<Rightarrow> u64 \<Rightarrow> u64" where
  "saturating_sub a b = (if b \<le> a then a - b else 0)"

lemma unat_saturating_sub [simp]: "unat (saturating_sub a b) = unat a - unat b"
  by (simp add: saturating_sub_def unat_sub word_le_nat_alt)

lemma saturating_sub_le: "saturating_sub a b \<le> a"
  by (simp add: word_le_nat_alt)

lemma saturating_sub_self [simp]: "saturating_sub a a = 0"
  by (simp add: saturating_sub_def)

lemma saturating_sub_mono: "a \<le> c \<Longrightarrow> saturating_sub a b \<le> saturating_sub c b"
  by (simp add: word_le_nat_alt)

text \<open>\<open>Option::is_none_or\<close> and \<open>Option::is_some_and\<close>.\<close>

definition is_none_or :: "'a option \<Rightarrow> ('a \<Rightarrow> bool) \<Rightarrow> bool" where
  "is_none_or x p = (case x of None \<Rightarrow> True | Some a \<Rightarrow> p a)"

definition is_some_and :: "'a option \<Rightarrow> ('a \<Rightarrow> bool) \<Rightarrow> bool" where
  "is_some_and x p = (case x of None \<Rightarrow> False | Some a \<Rightarrow> p a)"

definition unwrap_or :: "'a option \<Rightarrow> 'a \<Rightarrow> 'a" where
  "unwrap_or x d = (case x of None \<Rightarrow> d | Some a \<Rightarrow> a)"

lemma is_none_or_simps [simp]:
  "is_none_or None p" "is_none_or (Some a) p = p a"
  by (simp_all add: is_none_or_def)

lemma is_some_and_simps [simp]:
  "\<not> is_some_and None p" "is_some_and (Some a) p = p a"
  by (simp_all add: is_some_and_def)

lemma unwrap_or_simps [simp]:
  "unwrap_or None d = d" "unwrap_or (Some a) d = a"
  by (simp_all add: unwrap_or_def)

section \<open>Words\<close>

lemma word_add_no_overflow:
  fixes a b :: u64
  shows "unat a + unat b < 2 ^ 64 \<Longrightarrow> unat (a + b) = unat a + unat b"
  by (simp add: unat_word_ariths)

lemma unat_u64_lt: "unat (a :: u64) < 2 ^ 64"
  using unsigned_less [of a, where 'a = nat] by simp

section \<open>Lists\<close>

text \<open>Rust's \<open>iter().find(p)\<close> is \<^const>\<open>List.find\<close>; over distinct keys its order does not matter.\<close>

lemma find_Some_iff_distinct:
  assumes "distinct (map f xs)"
  shows "List.find (\<lambda>x. f x = k) xs = Some x \<longleftrightarrow> x \<in> set xs \<and> f x = k"
proof -
  have "x \<in> set xs \<and> f x = k" if "List.find (\<lambda>x. f x = k) xs = Some x" for x
    using that by (metis (mono_tags, lifting) find_Some_iff nth_mem)
  moreover have "List.find (\<lambda>x. f x = k) xs = Some x" if "x \<in> set xs" "f x = k"
    using that assms by (induction xs) (auto simp: rev_image_eqI)
  ultimately show ?thesis by blast
qed

lemma find_None_iff_key:
  "List.find (\<lambda>x. f x = k) xs = None \<longleftrightarrow> k \<notin> f ` set xs"
  by (auto simp: find_None_iff)

lemma find_same_set:
  assumes "distinct (map f xs)" "distinct (map f ys)" "set xs = set ys"
  shows "List.find (\<lambda>x. f x = k) xs = List.find (\<lambda>x. f x = k) ys"
proof (cases "List.find (\<lambda>x. f x = k) xs")
  case None
  then have "k \<notin> f ` set ys" using assms(3) by (simp add: find_None_iff_key)
  then have "List.find (\<lambda>x. f x = k) ys = None" by (simp add: find_None_iff_key)
  then show ?thesis using None by simp
next
  case (Some x)
  then have "x \<in> set ys \<and> f x = k" using assms by (simp add: find_Some_iff_distinct)
  then have "List.find (\<lambda>x. f x = k) ys = Some x"
    using find_Some_iff_distinct [OF assms(2)] by simp
  then show ?thesis using Some by simp
qed

lemma take_concat_split:
  "\<exists>k m. k \<le> length xs \<and> take n (concat (map f xs)) = concat (map f (take k xs)) @
     (if k < length xs then take m (f (xs ! k)) else []) \<and> (k < length xs \<longrightarrow> m < length (f (xs ! k)))"
proof (induction xs arbitrary: n)
  case (Cons x xs)
  show ?case
  proof (cases "n < length (f x)")
    case True
    then show ?thesis by (intro exI [of _ 0] exI [of _ n]) simp
  next
    case False
    obtain k m where "k \<le> length xs"
      "take (n - length (f x)) (concat (map f xs)) = concat (map f (take k xs)) @
         (if k < length xs then take m (f (xs ! k)) else [])"
      "k < length xs \<longrightarrow> m < length (f (xs ! k))"
      using Cons.IH by blast
    then show ?thesis using False by (intro exI [of _ "Suc k"] exI [of _ m]) auto
  qed
qed simp

end
