(* ===== verification/Kv_State_Machine.thy ===== *)
theory Kv_State_Machine
  imports Prelude
begin

text \<open>
  The replicated key-value state machine of \<open>crates/pg-ha-dcs/src/state_machine.rs\<close>: entries
  with an optional expiry, the three Raft requests, their application, and the local reads.
  The wall clock that the source reads through \<open>current_millis\<close> is the argument \<open>clock\<close>; a
  \<open>HashMap\<close> is a map (its iteration order is never observable here).

  The lemmas show that the machine is a compare-and-swap register per key over its \<open>live\<close>
  view, that replicas which apply the same log agree whatever their clocks say, that expiry is
  invisible to later requests, and that a version identifies one write of one key (no ABA).
\<close>

section \<open>Data\<close>

record kv_entry =
  kv_value :: string
  kv_created_at :: u64
  kv_updated_at :: u64
  kv_expire_at :: "u64 option"
  kv_version :: u64

datatype request =
    Request_Set (set_key: string) (set_value: string) (set_ttl: "u64 option")
      (set_prev_exist: "bool option") (set_prev_value: "string option")
      (set_prev_version: "u64 option") (set_now: u64)
  | Request_Delete (del_key: string) (del_prev_value: "string option") (del_recursive: bool)
  | Request_ExpireKeys (exp_now: u64)

datatype response = Response_Ok u64 | Response_NotChanged

record kv_state_machine =
  sm_data :: "string \<rightharpoonup> kv_entry"
  sm_last_applied_log :: u64

definition new_state_machine :: kv_state_machine where
  "new_state_machine = \<lparr>sm_data = Map.empty, sm_last_applied_log = 0\<rparr>"

section \<open>Application of a committed request\<close>

text \<open>
  \<open>apply_set\<close>: an expired entry counts as absent for the three CAS conditions, judged by the
  request's own \<open>now\<close>. A log entry written before that stamp existed carries \<open>now = 0\<close> and falls
  back to the node's clock. \<open>now + t * 1000\<close> wraps at 64 bits.
\<close>

definition apply_set ::
  "kv_state_machine \<Rightarrow> u64 \<Rightarrow> string \<Rightarrow> string \<Rightarrow> u64 option \<Rightarrow> bool option \<Rightarrow> string option \<Rightarrow>
    u64 option \<Rightarrow> u64 \<Rightarrow> kv_state_machine \<times> response" where
  "apply_set sm clock key val ttl prev_exist prev_value prev_version now0 =
    (let now = (if now0 = 0 then clock else now0);
         existing = sm_data sm key;
         effectively_exists = is_some_and existing (\<lambda>e. is_none_or (kv_expire_at e) (\<lambda>exp. exp > now));
         effective_existing = (if effectively_exists then existing else None)
     in if is_some_and prev_exist (\<lambda>should_exist. should_exist \<noteq> effectively_exists)
        then (sm, Response_NotChanged)
        else if is_some_and prev_value
                  (\<lambda>expected. \<not> is_some_and effective_existing (\<lambda>e. kv_value e = expected))
        then (sm, Response_NotChanged)
        else if is_some_and prev_version
                  (\<lambda>expected. \<not> is_some_and effective_existing (\<lambda>e. kv_version e = expected))
        then (sm, Response_NotChanged)
        else
          let created_at = (case effective_existing of Some e \<Rightarrow> kv_created_at e | None \<Rightarrow> now);
              version = sm_last_applied_log sm;
              entry = \<lparr>kv_value = val, kv_created_at = created_at, kv_updated_at = now,
                       kv_expire_at = map_option (\<lambda>t. now + t * 1000) ttl,
                       kv_version = version\<rparr>
          in (sm\<lparr>sm_data := (sm_data sm)(key \<mapsto> entry)\<rparr>, Response_Ok version))"

definition apply_delete ::
  "kv_state_machine \<Rightarrow> string \<Rightarrow> string option \<Rightarrow> bool \<Rightarrow> kv_state_machine \<times> response" where
  "apply_delete sm key prev_value recursive =
    (if recursive
     then (sm\<lparr>sm_data := (\<lambda>k. if prefix key k then None else sm_data sm k)\<rparr>,
           Response_Ok (sm_last_applied_log sm))
     else if is_some_and prev_value
               (\<lambda>expected. \<not> is_some_and (sm_data sm key) (\<lambda>e. kv_value e = expected))
     then (sm, Response_NotChanged)
     else (case sm_data sm key of
             Some _ \<Rightarrow> (sm\<lparr>sm_data := (sm_data sm)(key := None)\<rparr>,
                        Response_Ok (sm_last_applied_log sm))
           | None \<Rightarrow> (sm, Response_NotChanged)))"

definition apply_expire :: "kv_state_machine \<Rightarrow> u64 \<Rightarrow> kv_state_machine \<times> response" where
  "apply_expire sm now =
    (sm\<lparr>sm_data := (\<lambda>k. case sm_data sm k of
                        Some e \<Rightarrow> if is_none_or (kv_expire_at e) (\<lambda>exp. exp > now) then Some e else None
                      | None \<Rightarrow> None)\<rparr>,
     Response_Ok (sm_last_applied_log sm))"

definition sm_apply ::
  "kv_state_machine \<Rightarrow> u64 \<Rightarrow> request \<Rightarrow> u64 \<Rightarrow> kv_state_machine \<times> response" where
  "sm_apply sm0 clock req log_index =
    (let sm = sm0\<lparr>sm_last_applied_log := log_index\<rparr>
     in case req of
          Request_Set key val ttl prev_exist prev_value prev_version now \<Rightarrow>
            apply_set sm clock key val ttl prev_exist prev_value prev_version now
        | Request_Delete key prev_value recursive \<Rightarrow> apply_delete sm key prev_value recursive
        | Request_ExpireKeys now \<Rightarrow> apply_expire sm now)"

text \<open>The leader overwrites the clock of a request before appending it.\<close>

definition stamp_leader_time :: "request \<Rightarrow> u64 \<Rightarrow> request" where
  "stamp_leader_time req now =
    (case req of
       Request_Set key val ttl prev_exist prev_value prev_version _ \<Rightarrow>
         Request_Set key val ttl prev_exist prev_value prev_version now
     | Request_ExpireKeys _ \<Rightarrow> Request_ExpireKeys now
     | other \<Rightarrow> other)"

section \<open>Local reads\<close>

definition is_expired :: "kv_entry \<Rightarrow> u64 \<Rightarrow> bool" where
  "is_expired e clock = is_some_and (kv_expire_at e) (\<lambda>exp. exp \<le> clock)"

definition sm_get :: "kv_state_machine \<Rightarrow> u64 \<Rightarrow> string \<Rightarrow> kv_entry option" where
  "sm_get sm clock key =
    (case sm_data sm key of
       None \<Rightarrow> None
     | Some e \<Rightarrow> if is_expired e clock then None else Some e)"

definition sm_get_prefix :: "kv_state_machine \<Rightarrow> u64 \<Rightarrow> string \<Rightarrow> (string \<rightharpoonup> kv_entry)" where
  "sm_get_prefix sm clock pre =
    (\<lambda>k. case sm_data sm k of
           None \<Rightarrow> None
         | Some e \<Rightarrow> if prefix pre k \<and> \<not> is_expired e clock then Some e else None)"

section \<open>The live view and the compare-and-swap specification\<close>

text \<open>
  The abstract state at time \<open>now\<close>: the entries a request stamped \<open>now\<close> can see. The
  specification of a \<open>Set\<close> is a guarded update of that view.
\<close>

definition live :: "u64 \<Rightarrow> kv_state_machine \<Rightarrow> (string \<rightharpoonup> kv_entry)" where
  "live now sm = (\<lambda>k. case sm_data sm k of
     Some e \<Rightarrow> if is_none_or (kv_expire_at e) (\<lambda>exp. exp > now) then Some e else None
   | None \<Rightarrow> None)"

definition cas_ok :: "kv_entry option \<Rightarrow> bool option \<Rightarrow> string option \<Rightarrow> u64 option \<Rightarrow> bool" where
  "cas_ok cur prev_exist prev_value prev_version \<longleftrightarrow>
     (\<forall>b. prev_exist = Some b \<longrightarrow> (b \<longleftrightarrow> cur \<noteq> None)) \<and>
     (\<forall>v. prev_value = Some v \<longrightarrow> (\<exists>e. cur = Some e \<and> kv_value e = v)) \<and>
     (\<forall>n. prev_version = Some n \<longrightarrow> (\<exists>e. cur = Some e \<and> kv_version e = n))"

definition written_entry ::
  "kv_entry option \<Rightarrow> string \<Rightarrow> u64 option \<Rightarrow> u64 \<Rightarrow> u64 \<Rightarrow> kv_entry" where
  "written_entry cur val ttl now version =
    \<lparr>kv_value = val,
     kv_created_at = (case cur of Some e \<Rightarrow> kv_created_at e | None \<Rightarrow> now),
     kv_updated_at = now,
     kv_expire_at = map_option (\<lambda>t. now + t * 1000) ttl,
     kv_version = version\<rparr>"

lemma is_expired_live: "sm_get sm clock key = live clock sm key"
  by (auto simp: sm_get_def live_def is_expired_def is_some_and_def is_none_or_def
      split: option.splits)

lemma live_Some:
  "live now sm k = Some e \<longleftrightarrow>
    sm_data sm k = Some e \<and> is_none_or (kv_expire_at e) (\<lambda>exp. exp > now)"
  by (auto simp: live_def split: option.splits if_splits)

lemma live_apply_set_eq:
  assumes "now \<noteq> 0"
  shows "apply_set sm clock key val ttl pe pv pn now =
    (if cas_ok (live now sm key) pe pv pn
     then (sm\<lparr>sm_data := (sm_data sm)
               (key \<mapsto> written_entry (live now sm key) val ttl now (sm_last_applied_log sm))\<rparr>,
           Response_Ok (sm_last_applied_log sm))
     else (sm, Response_NotChanged))"
  using assms
  by (cases "live now sm key"; cases pe; cases pv; cases pn)
    (auto simp: apply_set_def Let_def cas_ok_def written_entry_def live_def
      split: option.splits if_splits)

section \<open>Shared facts\<close>

lemmas sm_apply_defs = sm_apply_def Let_def apply_delete_def apply_expire_def

lemma sm_apply_set:
  assumes "now \<noteq> 0"
  shows "sm_apply sm clock (Request_Set key val ttl pe pv pn now) idx =
    (if cas_ok (live now sm key) pe pv pn
     then (sm\<lparr>sm_data := (sm_data sm)(key \<mapsto> written_entry (live now sm key) val ttl now idx),
               sm_last_applied_log := idx\<rparr>, Response_Ok idx)
     else (sm\<lparr>sm_last_applied_log := idx\<rparr>, Response_NotChanged))"
  using live_apply_set_eq [OF assms, of "sm\<lparr>sm_last_applied_log := idx\<rparr>"]
  by (simp add: sm_apply_def live_def)

lemma live_last_applied [simp]: "live t (sm\<lparr>sm_last_applied_log := idx\<rparr>) = live t sm"
  by (simp add: live_def)

lemma live_data_upd [simp]:
  "live t (sm\<lparr>sm_data := (sm_data sm)(key \<mapsto> e)\<rparr>) =
    (if is_none_or (kv_expire_at e) (\<lambda>exp. exp > t) then (live t sm)(key \<mapsto> e)
     else (live t sm)(key := None))"
  by (auto simp: live_def fun_eq_iff)

lemma live_mono: "t \<le> t' \<Longrightarrow> live t' sm k = Some e \<Longrightarrow> live t sm k = Some e"
  by (auto simp: live_Some is_none_or_def split: option.splits)

lemma live_expire:
  "now \<le> t \<Longrightarrow> live t (fst (sm_apply sm clock (Request_ExpireKeys now) idx)) = live t sm"
  by (auto simp: sm_apply_defs live_def fun_eq_iff is_none_or_def split: option.splits)

lemma sm_apply_last_applied [simp]: "sm_last_applied_log (fst (sm_apply sm clock req idx)) = idx"
  by (auto simp: sm_apply_defs apply_set_def split: request.splits option.splits)

lemma sm_apply_data_cases:
  "sm_data (fst (sm_apply sm clock req idx)) k = Some e \<Longrightarrow>
    sm_data sm k = Some e \<or> kv_version e = idx"
  by (auto simp: sm_apply_defs apply_set_def split: request.splits option.splits if_splits)

section \<open>Replicas that apply the same log\<close>

text \<open>
  A node applies the committed entries in log order; what differs between nodes is only the
  clock each reads while applying an entry.
\<close>

fun run_log :: "('s \<Rightarrow> u64 \<Rightarrow> 'r \<Rightarrow> u64 \<Rightarrow> 's \<times> 'o) \<Rightarrow> 's \<Rightarrow> (u64 \<times> 'r \<times> u64) list \<Rightarrow> 's \<times> 'o list" where
  "run_log step s [] = (s, [])"
| "run_log step s ((clock, r, i) # xs) =
     (case step s clock r i of (s', o1) \<Rightarrow>
        case run_log step s' xs of (s'', os) \<Rightarrow> (s'', o1 # os))"

locale replicated_machine =
  fixes step :: "'s \<Rightarrow> u64 \<Rightarrow> 'r \<Rightarrow> u64 \<Rightarrow> 's \<times> 'o"
    and stamped :: "'r \<Rightarrow> bool"
  assumes clock_free: "stamped r \<Longrightarrow> step s c r i = step s c' r i"
begin

lemma replicas_agree:
  assumes "map snd xs = map snd ys" and "\<forall>x \<in> set xs. stamped (fst (snd x))"
  shows "run_log step s xs = run_log step s ys"
  using assms
proof (induction xs arbitrary: s ys)
  case Nil
  then show ?case by simp
next
  case (Cons x xs)
  obtain c r i where x: "x = (c, r, i)" by (cases x) auto
  from Cons.prems(1) x obtain c' ys' where ys: "ys = (c', r, i) # ys'" and tl: "map snd xs = map snd ys'"
    by (cases ys) auto
  have "step s c r i = step s c' r i" using Cons.prems(2) x by (intro clock_free) simp
  then show ?case using Cons.IH [OF tl] Cons.prems(2) by (simp add: x ys split: prod.split)
qed

end

definition is_stamped :: "request \<Rightarrow> bool" where
  "is_stamped r = (case r of Request_Set _ _ _ _ _ _ now \<Rightarrow> now \<noteq> 0 | _ \<Rightarrow> True)"

lemma stamped_stamp_leader_time: "now \<noteq> 0 \<Longrightarrow> is_stamped (stamp_leader_time r now)"
  by (cases r) (simp_all add: is_stamped_def stamp_leader_time_def)

interpretation kv: replicated_machine sm_apply is_stamped
proof
  fix r s c i c' assume "is_stamped r"
  then show "sm_apply s c r i = sm_apply s c' r i"
    by (cases r) (simp_all add: is_stamped_def sm_apply_def apply_set_def)
qed

text \<open>
  C16. Two nodes that apply the same committed log, whose requests the Raft leader stamped with a
  non-zero time, end in the same state machine and give the same responses, whatever each node's
  own clock reads while applying (\<open>state_machine.rs\<close>: \<open>apply\<close>, \<open>stamp_leader_time\<close>).
\<close>

theorem replicas_apply_log_identically:
  assumes "map snd xs = map (\<lambda>(r, t, i). (stamp_leader_time r t, i)) log"
    and "map snd ys = map (\<lambda>(r, t, i). (stamp_leader_time r t, i)) log"
    and "\<forall>(r, t, i) \<in> set log. t \<noteq> 0"
  shows "run_log sm_apply sm xs = run_log sm_apply sm ys"
proof (rule kv.replicas_agree)
  show "map snd xs = map snd ys" using assms(1,2) by simp
  show "\<forall>x \<in> set xs. is_stamped (fst (snd x))"
  proof
    fix x assume "x \<in> set xs"
    then have "snd x \<in> set (map (\<lambda>(r, t, i). (stamp_leader_time r t, i)) log)"
      using assms(1) by (metis image_eqI list.set_map)
    then show "is_stamped (fst (snd x))" using assms(3) by (fastforce intro: stamped_stamp_leader_time)
  qed
qed

theorem replicas_apply_log_identically_witness:
  "run_log sm_apply new_state_machine
     [(5, stamp_leader_time (Request_Set ''k'' ''a'' (Some 3) (Some False) None None 0) 100, 1)] =
   run_log sm_apply new_state_machine
     [(9, stamp_leader_time (Request_Set ''k'' ''a'' (Some 3) (Some False) None None 0) 100, 1)]"
  by (rule replicas_apply_log_identically
      [where log = "[(Request_Set ''k'' ''a'' (Some 3) (Some False) None None 0, 100, 1)]"]) simp_all

section \<open>Compare-and-swap refinement\<close>

text \<open>
  C15. A stamped \<open>Set\<close> is an atomic compare-and-swap on the live view: it succeeds exactly when
  the existence, value and version conditions hold of the live entry, then it writes that key
  only; otherwise it changes no entry. The TTL must be positive and not wrap the 64-bit clock.
\<close>

theorem set_is_compare_and_swap:
  assumes "now \<noteq> 0" and "\<And>t. ttl = Some t \<Longrightarrow> now < now + t * 1000"
    and "sm_apply sm clock (Request_Set key val ttl pe pv pn now) idx = (sm', r)"
  shows "r = (if cas_ok (live now sm key) pe pv pn then Response_Ok idx else Response_NotChanged) \<and>
    live now sm' =
      (if cas_ok (live now sm key) pe pv pn
       then (live now sm)(key \<mapsto> written_entry (live now sm key) val ttl now idx)
       else live now sm)"
proof -
  have "is_none_or (kv_expire_at (written_entry (live now sm key) val ttl now idx)) (\<lambda>exp. exp > now)"
    using assms(2) by (cases ttl) (simp_all add: written_entry_def)
  then show ?thesis
    using assms(3) by (auto simp: sm_apply_set [OF assms(1)] split: if_splits)
qed

theorem set_is_compare_and_swap_witness:
  "\<exists>sm'. sm_apply new_state_machine 0 (Request_Set ''l'' ''a'' (Some 30) (Some False) None None 7) 1 =
      (sm', Response_Ok 1) \<and>
    live 7 sm' = [''l'' \<mapsto> written_entry None ''a'' (Some 30) 7 1]"
proof -
  obtain sm' r where ap: "sm_apply new_state_machine 0
      (Request_Set ''l'' ''a'' (Some 30) (Some False) None None 7) 1 = (sm', r)"
    by (metis surj_pair)
  have "live 7 new_state_machine = Map.empty" by (simp add: live_def new_state_machine_def fun_eq_iff)
  then show ?thesis
    using set_is_compare_and_swap [OF _ _ ap] ap by (simp add: cas_ok_def)
qed

section \<open>Expiry is invisible\<close>

definition same_live_from :: "u64 \<Rightarrow> kv_state_machine \<Rightarrow> kv_state_machine \<Rightarrow> bool" where
  "same_live_from now s1 s2 \<longleftrightarrow> (\<forall>t \<ge> now. live t s1 = live t s2)"

lemma same_live_expire:
  "same_live_from now (fst (sm_apply sm clock (Request_ExpireKeys now) idx)) sm"
  by (simp add: same_live_from_def live_expire)

lemma same_live_set:
  assumes "same_live_from t0 s1 s2" "t0 \<le> now" "now \<noteq> 0"
  shows "snd (sm_apply s1 c1 (Request_Set key val ttl pe pv pn now) idx) =
         snd (sm_apply s2 c2 (Request_Set key val ttl pe pv pn now) idx)"
    and "same_live_from t0 (fst (sm_apply s1 c1 (Request_Set key val ttl pe pv pn now) idx))
           (fst (sm_apply s2 c2 (Request_Set key val ttl pe pv pn now) idx))"
  using assms by (auto simp: same_live_from_def sm_apply_set)

text \<open>
  Running \<open>ExpireKeys\<close> is unobservable to any later stamped write: every sequence of \<open>Set\<close>
  requests stamped at or after the expiry time gets the same responses, and leaves the same live
  view, as if the expiry had never run.
\<close>

theorem expire_keys_unobservable:
  assumes "\<forall>(c, r, i) \<in> set xs. \<exists>key val ttl pe pv pn now.
             r = Request_Set key val ttl pe pv pn now \<and> t0 \<le> now \<and> now \<noteq> 0"
    and "run_log sm_apply (fst (sm_apply sm c0 (Request_ExpireKeys t0) i0)) xs = (s1, os1)"
    and "run_log sm_apply sm xs = (s2, os2)"
  shows "os1 = os2 \<and> same_live_from t0 s1 s2"
proof -
  have "\<lbrakk>same_live_from t0 a b; run_log sm_apply a xs = (s1, os1); run_log sm_apply b xs = (s2, os2)\<rbrakk>
     \<Longrightarrow> os1 = os2 \<and> same_live_from t0 s1 s2" for a b
    using assms(1)
  proof (induction xs arbitrary: a b os1 os2)
    case Nil
    then show ?case by simp
  next
    case (Cons x xs)
    from Cons.prems(4) obtain c i key val ttl pe pv pn now
      where x: "x = (c, Request_Set key val ttl pe pv pn now, i)" and now: "t0 \<le> now" "now \<noteq> 0"
      by (cases x) auto
    note sim = same_live_set [OF Cons.prems(1) now, of c key val ttl pe pv pn i c]
    obtain a' oa ra where a': "sm_apply a c (Request_Set key val ttl pe pv pn now) i = (a', oa)"
      "run_log sm_apply a' xs = (s1, ra)" "os1 = oa # ra"
      using Cons.prems(2) x by (auto split: prod.splits)
    obtain b' ob rb where b': "sm_apply b c (Request_Set key val ttl pe pv pn now) i = (b', ob)"
      "run_log sm_apply b' xs = (s2, rb)" "os2 = ob # rb"
      using Cons.prems(3) x by (auto split: prod.splits)
    have "same_live_from t0 a' b'" "oa = ob" using sim a'(1) b'(1) by simp_all
    moreover have "ra = rb \<and> same_live_from t0 s1 s2"
      by (rule Cons.IH [OF \<open>same_live_from t0 a' b'\<close> a'(2) b'(2)]) (use Cons.prems(4) in auto)
    ultimately show ?case using a'(3) b'(3) by simp
  qed
  from this [OF same_live_expire assms(2,3)] show ?thesis .
qed

theorem expire_keys_unobservable_witness:
  "let sm = fst (sm_apply new_state_machine 0 (Request_Set ''l'' ''a'' (Some 1) None None None 7) 1);
       xs = [(0, Request_Set ''l'' ''b'' None (Some False) None None 2000, 3)]
   in snd (run_log sm_apply (fst (sm_apply sm 0 (Request_ExpireKeys 1500) 2)) xs) =
      snd (run_log sm_apply sm xs)"
proof -
  let ?sm = "fst (sm_apply new_state_machine 0 (Request_Set ''l'' ''a'' (Some 1) None None None 7) 1)"
  let ?xs = "[(0, Request_Set ''l'' ''b'' None (Some False) None None 2000, 3)]"
  have "\<forall>(c, r, i) \<in> set ?xs. \<exists>key val ttl pe pv pn now.
      r = Request_Set key val ttl pe pv pn now \<and> 1500 \<le> now \<and> now \<noteq> (0 :: u64)"
    by simp
  from expire_keys_unobservable [OF this, of ?sm 0 2] show ?thesis
    by (metis (no_types) surjective_pairing)
qed

section \<open>Versions\<close>

definition versions_bounded :: "kv_state_machine \<Rightarrow> bool" where
  "versions_bounded sm \<longleftrightarrow>
    (\<forall>k e. sm_data sm k = Some e \<longrightarrow> kv_version e \<le> sm_last_applied_log sm)"

fun increasing_from :: "u64 \<Rightarrow> (u64 \<times> request \<times> u64) list \<Rightarrow> bool" where
  "increasing_from n [] = True"
| "increasing_from n ((_, _, i) # xs) = (n < i \<and> increasing_from i xs)"

lemma versions_bounded_new: "versions_bounded new_state_machine"
  by (simp add: versions_bounded_def new_state_machine_def)

lemma versions_bounded_step:
  "\<lbrakk>versions_bounded sm; sm_last_applied_log sm \<le> idx\<rbrakk> \<Longrightarrow>
    versions_bounded (fst (sm_apply sm clock req idx))"
  unfolding versions_bounded_def using sm_apply_data_cases
  by (metis order.trans order_refl sm_apply_last_applied)

lemma run_log_versions:
  assumes "versions_bounded sm" and "increasing_from (sm_last_applied_log sm) xs"
    and "run_log sm_apply sm xs = (sm', os)"
    and "sm_data sm' k = Some e" and "kv_version e \<le> sm_last_applied_log sm"
  shows "versions_bounded sm' \<and> sm_data sm k = Some e"
  using assms
proof (induction xs arbitrary: sm os)
  case Nil
  then show ?case by simp
next
  case (Cons x xs)
  obtain c r i where x: "x = (c, r, i)" by (cases x) auto
  obtain s1 o1 os' where s1: "sm_apply sm c r i = (s1, o1)" "run_log sm_apply s1 xs = (sm', os')"
    using Cons.prems(3) x by (auto split: prod.splits)
  have i: "sm_last_applied_log sm < i" "sm_last_applied_log s1 = i" "increasing_from i xs"
    using Cons.prems(2) x s1(1) sm_apply_last_applied [of sm c r i] by simp_all
  have "versions_bounded s1"
    using versions_bounded_step [OF Cons.prems(1), of i c r] i s1(1) by simp
  then have IH: "versions_bounded sm' \<and> sm_data s1 k = Some e"
    using Cons.IH [OF _ _ s1(2) Cons.prems(4)] i Cons.prems(5) by simp
  then have "sm_data sm k = Some e \<or> kv_version e = i"
    using sm_apply_data_cases [of sm c r i k e] s1(1) by simp
  then show ?case using IH i(1) Cons.prems(5) by auto
qed

text \<open>
  Versions rule out ABA: from a state whose versions are bounded by its last applied index,
  after any requests at increasing log indices, an entry that still carries a version from
  before is the very entry stored before. A CAS on \<open>prev_version\<close> therefore fails after any
  intervening write of the key, also a delete followed by a re-creation.
\<close>

theorem version_identifies_write:
  assumes "versions_bounded sm" and "increasing_from (sm_last_applied_log sm) xs"
    and "run_log sm_apply sm xs = (sm', os)"
    and "sm_data sm' k = Some e" and "kv_version e \<le> sm_last_applied_log sm"
  shows "versions_bounded sm' \<and> sm_data sm k = Some e"
  by (rule run_log_versions [OF assms])

theorem version_identifies_write_witness:
  "sm_data (fst (sm_apply new_state_machine 0 (Request_Set ''t'' ''1'' None None None None 5) 1)) ''t'' =
    Some \<lparr>kv_value = ''1'', kv_created_at = 5, kv_updated_at = 5, kv_expire_at = None, kv_version = 1\<rparr>"
proof -
  define s1 where "s1 = fst (sm_apply new_state_machine 0 (Request_Set ''t'' ''1'' None None None None 5) 1)"
  have s1: "s1 = \<lparr>sm_data = [''t'' \<mapsto> \<lparr>kv_value = ''1'', kv_created_at = 5, kv_updated_at = 5,
      kv_expire_at = None, kv_version = 1\<rparr>], sm_last_applied_log = 1\<rparr>"
    by (simp add: s1_def sm_apply_def apply_set_def new_state_machine_def Let_def)
  have run: "run_log sm_apply s1 [(0, Request_Delete ''u'' None False, 2)] =
      (s1\<lparr>sm_last_applied_log := 2\<rparr>, [Response_NotChanged])"
    by (simp add: s1 sm_apply_def apply_delete_def)
  have "versions_bounded (s1\<lparr>sm_last_applied_log := 2\<rparr>) \<and> sm_data s1 ''t'' =
      Some \<lparr>kv_value = ''1'', kv_created_at = 5, kv_updated_at = 5, kv_expire_at = None, kv_version = 1\<rparr>"
    by (rule version_identifies_write [OF _ _ run]) (simp_all add: s1 versions_bounded_def)
  then show ?thesis by (simp add: s1_def)
qed

end
