(* ===== verification/Btree_Map.thy ===== *)
theory Btree_Map
  imports Prelude
begin

text \<open>
  Rust's \<open>BTreeMap\<close> as the sources use it: an association list in strictly increasing key order,
  so that iteration order is the list's order and two maps with the same lookups are the same
  value. \<open>bt_insert\<close> replaces an existing key, \<open>bt_retain\<close> is \<open>retain\<close> (and the removal of the
  keys of a range), \<open>bt_last\<close> is \<open>iter().next_back()\<close>.
\<close>

type_synonym ('k, 'v) btree = "('k \<times> 'v) list"

fun bt_insert :: "'k::linorder \<Rightarrow> 'v \<Rightarrow> ('k, 'v) btree \<Rightarrow> ('k, 'v) btree" where
  "bt_insert k v [] = [(k, v)]"
| "bt_insert k v ((k', v') # xs) =
     (if k < k' then (k, v) # (k', v') # xs
      else if k = k' then (k, v) # xs
      else (k', v') # bt_insert k v xs)"

definition bt_retain :: "('k \<Rightarrow> bool) \<Rightarrow> ('k, 'v) btree \<Rightarrow> ('k, 'v) btree" where
  "bt_retain p xs = filter (\<lambda>(k, _). p k) xs"

definition bt_values :: "('k, 'v) btree \<Rightarrow> 'v list" where
  "bt_values xs = map snd xs"

definition bt_last :: "('k, 'v) btree \<Rightarrow> ('k \<times> 'v) option" where
  "bt_last xs = (if xs = [] then None else Some (last xs))"

definition bt_ok :: "('k::linorder, 'v) btree \<Rightarrow> bool" where
  "bt_ok xs = sorted_wrt (<) (map fst xs)"

lemma bt_ok_Nil [simp, intro]: "bt_ok []"
  by (simp add: bt_ok_def)

lemma bt_ok_Cons: "bt_ok ((k, v) # xs) \<longleftrightarrow> (\<forall>x \<in> set xs. k < fst x) \<and> bt_ok xs"
  by (auto simp: bt_ok_def)

lemma set_bt_insert: "x \<in> set (bt_insert k v xs) \<Longrightarrow> x = (k, v) \<or> x \<in> set xs"
  by (induction k v xs rule: bt_insert.induct) (auto split: if_splits)

lemma bt_ok_insert [simp, intro]: "bt_ok xs \<Longrightarrow> bt_ok (bt_insert k v xs)"
proof (induction k v xs rule: bt_insert.induct)
  case (2 k v k' v' xs)
  have ok: "bt_ok xs" "\<forall>x \<in> set xs. k' < fst x" using 2(2) by (simp_all add: bt_ok_Cons)
  consider "k < k'" | "k = k'" | "k' < k" by fastforce
  then show ?case
  proof cases
    case 1
    then show ?thesis using ok by (auto simp: bt_ok_Cons)
  next
    case 2
    then show ?thesis using ok by (simp add: bt_ok_Cons)
  next
    case 3
    then have "bt_ok (bt_insert k v xs)" using 2(1) ok(1) by simp
    moreover have "\<forall>x \<in> set (bt_insert k v xs). k' < fst x"
      using 3 ok(2) set_bt_insert by fastforce
    ultimately show ?thesis using 3 by (auto simp: bt_ok_Cons)
  qed
qed (simp add: bt_ok_def)

lemma bt_ok_retain [simp, intro]: "bt_ok xs \<Longrightarrow> bt_ok (bt_retain p xs)"
  by (induction xs) (auto simp: bt_retain_def bt_ok_Cons bt_ok_def split: prod.splits)

lemma lookup_insert [simp]: "map_of (bt_insert k v xs) = (map_of xs)(k \<mapsto> v)"
  by (induction k v xs rule: bt_insert.induct) auto

lemma lookup_retain [simp]:
  "map_of (bt_retain p xs) k = (if p k then map_of xs k else None)"
  by (induction xs) (auto simp: bt_retain_def)

lemma bt_retain_Nil [simp]: "bt_retain p [] = []"
  by (simp add: bt_retain_def)

text \<open>Appending at the end: an insertion above every key.\<close>

lemma bt_insert_append:
  "\<forall>x \<in> set xs. fst x < k \<Longrightarrow> bt_insert k v xs = xs @ [(k, v)]"
  by (induction k v xs rule: bt_insert.induct) auto

text \<open>The representation is canonical.\<close>

lemma bt_ok_distinct: "bt_ok xs \<Longrightarrow> distinct (map fst xs)"
  unfolding bt_ok_def by (simp add: strict_sorted_iff)

lemma bt_keys:
  assumes "bt_ok xs"
  shows "map fst xs = sorted_list_of_set (dom (map_of xs))"
proof -
  have "sorted_list_of_set (set (map fst xs)) = map fst xs"
    using assms unfolding bt_ok_def strict_sorted_iff
    by (intro sorted_list_of_set.idem_if_sorted_distinct) simp_all
  then show ?thesis by (simp add: dom_map_of_conv_image_fst)
qed

lemma bt_from_lookup:
  assumes "bt_ok xs"
  shows "xs = map (\<lambda>k. (k, the (map_of xs k))) (map fst xs)"
proof -
  have "map_of xs (fst x) = Some (snd x)" if "x \<in> set xs" for x
    using that bt_ok_distinct [OF assms] by simp
  then show ?thesis by (simp add: map_idI)
qed

lemma bt_canonical:
  assumes "bt_ok xs" "bt_ok ys" "map_of xs = map_of ys"
  shows "xs = ys"
  using bt_from_lookup [OF assms(1)] bt_from_lookup [OF assms(2)] bt_keys [OF assms(1)]
    bt_keys [OF assms(2)] assms(3) by metis

end
