(* ===== verification/Wal.thy ===== *)
theory Wal
  imports Kv_State_Machine Btree_Map
begin

text \<open>
  The append-only Raft log file of \<open>crates/pg-ha-dcs/src/wal.rs\<close>: the binary record format, the
  reader, replay, the buffered writer and compaction. Third-party code is a parameter of the
  model: \<open>crc32fast\<close> and the three \<open>bincode\<close> encodings are the fields of a \<open>codec\<close>; openraft's
  leader ids and memberships are type variables. File contents are byte lists.

  The lemmas show that replay inverts the writer, that a torn tail is cut at a record boundary
  and reopening is idempotent, that compaction preserves the replayed state, and that a record
  whose payload exceeds the replay limit hides everything after it.
\<close>

unbundle bit_operations_syntax

section \<open>openraft's log types, as the source uses them\<close>

record 'l log_id =
  lid_leader_id :: 'l
  lid_index :: u64

datatype 'm entry_payload = Blank | Normal request | Membership 'm

record ('l, 'm) log_entry =
  le_log_id :: "'l log_id"
  le_payload :: "'m entry_payload"

type_synonym ('l, 'm) raft_log = "(u64, ('l, 'm) log_entry) btree"

section \<open>Constants and record types\<close>

definition WAL_MAGIC :: bytes where "WAL_MAGIC = [0x52, 0x41]"

definition HEADER_SIZE :: nat where "HEADER_SIZE = 2 + 1 + 4"

definition CRC_SIZE :: nat where "CRC_SIZE = 4"

definition MAX_PAYLOAD_SIZE :: nat where "MAX_PAYLOAD_SIZE = 16 * 1024 * 1024"

definition COMPACTION_THRESHOLD :: nat where "COMPACTION_THRESHOLD = 4 * 1024 * 1024"

datatype record_type = Append | Purge | Truncate

fun record_type_to_u8 :: "record_type \<Rightarrow> u8" where
  "record_type_to_u8 Append = 1"
| "record_type_to_u8 Purge = 2"
| "record_type_to_u8 Truncate = 3"

definition record_type_from_u8 :: "u8 \<Rightarrow> record_type option" where
  "record_type_from_u8 v =
    (if v = 1 then Some Append else if v = 2 then Some Purge
     else if v = 3 then Some Truncate else None)"

text \<open>Little-endian encoding of a \<open>u32\<close>.\<close>

definition to_le_bytes :: "u32 \<Rightarrow> bytes" where
  "to_le_bytes w = [ucast w, ucast (drop_bit 8 w), ucast (drop_bit 16 w), ucast (drop_bit 24 w)]"

fun from_le_bytes :: "bytes \<Rightarrow> u32" where
  "from_le_bytes [a, b, c, d] =
     ucast a OR push_bit 8 (ucast b) OR push_bit 16 (ucast c) OR push_bit 24 (ucast d)"
| "from_le_bytes _ = 0"

record ('l, 'm) codec =
  crc32 :: "bytes \<Rightarrow> u32"
  ser_entry :: "('l, 'm) log_entry \<Rightarrow> bytes option"
  de_entry :: "bytes \<Rightarrow> ('l, 'm) log_entry option"
  ser_purge :: "'l log_id \<Rightarrow> bytes option"
  de_purge :: "bytes \<Rightarrow> 'l log_id option"
  ser_truncate :: "u64 \<Rightarrow> bytes option"
  de_truncate :: "bytes \<Rightarrow> u64 option"

section \<open>Writing a record\<close>

definition write_record_bytes :: "('l, 'm) codec \<Rightarrow> record_type \<Rightarrow> bytes \<Rightarrow> bytes" where
  "write_record_bytes cdc ty payload =
    (let len = (word_of_nat (length payload) :: u32);
         crc = crc32 cdc ([record_type_to_u8 ty] @ to_le_bytes len @ payload)
     in WAL_MAGIC @ [record_type_to_u8 ty] @ to_le_bytes len @ payload @ to_le_bytes crc)"

section \<open>Reading a record\<close>

datatype io_error =
  BadMagic | UnknownRecordType | PayloadTooLarge | UnexpectedEof | CrcMismatch
  | BadPayload | SerializeFailed | IoFailed

text \<open>
  \<open>read_one_record\<close> on the rest of the file: end of file (also inside a header) is \<open>Ok None\<close>; a
  short payload or checksum is an \<open>UnexpectedEof\<close> error. The remaining bytes are returned with
  the record.
\<close>

definition read_one_record ::
  "('l, 'm) codec \<Rightarrow> bytes \<Rightarrow> (io_error, (record_type \<times> bytes \<times> nat \<times> bytes) option) res" where
  "read_one_record cdc bs =
    (if length bs < HEADER_SIZE then Ok None
     else
       let header = take HEADER_SIZE bs; rest = drop HEADER_SIZE bs
       in if take 2 header \<noteq> WAL_MAGIC then Err BadMagic
          else (case record_type_from_u8 (header ! 2) of
            None \<Rightarrow> Err UnknownRecordType
          | Some ty \<Rightarrow>
              (let len = unat (from_le_bytes (drop 3 header))
               in if len > MAX_PAYLOAD_SIZE then Err PayloadTooLarge
                  else if length rest < len then Err UnexpectedEof
                  else
                    let payload = take len rest; rest' = drop len rest
                    in if length rest' < CRC_SIZE then Err UnexpectedEof
                       else
                         let stored = from_le_bytes (take CRC_SIZE rest');
                             computed = crc32 cdc ([header ! 2] @ drop 3 header @ payload)
                         in if computed \<noteq> stored then Err CrcMismatch
                            else Ok (Some (ty, payload, HEADER_SIZE + len + CRC_SIZE,
                                           drop CRC_SIZE rest')))))"

section \<open>Replay\<close>

record ('l, 'm) wal_replay_result =
  rr_log :: "('l, 'm) raft_log"
  rr_last_purged :: "'l log_id option"
  rr_valid_len :: nat

definition empty_replay :: "('l, 'm) wal_replay_result" where
  "empty_replay = \<lparr>rr_log = [], rr_last_purged = None, rr_valid_len = 0\<rparr>"

definition apply_record ::
  "('l, 'm) codec \<Rightarrow> ('l, 'm) wal_replay_result \<Rightarrow> record_type \<Rightarrow> bytes \<Rightarrow>
    (io_error, ('l, 'm) wal_replay_result) res" where
  "apply_record cdc r ty payload =
    (case ty of
       Append \<Rightarrow> (case de_entry cdc payload of
           None \<Rightarrow> Err BadPayload
         | Some e \<Rightarrow> Ok (r\<lparr>rr_log := bt_insert (lid_index (le_log_id e)) e (rr_log r)\<rparr>))
     | Purge \<Rightarrow> (case de_purge cdc payload of
           None \<Rightarrow> Err BadPayload
         | Some i \<Rightarrow> Ok (r\<lparr>rr_log := bt_retain (\<lambda>idx. idx > lid_index i) (rr_log r),
                           rr_last_purged := Some i\<rparr>))
     | Truncate \<Rightarrow> (case de_truncate cdc payload of
           None \<Rightarrow> Err BadPayload
         | Some since \<Rightarrow> Ok (r\<lparr>rr_log := bt_retain (\<lambda>idx. idx < since) (rr_log r)\<rparr>)))"

lemma read_one_record_shorter:
  "read_one_record cdc bs = Ok (Some (ty, payload, len, rest)) \<Longrightarrow>
    length bs = len + length rest \<and> 0 < len \<and> rest = drop len bs"
  by (auto simp: read_one_record_def Let_def HEADER_SIZE_def CRC_SIZE_def
      split: if_splits option.splits)

function replay_loop ::
  "('l, 'm) codec \<Rightarrow> bytes \<Rightarrow> ('l, 'm) wal_replay_result \<Rightarrow> ('l, 'm) wal_replay_result" where
  "replay_loop cdc bs r =
    (case read_one_record cdc bs of
       Inr (Some (ty, payload, record_len, rest)) \<Rightarrow>
         (case apply_record cdc r ty payload of
            Inl _ \<Rightarrow> r
          | Inr r' \<Rightarrow> replay_loop cdc rest (r'\<lparr>rr_valid_len := rr_valid_len r' + record_len\<rparr>))
     | Inr None \<Rightarrow> r
     | Inl _ \<Rightarrow> r)"
  by pat_completeness auto
termination
  by (relation "measure (\<lambda>(cdc, bs, r). length bs)") (auto dest: read_one_record_shorter)

declare replay_loop.simps [simp del]

text \<open>\<open>replay_wal\<close>: a missing file is an empty log.\<close>

definition replay_wal :: "('l, 'm) codec \<Rightarrow> bytes option \<Rightarrow> ('l, 'm) wal_replay_result" where
  "replay_wal cdc file =
    (case file of None \<Rightarrow> empty_replay | Some bs \<Rightarrow> replay_loop cdc bs empty_replay)"

section \<open>The writer\<close>

text \<open>
  \<open>WalWriter\<close>: what has reached the file, the bytes still in the \<open>BufWriter\<close>, and the tracked
  size. An I/O outcome says whether the calls succeed; on a failed sync \<open>n\<close> buffered bytes have
  reached the file.
\<close>

record wal_writer =
  ww_file :: bytes
  ww_buffer :: bytes
  ww_file_size :: nat

datatype io = IoOk | IoFail nat

definition wal_open :: "('l, 'm) codec \<Rightarrow> bytes option \<Rightarrow> wal_writer \<times> ('l, 'm) wal_replay_result" where
  "wal_open cdc file =
    (let replayed = replay_wal cdc file;
         content = (case file of
             None \<Rightarrow> []
           | Some bs \<Rightarrow> if length bs > rr_valid_len replayed then take (rr_valid_len replayed) bs else bs)
     in (\<lparr>ww_file = content, ww_buffer = [], ww_file_size = length content\<rparr>, replayed))"

definition append_record_buffered ::
  "('l, 'm) codec \<Rightarrow> record_type \<Rightarrow> bytes \<Rightarrow> wal_writer \<Rightarrow> wal_writer" where
  "append_record_buffered cdc ty payload w =
    w\<lparr>ww_buffer := ww_buffer w @ write_record_bytes cdc ty payload,
      ww_file_size := ww_file_size w + (HEADER_SIZE + length payload + CRC_SIZE)\<rparr>"

definition wal_sync :: "io \<Rightarrow> wal_writer \<Rightarrow> wal_writer \<times> (io_error, unit) res" where
  "wal_sync out w =
    (case out of
       IoOk \<Rightarrow> (w\<lparr>ww_file := ww_file w @ ww_buffer w, ww_buffer := []\<rparr>, Ok ())
     | IoFail n \<Rightarrow> (w\<lparr>ww_file := ww_file w @ take n (ww_buffer w), ww_buffer := drop n (ww_buffer w)\<rparr>,
                   Err IoFailed))"

definition append_record ::
  "('l, 'm) codec \<Rightarrow> io \<Rightarrow> record_type \<Rightarrow> bytes \<Rightarrow> wal_writer \<Rightarrow>
    wal_writer \<times> (io_error, unit) res" where
  "append_record cdc out ty payload w = wal_sync out (append_record_buffered cdc ty payload w)"

text \<open>The image a compaction writes: the purge record first, then every entry in key order.\<close>

fun append_all :: "('l, 'm) codec \<Rightarrow> ('l, 'm) log_entry list \<Rightarrow> bytes option" where
  "append_all cdc [] = Some []"
| "append_all cdc (e # es) =
    (case ser_entry cdc e of
       None \<Rightarrow> None
     | Some p \<Rightarrow> map_option (\<lambda>bs. write_record_bytes cdc Append p @ bs) (append_all cdc es))"

definition compact_image ::
  "('l, 'm) codec \<Rightarrow> ('l, 'm) raft_log \<Rightarrow> 'l log_id option \<Rightarrow> bytes option" where
  "compact_image cdc log last_purged =
    (let head = (case last_purged of
            None \<Rightarrow> Some []
          | Some i \<Rightarrow> map_option (write_record_bytes cdc Purge) (ser_purge cdc i))
     in case head of
          None \<Rightarrow> None
        | Some h \<Rightarrow> map_option (\<lambda>bs. h @ bs) (append_all cdc (bt_values log)))"

text \<open>
  \<open>compact\<close>: flush, write the image beside the log, rename it over the log, reopen. A failure of
  the flush leaves what \<open>wal_sync\<close> leaves; a failure before the rename (\<open>IoFail 0\<close>) keeps the old
  file, one after it (the directory sync or the reopen) leaves the new file in place.
\<close>

definition wal_compact ::
  "('l, 'm) codec \<Rightarrow> io \<Rightarrow> io \<Rightarrow> ('l, 'm) raft_log \<Rightarrow> 'l log_id option \<Rightarrow> wal_writer \<Rightarrow>
    wal_writer \<times> (io_error, unit) res" where
  "wal_compact cdc flush_out out log last_purged w =
    (case wal_sync flush_out w of
       (w1, Inl e) \<Rightarrow> (w1, Err e)
     | (w1, Inr _) \<Rightarrow>
         (case compact_image cdc log last_purged of
            None \<Rightarrow> (w1, Err SerializeFailed)
          | Some img \<Rightarrow>
              (case out of
                 IoFail 0 \<Rightarrow> (w1, Err IoFailed)
               | IoFail (Suc _) \<Rightarrow> (w1\<lparr>ww_file := img\<rparr>, Err IoFailed)
               | IoOk \<Rightarrow> (\<lparr>ww_file = img, ww_buffer = [], ww_file_size = length img\<rparr>, Ok ()))))"

section \<open>Reading back one record\<close>

lemma length_to_le_bytes [simp]: "length (to_le_bytes w) = 4"
  by (simp add: to_le_bytes_def)

lemma from_to_le_bytes [simp]: "from_le_bytes (to_le_bytes w) = w"
proof (rule bit_word_eqI)
  fix n assume n: "n < LENGTH(32)"
  consider "n < 8" | "8 \<le> n" "n < 16" | "16 \<le> n" "n < 24" | "24 \<le> n" by linarith
  then show "bit (from_le_bytes (to_le_bytes w)) n = bit w n"
    using n by cases (simp_all add: to_le_bytes_def bit_simps, linarith+)
qed

lemma record_type_roundtrip [simp]: "record_type_from_u8 (record_type_to_u8 ty) = Some ty"
  by (cases ty) (simp_all add: record_type_from_u8_def)

lemma length_write_record [simp]:
  "length (write_record_bytes cdc ty p) = HEADER_SIZE + length p + CRC_SIZE"
  by (simp add: write_record_bytes_def Let_def WAL_MAGIC_def HEADER_SIZE_def CRC_SIZE_def)

lemma unat_payload_len:
  "length p \<le> MAX_PAYLOAD_SIZE \<Longrightarrow> unat (word_of_nat (length p) :: u32) = length p"
  by (simp add: MAX_PAYLOAD_SIZE_def unat_of_nat)

text \<open>The reader behind a complete header.\<close>

definition read_body ::
  "('l, 'm) codec \<Rightarrow> u8 \<Rightarrow> bytes \<Rightarrow> bytes \<Rightarrow> (io_error, (record_type \<times> bytes \<times> nat \<times> bytes) option) res" where
  "read_body cdc b le rest =
    (case record_type_from_u8 b of
       None \<Rightarrow> Err UnknownRecordType
     | Some ty \<Rightarrow>
         if unat (from_le_bytes le) > MAX_PAYLOAD_SIZE then Err PayloadTooLarge
         else if length rest < unat (from_le_bytes le) + CRC_SIZE then Err UnexpectedEof
         else if crc32 cdc ([b] @ le @ take (unat (from_le_bytes le)) rest) \<noteq>
                 from_le_bytes (take CRC_SIZE (drop (unat (from_le_bytes le)) rest)) then Err CrcMismatch
         else Ok (Some (ty, take (unat (from_le_bytes le)) rest,
                        HEADER_SIZE + unat (from_le_bytes le) + CRC_SIZE,
                        drop (CRC_SIZE + unat (from_le_bytes le)) rest)))"

lemma read_after_header:
  assumes "length le = 4"
  shows "read_one_record cdc (WAL_MAGIC @ b # le @ rest) = read_body cdc b le rest"
proof -
  have le: "take HEADER_SIZE (WAL_MAGIC @ b # le @ rest) = WAL_MAGIC @ b # le"
    "drop HEADER_SIZE (WAL_MAGIC @ b # le @ rest) = rest"
    "(length (WAL_MAGIC @ b # le @ rest) < HEADER_SIZE) = False"
    "take 2 (WAL_MAGIC @ b # le) = WAL_MAGIC" "(WAL_MAGIC @ b # le) ! 2 = b"
    "drop 3 (WAL_MAGIC @ b # le) = le"
    using assms by (simp_all add: WAL_MAGIC_def HEADER_SIZE_def numeral_2_eq_2 numeral_3_eq_3)
  show ?thesis
    unfolding read_one_record_def read_body_def Let_def le
    by (auto split: option.splits simp: add.commute)
qed

lemma write_record_eq:
  "write_record_bytes cdc ty p @ rest =
    WAL_MAGIC @ record_type_to_u8 ty # to_le_bytes (word_of_nat (length p)) @
    p @ to_le_bytes (crc32 cdc (record_type_to_u8 ty # to_le_bytes (word_of_nat (length p)) @ p)) @ rest"
  by (simp add: write_record_bytes_def Let_def)

lemma read_written_record:
  assumes "length p \<le> MAX_PAYLOAD_SIZE"
  shows "read_one_record cdc (write_record_bytes cdc ty p @ rest) =
    Ok (Some (ty, p, HEADER_SIZE + length p + CRC_SIZE, rest))"
  using assms
  by (simp add: write_record_eq read_after_header read_body_def unat_payload_len CRC_SIZE_def)

lemma read_oversized_record:
  assumes "MAX_PAYLOAD_SIZE < length p" "length p < 2 ^ 32"
  shows "read_one_record cdc (write_record_bytes cdc ty p @ rest) = Err PayloadTooLarge"
  using assms
  by (simp add: write_record_eq read_after_header read_body_def unat_of_nat)

text \<open>A record that was cut short is end of file or an error, never a record.\<close>

lemma read_torn_record:
  assumes "n < HEADER_SIZE + length p + CRC_SIZE" "length p \<le> MAX_PAYLOAD_SIZE"
  shows "\<nexists>x. read_one_record cdc (take n (write_record_bytes cdc ty p)) = Ok (Some x)"
proof (cases "n < HEADER_SIZE")
  case True
  then show ?thesis using assms by (simp add: read_one_record_def)
next
  case False
  let ?hdr = "WAL_MAGIC @ record_type_to_u8 ty # to_le_bytes (word_of_nat (length p))"
  let ?tail = "p @ to_le_bytes (crc32 cdc (record_type_to_u8 ty # to_le_bytes (word_of_nat (length p)) @ p))"
  define m where "m = n - HEADER_SIZE"
  have n: "n = length ?hdr + m" using False by (simp add: m_def HEADER_SIZE_def WAL_MAGIC_def)
  have "write_record_bytes cdc ty p = ?hdr @ ?tail" using write_record_eq [of cdc ty p "[]"] by simp
  then have "take n (write_record_bytes cdc ty p) = ?hdr @ take m ?tail"
    unfolding n by (simp only: take_append) simp
  moreover have "m < length p + CRC_SIZE" using assms(1) False by (simp add: m_def)
  ultimately show ?thesis
    using assms(2)
    by (auto simp: read_after_header read_body_def unat_payload_len CRC_SIZE_def)
qed

section \<open>Log operations and what replay makes of them\<close>

text \<open>
  The abstract contents of a log file: the retained entries and the last purged id. The three
  mutations openraft asks for, their encoding as a record, and their effect.
\<close>

datatype ('l, 'm) log_op =
  OpAppend "('l, 'm) log_entry" | OpPurge "'l log_id" | OpTruncate u64

type_synonym ('l, 'm) log_state = "('l, 'm) raft_log \<times> 'l log_id option"

fun op_effect :: "('l, 'm) log_op \<Rightarrow> ('l, 'm) log_state \<Rightarrow> ('l, 'm) log_state" where
  "op_effect (OpAppend e) (log, purged) = (bt_insert (lid_index (le_log_id e)) e log, purged)"
| "op_effect (OpPurge i) (log, purged) = (bt_retain (\<lambda>idx. idx > lid_index i) log, Some i)"
| "op_effect (OpTruncate since) (log, purged) = (bt_retain (\<lambda>idx. idx < since) log, purged)"

fun op_payload :: "('l, 'm) codec \<Rightarrow> ('l, 'm) log_op \<Rightarrow> (record_type \<times> bytes) option" where
  "op_payload cdc (OpAppend e) = map_option (Pair Append) (ser_entry cdc e)"
| "op_payload cdc (OpPurge i) = map_option (Pair Purge) (ser_purge cdc i)"
| "op_payload cdc (OpTruncate since) = map_option (Pair Truncate) (ser_truncate cdc since)"

definition op_bytes :: "('l, 'm) codec \<Rightarrow> ('l, 'm) log_op \<Rightarrow> bytes" where
  "op_bytes cdc op =
    (case op_payload cdc op of None \<Rightarrow> [] | Some (ty, p) \<Rightarrow> write_record_bytes cdc ty p)"

text \<open>
  What the model relies on of \<open>bincode\<close>: deserialising what was serialised gives the value back.
  An operation \<open>fits\<close> when it serialises to a payload within the replay limit.
\<close>

definition codec_ok :: "('l, 'm) codec \<Rightarrow> bool" where
  "codec_ok cdc \<longleftrightarrow>
    (\<forall>e p. ser_entry cdc e = Some p \<longrightarrow> de_entry cdc p = Some e) \<and>
    (\<forall>i p. ser_purge cdc i = Some p \<longrightarrow> de_purge cdc p = Some i) \<and>
    (\<forall>n p. ser_truncate cdc n = Some p \<longrightarrow> de_truncate cdc p = Some n)"

definition op_fits :: "('l, 'm) codec \<Rightarrow> ('l, 'm) log_op \<Rightarrow> bool" where
  "op_fits cdc op \<longleftrightarrow> is_some_and (op_payload cdc op) (\<lambda>(ty, p). length p \<le> MAX_PAYLOAD_SIZE)"

definition rr_state :: "('l, 'm) wal_replay_result \<Rightarrow> ('l, 'm) log_state" where
  "rr_state r = (rr_log r, rr_last_purged r)"

definition rr_step ::
  "('l, 'm) codec \<Rightarrow> ('l, 'm) log_op \<Rightarrow> ('l, 'm) wal_replay_result \<Rightarrow> ('l, 'm) wal_replay_result" where
  "rr_step cdc op r =
    (case op_effect op (rr_state r) of (log, purged) \<Rightarrow>
       \<lparr>rr_log = log, rr_last_purged = purged, rr_valid_len = rr_valid_len r + length (op_bytes cdc op)\<rparr>)"

lemma rr_state_step [simp]: "rr_state (rr_step cdc op r) = op_effect op (rr_state r)"
  by (simp add: rr_step_def rr_state_def split: prod.splits)

lemma rr_valid_len_step [simp]:
  "rr_valid_len (rr_step cdc op r) = rr_valid_len r + length (op_bytes cdc op)"
  by (simp add: rr_step_def split: prod.splits)

lemma replay_op:
  assumes "codec_ok cdc" "op_fits cdc op"
  shows "replay_loop cdc (op_bytes cdc op @ rest) r = replay_loop cdc rest (rr_step cdc op r)"
proof -
  obtain ty p where p: "op_payload cdc op = Some (ty, p)" "length p \<le> MAX_PAYLOAD_SIZE"
    using assms(2) by (auto simp: op_fits_def is_some_and_def split: option.splits)
  have ap: "apply_record cdc r ty p =
      Ok (r\<lparr>rr_log := fst (op_effect op (rr_state r)), rr_last_purged := snd (op_effect op (rr_state r))\<rparr>)"
    using p(1) assms(1) by (cases op) (auto simp: apply_record_def rr_state_def codec_ok_def)
  have "(r\<lparr>rr_log := fst (op_effect op (rr_state r)), rr_last_purged := snd (op_effect op (rr_state r)),
           rr_valid_len := rr_valid_len r + (HEADER_SIZE + length p + CRC_SIZE)\<rparr>) = rr_step cdc op r"
    by (simp add: rr_step_def op_bytes_def p(1) split: prod.splits)
  then show ?thesis
    by (subst replay_loop.simps)
      (simp add: op_bytes_def p(1) read_written_record [OF p(2)] ap)
qed

lemma replay_ops:
  assumes "codec_ok cdc" "\<forall>op \<in> set ops. op_fits cdc op"
  shows "replay_loop cdc (concat (map (op_bytes cdc) ops) @ rest) r =
    replay_loop cdc rest (fold (rr_step cdc) ops r)"
  using assms(2)
proof (induction ops arbitrary: r)
  case Nil
  then show ?case by simp
next
  case (Cons op ops)
  then show ?case using replay_op [OF assms(1), of op] by simp
qed

lemma fold_rr_step:
  "rr_state (fold (rr_step cdc) ops r) = fold op_effect ops (rr_state r) \<and>
   rr_valid_len (fold (rr_step cdc) ops r) =
     rr_valid_len r + length (concat (map (op_bytes cdc) ops))"
  by (induction ops arbitrary: r) simp_all

lemma replay_stops:
  "\<nexists>x. read_one_record cdc bs = Ok (Some x) \<Longrightarrow> replay_loop cdc bs r = r"
  by (subst replay_loop.simps) (auto split: sum.splits option.splits)

lemma replay_Nil [simp]: "replay_loop cdc [] r = r"
  by (rule replay_stops) (simp add: read_one_record_def HEADER_SIZE_def)

lemma rr_state_empty [simp]: "rr_state empty_replay = ([], None)" "rr_valid_len empty_replay = 0"
  by (simp_all add: rr_state_def empty_replay_def)

lemma replay_torn:
  assumes "op_fits cdc op" "n < length (op_bytes cdc op)"
  shows "replay_loop cdc (take n (op_bytes cdc op)) r = r"
  using assms read_torn_record
  by (intro replay_stops) (fastforce simp: op_bytes_def op_fits_def is_some_and_def split: option.splits)

text \<open>
  Crash recovery of the log file: after any operations were written, followed by any strict
  prefix of one more record (a crash in the middle of a write), replay rebuilds exactly the
  effect of the complete operations and reports their length, at which \<open>WalWriter::open\<close> cuts
  the torn tail.
\<close>

theorem replay_recovers_complete_records:
  assumes "codec_ok cdc" and "\<forall>op \<in> set ops. op_fits cdc op"
    and "op_fits cdc last_op" and "n < length (op_bytes cdc last_op)"
  shows "rr_state (replay_wal cdc (Some (concat (map (op_bytes cdc) ops) @ take n (op_bytes cdc last_op)))) =
           fold op_effect ops ([], None) \<and>
         rr_valid_len (replay_wal cdc (Some (concat (map (op_bytes cdc) ops) @ take n (op_bytes cdc last_op)))) =
           length (concat (map (op_bytes cdc) ops)) \<and>
         ww_file (fst (wal_open cdc (Some (concat (map (op_bytes cdc) ops) @ take n (op_bytes cdc last_op))))) =
           concat (map (op_bytes cdc) ops)"
proof -
  let ?good = "concat (map (op_bytes cdc) ops)"
  have r: "replay_wal cdc (Some (?good @ take n (op_bytes cdc last_op))) =
      fold (rr_step cdc) ops empty_replay"
    by (simp add: replay_wal_def replay_ops [OF assms(1,2)] replay_torn [OF assms(3,4)])
  show ?thesis
    using fold_rr_step [of cdc ops empty_replay] by (simp add: wal_open_def r Let_def)
qed

text \<open>A concrete codec: enough of one to run the reader on real bytes.\<close>

definition demo_codec :: "(unit, unit) codec" where
  "demo_codec =
    \<lparr>crc32 = (\<lambda>bs. word_of_nat (length bs)),
     ser_entry = (\<lambda>e. if e = \<lparr>le_log_id = \<lparr>lid_leader_id = (), lid_index = 1\<rparr>, le_payload = Blank\<rparr>
                      then Some [7] else None),
     de_entry = (\<lambda>bs. if bs = [7] then Some \<lparr>le_log_id = \<lparr>lid_leader_id = (), lid_index = 1\<rparr>, le_payload = Blank\<rparr>
                      else None),
     ser_purge = (\<lambda>i. if lid_index i = 1 then Some [8] else None),
     de_purge = (\<lambda>bs. if bs = [8] then Some \<lparr>lid_leader_id = (), lid_index = 1\<rparr> else None),
     ser_truncate = (\<lambda>n. if n = 1 then Some [9] else None),
     de_truncate = (\<lambda>bs. if bs = [9] then Some 1 else None)\<rparr>"

definition demo_entry :: "(unit, unit) log_entry" where
  "demo_entry = \<lparr>le_log_id = \<lparr>lid_leader_id = (), lid_index = 1\<rparr>, le_payload = Blank\<rparr>"

lemma demo_codec_ok: "codec_ok demo_codec"
  by (auto simp: codec_ok_def demo_codec_def split: if_splits)

lemma demo_fits: "op_fits demo_codec (OpAppend demo_entry)" "op_fits demo_codec (OpTruncate 1)"
  by (simp_all add: op_fits_def demo_codec_def demo_entry_def MAX_PAYLOAD_SIZE_def)

theorem replay_recovers_complete_records_witness:
  "rr_state (replay_wal demo_codec (Some (op_bytes demo_codec (OpAppend demo_entry) @
      take 5 (op_bytes demo_codec (OpTruncate 1))))) = ([(1, demo_entry)], None)"
proof -
  have "5 < length (op_bytes demo_codec (OpTruncate 1))"
    by (simp add: op_bytes_def demo_codec_def HEADER_SIZE_def)
  from replay_recovers_complete_records
    [OF demo_codec_ok _ demo_fits(2) this, of "[OpAppend demo_entry]"]
  show ?thesis using demo_fits(1) by (simp add: demo_entry_def)
qed

section \<open>Reopening, compaction, oversized records\<close>

lemma read_header_shape:
  assumes "read_one_record cdc bs = Ok (Some x)"
  obtains b le rest where "bs = WAL_MAGIC @ b # le @ rest" "length le = 4"
proof -
  have h: "HEADER_SIZE \<le> length bs" "take 2 (take HEADER_SIZE bs) = WAL_MAGIC"
    using assms by (auto simp: read_one_record_def Let_def split: if_splits)
  have "bs = take 2 bs @ drop 2 bs" by simp
  also have "take 2 bs = WAL_MAGIC" using h(2) by (simp add: HEADER_SIZE_def)
  also have "drop 2 bs = bs ! 2 # drop 3 bs"
    using h(1) Cons_nth_drop_Suc [of 2 bs] by (simp add: HEADER_SIZE_def)
  also have "drop 3 bs = take 4 (drop 3 bs) @ drop 7 bs"
    using append_take_drop_id [of 4 "drop 3 bs"] by simp
  finally show thesis using h(1) by (intro that [of "bs ! 2" "take 4 (drop 3 bs)" "drop 7 bs"])
      (simp_all add: HEADER_SIZE_def)
qed

lemma read_body_local:
  assumes "read_body cdc b le rest = Ok (Some (ty, p, len, out))" "len \<le> HEADER_SIZE + m"
  shows "read_body cdc b le (take m rest) = Ok (Some (ty, p, len, take (HEADER_SIZE + m - len) out))"
proof -
  let ?n = "unat (from_le_bytes le)"
  have f: "record_type_from_u8 b = Some ty" "?n \<le> MAX_PAYLOAD_SIZE" "?n + CRC_SIZE \<le> length rest"
    "crc32 cdc ([b] @ le @ take ?n rest) = from_le_bytes (take CRC_SIZE (drop ?n rest))"
    "p = take ?n rest" "len = HEADER_SIZE + ?n + CRC_SIZE" "out = drop (CRC_SIZE + ?n) rest"
    using assms(1) by (auto simp: read_body_def split: option.splits if_splits)
  have m: "?n + CRC_SIZE \<le> m" using assms(2) f(6) by simp
  then have "take ?n (take m rest) = take ?n rest"
    "take CRC_SIZE (drop ?n (take m rest)) = take CRC_SIZE (drop ?n rest)"
    "drop (CRC_SIZE + ?n) (take m rest) = take (HEADER_SIZE + m - len) out"
    by (simp_all add: min_def drop_take f(6,7) add.commute)
  then show ?thesis using f m by (simp add: read_body_def)
qed

lemma read_one_record_local:
  assumes "read_one_record cdc bs = Ok (Some (ty, payload, len, rest))" "len \<le> m"
  shows "read_one_record cdc (take m bs) = Ok (Some (ty, payload, len, take (m - len) rest))"
proof -
  obtain b le tl where bs: "bs = WAL_MAGIC @ b # le @ tl" and le: "length le = 4"
    using read_header_shape [OF assms(1)] .
  have rd: "read_body cdc b le tl = Ok (Some (ty, payload, len, rest))"
    using assms(1) by (simp add: bs read_after_header [OF le])
  have len: "HEADER_SIZE \<le> len"
    using rd by (auto simp: read_body_def split: option.splits if_splits)
  have "take m bs = WAL_MAGIC @ b # le @ take (m - HEADER_SIZE) tl"
  proof -
    have "bs = (WAL_MAGIC @ b # le) @ tl" "length (WAL_MAGIC @ b # le) = HEADER_SIZE"
      using le by (simp_all add: bs WAL_MAGIC_def HEADER_SIZE_def)
    then show ?thesis using len assms(2) by (simp only: take_append) simp
  qed
  then show ?thesis
    using read_body_local [OF rd, of "m - HEADER_SIZE"] len assms(2)
    by (simp add: read_after_header [OF le])
qed

lemma replay_one:
  assumes "read_one_record cdc bs = Ok (Some (ty, payload, len, rest))"
    and "apply_record cdc r ty payload = Ok r'"
  shows "replay_loop cdc bs r = replay_loop cdc rest (r'\<lparr>rr_valid_len := rr_valid_len r' + len\<rparr>)"
  using assms by (subst replay_loop.simps) simp

lemma replay_loop_valid_len: "rr_valid_len r \<le> rr_valid_len (replay_loop cdc bs r)"
proof (induction cdc bs r rule: replay_loop.induct)
  case (1 cdc bs r)
  show ?case
  proof (cases "\<exists>ty payload len rest r'. read_one_record cdc bs = Ok (Some (ty, payload, len, rest)) \<and>
      apply_record cdc r ty payload = Ok r'")
    case True
    then obtain ty payload len rest r' where
      rd: "read_one_record cdc bs = Ok (Some (ty, payload, len, rest))" and ap: "apply_record cdc r ty payload = Ok r'"
      by blast
    have "rr_valid_len r' = rr_valid_len r"
      using ap by (auto simp: apply_record_def split: record_type.splits option.splits)
    then show ?thesis using 1 [OF rd refl refl refl refl ap] rd ap
      by (subst replay_loop.simps) simp
  next
    case False
    then show ?thesis by (subst replay_loop.simps) (auto split: sum.splits option.splits)
  qed
qed

lemma replay_loop_take:
  "replay_loop cdc (take (rr_valid_len (replay_loop cdc bs r) - rr_valid_len r) bs) r = replay_loop cdc bs r"
proof (induction cdc bs r rule: replay_loop.induct)
  case (1 cdc bs r)
  show ?case
  proof (cases "\<exists>ty payload len rest r'. read_one_record cdc bs = Ok (Some (ty, payload, len, rest)) \<and>
      apply_record cdc r ty payload = Ok r'")
    case True
    then obtain ty payload len rest r' where
      rd: "read_one_record cdc bs = Ok (Some (ty, payload, len, rest))" and ap: "apply_record cdc r ty payload = Ok r'"
      by blast
    define r1 where "r1 = r'\<lparr>rr_valid_len := rr_valid_len r' + len\<rparr>"
    have v: "rr_valid_len r' = rr_valid_len r"
      using ap by (auto simp: apply_record_def split: record_type.splits option.splits)
    have step: "replay_loop cdc bs r = replay_loop cdc rest r1"
      using replay_one [OF rd ap] by (simp only: r1_def)
    let ?m = "rr_valid_len (replay_loop cdc rest r1) - rr_valid_len r"
    have m: "len \<le> ?m" "?m - len = rr_valid_len (replay_loop cdc rest r1) - rr_valid_len r1"
      using replay_loop_valid_len [of r1 cdc rest] v by (simp_all add: r1_def)
    have "replay_loop cdc (take ?m bs) r = replay_loop cdc (take (?m - len) rest) r1"
      using replay_one [OF read_one_record_local [OF rd m(1)] ap] by (simp only: r1_def)
    also have "\<dots> = replay_loop cdc rest r1"
      using 1 [OF rd refl refl refl refl ap] unfolding m(2) by (simp only: r1_def)
    finally show ?thesis by (simp add: step)
  next
    case False
    then have "replay_loop cdc bs r = r"
      by (subst replay_loop.simps) (auto split: sum.splits option.splits)
    then show ?thesis by simp
  qed
qed

text \<open>
  Opening a log is idempotent on arbitrary bytes, however corrupted: the file that
  \<open>WalWriter::open\<close> leaves behind reopens to the same writer and the same replayed log, and
  the tracked size is the file's length.
\<close>

theorem wal_open_idempotent:
  "wal_open cdc (Some (ww_file (fst (wal_open cdc (Some bs))))) = wal_open cdc (Some bs) \<and>
   ww_file_size (fst (wal_open cdc (Some bs))) = length (ww_file (fst (wal_open cdc (Some bs)))) \<and>
   ww_file_size (fst (wal_open cdc (Some bs))) \<le> length bs"
proof -
  let ?r = "replay_loop cdc bs empty_replay"
  have t: "replay_loop cdc (take (rr_valid_len ?r) bs) empty_replay = ?r"
    using replay_loop_take [of cdc bs empty_replay] by simp
  show ?thesis
    by (cases "rr_valid_len ?r < length bs") (simp_all add: wal_open_def replay_wal_def t Let_def)
qed

definition log_keyed :: "('l, 'm) raft_log \<Rightarrow> bool" where
  "log_keyed log \<longleftrightarrow> bt_ok log \<and> (\<forall>(k, e) \<in> set log. lid_index (le_log_id e) = k)"

lemma bt_ok_snoc: "bt_ok (xs @ [(k, v)]) \<longleftrightarrow> bt_ok xs \<and> (\<forall>x \<in> set xs. fst x < k)"
  by (auto simp: bt_ok_def sorted_wrt_append)

lemma append_values_effect:
  "log_keyed log \<Longrightarrow> fold op_effect (map OpAppend (bt_values log)) ([], q) = (log, q)"
proof (induction log rule: rev_induct)
  case Nil
  then show ?case by (simp add: bt_values_def)
next
  case (snoc x xs)
  obtain k e where x: "x = (k, e)" by (cases x)
  have "log_keyed xs" "lid_index (le_log_id e) = k" "\<forall>y \<in> set xs. fst y < k"
    using snoc.prems by (auto simp: log_keyed_def x bt_ok_snoc)
  then show ?case using snoc.IH by (simp add: x bt_values_def bt_insert_append)
qed

lemma append_all_bytes:
  "append_all cdc es = Some img \<Longrightarrow> img = concat (map (op_bytes cdc) (map OpAppend es))"
  by (induction es arbitrary: img) (auto simp: op_bytes_def split: option.splits)

lemma compact_image_bytes:
  assumes "compact_image cdc log q = Some img"
  shows "img = concat (map (op_bytes cdc)
    ((case q of None \<Rightarrow> [] | Some i \<Rightarrow> [OpPurge i]) @ map OpAppend (bt_values log)))"
  using assms
  by (auto simp: compact_image_def Let_def op_bytes_def dest!: append_all_bytes split: option.splits)

lemma compact_ops_effect:
  "log_keyed log \<Longrightarrow>
    fold op_effect ((case q of None \<Rightarrow> [] | Some i \<Rightarrow> [OpPurge i]) @ map OpAppend (bt_values log)) ([], None) =
      (log, q)"
  by (cases q) (simp_all add: append_values_effect)

definition log_fits :: "('l, 'm) codec \<Rightarrow> ('l, 'm) raft_log \<Rightarrow> 'l log_id option \<Rightarrow> bool" where
  "log_fits cdc log q \<longleftrightarrow>
    (\<forall>e \<in> set (bt_values log). op_fits cdc (OpAppend e)) \<and> (\<forall>i. q = Some i \<longrightarrow> op_fits cdc (OpPurge i))"

lemma replay_compact_image:
  assumes "codec_ok cdc" "log_keyed log" "log_fits cdc log q" "compact_image cdc log q = Some img"
  shows "rr_state (replay_wal cdc (Some img)) = (log, q) \<and>
    rr_valid_len (replay_wal cdc (Some img)) = length img"
proof -
  let ?ops = "(case q of None \<Rightarrow> [] | Some i \<Rightarrow> [OpPurge i]) @ map OpAppend (bt_values log)"
  have "\<forall>op \<in> set ?ops. op_fits cdc op"
    using assms(3) by (auto simp: log_fits_def split: option.splits)
  from replay_ops [OF assms(1) this, of "[]"]
  have "replay_wal cdc (Some img) = fold (rr_step cdc) ?ops empty_replay"
    by (simp add: replay_wal_def compact_image_bytes [OF assms(4)])
  then show ?thesis
    using fold_rr_step [of cdc ?ops empty_replay] compact_ops_effect [OF assms(2), of q]
      compact_image_bytes [OF assms(4)] by simp
qed

text \<open>
  Compaction preserves the log: a successful \<open>compact\<close> leaves a file that replays to exactly
  the log and purge point it was given, with no torn tail, and whose length is the tracked size.
\<close>

theorem compaction_preserves_log:
  assumes "codec_ok cdc" and "log_keyed log" and "log_fits cdc log q"
    and "wal_compact cdc flush_out out log q w = (w', Ok ())"
  shows "rr_state (replay_wal cdc (Some (ww_file w'))) = (log, q) \<and>
    rr_valid_len (replay_wal cdc (Some (ww_file w'))) = ww_file_size w' \<and> ww_buffer w' = []"
proof -
  obtain img where "compact_image cdc log q = Some img"
    "w' = \<lparr>ww_file = img, ww_buffer = [], ww_file_size = length img\<rparr>"
    using assms(4) by (auto simp: wal_compact_def split: prod.splits sum.splits option.splits io.splits nat.splits)
  then show ?thesis using replay_compact_image [OF assms(1-3)] by simp
qed

theorem compaction_preserves_log_witness:
  "rr_state (replay_wal demo_codec (Some (ww_file (fst (wal_compact demo_codec IoOk IoOk
      [(1, demo_entry)] None \<lparr>ww_file = [1, 2], ww_buffer = [], ww_file_size = 2\<rparr>))))) =
    ([(1, demo_entry)], None)"
proof -
  define w where "w = \<lparr>ww_file = [1, 2], ww_buffer = [], ww_file_size = 2 :: nat\<rparr>"
  obtain img where "compact_image demo_codec [(1, demo_entry)] None = Some img"
    by (simp add: compact_image_def bt_values_def demo_codec_def demo_entry_def)
  then have c: "wal_compact demo_codec IoOk IoOk [(1, demo_entry)] None w =
      (\<lparr>ww_file = img, ww_buffer = [], ww_file_size = length img\<rparr>, Ok ())"
    by (simp add: wal_compact_def wal_sync_def w_def)
  have "log_keyed [(1, demo_entry)]" "log_fits demo_codec [(1, demo_entry)] None"
    using demo_fits(1) by (simp_all add: log_keyed_def demo_entry_def bt_ok_def log_fits_def bt_values_def)
  from compaction_preserves_log [OF demo_codec_ok this c] show ?thesis by (simp add: c flip: w_def)
qed

text \<open>
  The writer accepts payloads the reader refuses: a record whose payload is above
  \<open>MAX_PAYLOAD_SIZE\<close> is appended and synced with success, yet replay stops in front of it, so
  that record and every record written after it are dropped by the next \<open>WalWriter::open\<close>.
\<close>

theorem oversized_append_hides_suffix:
  assumes "codec_ok cdc" and "\<forall>op \<in> set ops. op_fits cdc op"
    and "MAX_PAYLOAD_SIZE < length p" and "length p < 2 ^ 32"
    and "ww_file w = concat (map (op_bytes cdc) ops)" and "ww_buffer w = []"
  shows "snd (append_record cdc IoOk ty p w) = Ok () \<and>
    ww_file (fst (wal_open cdc (Some (ww_file (fst (append_record cdc IoOk ty p w)) @ later)))) = ww_file w"
proof -
  have stop: "replay_loop cdc (write_record_bytes cdc ty p @ later) r = r" for r
    by (rule replay_stops) (simp add: read_oversized_record [OF assms(3,4)])
  have "replay_wal cdc (Some (ww_file w @ write_record_bytes cdc ty p @ later)) =
      fold (rr_step cdc) ops empty_replay"
    by (simp add: replay_wal_def assms(5) replay_ops [OF assms(1,2)] stop)
  then show ?thesis
    using fold_rr_step [of cdc ops empty_replay] assms(5,6)
    by (simp add: append_record_def append_record_buffered_def wal_sync_def wal_open_def Let_def
        HEADER_SIZE_def)
qed

theorem oversized_append_hides_suffix_witness:
  "snd (append_record demo_codec IoOk Append (replicate (MAX_PAYLOAD_SIZE + 1) 0)
      \<lparr>ww_file = op_bytes demo_codec (OpTruncate 1), ww_buffer = [], ww_file_size = 12\<rparr>) = Ok ()"
proof -
  define w where "w = \<lparr>ww_file = op_bytes demo_codec (OpTruncate 1), ww_buffer = [], ww_file_size = 12 :: nat\<rparr>"
  define p where "p = replicate (MAX_PAYLOAD_SIZE + 1) (0 :: u8)"
  have "MAX_PAYLOAD_SIZE < length p" "length p < 2 ^ 32"
    by (simp_all add: p_def MAX_PAYLOAD_SIZE_def)
  moreover have "ww_file w = concat (map (op_bytes demo_codec) [OpTruncate 1])" "ww_buffer w = []"
    by (simp_all add: w_def)
  moreover have "\<forall>op \<in> set [OpTruncate 1]. op_fits demo_codec op" using demo_fits(2) by simp
  ultimately have "snd (append_record demo_codec IoOk Append p w) = Ok ()"
    using oversized_append_hides_suffix [OF demo_codec_ok] by blast
  then show ?thesis by (simp only: p_def w_def)
qed

end
