(* ===== verification/Raft_Store.thy ===== *)
theory Raft_Store
  imports Wal
begin

text \<open>
  The Raft storage of \<open>crates/pg-ha-dcs/src/store.rs\<close>: the in-memory log and state machine, the
  write-ahead log behind it and the four JSON files. \<open>serde_json\<close> and openraft's \<open>Display\<close> of a
  log id are the fields of a \<open>json\<close> parameter, votes and memberships are type variables. Every
  disk write takes an I/O outcome; an atomic JSON write either replaces the file or leaves it.

  The lemmas show that after operations that all reported success a restart rebuilds exactly the
  in-memory state (durability), that a crash inside an append recovers a prefix of it, and that
  the two files written after an apply are not atomic: a crash between them makes openraft apply
  entries a second time, with a different result.
\<close>

section \<open>State\<close>

datatype ('l, 'm) stored_membership = StoredMembership "'l log_id option" 'm

record ('l, 'm) stored_snapshot =
  snap_last_log_id :: "'l log_id option"
  snap_last_membership :: "('l, 'm) stored_membership"
  snap_id :: string
  snap_data :: string

record ('l, 'm, 'v) mem_store_inner =
  ms_vote :: "'v option"
  ms_committed :: "'l log_id option"
  ms_log :: "('l, 'm) raft_log"
  ms_last_purged :: "'l log_id option"
  ms_state_machine :: kv_state_machine
  ms_last_applied_log :: "'l log_id option"
  ms_last_membership :: "('l, 'm) stored_membership"
  ms_snapshot :: "('l, 'm) stored_snapshot option"

text \<open>\<open>MemStoreInner::default()\<close>; \<open>m0\<close> is openraft's default membership.\<close>

definition default_inner :: "'m \<Rightarrow> ('l, 'm, 'v) mem_store_inner" where
  "default_inner m0 =
    \<lparr>ms_vote = None, ms_committed = None, ms_log = [], ms_last_purged = None,
     ms_state_machine = new_state_machine, ms_last_applied_log = None,
     ms_last_membership = StoredMembership None m0, ms_snapshot = None\<rparr>"

record ('l, 'm, 'v) json =
  ser_hard_state :: "'v option \<times> 'l log_id option \<Rightarrow> string option"
  de_hard_state :: "string \<Rightarrow> ('v option \<times> 'l log_id option) option"
  ser_membership :: "'l log_id option \<times> ('l, 'm) stored_membership \<Rightarrow> string option"
  de_membership :: "string \<Rightarrow> ('l log_id option \<times> ('l, 'm) stored_membership) option"
  ser_snapshot :: "('l, 'm) stored_snapshot \<Rightarrow> string option"
  de_snapshot :: "string \<Rightarrow> ('l, 'm) stored_snapshot option"
  ser_machine :: "kv_state_machine \<Rightarrow> string option"
  de_machine :: "string \<Rightarrow> kv_state_machine option"
  snapshot_name :: "'l log_id option \<Rightarrow> string"

text \<open>
  The data directory: the four JSON files and the log file (its handle included). The handle is
  \<open>None\<close> when the log could not be opened: the source then goes on with log persistence disabled.
\<close>

record disk =
  f_hard_state :: "string option"
  f_state_machine :: "string option"
  f_membership :: "string option"
  f_snapshot :: "string option"
  f_wal :: "wal_writer option"

text \<open>\<open>MemStore\<close>: \<open>st_disk = None\<close> is the in-memory store (no \<open>data_dir\<close>, no WAL).\<close>

record ('l, 'm, 'v) mem_store =
  st_inner :: "('l, 'm, 'v) mem_store_inner"
  st_disk :: "disk option"

datatype error_subject = Subject_Vote | Subject_Store | Subject_Logs | Subject_StateMachine | Subject_Snapshot

type_synonym ('l, 'm, 'v) store_result = "('l, 'm, 'v) mem_store \<times> (error_subject, unit) res"

section \<open>Starting up\<close>

definition load_from_disk :: "('l, 'm, 'v) json \<Rightarrow> string option \<Rightarrow> kv_state_machine" where
  "load_from_disk js file =
    (case file of None \<Rightarrow> new_state_machine | Some j \<Rightarrow> unwrap_or (de_machine js j) new_state_machine)"

definition new_persistent ::
  "('l, 'm) codec \<Rightarrow> ('l, 'm, 'v) json \<Rightarrow> 'm \<Rightarrow> string option \<Rightarrow> string option \<Rightarrow> string option \<Rightarrow>
    string option \<Rightarrow> bool \<Rightarrow> bytes option \<Rightarrow> ('l, 'm, 'v) mem_store" where
  "new_persistent cdc js m0 hard_state machine membership snapshot wal_opens wal_file =
    (let inner0 = default_inner m0;
         inner1 = (case Option.bind hard_state (de_hard_state js) of
             None \<Rightarrow> inner0
           | Some (vote, committed) \<Rightarrow> inner0\<lparr>ms_vote := vote, ms_committed := committed\<rparr>);
         inner2 = inner1\<lparr>ms_state_machine := load_from_disk js machine\<rparr>;
         (writer, replayed) = wal_open cdc wal_file;
         inner3 = (if wal_opens
                   then inner2\<lparr>ms_log := rr_log replayed, ms_last_purged := rr_last_purged replayed\<rparr>
                   else inner2);
         inner4 = (case Option.bind membership (de_membership js) of
             None \<Rightarrow> inner3
           | Some (applied, mem) \<Rightarrow> inner3\<lparr>ms_last_applied_log := applied, ms_last_membership := mem\<rparr>);
         inner5 = (case Option.bind snapshot (de_snapshot js) of
             None \<Rightarrow> inner4
           | Some snap \<Rightarrow> inner4\<lparr>ms_snapshot := Some snap\<rparr>)
     in \<lparr>st_inner = inner5,
         st_disk = Some \<lparr>f_hard_state = hard_state, f_state_machine = machine,
                         f_membership = membership, f_snapshot = snapshot,
                         f_wal = (if wal_opens then Some writer else None)\<rparr>\<rparr>)"

text \<open>
  A restart whose log opens: memory and buffered bytes are gone, the files are read back. (For a
  store whose log never opened, the log is taken as missing.)
\<close>

definition restart :: "('l, 'm) codec \<Rightarrow> ('l, 'm, 'v) json \<Rightarrow> 'm \<Rightarrow> ('l, 'm, 'v) mem_store \<Rightarrow> ('l, 'm, 'v) mem_store" where
  "restart cdc js m0 st =
    (case st_disk st of
       None \<Rightarrow> \<lparr>st_inner = default_inner m0, st_disk = None\<rparr>
     | Some d \<Rightarrow> new_persistent cdc js m0 (f_hard_state d) (f_state_machine d) (f_membership d)
                   (f_snapshot d) True (map_option ww_file (f_wal d)))"

section \<open>Persistence helpers\<close>

text \<open>\<open>atomic_write_json\<close>: the target file is replaced as a whole or not at all.\<close>

definition atomic_write_json :: "io \<Rightarrow> string \<Rightarrow> string option \<Rightarrow> string option \<times> (io_error, unit) res" where
  "atomic_write_json out content old =
    (case out of IoOk \<Rightarrow> (Some content, Ok ()) | IoFail _ \<Rightarrow> (old, Err IoFailed))"

definition persist_hard_state ::
  "('l, 'm, 'v) json \<Rightarrow> io \<Rightarrow> ('l, 'm, 'v) mem_store \<Rightarrow> ('l, 'm, 'v) mem_store \<times> (io_error, unit) res" where
  "persist_hard_state js out st =
    (case st_disk st of
       None \<Rightarrow> (st, Ok ())
     | Some d \<Rightarrow>
         (case ser_hard_state js (ms_vote (st_inner st), ms_committed (st_inner st)) of
            None \<Rightarrow> (st, Err SerializeFailed)
          | Some j \<Rightarrow> (case atomic_write_json out j (f_hard_state d) of
              (f, r) \<Rightarrow> (st\<lparr>st_disk := Some (d\<lparr>f_hard_state := f\<rparr>)\<rparr>, r))))"

definition persist_state_machine ::
  "('l, 'm, 'v) json \<Rightarrow> io \<Rightarrow> ('l, 'm, 'v) mem_store \<Rightarrow> ('l, 'm, 'v) mem_store \<times> (io_error, unit) res" where
  "persist_state_machine js out st =
    (case st_disk st of
       None \<Rightarrow> (st, Ok ())
     | Some d \<Rightarrow>
         (case ser_machine js (ms_state_machine (st_inner st)) of
            None \<Rightarrow> (st, Err SerializeFailed)
          | Some j \<Rightarrow> (case atomic_write_json out j (f_state_machine d) of
              (f, r) \<Rightarrow> (st\<lparr>st_disk := Some (d\<lparr>f_state_machine := f\<rparr>)\<rparr>, r))))"

definition persist_membership ::
  "('l, 'm, 'v) json \<Rightarrow> io \<Rightarrow> ('l, 'm, 'v) mem_store \<Rightarrow> ('l, 'm, 'v) mem_store \<times> (io_error, unit) res" where
  "persist_membership js out st =
    (case st_disk st of
       None \<Rightarrow> (st, Ok ())
     | Some d \<Rightarrow>
         (case ser_membership js (ms_last_applied_log (st_inner st), ms_last_membership (st_inner st)) of
            None \<Rightarrow> (st, Err SerializeFailed)
          | Some j \<Rightarrow> (case atomic_write_json out j (f_membership d) of
              (f, r) \<Rightarrow> (st\<lparr>st_disk := Some (d\<lparr>f_membership := f\<rparr>)\<rparr>, r))))"

definition persist_snapshot ::
  "('l, 'm, 'v) json \<Rightarrow> io \<Rightarrow> ('l, 'm, 'v) mem_store \<Rightarrow> ('l, 'm, 'v) mem_store \<times> (io_error, unit) res" where
  "persist_snapshot js out st =
    (case st_disk st of
       None \<Rightarrow> (st, Ok ())
     | Some d \<Rightarrow>
         (case ms_snapshot (st_inner st) of
            None \<Rightarrow> (st, Ok ())
          | Some snap \<Rightarrow>
              (case ser_snapshot js snap of
                 None \<Rightarrow> (st, Err SerializeFailed)
               | Some j \<Rightarrow> (case atomic_write_json out j (f_snapshot d) of
                   (f, r) \<Rightarrow> (st\<lparr>st_disk := Some (d\<lparr>f_snapshot := f\<rparr>)\<rparr>, r)))))"

text \<open>
  The WAL side of a log mutation: the records of the batch are buffered one by one (stopping at
  the first that does not serialise), synced, and the file is compacted above the threshold.
\<close>

fun buffer_entries ::
  "('l, 'm) codec \<Rightarrow> ('l, 'm) log_entry list \<Rightarrow> wal_writer \<Rightarrow> wal_writer \<times> (io_error, unit) res" where
  "buffer_entries cdc [] w = (w, Ok ())"
| "buffer_entries cdc (e # es) w =
     (case ser_entry cdc e of
        None \<Rightarrow> (w, Err SerializeFailed)
      | Some p \<Rightarrow> buffer_entries cdc es (append_record_buffered cdc Append p w))"

definition compact_if_large ::
  "('l, 'm) codec \<Rightarrow> io \<Rightarrow> io \<Rightarrow> ('l, 'm, 'v) mem_store_inner \<Rightarrow> wal_writer \<Rightarrow> wal_writer \<times> (io_error, unit) res" where
  "compact_if_large cdc out2 out3 inner w =
    (if ww_file_size w > COMPACTION_THRESHOLD
     then wal_compact cdc out2 out3 (ms_log inner) (ms_last_purged inner) w
     else (w, Ok ()))"

definition wal_append_entries ::
  "('l, 'm) codec \<Rightarrow> io \<times> io \<times> io \<Rightarrow> ('l, 'm) log_entry list \<Rightarrow> ('l, 'm, 'v) mem_store_inner \<Rightarrow>
    wal_writer \<Rightarrow> wal_writer \<times> (io_error, unit) res" where
  "wal_append_entries cdc outs entries inner w =
    (case outs of (out1, out2, out3) \<Rightarrow>
       (case buffer_entries cdc entries w of
          (w1, Inl e) \<Rightarrow> (w1, Err e)
        | (w1, Inr _) \<Rightarrow>
            (case wal_sync out1 w1 of
               (w2, Inl e) \<Rightarrow> (w2, Err e)
             | (w2, Inr _) \<Rightarrow> compact_if_large cdc out2 out3 inner w2)))"

definition wal_truncate_since ::
  "('l, 'm) codec \<Rightarrow> io \<times> io \<times> io \<Rightarrow> u64 \<Rightarrow> ('l, 'm, 'v) mem_store_inner \<Rightarrow>
    wal_writer \<Rightarrow> wal_writer \<times> (io_error, unit) res" where
  "wal_truncate_since cdc outs since_index inner w =
    (case outs of (out1, out2, out3) \<Rightarrow>
       (case ser_truncate cdc since_index of
          None \<Rightarrow> (w, Err SerializeFailed)
        | Some p \<Rightarrow>
            (case append_record cdc out1 Truncate p w of
               (w1, Inl e) \<Rightarrow> (w1, Err e)
             | (w1, Inr _) \<Rightarrow> compact_if_large cdc out2 out3 inner w1)))"

definition wal_purge_upto ::
  "('l, 'm) codec \<Rightarrow> io \<times> io \<times> io \<Rightarrow> 'l log_id \<Rightarrow> ('l, 'm, 'v) mem_store_inner \<Rightarrow>
    wal_writer \<Rightarrow> wal_writer \<times> (io_error, unit) res" where
  "wal_purge_upto cdc outs log_id inner w =
    (case outs of (out1, out2, out3) \<Rightarrow>
       (case ser_purge cdc log_id of
          None \<Rightarrow> (w, Err SerializeFailed)
        | Some p \<Rightarrow>
            (case append_record cdc out1 Purge p w of
               (w1, Inl e) \<Rightarrow> (w1, Err e)
             | (w1, Inr _) \<Rightarrow> compact_if_large cdc out2 out3 inner w1)))"

section \<open>The \<open>RaftStorage\<close> operations\<close>

text \<open>Conversion of an I/O error into the error openraft sees; it stops the node.\<close>

definition storage_err :: "error_subject \<Rightarrow> ('l, 'm, 'v) mem_store \<times> (io_error, unit) res \<Rightarrow> ('l, 'm, 'v) store_result" where
  "storage_err subject x =
    (case x of (st, Inl _) \<Rightarrow> (st, Err subject) | (st, Inr _) \<Rightarrow> (st, Ok ()))"

definition with_wal ::
  "(wal_writer \<Rightarrow> wal_writer \<times> (io_error, unit) res) \<Rightarrow> ('l, 'm, 'v) mem_store \<Rightarrow>
    ('l, 'm, 'v) mem_store \<times> (io_error, unit) res" where
  "with_wal f st =
    (case st_disk st of
       None \<Rightarrow> (st, Ok ())
     | Some d \<Rightarrow>
         (case f_wal d of
            None \<Rightarrow> (st, Ok ())
          | Some w \<Rightarrow> (case f w of (w', r) \<Rightarrow> (st\<lparr>st_disk := Some (d\<lparr>f_wal := Some w'\<rparr>)\<rparr>, r))))"

definition save_vote :: "('l, 'm, 'v) json \<Rightarrow> io \<Rightarrow> 'v \<Rightarrow> ('l, 'm, 'v) mem_store \<Rightarrow> ('l, 'm, 'v) store_result" where
  "save_vote js out vote st =
    storage_err Subject_Vote
      (persist_hard_state js out (st\<lparr>st_inner := (st_inner st)\<lparr>ms_vote := Some vote\<rparr>\<rparr>))"

definition save_committed ::
  "('l, 'm, 'v) json \<Rightarrow> io \<Rightarrow> 'l log_id option \<Rightarrow> ('l, 'm, 'v) mem_store \<Rightarrow> ('l, 'm, 'v) store_result" where
  "save_committed js out committed st =
    storage_err Subject_Store
      (persist_hard_state js out (st\<lparr>st_inner := (st_inner st)\<lparr>ms_committed := committed\<rparr>\<rparr>))"

definition insert_entry :: "('l, 'm) log_entry \<Rightarrow> ('l, 'm) raft_log \<Rightarrow> ('l, 'm) raft_log" where
  "insert_entry e log = bt_insert (lid_index (le_log_id e)) e log"

definition append_to_log ::
  "('l, 'm) codec \<Rightarrow> io \<times> io \<times> io \<Rightarrow> ('l, 'm) log_entry list \<Rightarrow> ('l, 'm, 'v) mem_store \<Rightarrow>
    ('l, 'm, 'v) store_result" where
  "append_to_log cdc outs entries st =
    (let inner = (st_inner st)\<lparr>ms_log := fold insert_entry entries (ms_log (st_inner st))\<rparr>
     in storage_err Subject_Logs
          (with_wal (wal_append_entries cdc outs entries inner) (st\<lparr>st_inner := inner\<rparr>)))"

definition delete_conflict_logs_since ::
  "('l, 'm) codec \<Rightarrow> io \<times> io \<times> io \<Rightarrow> 'l log_id \<Rightarrow> ('l, 'm, 'v) mem_store \<Rightarrow> ('l, 'm, 'v) store_result" where
  "delete_conflict_logs_since cdc outs log_id st =
    (let inner = (st_inner st)\<lparr>ms_log := bt_retain (\<lambda>k. k < lid_index log_id) (ms_log (st_inner st))\<rparr>
     in storage_err Subject_Logs
          (with_wal (wal_truncate_since cdc outs (lid_index log_id) inner) (st\<lparr>st_inner := inner\<rparr>)))"

definition purge_logs_upto ::
  "('l, 'm) codec \<Rightarrow> io \<times> io \<times> io \<Rightarrow> 'l log_id \<Rightarrow> ('l, 'm, 'v) mem_store \<Rightarrow> ('l, 'm, 'v) store_result" where
  "purge_logs_upto cdc outs log_id st =
    (let inner = (st_inner st)\<lparr>ms_log := bt_retain (\<lambda>k. k > lid_index log_id) (ms_log (st_inner st)),
                               ms_last_purged := Some log_id\<rparr>
     in storage_err Subject_Logs
          (with_wal (wal_purge_upto cdc outs log_id inner) (st\<lparr>st_inner := inner\<rparr>)))"

definition get_log_state :: "('l, 'm, 'v) mem_store \<Rightarrow> 'l log_id option \<times> 'l log_id option" where
  "get_log_state st =
    (let inner = st_inner st
     in (ms_last_purged inner,
         case bt_last (ms_log inner) of
           Some (_, entry) \<Rightarrow> Some (le_log_id entry)
         | None \<Rightarrow> ms_last_purged inner))"

definition try_get_log_entries :: "(u64 \<Rightarrow> bool) \<Rightarrow> ('l, 'm, 'v) mem_store \<Rightarrow> ('l, 'm) log_entry list" where
  "try_get_log_entries in_range st = bt_values (bt_retain in_range (ms_log (st_inner st)))"

text \<open>One entry of \<open>apply_to_state_machine\<close>; \<open>clock\<close> is the node's clock at that moment.\<close>

definition apply_entry ::
  "u64 \<Rightarrow> ('l, 'm) log_entry \<Rightarrow> ('l, 'm, 'v) mem_store_inner \<Rightarrow> ('l, 'm, 'v) mem_store_inner \<times> response" where
  "apply_entry clock entry inner0 =
    (let inner1 = inner0\<lparr>ms_last_applied_log := Some (le_log_id entry)\<rparr>;
         idx = lid_index (le_log_id entry)
     in case le_payload entry of
          Blank \<Rightarrow> (inner1, Response_Ok idx)
        | Normal req \<Rightarrow> (case sm_apply (ms_state_machine inner1) clock req idx of
            (sm, resp) \<Rightarrow> (inner1\<lparr>ms_state_machine := sm\<rparr>, resp))
        | Membership m \<Rightarrow>
            (inner1\<lparr>ms_last_membership := StoredMembership (Some (le_log_id entry)) m\<rparr>, Response_Ok idx))"

fun apply_entries ::
  "u64 \<Rightarrow> ('l, 'm) log_entry list \<Rightarrow> ('l, 'm, 'v) mem_store_inner \<Rightarrow> ('l, 'm, 'v) mem_store_inner \<times> response list" where
  "apply_entries clock [] inner = (inner, [])"
| "apply_entries clock (e # es) inner =
     (case apply_entry clock e inner of (inner1, r) \<Rightarrow>
        case apply_entries clock es inner1 of (inner2, rs) \<Rightarrow> (inner2, r # rs))"

definition apply_to_state_machine ::
  "('l, 'm, 'v) json \<Rightarrow> u64 \<Rightarrow> io \<times> io \<Rightarrow> ('l, 'm) log_entry list \<Rightarrow> ('l, 'm, 'v) mem_store \<Rightarrow>
    ('l, 'm, 'v) mem_store \<times> (error_subject, response list) res" where
  "apply_to_state_machine js clock outs entries st =
    (case outs of (out1, out2) \<Rightarrow>
       (case apply_entries clock entries (st_inner st) of (inner, results) \<Rightarrow>
          (case persist_state_machine js out1 (st\<lparr>st_inner := inner\<rparr>) of
             (st1, Inl _) \<Rightarrow> (st1, Err Subject_StateMachine)
           | (st1, Inr _) \<Rightarrow>
               (case persist_membership js out2 st1 of
                  (st2, Inl _) \<Rightarrow> (st2, Err Subject_StateMachine)
                | (st2, Inr _) \<Rightarrow> (st2, Ok results)))))"

definition build_snapshot ::
  "('l, 'm, 'v) json \<Rightarrow> io \<Rightarrow> ('l, 'm, 'v) mem_store \<Rightarrow>
    ('l, 'm, 'v) mem_store \<times> (error_subject, ('l, 'm) stored_snapshot) res" where
  "build_snapshot js out st =
    (case ser_machine js (ms_state_machine (st_inner st)) of
       None \<Rightarrow> (st, Err Subject_StateMachine)
     | Some data \<Rightarrow>
         (let inner = st_inner st;
              snap = \<lparr>snap_last_log_id = ms_last_applied_log inner,
                      snap_last_membership = ms_last_membership inner,
                      snap_id = snapshot_name js (ms_last_applied_log inner), snap_data = data\<rparr>
          in case persist_snapshot js out (st\<lparr>st_inner := inner\<lparr>ms_snapshot := Some snap\<rparr>\<rparr>) of
               (st1, Inl _) \<Rightarrow> (st1, Err Subject_Snapshot)
             | (st1, Inr _) \<Rightarrow> (st1, Ok snap)))"

definition install_snapshot ::
  "('l, 'm, 'v) json \<Rightarrow> io \<times> io \<times> io \<times> io \<Rightarrow> ('l, 'm) stored_snapshot \<Rightarrow> ('l, 'm, 'v) mem_store \<Rightarrow>
    ('l, 'm, 'v) store_result" where
  "install_snapshot js outs snap st =
    (case outs of (out1, out2, out3, out4) \<Rightarrow>
       (case de_machine js (snap_data snap) of
          None \<Rightarrow> (st, Err Subject_StateMachine)
        | Some machine \<Rightarrow>
            (let inner = (st_inner st)\<lparr>ms_state_machine := machine,
                   ms_last_applied_log := snap_last_log_id snap,
                   ms_last_membership := snap_last_membership snap, ms_snapshot := Some snap\<rparr>
             in case persist_state_machine js out1 (st\<lparr>st_inner := inner\<rparr>) of
                  (st1, Inl _) \<Rightarrow> (st1, Err Subject_Snapshot)
                | (st1, Inr _) \<Rightarrow>
                    (case persist_membership js out2 st1 of
                       (st2, Inl _) \<Rightarrow> (st2, Err Subject_Snapshot)
                     | (st2, Inr _) \<Rightarrow>
                         (case persist_snapshot js out3 st2 of
                            (st3, Inl _) \<Rightarrow> (st3, Err Subject_Snapshot)
                          | (st3, Inr _) \<Rightarrow>
                              storage_err Subject_Vote (persist_hard_state js out4 st3))))))"

definition get_current_snapshot :: "('l, 'm, 'v) mem_store \<Rightarrow> ('l, 'm) stored_snapshot option" where
  "get_current_snapshot st = ms_snapshot (st_inner st)"

section \<open>What the store relies on: a log device that recovers what was written\<close>

locale recoverable_log =
  fixes recover :: "'d \<Rightarrow> 's"
    and log_write :: "'op \<Rightarrow> 'd \<Rightarrow> 'd"
    and effect :: "'op \<Rightarrow> 's \<Rightarrow> 's"
    and clean :: "'d \<Rightarrow> bool"
    and writable :: "'op \<Rightarrow> bool"
    and torn :: "'op \<Rightarrow> 'd \<Rightarrow> 'd \<Rightarrow> bool"
  assumes clean_write: "\<lbrakk>clean d; writable op\<rbrakk> \<Longrightarrow> clean (log_write op d)"
    and recover_write: "\<lbrakk>clean d; writable op\<rbrakk> \<Longrightarrow> recover (log_write op d) = effect op (recover d)"
    and recover_torn: "\<lbrakk>clean d; writable op; torn op d d'\<rbrakk> \<Longrightarrow> recover d' = recover d"
begin

lemma recover_writes:
  "\<lbrakk>clean d; \<forall>op \<in> set ops. writable op\<rbrakk> \<Longrightarrow>
    clean (fold log_write ops d) \<and> recover (fold log_write ops d) = fold effect ops (recover d)"
  by (induction ops arbitrary: d) (simp_all add: clean_write recover_write)

lemma recover_crash_in_batch:
  assumes "clean d" "\<forall>op \<in> set ops. writable op" "k < length ops"
    and "torn (ops ! k) (fold log_write (take k ops) d) d'"
  shows "recover d' = fold effect (take k ops) (recover d)"
proof -
  have t: "\<forall>op \<in> set (take k ops). writable op" using assms(2) in_set_takeD by fastforce
  have "writable (ops ! k)" using assms(2,3) by simp
  then have "recover d' = recover (fold log_write (take k ops) d)"
    using recover_writes [OF assms(1) t] assms(4) by (blast intro: recover_torn)
  then show ?thesis using recover_writes [OF assms(1) t] by simp
qed

end

definition file_state :: "('l, 'm) codec \<Rightarrow> bytes \<Rightarrow> ('l, 'm) log_state" where
  "file_state cdc bs = rr_state (replay_wal cdc (Some bs))"

definition file_clean :: "('l, 'm) codec \<Rightarrow> bytes \<Rightarrow> bool" where
  "file_clean cdc bs \<longleftrightarrow> rr_valid_len (replay_wal cdc (Some bs)) = length bs"

definition file_append :: "('l, 'm) codec \<Rightarrow> ('l, 'm) log_op \<Rightarrow> bytes \<Rightarrow> bytes" where
  "file_append cdc op bs = bs @ op_bytes cdc op"

definition op_writable :: "('l, 'm) codec \<Rightarrow> ('l, 'm) log_op \<Rightarrow> bool" where
  "op_writable cdc op \<longleftrightarrow> codec_ok cdc \<and> op_fits cdc op"

definition file_torn :: "('l, 'm) codec \<Rightarrow> ('l, 'm) log_op \<Rightarrow> bytes \<Rightarrow> bytes \<Rightarrow> bool" where
  "file_torn cdc op bs bs' \<longleftrightarrow> (\<exists>n < length (op_bytes cdc op). bs' = bs @ take n (op_bytes cdc op))"

lemma read_one_record_append:
  assumes "read_one_record cdc bs = Ok (Some (ty, p, len, rest))"
  shows "read_one_record cdc (bs @ x) = Ok (Some (ty, p, len, rest @ x))"
proof -
  obtain b le tl where bs: "bs = WAL_MAGIC @ b # le @ tl" and le: "length le = 4"
    using read_header_shape [OF assms] .
  have "read_body cdc b le tl = Ok (Some (ty, p, len, rest))"
    using assms by (simp add: bs read_after_header [OF le])
  then have "read_body cdc b le (tl @ x) = Ok (Some (ty, p, len, rest @ x))"
    by (auto simp: read_body_def split: option.splits if_splits)
  then show ?thesis by (simp add: bs read_after_header [OF le])
qed

lemma replay_clean_append:
  "rr_valid_len (replay_loop cdc bs r) = rr_valid_len r + length bs \<Longrightarrow>
    replay_loop cdc (bs @ x) r = replay_loop cdc x (replay_loop cdc bs r)"
proof (induction cdc bs r rule: replay_loop.induct)
  case (1 cdc bs r)
  show ?case
  proof (cases "\<exists>ty payload len rest r'. read_one_record cdc bs = Ok (Some (ty, payload, len, rest)) \<and>
      apply_record cdc r ty payload = Ok r'")
    case True
    then obtain ty payload len rest r' where
      rd: "read_one_record cdc bs = Ok (Some (ty, payload, len, rest))" and ap: "apply_record cdc r ty payload = Ok r'"
      by blast
    define r1 where "r1 = r'\<lparr>rr_valid_len := rr_valid_len r' + len\<rparr>"
    have v: "rr_valid_len r1 = rr_valid_len r + len"
      using ap by (auto simp: r1_def apply_record_def split: record_type.splits option.splits)
    have step: "replay_loop cdc bs r = replay_loop cdc rest r1"
      using replay_one [OF rd ap] by (simp only: r1_def)
    have len: "rr_valid_len (replay_loop cdc rest r1) = rr_valid_len r1 + length rest"
      using 1(2) read_one_record_shorter [OF rd, THEN conjunct1] unfolding step v by linarith
    have "replay_loop cdc (bs @ x) r = replay_loop cdc (rest @ x) r1"
      using replay_one [OF read_one_record_append [OF rd] ap] by (simp only: r1_def)
    also have "\<dots> = replay_loop cdc x (replay_loop cdc rest r1)"
      by (rule 1(1) [OF rd refl refl refl refl ap, folded r1_def, OF len])
    finally show ?thesis unfolding step .
  next
    case False
    then have "replay_loop cdc bs r = r"
      by (subst replay_loop.simps) (auto split: sum.splits option.splits)
    then show ?thesis using 1(2) by simp
  qed
qed

lemma replay_wal_append:
  "file_clean cdc bs \<Longrightarrow>
    replay_wal cdc (Some (bs @ x)) = replay_loop cdc x (replay_wal cdc (Some bs))"
  by (simp add: file_clean_def replay_wal_def replay_clean_append)

interpretation wal_log: recoverable_log "file_state cdc" "file_append cdc" op_effect "file_clean cdc"
    "op_writable cdc" "file_torn cdc" for cdc
proof
  fix d op assume a: "file_clean cdc d" "op_writable cdc op"
  have r: "replay_wal cdc (Some (file_append cdc op d)) = rr_step cdc op (replay_wal cdc (Some d))"
    using a replay_op [of cdc op "[]"]
    by (simp add: file_append_def replay_wal_append op_writable_def)
  show "file_clean cdc (file_append cdc op d)"
    using a(1) by (simp add: file_clean_def r) (simp add: file_append_def)
  show "file_state cdc (file_append cdc op d) = op_effect op (file_state cdc d)"
    by (simp add: file_state_def r)
next
  fix d op d' assume "file_clean cdc d" "op_writable cdc op" "file_torn cdc op d d'"
  then show "file_state cdc d' = file_state cdc d"
    by (auto simp: file_torn_def file_state_def op_writable_def replay_wal_append replay_torn)
qed

section \<open>Memory and log file agree\<close>

definition wal_agrees :: "('l, 'm) codec \<Rightarrow> wal_writer \<Rightarrow> ('l, 'm) log_state \<Rightarrow> bool" where
  "wal_agrees cdc w s \<longleftrightarrow> ww_buffer w = [] \<and> file_clean cdc (ww_file w) \<and> file_state cdc (ww_file w) = s"

lemma fold_file_append:
  "fold (file_append cdc) ops bs = bs @ concat (map (op_bytes cdc) ops)"
  by (induction ops arbitrary: bs) (simp_all add: file_append_def)

lemma buffer_entries_Ok:
  "buffer_entries cdc es w = (w1, Ok u) \<Longrightarrow>
    ww_file w1 = ww_file w \<and> ww_buffer w1 = ww_buffer w @ concat (map (op_bytes cdc) (map OpAppend es))"
  by (induction cdc es w rule: buffer_entries.induct)
    (auto simp: append_record_buffered_def op_bytes_def split: option.splits)

lemma compact_if_large_agrees:
  assumes "compact_if_large cdc o2 o3 inner w = (w', Ok u)" "codec_ok cdc"
    and "wal_agrees cdc w (ms_log inner, ms_last_purged inner)"
    and "log_keyed (ms_log inner)" "log_fits cdc (ms_log inner) (ms_last_purged inner)"
  shows "wal_agrees cdc w' (ms_log inner, ms_last_purged inner)"
proof (cases "ww_file_size w > COMPACTION_THRESHOLD")
  case True
  then obtain img where img: "compact_image cdc (ms_log inner) (ms_last_purged inner) = Some img"
    and w': "w' = \<lparr>ww_file = img, ww_buffer = [], ww_file_size = length img\<rparr>"
    using assms(1) by (auto simp: compact_if_large_def wal_compact_def
        split: prod.splits sum.splits option.splits io.splits nat.splits)
  show ?thesis
    using replay_compact_image [OF assms(2,4,5) img]
    by (simp add: wal_agrees_def w' file_clean_def file_state_def)
next
  case False
  then show ?thesis using assms(1,3) by (simp add: compact_if_large_def)
qed

lemma synced_agrees:
  assumes "wal_agrees cdc w s" "codec_ok cdc" "\<forall>op \<in> set ops. op_fits cdc op"
    and "ww_buffer w1 = []" "ww_file w1 = ww_file w @ concat (map (op_bytes cdc) ops)"
  shows "wal_agrees cdc w1 (fold op_effect ops s)"
  using wal_log.recover_writes [of cdc "ww_file w" ops] assms
  by (simp add: wal_agrees_def fold_file_append op_writable_def)

lemma fold_append_effect:
  "fold op_effect (map OpAppend es) (log, q) = (fold insert_entry es log, q)"
  by (induction es arbitrary: log) (simp_all add: insert_entry_def)

lemma log_keyed_insert: "log_keyed log \<Longrightarrow> log_keyed (insert_entry e log)"
  by (auto simp: log_keyed_def insert_entry_def dest: set_bt_insert)

lemma log_keyed_fold: "log_keyed log \<Longrightarrow> log_keyed (fold insert_entry es log)"
  by (induction es arbitrary: log) (simp_all add: log_keyed_insert)

lemma log_keyed_retain: "log_keyed log \<Longrightarrow> log_keyed (bt_retain p log)"
  by (auto simp: log_keyed_def bt_retain_def intro!: bt_ok_retain [unfolded bt_retain_def])

lemma log_fits_fold:
  "\<lbrakk>log_fits cdc log q; \<forall>e \<in> set es. op_fits cdc (OpAppend e)\<rbrakk> \<Longrightarrow>
    log_fits cdc (fold insert_entry es log) q"
proof (induction es arbitrary: log)
  case (Cons e es)
  have "log_fits cdc (insert_entry e log) q"
    using Cons.prems by (auto simp: log_fits_def insert_entry_def bt_values_def dest: set_bt_insert)
  then show ?case using Cons by simp
qed simp

lemma log_fits_retain: "log_fits cdc log q \<Longrightarrow> log_fits cdc (bt_retain p log) q"
  by (auto simp: log_fits_def bt_retain_def bt_values_def)

text \<open>The three WAL mutations, when they report success.\<close>

lemma wal_append_entries_agrees:
  assumes "wal_append_entries cdc outs es inner w = (w', Ok u)" "codec_ok cdc"
    and "wal_agrees cdc w (log, q)" "\<forall>e \<in> set es. op_fits cdc (OpAppend e)"
    and "ms_log inner = fold insert_entry es log" "ms_last_purged inner = q"
    and "log_keyed log" "log_fits cdc log q"
  shows "wal_agrees cdc w' (ms_log inner, ms_last_purged inner)"
proof -
  obtain o1 o2 o3 w1 w2 where outs: "outs = (o1, o2, o3)"
    and b: "buffer_entries cdc es w = (w1, Ok ())" and s: "wal_sync o1 w1 = (w2, Ok ())"
    and c: "compact_if_large cdc o2 o3 inner w2 = (w', Ok u)"
    using assms(1) by (auto simp: wal_append_entries_def split: prod.splits sum.splits)
  have "ww_buffer w2 = []" "ww_file w2 = ww_file w @ concat (map (op_bytes cdc) (map OpAppend es))"
    using s buffer_entries_Ok [OF b] assms(3) by (auto simp: wal_sync_def wal_agrees_def split: io.splits)
  then have "wal_agrees cdc w2 (fold op_effect (map OpAppend es) (log, q))"
    using assms(4) by (intro synced_agrees [OF assms(3,2)]) auto
  then have "wal_agrees cdc w2 (ms_log inner, ms_last_purged inner)"
    by (simp add: fold_append_effect assms(5,6))
  moreover have "log_keyed (ms_log inner)" "log_fits cdc (ms_log inner) (ms_last_purged inner)"
    using log_keyed_fold [OF assms(7)] log_fits_fold [OF assms(8,4)] by (simp_all add: assms(5,6))
  ultimately show ?thesis by (rule compact_if_large_agrees [OF c assms(2)])
qed

lemma append_record_agrees:
  assumes "append_record cdc o1 ty p w = (w1, Ok u)" "op_payload cdc op = Some (ty, p)" "op_fits cdc op"
    and "codec_ok cdc" "wal_agrees cdc w s"
  shows "wal_agrees cdc w1 (op_effect op s)"
proof -
  have "ww_buffer w1 = []" "ww_file w1 = ww_file w @ concat (map (op_bytes cdc) [op])"
    using assms(1,2,5) by (auto simp: append_record_def append_record_buffered_def wal_sync_def
        wal_agrees_def op_bytes_def split: io.splits)
  from synced_agrees [OF assms(5,4) _ this] assms(3) show ?thesis by simp
qed

lemma wal_truncate_since_agrees:
  assumes "wal_truncate_since cdc outs since inner w = (w', Ok u)" "codec_ok cdc"
    and "wal_agrees cdc w (log, q)" "op_fits cdc (OpTruncate since)"
    and "ms_log inner = bt_retain (\<lambda>k. k < since) log" "ms_last_purged inner = q"
    and "log_keyed log" "log_fits cdc log q"
  shows "wal_agrees cdc w' (ms_log inner, ms_last_purged inner)"
proof -
  obtain o1 o2 o3 p w1 where p: "ser_truncate cdc since = Some p"
    and a: "append_record cdc o1 Truncate p w = (w1, Ok ())"
    and c: "compact_if_large cdc o2 o3 inner w1 = (w', Ok u)"
    using assms(1) by (auto simp: wal_truncate_since_def split: prod.splits sum.splits option.splits)
  have "wal_agrees cdc w1 (op_effect (OpTruncate since) (log, q))"
    using p by (intro append_record_agrees [OF a _ assms(4,2,3)]) simp
  then have "wal_agrees cdc w1 (ms_log inner, ms_last_purged inner)" by (simp add: assms(5,6))
  moreover have "log_keyed (ms_log inner)" "log_fits cdc (ms_log inner) (ms_last_purged inner)"
    using log_keyed_retain [OF assms(7)] log_fits_retain [OF assms(8)] by (simp_all add: assms(5,6))
  ultimately show ?thesis by (rule compact_if_large_agrees [OF c assms(2)])
qed

lemma wal_purge_upto_agrees:
  assumes "wal_purge_upto cdc outs i inner w = (w', Ok u)" "codec_ok cdc"
    and "wal_agrees cdc w (log, q)" "op_fits cdc (OpPurge i)"
    and "ms_log inner = bt_retain (\<lambda>k. k > lid_index i) log" "ms_last_purged inner = Some i"
    and "log_keyed log" "log_fits cdc log q"
  shows "wal_agrees cdc w' (ms_log inner, ms_last_purged inner)"
proof -
  obtain o1 o2 o3 p w1 where p: "ser_purge cdc i = Some p"
    and a: "append_record cdc o1 Purge p w = (w1, Ok ())"
    and c: "compact_if_large cdc o2 o3 inner w1 = (w', Ok u)"
    using assms(1) by (auto simp: wal_purge_upto_def split: prod.splits sum.splits option.splits)
  have w1: "wal_agrees cdc w1 (op_effect (OpPurge i) (log, q))"
    using p by (intro append_record_agrees [OF a _ assms(4,2,3)]) simp
  have "log_fits cdc (ms_log inner) (ms_last_purged inner)"
    using assms(4-8) log_fits_retain [OF assms(8)] by (auto simp: log_fits_def)
  moreover have "wal_agrees cdc w1 (ms_log inner, ms_last_purged inner)" using w1 by (simp add: assms(5,6))
  moreover have "log_keyed (ms_log inner)" using log_keyed_retain [OF assms(7)] by (simp add: assms(5))
  ultimately show ?thesis by (intro compact_if_large_agrees [OF c assms(2)])
qed

section \<open>Durability\<close>

text \<open>What the store relies on of \<open>serde_json\<close>: reading back what was written.\<close>

definition json_ok :: "('l, 'm, 'v) json \<Rightarrow> bool" where
  "json_ok js \<longleftrightarrow>
    (\<forall>x j. ser_hard_state js x = Some j \<longrightarrow> de_hard_state js j = Some x) \<and>
    (\<forall>x j. ser_membership js x = Some j \<longrightarrow> de_membership js j = Some x) \<and>
    (\<forall>x j. ser_snapshot js x = Some j \<longrightarrow> de_snapshot js j = Some x) \<and>
    (\<forall>x j. ser_machine js x = Some j \<longrightarrow> de_machine js j = Some x)"

text \<open>The files hold what is in memory; a file that was never written stands for the default.\<close>

definition hard_state_synced :: "('l, 'm, 'v) json \<Rightarrow> string option \<Rightarrow> 'v option \<Rightarrow> 'l log_id option \<Rightarrow> bool" where
  "hard_state_synced js file vote committed \<longleftrightarrow>
    (case file of
       None \<Rightarrow> vote = None \<and> committed = None
     | Some j \<Rightarrow> de_hard_state js j = Some (vote, committed))"

definition machine_synced :: "('l, 'm, 'v) json \<Rightarrow> string option \<Rightarrow> kv_state_machine \<Rightarrow> bool" where
  "machine_synced js file sm \<longleftrightarrow>
    (case file of None \<Rightarrow> sm = new_state_machine | Some j \<Rightarrow> de_machine js j = Some sm)"

definition membership_synced ::
  "('l, 'm, 'v) json \<Rightarrow> 'm \<Rightarrow> string option \<Rightarrow> 'l log_id option \<Rightarrow> ('l, 'm) stored_membership \<Rightarrow> bool" where
  "membership_synced js m0 file applied mem \<longleftrightarrow>
    (case file of
       None \<Rightarrow> applied = None \<and> mem = StoredMembership None m0
     | Some j \<Rightarrow> de_membership js j = Some (applied, mem))"

definition snapshot_synced :: "('l, 'm, 'v) json \<Rightarrow> string option \<Rightarrow> ('l, 'm) stored_snapshot option \<Rightarrow> bool" where
  "snapshot_synced js file snap \<longleftrightarrow>
    (case file of None \<Rightarrow> snap = None | Some j \<Rightarrow> snap \<noteq> None \<and> de_snapshot js j = snap)"

definition log_synced ::
  "('l, 'm) codec \<Rightarrow> wal_writer option \<Rightarrow> ('l, 'm) raft_log \<Rightarrow> 'l log_id option \<Rightarrow> bool" where
  "log_synced cdc writer log q \<longleftrightarrow>
    (\<exists>w. writer = Some w \<and> wal_agrees cdc w (log, q)) \<and> log_keyed log \<and> log_fits cdc log q"

definition store_synced ::
  "('l, 'm) codec \<Rightarrow> ('l, 'm, 'v) json \<Rightarrow> 'm \<Rightarrow> ('l, 'm, 'v) mem_store \<Rightarrow> bool" where
  "store_synced cdc js m0 st \<longleftrightarrow>
    (\<exists>d. st_disk st = Some d \<and>
      hard_state_synced js (f_hard_state d) (ms_vote (st_inner st)) (ms_committed (st_inner st)) \<and>
      machine_synced js (f_state_machine d) (ms_state_machine (st_inner st)) \<and>
      membership_synced js m0 (f_membership d) (ms_last_applied_log (st_inner st)) (ms_last_membership (st_inner st)) \<and>
      snapshot_synced js (f_snapshot d) (ms_snapshot (st_inner st)) \<and>
      log_synced cdc (f_wal d) (ms_log (st_inner st)) (ms_last_purged (st_inner st)))"

lemmas synced_defs = hard_state_synced_def machine_synced_def membership_synced_def
  snapshot_synced_def log_synced_def

lemma synced_Some:
  "hard_state_synced js (Some j) v c \<longleftrightarrow> de_hard_state js j = Some (v, c)"
  "machine_synced js (Some j) sm \<longleftrightarrow> de_machine js j = Some sm"
  "membership_synced js m0 (Some j) a mem \<longleftrightarrow> de_membership js j = Some (a, mem)"
  "snapshot_synced js (Some j) (Some snap) \<longleftrightarrow> de_snapshot js j = Some snap"
  by (simp_all add: synced_defs)

lemma restart_from_log:
  assumes "store_synced cdc js m0 st" "st_disk st = Some d" "file_state cdc bs = (l, q)"
  shows "st_inner (new_persistent cdc js m0 (f_hard_state d) (f_state_machine d) (f_membership d)
      (f_snapshot d) True (Some bs)) = (st_inner st)\<lparr>ms_log := l, ms_last_purged := q\<rparr>"
proof -
  have s: "hard_state_synced js (f_hard_state d) (ms_vote (st_inner st)) (ms_committed (st_inner st))"
      "machine_synced js (f_state_machine d) (ms_state_machine (st_inner st))"
      "membership_synced js m0 (f_membership d) (ms_last_applied_log (st_inner st)) (ms_last_membership (st_inner st))"
      "snapshot_synced js (f_snapshot d) (ms_snapshot (st_inner st))"
    using assms(1,2) by (auto simp: store_synced_def)
  have w: "rr_log (snd (wal_open cdc (Some bs))) = l" "rr_last_purged (snd (wal_open cdc (Some bs))) = q"
    using assms(3) by (auto simp: file_state_def rr_state_def wal_open_def Let_def)
  show ?thesis
    using s w
    by (cases "st_inner st"; cases "wal_open cdc (Some bs)")
      (auto simp: new_persistent_def synced_defs default_inner_def load_from_disk_def Let_def
        split: option.splits)
qed

lemma restart_synced:
  assumes "store_synced cdc js m0 st"
  shows "st_inner (restart cdc js m0 st) = st_inner st"
proof -
  obtain d w where d: "st_disk st = Some d" "f_wal d = Some w"
    and w: "wal_agrees cdc w (ms_log (st_inner st), ms_last_purged (st_inner st))"
    using assms by (auto simp: store_synced_def log_synced_def)
  have "file_state cdc (ww_file w) = (ms_log (st_inner st), ms_last_purged (st_inner st))"
    using w by (simp add: wal_agrees_def)
  from restart_from_log [OF assms d(1) this] show ?thesis using d by (simp add: restart_def)
qed

text \<open>The operations openraft calls, as one step type.\<close>

datatype ('l, 'm, 'v) store_op =
    SaveVote 'v
  | SaveCommitted "'l log_id option"
  | AppendToLog "('l, 'm) log_entry list"
  | DeleteConflict "'l log_id"
  | PurgeUpto "'l log_id"
  | ApplyEntries u64 "('l, 'm) log_entry list"
  | BuildSnapshot
  | InstallSnapshot "('l, 'm) stored_snapshot"

definition drop_result :: "'s \<times> ('e, 'a) res \<Rightarrow> 's \<times> ('e, unit) res" where
  "drop_result x = (case x of (s, Inl e) \<Rightarrow> (s, Err e) | (s, Inr _) \<Rightarrow> (s, Ok ()))"

fun store_step ::
  "('l, 'm) codec \<Rightarrow> ('l, 'm, 'v) json \<Rightarrow> ('l, 'm, 'v) store_op \<Rightarrow> io \<times> io \<times> io \<times> io \<Rightarrow>
    ('l, 'm, 'v) mem_store \<Rightarrow> ('l, 'm, 'v) store_result" where
  "store_step cdc js (SaveVote v) (o1, _) st = save_vote js o1 v st"
| "store_step cdc js (SaveCommitted c) (o1, _) st = save_committed js o1 c st"
| "store_step cdc js (AppendToLog es) (o1, o2, o3, _) st = append_to_log cdc (o1, o2, o3) es st"
| "store_step cdc js (DeleteConflict i) (o1, o2, o3, _) st = delete_conflict_logs_since cdc (o1, o2, o3) i st"
| "store_step cdc js (PurgeUpto i) (o1, o2, o3, _) st = purge_logs_upto cdc (o1, o2, o3) i st"
| "store_step cdc js (ApplyEntries clock es) (o1, o2, _) st =
     drop_result (apply_to_state_machine js clock (o1, o2) es st)"
| "store_step cdc js BuildSnapshot (o1, _) st = drop_result (build_snapshot js o1 st)"
| "store_step cdc js (InstallSnapshot snap) outs st = install_snapshot js outs snap st"

fun store_run ::
  "('l, 'm) codec \<Rightarrow> ('l, 'm, 'v) json \<Rightarrow> (('l, 'm, 'v) store_op \<times> io \<times> io \<times> io \<times> io) list \<Rightarrow>
    ('l, 'm, 'v) mem_store \<Rightarrow> ('l, 'm, 'v) store_result" where
  "store_run cdc js [] st = (st, Ok ())"
| "store_run cdc js ((op, outs) # ops) st =
     (case store_step cdc js op outs st of
        (st1, Inl e) \<Rightarrow> (st1, Err e)
      | (st1, Inr _) \<Rightarrow> store_run cdc js ops st1)"

text \<open>Every record an operation writes is within the replay limit.\<close>

fun store_op_fits :: "('l, 'm) codec \<Rightarrow> ('l, 'm, 'v) store_op \<Rightarrow> bool" where
  "store_op_fits cdc (AppendToLog es) = (\<forall>e \<in> set es. op_fits cdc (OpAppend e))"
| "store_op_fits cdc (DeleteConflict i) = op_fits cdc (OpTruncate (lid_index i))"
| "store_op_fits cdc (PurgeUpto i) = op_fits cdc (OpPurge i)"
| "store_op_fits cdc _ = True"

lemma persist_hard_state_Ok:
  assumes "persist_hard_state js out st = (st', Ok u)" "json_ok js" "st_disk st = Some d"
  shows "\<exists>j. st' = st\<lparr>st_disk := Some (d\<lparr>f_hard_state := Some j\<rparr>)\<rparr> \<and>
    de_hard_state js j = Some (ms_vote (st_inner st), ms_committed (st_inner st))"
  using assms by (auto simp: persist_hard_state_def atomic_write_json_def json_ok_def
      split: option.splits io.splits)

lemma persist_state_machine_Ok:
  assumes "persist_state_machine js out st = (st', Ok u)" "json_ok js" "st_disk st = Some d"
  shows "\<exists>j. st' = st\<lparr>st_disk := Some (d\<lparr>f_state_machine := Some j\<rparr>)\<rparr> \<and>
    de_machine js j = Some (ms_state_machine (st_inner st))"
  using assms by (auto simp: persist_state_machine_def atomic_write_json_def json_ok_def
      split: option.splits io.splits)

lemma persist_membership_Ok:
  assumes "persist_membership js out st = (st', Ok u)" "json_ok js" "st_disk st = Some d"
  shows "\<exists>j. st' = st\<lparr>st_disk := Some (d\<lparr>f_membership := Some j\<rparr>)\<rparr> \<and>
    de_membership js j = Some (ms_last_applied_log (st_inner st), ms_last_membership (st_inner st))"
  using assms by (auto simp: persist_membership_def atomic_write_json_def json_ok_def
      split: option.splits io.splits)

lemma persist_snapshot_Ok:
  assumes "persist_snapshot js out st = (st', Ok u)" "json_ok js" "st_disk st = Some d"
    and "ms_snapshot (st_inner st) = Some snap"
  shows "\<exists>j. st' = st\<lparr>st_disk := Some (d\<lparr>f_snapshot := Some j\<rparr>)\<rparr> \<and> de_snapshot js j = Some snap"
  using assms by (auto simp: persist_snapshot_def atomic_write_json_def json_ok_def
      split: option.splits io.splits)

lemma apply_entries_frame:
  "apply_entries clock es inner = (inner', rs) \<Longrightarrow>
    ms_vote inner' = ms_vote inner \<and> ms_committed inner' = ms_committed inner \<and>
    ms_log inner' = ms_log inner \<and> ms_last_purged inner' = ms_last_purged inner \<and>
    ms_snapshot inner' = ms_snapshot inner"
  by (induction es arbitrary: inner rs)
    (fastforce simp: apply_entry_def Let_def split: prod.splits entry_payload.splits)+

lemma with_wal_Ok:
  assumes "with_wal f st = (st', Ok u)" "st_disk st = Some d" "f_wal d = Some w"
  shows "\<exists>w'. f w = (w', Ok ()) \<and> st' = st\<lparr>st_disk := Some (d\<lparr>f_wal := Some w'\<rparr>)\<rparr>"
  using assms by (auto simp: with_wal_def split: prod.splits)

lemma storage_err_Ok: "storage_err e x = (st, Ok u) \<longleftrightarrow> x = (st, Ok ())"
  by (auto simp: storage_err_def split: prod.splits sum.splits)

lemma save_hard_state_synced:
  assumes "persist_hard_state js out (st\<lparr>st_inner := inner\<rparr>) = (st', Ok u)" "json_ok js"
    and "store_synced cdc js m0 st"
    and "inner = (st_inner st)\<lparr>ms_vote := v, ms_committed := c\<rparr>"
  shows "store_synced cdc js m0 st'"
proof -
  obtain d where d: "st_disk st = Some d" using assms(3) by (auto simp: store_synced_def)
  obtain j where "st' = st\<lparr>st_inner := inner, st_disk := Some (d\<lparr>f_hard_state := Some j\<rparr>)\<rparr>"
      "de_hard_state js j = Some (ms_vote inner, ms_committed inner)"
    using persist_hard_state_Ok [OF assms(1,2), of d] d by auto
  then show ?thesis using assms(3,4) d by (simp add: store_synced_def synced_Some)
qed

lemma log_op_synced:
  assumes "with_wal f (st\<lparr>st_inner := inner\<rparr>) = (st', Ok u)" "store_synced cdc js m0 st"
    and "\<And>w w'. \<lbrakk>wal_agrees cdc w (ms_log (st_inner st), ms_last_purged (st_inner st)); f w = (w', Ok ())\<rbrakk> \<Longrightarrow>
           wal_agrees cdc w' (ms_log inner, ms_last_purged inner)"
    and "log_keyed (ms_log inner)" "log_fits cdc (ms_log inner) (ms_last_purged inner)"
    and "inner = (st_inner st)\<lparr>ms_log := l, ms_last_purged := q\<rparr>"
  shows "store_synced cdc js m0 st'"
proof -
  obtain d w where d: "st_disk st = Some d" "f_wal d = Some w"
    and w: "wal_agrees cdc w (ms_log (st_inner st), ms_last_purged (st_inner st))"
    using assms(2) by (auto simp: store_synced_def log_synced_def)
  obtain w' where w': "f w = (w', Ok ())" "st' = st\<lparr>st_inner := inner, st_disk := Some (d\<lparr>f_wal := Some w'\<rparr>)\<rparr>"
    using with_wal_Ok [OF assms(1), of d w] d by auto
  have "wal_agrees cdc w' (ms_log inner, ms_last_purged inner)" by (rule assms(3) [OF w w'(1)])
  then show ?thesis
    using assms(2,4,5,6) d w'(2) by (simp add: store_synced_def log_synced_def)
qed

lemma synced_log:
  assumes "store_synced cdc js m0 st"
  shows "log_keyed (ms_log (st_inner st))"
    and "log_fits cdc (ms_log (st_inner st)) (ms_last_purged (st_inner st))"
  using assms by (auto simp: store_synced_def log_synced_def)

lemma append_to_log_synced:
  assumes "append_to_log cdc outs es st = (st', Ok u)" "codec_ok cdc" "store_synced cdc js m0 st"
    and "\<forall>e \<in> set es. op_fits cdc (OpAppend e)"
  shows "store_synced cdc js m0 st'"
proof -
  let ?inner = "(st_inner st)\<lparr>ms_log := fold insert_entry es (ms_log (st_inner st))\<rparr>"
  note l = synced_log [OF assms(3)]
  have w: "with_wal (wal_append_entries cdc outs es ?inner) (st\<lparr>st_inner := ?inner\<rparr>) = (st', Ok ())"
    using assms(1) by (simp add: append_to_log_def storage_err_Ok Let_def)
  show ?thesis
  proof (rule log_op_synced [OF w assms(3), where q = "ms_last_purged (st_inner st)"])
    fix w w'
    assume a: "wal_agrees cdc w (ms_log (st_inner st), ms_last_purged (st_inner st))"
      and b: "wal_append_entries cdc outs es ?inner w = (w', Ok ())"
    show "wal_agrees cdc w' (ms_log ?inner, ms_last_purged ?inner)"
      by (rule wal_append_entries_agrees [OF b assms(2) a assms(4) _ _ l]) simp_all
  qed (simp_all add: log_keyed_fold [OF l(1)] log_fits_fold [OF l(2) assms(4)])
qed

lemma delete_conflict_synced:
  assumes "delete_conflict_logs_since cdc outs i st = (st', Ok u)" "codec_ok cdc" "store_synced cdc js m0 st"
    and "op_fits cdc (OpTruncate (lid_index i))"
  shows "store_synced cdc js m0 st'"
proof -
  let ?inner = "(st_inner st)\<lparr>ms_log := bt_retain (\<lambda>k. k < lid_index i) (ms_log (st_inner st))\<rparr>"
  note l = synced_log [OF assms(3)]
  have w: "with_wal (wal_truncate_since cdc outs (lid_index i) ?inner) (st\<lparr>st_inner := ?inner\<rparr>) = (st', Ok ())"
    using assms(1) by (simp add: delete_conflict_logs_since_def storage_err_Ok Let_def)
  show ?thesis
  proof (rule log_op_synced [OF w assms(3), where q = "ms_last_purged (st_inner st)"])
    fix w w'
    assume a: "wal_agrees cdc w (ms_log (st_inner st), ms_last_purged (st_inner st))"
      and b: "wal_truncate_since cdc outs (lid_index i) ?inner w = (w', Ok ())"
    show "wal_agrees cdc w' (ms_log ?inner, ms_last_purged ?inner)"
      by (rule wal_truncate_since_agrees [OF b assms(2) a assms(4) _ _ l]) simp_all
  qed (simp_all add: log_keyed_retain [OF l(1)] log_fits_retain [OF l(2)])
qed

lemma purge_synced:
  assumes "purge_logs_upto cdc outs i st = (st', Ok u)" "codec_ok cdc" "store_synced cdc js m0 st"
    and "op_fits cdc (OpPurge i)"
  shows "store_synced cdc js m0 st'"
proof -
  let ?inner = "(st_inner st)\<lparr>ms_log := bt_retain (\<lambda>k. k > lid_index i) (ms_log (st_inner st)),
    ms_last_purged := Some i\<rparr>"
  note l = synced_log [OF assms(3)]
  have w: "with_wal (wal_purge_upto cdc outs i ?inner) (st\<lparr>st_inner := ?inner\<rparr>) = (st', Ok ())"
    using assms(1) by (simp add: purge_logs_upto_def storage_err_Ok Let_def)
  have f: "log_fits cdc (ms_log ?inner) (Some i)"
    using log_fits_retain [OF l(2)] assms(4) by (auto simp: log_fits_def)
  show ?thesis
  proof (rule log_op_synced [OF w assms(3)])
    fix w w'
    assume a: "wal_agrees cdc w (ms_log (st_inner st), ms_last_purged (st_inner st))"
      and b: "wal_purge_upto cdc outs i ?inner w = (w', Ok ())"
    show "wal_agrees cdc w' (ms_log ?inner, ms_last_purged ?inner)"
      by (rule wal_purge_upto_agrees [OF b assms(2) a assms(4) _ _ l]) simp_all
  qed (use f in \<open>simp_all add: log_keyed_retain [OF l(1)]\<close>)
qed

lemma apply_synced:
  assumes "apply_to_state_machine js clock outs es st = (st', Ok rs)" "json_ok js" "store_synced cdc js m0 st"
  shows "store_synced cdc js m0 st'"
proof -
  obtain d where d: "st_disk st = Some d" using assms(3) by (auto simp: store_synced_def)
  obtain o1 o2 inner rs' st1 where outs: "outs = (o1, o2)"
    and ap: "apply_entries clock es (st_inner st) = (inner, rs')"
    and p1: "persist_state_machine js o1 (st\<lparr>st_inner := inner\<rparr>) = (st1, Ok ())"
    and p2: "persist_membership js o2 st1 = (st', Ok ())"
    using assms(1) by (auto simp: apply_to_state_machine_def split: prod.splits sum.splits)
  obtain j1 where st1: "st1 = st\<lparr>st_inner := inner, st_disk := Some (d\<lparr>f_state_machine := Some j1\<rparr>)\<rparr>"
      "de_machine js j1 = Some (ms_state_machine inner)"
    using persist_state_machine_Ok [OF p1 assms(2), of d] d by auto
  obtain j2 where "st' = st1\<lparr>st_disk := Some (d\<lparr>f_state_machine := Some j1, f_membership := Some j2\<rparr>)\<rparr>"
      "de_membership js j2 = Some (ms_last_applied_log inner, ms_last_membership inner)"
    using persist_membership_Ok [OF p2 assms(2)] st1 by auto
  then show ?thesis
    using apply_entries_frame [OF ap] assms(3) st1 d by (simp add: store_synced_def synced_Some)
qed

lemma build_snapshot_synced:
  assumes "build_snapshot js out st = (st', Ok snap)" "json_ok js" "store_synced cdc js m0 st"
  shows "store_synced cdc js m0 st'"
proof -
  obtain d where d: "st_disk st = Some d" using assms(3) by (auto simp: store_synced_def)
  obtain snap where p: "persist_snapshot js out (st\<lparr>st_inner := (st_inner st)\<lparr>ms_snapshot := Some snap\<rparr>\<rparr>) = (st', Ok ())"
    using assms(1) by (auto simp: build_snapshot_def Let_def split: prod.splits sum.splits option.splits)
  obtain j where "st' = st\<lparr>st_inner := (st_inner st)\<lparr>ms_snapshot := Some snap\<rparr>, st_disk := Some (d\<lparr>f_snapshot := Some j\<rparr>)\<rparr>"
      "de_snapshot js j = Some snap"
    using persist_snapshot_Ok [OF p assms(2), of d snap] d by auto
  then show ?thesis using assms(3) d by (simp add: store_synced_def synced_Some)
qed

lemma install_snapshot_synced:
  assumes "install_snapshot js outs snap st = (st', Ok u)" "json_ok js" "store_synced cdc js m0 st"
  shows "store_synced cdc js m0 st'"
proof -
  obtain d where d: "st_disk st = Some d" using assms(3) by (auto simp: store_synced_def)
  obtain o1 o2 o3 o4 machine st1 st2 st3 where
      p1: "persist_state_machine js o1 (st\<lparr>st_inner := (st_inner st)\<lparr>ms_state_machine := machine,
             ms_last_applied_log := snap_last_log_id snap,
             ms_last_membership := snap_last_membership snap, ms_snapshot := Some snap\<rparr>\<rparr>) = (st1, Ok ())"
    and p2: "persist_membership js o2 st1 = (st2, Ok ())" and p3: "persist_snapshot js o3 st2 = (st3, Ok ())"
    and p4: "persist_hard_state js o4 st3 = (st', Ok ())"
    using assms(1) by (auto simp: install_snapshot_def Let_def storage_err_Ok
        split: prod.splits sum.splits option.splits)
  obtain j1 where st1: "st_disk st1 = Some (d\<lparr>f_state_machine := Some j1\<rparr>)" "de_machine js j1 = Some machine"
      "st_inner st1 = (st_inner st)\<lparr>ms_state_machine := machine, ms_last_applied_log := snap_last_log_id snap,
             ms_last_membership := snap_last_membership snap, ms_snapshot := Some snap\<rparr>"
    using persist_state_machine_Ok [OF p1 assms(2), of d] d by auto
  obtain j2 where st2: "st_disk st2 = Some (d\<lparr>f_state_machine := Some j1, f_membership := Some j2\<rparr>)"
      "de_membership js j2 = Some (snap_last_log_id snap, snap_last_membership snap)" "st_inner st2 = st_inner st1"
    using persist_membership_Ok [OF p2 assms(2) st1(1)] st1(3) by auto
  obtain j3 where st3: "st_disk st3 = Some (d\<lparr>f_state_machine := Some j1, f_membership := Some j2, f_snapshot := Some j3\<rparr>)"
      "de_snapshot js j3 = Some snap" "st_inner st3 = st_inner st1"
    using persist_snapshot_Ok [OF p3 assms(2) st2(1)] st1(3) st2(3) by auto
  obtain j4 where "st_disk st' = Some (d\<lparr>f_state_machine := Some j1, f_membership := Some j2, f_snapshot := Some j3,
        f_hard_state := Some j4\<rparr>)" "st_inner st' = st_inner st1"
      "de_hard_state js j4 = Some (ms_vote (st_inner st1), ms_committed (st_inner st1))"
    using persist_hard_state_Ok [OF p4 assms(2) st3(1)] st3(3) by auto
  then show ?thesis
    using assms(3) st1(2,3) st2(2) st3(2) d by (simp add: store_synced_def synced_Some)
qed

lemma store_step_synced:
  assumes "store_step cdc js op outs st = (st', Ok u)" "codec_ok cdc" "json_ok js"
    and "store_op_fits cdc op" "store_synced cdc js m0 st"
  shows "store_synced cdc js m0 st'"
proof -
  obtain o1 o2 o3 o4 where outs: "outs = (o1, o2, o3, o4)" by (cases outs)
  show ?thesis
  proof (cases op)
    case (SaveVote v)
    then have "persist_hard_state js o1 (st\<lparr>st_inner := (st_inner st)\<lparr>ms_vote := Some v\<rparr>\<rparr>) = (st', Ok ())"
      using assms(1) outs by (simp add: save_vote_def storage_err_Ok)
    then show ?thesis
      by (rule save_hard_state_synced [OF _ assms(3,5), where v = "Some v" and c = "ms_committed (st_inner st)"]) simp
  next
    case (SaveCommitted c)
    then have "persist_hard_state js o1 (st\<lparr>st_inner := (st_inner st)\<lparr>ms_committed := c\<rparr>\<rparr>) = (st', Ok ())"
      using assms(1) outs by (simp add: save_committed_def storage_err_Ok)
    then show ?thesis
      by (rule save_hard_state_synced [OF _ assms(3,5), where v = "ms_vote (st_inner st)" and c = c]) simp
  qed (use assms outs in \<open>auto simp: drop_result_def split: prod.splits sum.splits
        intro: append_to_log_synced delete_conflict_synced purge_synced apply_synced
          build_snapshot_synced install_snapshot_synced\<close>)
qed

lemma store_run_synced:
  assumes "store_run cdc js ops st = (st', Ok u)" "codec_ok cdc" "json_ok js"
    and "\<forall>(op, outs) \<in> set ops. store_op_fits cdc op" "store_synced cdc js m0 st"
  shows "store_synced cdc js m0 st'"
  using assms(1,4,5)
proof (induction ops arbitrary: st)
  case Nil
  then show ?case by simp
next
  case (Cons x ops)
  obtain op outs where x: "x = (op, outs)" by (cases x)
  obtain st1 where "store_step cdc js op outs st = (st1, Ok ())" "store_run cdc js ops st1 = (st', Ok u)"
    using Cons.prems(1) x by (auto split: prod.splits sum.splits)
  then show ?case using Cons store_step_synced [OF _ assms(2,3)] x by auto
qed

lemma new_persistent_synced: "store_synced cdc js m0 (new_persistent cdc js m0 None None None None True None)"
  by (auto simp: store_synced_def synced_defs new_persistent_def default_inner_def load_from_disk_def
      wal_open_def wal_agrees_def file_clean_def file_state_def replay_wal_def empty_replay_def rr_state_def
      log_keyed_def log_fits_def bt_values_def Let_def)

text \<open>
  C10. Durability: when the store was opened on an empty data directory with its write-ahead log, and every record a call writes
  to that log fits the 16 MiB the reader accepts, then after any sequence of storage calls that all returned
  success a restart that opens the log rebuilds the vote, the committed index, the log, the purge point, the state
  machine, the applied index, the membership and the snapshot exactly. The encodings are assumed to read back what they
  write. Neither side condition can go: \<open>unopened_log_acknowledges_volatile_entries\<close> below and \<open>oversized_append_hides_suffix\<close> of
  the log show what is lost otherwise.
\<close>

theorem acknowledged_state_survives_restart:
  assumes "codec_ok cdc" and "json_ok js"
    and "\<forall>(op, outs) \<in> set ops. store_op_fits cdc op"
    and "store_run cdc js ops (new_persistent cdc js m0 None None None None True None) = (st, Ok ())"
  shows "st_inner (restart cdc js m0 st) = st_inner st"
  by (rule restart_synced [OF store_run_synced [OF assms(4,1,2,3) new_persistent_synced]])

definition demo_json :: "(unit, unit, unit) json" where
  "demo_json =
    \<lparr>ser_hard_state = (\<lambda>x. if x = (Some (), None) then Some ''h'' else None),
     de_hard_state = (\<lambda>_. Some (Some (), None)),
     ser_membership = (\<lambda>x. if x = (Some \<lparr>lid_leader_id = (), lid_index = 1\<rparr>, StoredMembership None ()) then Some ''a'' else None),
     de_membership = (\<lambda>_. Some (Some \<lparr>lid_leader_id = (), lid_index = 1\<rparr>, StoredMembership None ())),
     ser_snapshot = (\<lambda>_. None), de_snapshot = (\<lambda>_. None),
     ser_machine = (\<lambda>x. if x = new_state_machine then Some ''m'' else None),
     de_machine = (\<lambda>_. Some new_state_machine), snapshot_name = (\<lambda>_. ''s'')\<rparr>"

lemma demo_json_ok: "json_ok demo_json"
  by (simp add: json_ok_def demo_json_def)

definition demo_ops :: "((unit, unit, unit) store_op \<times> io \<times> io \<times> io \<times> io) list" where
  "demo_ops = [(SaveVote (), IoOk, IoOk, IoOk, IoOk), (AppendToLog [demo_entry], IoOk, IoOk, IoOk, IoOk),
     (ApplyEntries 5 [demo_entry], IoOk, IoOk, IoOk, IoOk)]"

lemma demo_run:
  "\<exists>st. store_run demo_codec demo_json demo_ops (new_persistent demo_codec demo_json () None None None None True None) =
      (st, Ok ()) \<and> ms_log (st_inner st) = [(1, demo_entry)] \<and> ms_vote (st_inner st) = Some () \<and>
      ms_last_applied_log (st_inner st) = Some \<lparr>lid_leader_id = (), lid_index = 1\<rparr>"
  by (simp add: demo_ops_def demo_entry_def save_vote_def append_to_log_def apply_to_state_machine_def
      new_persistent_def default_inner_def wal_open_def replay_wal_def empty_replay_def load_from_disk_def
      persist_hard_state_def persist_state_machine_def persist_membership_def atomic_write_json_def
      with_wal_def storage_err_def drop_result_def wal_append_entries_def append_record_buffered_def
      wal_sync_def compact_if_large_def COMPACTION_THRESHOLD_def HEADER_SIZE_def CRC_SIZE_def
      insert_entry_def apply_entry_def demo_codec_def demo_json_def Let_def)

theorem acknowledged_state_survives_restart_witness:
  "\<exists>st. store_run demo_codec demo_json demo_ops (new_persistent demo_codec demo_json () None None None None True None) =
      (st, Ok ()) \<and> ms_log (st_inner (restart demo_codec demo_json () st)) = [(1, demo_entry)] \<and>
      ms_vote (st_inner (restart demo_codec demo_json () st)) = Some ()"
proof -
  have "\<forall>(op, outs) \<in> set demo_ops. store_op_fits demo_codec op" using demo_fits(1) by (simp add: demo_ops_def)
  from acknowledged_state_survives_restart [OF demo_codec_ok demo_json_ok this, of "()"] demo_run
  show ?thesis by fastforce
qed

lemma buffer_entries_fit:
  "\<forall>e \<in> set es. op_fits cdc (OpAppend e) \<Longrightarrow> \<exists>w1. buffer_entries cdc es w = (w1, Ok ())"
  by (induction es arbitrary: w) (auto simp: op_fits_def is_some_and_def split: option.splits)

lemma failed_sync_recovers_prefix:
  assumes "codec_ok cdc" "\<forall>op \<in> set ops. op_fits cdc op" "file_clean cdc bs"
  shows "\<exists>k \<le> length ops. file_state cdc (bs @ take n (concat (map (op_bytes cdc) ops))) =
    fold op_effect (take k ops) (file_state cdc bs)"
proof -
  obtain k m where k: "k \<le> length ops"
    and t: "take n (concat (map (op_bytes cdc) ops)) = concat (map (op_bytes cdc) (take k ops)) @
        (if k < length ops then take m (op_bytes cdc (ops ! k)) else [])"
    and m: "k < length ops \<longrightarrow> m < length (op_bytes cdc (ops ! k))"
    using take_concat_split [of ops n "op_bytes cdc"] by blast
  have w: "\<forall>op \<in> set ops. op_writable cdc op" using assms(1,2) by (simp add: op_writable_def)
  have "file_state cdc (bs @ take n (concat (map (op_bytes cdc) ops))) = fold op_effect (take k ops) (file_state cdc bs)"
  proof (cases "k < length ops")
    case True
    then show ?thesis
      using m by (intro wal_log.recover_crash_in_batch [OF assms(3) w True])
        (auto simp: fold_file_append t file_torn_def)
  next
    case False
    then show ?thesis
      using wal_log.recover_writes [OF assms(3) w] k by (simp add: t fold_file_append)
  qed
  then show ?thesis using k by blast
qed

text \<open>
  C37. A failed or interrupted append: in a store that was opened on an empty data directory with its write-ahead log, and in which
  every record written before and every record of the batch fits the 16 MiB the reader accepts, when the sync of
  a batch fails after any number of its bytes reached the file, \<open>append_to_log\<close> reports an error, and a restart finds
  the log that was acknowledged before, extended by a prefix of the batch and by nothing else. The encodings are assumed to
  read back what they write. With a larger record the suffix behind it is lost (\<open>oversized_append_hides_suffix\<close>).
\<close>

theorem interrupted_append_recovers_prefix:
  assumes "codec_ok cdc" and "json_ok js"
    and "\<forall>(op, outs) \<in> set ops. store_op_fits cdc op" and "\<forall>e \<in> set es. op_fits cdc (OpAppend e)"
    and "store_run cdc js ops (new_persistent cdc js m0 None None None None True None) = (st, Ok ())"
  shows "snd (append_to_log cdc (IoFail n, o2, o3) es st) = Err Subject_Logs \<and>
    (\<exists>k \<le> length es. st_inner (restart cdc js m0 (fst (append_to_log cdc (IoFail n, o2, o3) es st))) =
       (st_inner st)\<lparr>ms_log := fold insert_entry (take k es) (ms_log (st_inner st))\<rparr>)"
proof -
  have sy: "store_synced cdc js m0 st"
    by (rule store_run_synced [OF assms(5,1,2,3) new_persistent_synced])
  then obtain d w where d: "st_disk st = Some d" "f_wal d = Some w"
    and w: "wal_agrees cdc w (ms_log (st_inner st), ms_last_purged (st_inner st))"
    by (auto simp: store_synced_def log_synced_def)
  obtain w1 where b: "buffer_entries cdc es w = (w1, Ok ())" using buffer_entries_fit [OF assms(4)] by blast
  let ?bs = "ww_file w @ take n (concat (map (op_bytes cdc) (map OpAppend es)))"
  define w2 where "w2 = w1\<lparr>ww_file := ?bs, ww_buffer := drop n (ww_buffer w1)\<rparr>"
  let ?inner = "(st_inner st)\<lparr>ms_log := fold insert_entry es (ms_log (st_inner st))\<rparr>"
  have ap: "append_to_log cdc (IoFail n, o2, o3) es st =
      (st\<lparr>st_inner := ?inner, st_disk := Some (d\<lparr>f_wal := Some w2\<rparr>)\<rparr>, Err Subject_Logs)"
    using buffer_entries_Ok [OF b] w d b
    by (simp add: append_to_log_def with_wal_def wal_append_entries_def wal_sync_def storage_err_def
        wal_agrees_def w2_def Let_def)
  have ops: "\<forall>op \<in> set (map OpAppend es). op_fits cdc op" using assms(4) by simp
  have w': "file_clean cdc (ww_file w)" "file_state cdc (ww_file w) = (ms_log (st_inner st), ms_last_purged (st_inner st))"
    using w by (simp_all add: wal_agrees_def)
  obtain k where k: "k \<le> length es" "file_state cdc ?bs =
      (fold insert_entry (take k es) (ms_log (st_inner st)), ms_last_purged (st_inner st))"
    using failed_sync_recovers_prefix [OF assms(1) ops w'(1), of n]
    by (auto simp: w'(2) fold_append_effect take_map)
  from restart_from_log [OF sy d(1) k(2)]
  have "st_inner (restart cdc js m0 (fst (append_to_log cdc (IoFail n, o2, o3) es st))) =
      (st_inner st)\<lparr>ms_log := fold insert_entry (take k es) (ms_log (st_inner st))\<rparr>"
    by (simp add: ap restart_def w2_def)
  then show ?thesis using ap k(1) by auto
qed

theorem interrupted_append_recovers_prefix_witness:
  "\<exists>st. store_run demo_codec demo_json demo_ops (new_persistent demo_codec demo_json () None None None None True None) =
      (st, Ok ()) \<and> snd (append_to_log demo_codec (IoFail 5, IoOk, IoOk) [demo_entry] st) = Err Subject_Logs"
proof -
  have f: "\<forall>(op, outs) \<in> set demo_ops. store_op_fits demo_codec op" "\<forall>e \<in> set [demo_entry]. op_fits demo_codec (OpAppend e)"
    using demo_fits(1) by (simp_all add: demo_ops_def)
  obtain st where st: "store_run demo_codec demo_json demo_ops
      (new_persistent demo_codec demo_json () None None None None True None) = (st, Ok ())"
    using demo_run by blast
  from interrupted_append_recovers_prefix [OF demo_codec_ok demo_json_ok f st, of 5 IoOk IoOk] st
  show ?thesis by blast
qed

section \<open>Two gaps\<close>

definition gap_machine :: kv_state_machine where
  "gap_machine = \<lparr>sm_data = [''k'' \<mapsto> \<lparr>kv_value = ''B'', kv_created_at = 1, kv_updated_at = 1,
     kv_expire_at = None, kv_version = 1\<rparr>], sm_last_applied_log = 1\<rparr>"

definition gap_entries :: "(unit, 'm) log_entry list" where
  "gap_entries =
    [\<lparr>le_log_id = \<lparr>lid_leader_id = (), lid_index = 2\<rparr>,
      le_payload = Normal (Request_Set ''k'' ''A'' None (Some False) None None 5)\<rparr>,
     \<lparr>le_log_id = \<lparr>lid_leader_id = (), lid_index = 3\<rparr>,
      le_payload = Normal (Request_Delete ''k'' (Some ''B'') False)\<rparr>]"

lemma gap_applied:
  "ms_state_machine inner = gap_machine \<Longrightarrow>
    sm_data (ms_state_machine (fst (apply_entries clock gap_entries inner))) = Map.empty \<and>
    ms_last_applied_log (fst (apply_entries clock gap_entries inner)) = Some \<lparr>lid_leader_id = (), lid_index = 3\<rparr>"
  by (simp add: gap_entries_def gap_machine_def apply_entry_def sm_apply_def apply_set_def apply_delete_def Let_def)

lemma gap_reapplied:
  "sm_data (ms_state_machine inner) = Map.empty \<Longrightarrow>
    map_option kv_value (sm_get (ms_state_machine (fst (apply_entries clock gap_entries inner))) t ''k'') = Some ''A''"
  by (simp add: gap_entries_def apply_entry_def sm_apply_def apply_set_def apply_delete_def Let_def
      sm_get_def is_expired_def)

text \<open>
  The state machine file and the applied-index file are written one after the other. When the
  node stops in between, a restart brings back the new data with the old applied index, so the
  same entries are applied a second time; here a conditional delete that first removed a key
  and a conditional create that was first refused leave the key present after the repetition,
  while a node that did not stop has deleted it.
\<close>

theorem apply_crash_window_reapplies:
  assumes "json_ok js" and "st_disk st = Some d" and "ms_state_machine (st_inner st) = gap_machine"
    and "ser_machine js (ms_state_machine (fst (apply_entries clock gap_entries (st_inner st)))) = Some j"
    and "membership_synced js m0 (f_membership d) (ms_last_applied_log (st_inner st)) (ms_last_membership (st_inner st))"
  shows "sm_get (ms_state_machine (fst (apply_entries clock gap_entries (st_inner st)))) t ''k'' = None \<and>
    (let st1 = restart cdc js m0 (fst (apply_to_state_machine js clock (IoOk, IoFail n) gap_entries st))
     in ms_last_applied_log (st_inner st1) = ms_last_applied_log (st_inner st) \<and>
        map_option kv_value (sm_get (ms_state_machine (fst (apply_entries clock gap_entries (st_inner st1)))) t ''k'') =
          Some ''A'')"
proof -
  let ?sm = "ms_state_machine (fst (apply_entries clock gap_entries (st_inner st)))"
  let ?st1 = "restart cdc js m0 (fst (apply_to_state_machine js clock (IoOk, IoFail n) gap_entries st))"
  have j: "de_machine js j = Some ?sm" using assms(1,4) by (auto simp: json_ok_def)
  have st1: "ms_state_machine (st_inner ?st1) = ?sm \<and> ms_last_applied_log (st_inner ?st1) = ms_last_applied_log (st_inner st)"
    using assms(2,4,5) j
    by (cases "apply_entries clock gap_entries (st_inner st)")
      (auto simp: apply_to_state_machine_def persist_state_machine_def persist_membership_def atomic_write_json_def
        restart_def new_persistent_def load_from_disk_def membership_synced_def default_inner_def Let_def
        split: option.splits prod.splits)
  have e: "sm_data ?sm = Map.empty" using gap_applied [OF assms(3)] by blast
  have "sm_data (ms_state_machine (st_inner ?st1)) = Map.empty" using st1 e by simp
  from gap_reapplied [OF this] show ?thesis using st1 e by (simp add: sm_get_def Let_def)
qed

definition gap_json :: "(unit, unit, unit) json" where
  "gap_json = demo_json
    \<lparr>ser_machine := (\<lambda>x. if x = \<lparr>sm_data = Map.empty, sm_last_applied_log = 3\<rparr> then Some ''m'' else None),
     de_machine := (\<lambda>_. Some \<lparr>sm_data = Map.empty, sm_last_applied_log = 3\<rparr>)\<rparr>"

definition gap_store :: "(unit, unit, unit) mem_store" where
  "gap_store = \<lparr>st_inner = (default_inner ())\<lparr>ms_state_machine := gap_machine,
       ms_last_applied_log := Some \<lparr>lid_leader_id = (), lid_index = 1\<rparr>\<rparr>,
     st_disk = Some \<lparr>f_hard_state = None, f_state_machine = None, f_membership = Some ''a'',
       f_snapshot = None, f_wal = None\<rparr>\<rparr>"

theorem apply_crash_window_reapplies_witness:
  "sm_get (ms_state_machine (fst (apply_entries 9 gap_entries (st_inner gap_store)))) 9 ''k'' = None \<and>
   (let st1 = restart demo_codec gap_json () (fst (apply_to_state_machine gap_json 9 (IoOk, IoFail 0) gap_entries gap_store))
     in ms_last_applied_log (st_inner st1) = Some \<lparr>lid_leader_id = (), lid_index = 1\<rparr> \<and>
        map_option kv_value (sm_get (ms_state_machine (fst (apply_entries 9 gap_entries (st_inner st1)))) 9 ''k'') =
          Some ''A'')"
proof -
  have 1: "json_ok gap_json" by (simp add: json_ok_def gap_json_def demo_json_def)
  have 2: "st_disk gap_store = Some \<lparr>f_hard_state = None, f_state_machine = None, f_membership = Some ''a'',
      f_snapshot = None, f_wal = None\<rparr>"
    "ms_state_machine (st_inner gap_store) = gap_machine"
    "ms_last_applied_log (st_inner gap_store) = Some \<lparr>lid_leader_id = (), lid_index = 1\<rparr>"
    "ms_last_membership (st_inner gap_store) = StoredMembership None ()"
    by (simp_all add: gap_store_def default_inner_def)
  have 3: "ser_machine gap_json (ms_state_machine (fst (apply_entries 9 gap_entries (st_inner gap_store)))) = Some ''m''"
    by (simp add: gap_json_def gap_entries_def gap_store_def gap_machine_def apply_entry_def sm_apply_def apply_set_def
        apply_delete_def Let_def)
  show ?thesis
    using apply_crash_window_reapplies [OF 1 2(1,2) 3, where ?m0.0 = "()" and t = 9 and cdc = demo_codec and n = 0]
    by (simp add: 2(3,4) membership_synced_def gap_json_def demo_json_def)
qed

text \<open>
  A log that cannot be opened does not stop the node: \<open>new_persistent\<close> goes on with log
  persistence disabled, and \<open>append_to_log\<close> then acknowledges entries that exist in memory only;
  the disk is unchanged and the next start finds the log of before.
\<close>

theorem unopened_log_acknowledges_volatile_entries:
  "let st = new_persistent cdc js m0 hard_state machine membership snapshot False wal_file
   in snd (append_to_log cdc outs es st) = Ok () \<and>
      ms_log (st_inner (fst (append_to_log cdc outs es st))) = fold insert_entry es [] \<and>
      st_disk (fst (append_to_log cdc outs es st)) = st_disk st \<and>
      ms_log (st_inner (new_persistent cdc js m0 hard_state machine membership snapshot True wal_file)) =
        rr_log (replay_wal cdc wal_file)"
  by (auto simp: new_persistent_def append_to_log_def with_wal_def storage_err_def default_inner_def
      wal_open_def Let_def split: option.splits prod.splits)

end
