(* ===== verification/Cluster.thy ===== *)
theory Cluster
  imports Prelude
begin

text \<open>
  The cluster view of \<open>crates/pg-ha-core/src/cluster.rs\<close> and the history buffer of
  \<open>history.rs\<close>: what the HA engine reads from the DCS. Rust strings are byte strings, compared
  byte-wise (\<open>HOL-Library.List_Lexorder\<close>); \<open>trim\<close> strips ASCII whitespace, the only whitespace the
  stored values are written with. A \<open>serde_json::Value\<close> is the datatype \<open>json_value\<close>.

  The lemmas show how names in \<open>/sync\<close> are matched, that a lookup by name is independent of the
  order of the member list, and that the history buffer is bounded, keeps the newest entries and
  ignores a repeated event.
\<close>

section \<open>Strings and JSON values\<close>

datatype json_value =
    JNull
  | JBool bool
  | JPosInt u64
  | JNegInt int
  | JFloat string
  | JString string
  | JArray "json_value list"
  | JObject "(string \<times> json_value) list"

fun as_bool :: "json_value \<Rightarrow> bool option" where
  "as_bool (JBool b) = Some b"
| "as_bool _ = None"

fun as_u64 :: "json_value \<Rightarrow> u64 option" where
  "as_u64 (JPosInt n) = Some n"
| "as_u64 _ = None"

fun as_str :: "json_value \<Rightarrow> string option" where
  "as_str (JString s) = Some s"
| "as_str _ = None"

definition is_ascii_space :: "char \<Rightarrow> bool" where
  "is_ascii_space c \<longleftrightarrow> of_char c = (32 :: nat) \<or> (9 \<le> (of_char c :: nat) \<and> (of_char c :: nat) \<le> 13)"

definition str_trim :: "string \<Rightarrow> string" where
  "str_trim s = rev (dropWhile is_ascii_space (rev (dropWhile is_ascii_space s)))"

fun str_split :: "char \<Rightarrow> string \<Rightarrow> string list" where
  "str_split d [] = [[]]"
| "str_split d (c # cs) =
     (if c = d then [] # str_split d cs
      else (case str_split d cs of [] \<Rightarrow> [[c]] | w # ws \<Rightarrow> (c # w) # ws))"

definition ascii_lower :: "char \<Rightarrow> char" where
  "ascii_lower c = (if 65 \<le> (of_char c :: nat) \<and> (of_char c :: nat) \<le> 90 then char_of ((of_char c :: nat) + 32) else c)"

definition eq_ignore_ascii_case :: "string \<Rightarrow> string \<Rightarrow> bool" where
  "eq_ignore_ascii_case a b \<longleftrightarrow> map ascii_lower a = map ascii_lower b"

text \<open>\<open>str::parse::<u64>\<close>: an optional plus sign, then at least one digit, no overflow.\<close>

definition is_digit :: "char \<Rightarrow> bool" where
  "is_digit c \<longleftrightarrow> 48 \<le> (of_char c :: nat) \<and> (of_char c :: nat) \<le> 57"

definition digits_value :: "string \<Rightarrow> nat" where
  "digits_value ds = foldl (\<lambda>n c. 10 * n + ((of_char c :: nat) - 48)) 0 ds"

definition parse_u64 :: "string \<Rightarrow> u64 option" where
  "parse_u64 s =
    (let ds = (case s of c # cs \<Rightarrow> (if c = CHR 0x2B then cs else s) | [] \<Rightarrow> [])
     in if ds = [] \<or> \<not> list_all is_digit ds \<or> 2 ^ 64 \<le> digits_value ds then None
        else Some (word_of_nat (digits_value ds)))"

section \<open>Timeline records\<close>

record timeline_id =
  tl_timeline :: u64
  tl_begin :: u64

record pending_promote =
  pp_node :: string
  pp_base_timeline :: u64
  pp_base_begin :: u64
  pp_generation :: u64
  pp_postmaster_start :: "string option"

definition pending_base :: "pending_promote \<Rightarrow> timeline_id" where
  "pending_base p = \<lparr>tl_timeline = pp_base_timeline p, tl_begin = pp_base_begin p\<rparr>"

record timeline_record =
  tr_timeline :: u64
  tr_begin :: u64
  tr_primary :: string
  tr_generation :: u64
  tr_pending :: "pending_promote option"

definition record_id :: "timeline_record \<Rightarrow> timeline_id" where
  "record_id r = \<lparr>tl_timeline = tr_timeline r, tl_begin = tr_begin r\<rparr>"

datatype cluster_timeline =
    Timeline_Absent
  | Timeline_Legacy u64 u64
  | Timeline_Record timeline_record u64
  | Timeline_Unreadable u64

text \<open>\<open>ClusterTimeline::parse\<close>; the JSON parser of a record is the argument \<open>de_record\<close>.\<close>

definition parse_timeline :: "(string \<Rightarrow> timeline_record option) \<Rightarrow> string \<Rightarrow> u64 \<Rightarrow> cluster_timeline" where
  "parse_timeline de_record val version =
    (let trimmed = str_trim val
     in case parse_u64 trimmed of
          Some n \<Rightarrow> Timeline_Legacy n version
        | None \<Rightarrow> (case de_record trimmed of
            Some r \<Rightarrow> Timeline_Record r version
          | None \<Rightarrow> Timeline_Unreadable version))"

fun timeline_record_of :: "cluster_timeline \<Rightarrow> timeline_record option" where
  "timeline_record_of (Timeline_Record r _) = Some r"
| "timeline_record_of _ = None"

fun timeline_version :: "cluster_timeline \<Rightarrow> u64 option" where
  "timeline_version Timeline_Absent = None"
| "timeline_version (Timeline_Legacy _ v) = Some v"
| "timeline_version (Timeline_Record _ v) = Some v"
| "timeline_version (Timeline_Unreadable v) = Some v"

definition timeline_generation :: "cluster_timeline \<Rightarrow> u64" where
  "timeline_generation t = (case timeline_record_of t of None \<Rightarrow> 0 | Some r \<Rightarrow> tr_generation r)"

record history_evidence =
  he_timeline :: u64
  he_begin :: u64
  he_wal :: bool

definition evidence_id :: "history_evidence \<Rightarrow> timeline_id" where
  "evidence_id h = \<lparr>tl_timeline = he_timeline h, tl_begin = he_begin h\<rparr>"

record lineage =
  li_timeline_begin :: "u64 option"
  li_history :: "history_evidence option"
  li_postmaster_start :: "string option"
  li_generation :: u64

section \<open>Members\<close>

datatype member_state = Running | Stopped | Starting | Crashed | Unknown

datatype member_role = Primary | Replica | StandbyLeader | Uninitialized

record member =
  mb_name :: string
  mb_conn_url :: string
  mb_api_url :: string
  mb_state :: member_state
  mb_role :: member_role
  mb_wal_position :: "u64 option"
  mb_timeline :: "u64 option"
  mb_tags :: "string \<rightharpoonup> json_value"
  mb_version :: "string option"
  mb_rewind_check :: bool
  mb_lineage :: "lineage option"
  mb_watchdog_failed :: bool

definition is_nofailover :: "member \<Rightarrow> bool" where
  "is_nofailover m = unwrap_or (Option.bind (mb_tags m ''nofailover'') as_bool) False"

definition is_noloadbalance :: "member \<Rightarrow> bool" where
  "is_noloadbalance m = unwrap_or (Option.bind (mb_tags m ''noloadbalance'') as_bool) False"

definition is_nosync :: "member \<Rightarrow> bool" where
  "is_nosync m = unwrap_or (Option.bind (mb_tags m ''nosync'') as_bool) False"

definition failover_priority :: "member \<Rightarrow> u32" where
  "failover_priority m = ucast (unwrap_or (Option.bind (mb_tags m ''failover_priority'') as_u64) 1)"

definition sync_priority :: "member \<Rightarrow> u32" where
  "sync_priority m = ucast (unwrap_or (Option.bind (mb_tags m ''sync_priority'') as_u64) 0)"

definition role_name :: "member_role \<Rightarrow> string" where
  "role_name r = (case r of Primary \<Rightarrow> ''primary'' | Replica \<Rightarrow> ''replica''
     | StandbyLeader \<Rightarrow> ''standby_leader'' | Uninitialized \<Rightarrow> ''uninitialized'')"

section \<open>Synchronous standbys, configuration, failover intent\<close>

record sync_state =
  sy_leader :: string
  sy_sync_standby :: "string option"
  sy_quorum :: u32

definition sync_is_empty :: "sync_state \<Rightarrow> bool" where
  "sync_is_empty s \<longleftrightarrow> sy_leader s = ''''"

definition sync_standby_names :: "sync_state \<Rightarrow> string list" where
  "sync_standby_names s =
    (case sy_sync_standby s of
       None \<Rightarrow> []
     | Some raw \<Rightarrow> filter (\<lambda>n. n \<noteq> '''') (map str_trim (str_split (CHR '','') raw)))"

definition sync_matches :: "sync_state \<Rightarrow> string \<Rightarrow> bool" where
  "sync_matches s name = list_ex (\<lambda>n. eq_ignore_ascii_case n name) (sync_standby_names s)"

record cluster_config =
  cc_version :: u64
  cc_data :: "string \<rightharpoonup> json_value"

record failover =
  fo_leader :: "string option"
  fo_candidate :: "string option"
  fo_scheduled_at :: "string option"

definition is_switchover :: "failover \<Rightarrow> bool" where
  "is_switchover f \<longleftrightarrow> fo_leader f \<noteq> None"

section \<open>History entries\<close>

datatype history_event_type = Event_Failover | Event_Switchover | Event_Promote

definition event_type_name :: "history_event_type \<Rightarrow> string" where
  "event_type_name t = (case t of Event_Failover \<Rightarrow> ''failover'' | Event_Switchover \<Rightarrow> ''switchover''
     | Event_Promote \<Rightarrow> ''promote'')"

record history_entry =
  hi_timestamp :: u64
  hi_event_type :: history_event_type
  hi_old_leader :: "string option"
  hi_new_leader :: "string option"
  hi_reason :: string
  hi_timeline :: "u64 option"
  hi_lsn :: "u64 option"

definition MAX_HISTORY_ENTRIES :: nat where "MAX_HISTORY_ENTRIES = 100"

definition history_from_entries :: "history_entry list \<Rightarrow> history_entry list" where
  "history_from_entries es =
    (if length es > MAX_HISTORY_ENTRIES then drop (length es - MAX_HISTORY_ENTRIES) es else es)"

definition same_event :: "history_entry \<Rightarrow> history_entry \<Rightarrow> bool" where
  "same_event a b \<longleftrightarrow> hi_timestamp a = hi_timestamp b \<and> hi_event_type a = hi_event_type b \<and>
     hi_new_leader a = hi_new_leader b"

definition history_push :: "history_entry \<Rightarrow> history_entry list \<Rightarrow> history_entry list \<times> bool" where
  "history_push entry es =
    (if list_ex (\<lambda>e. same_event e entry) es then (es, False)
     else ((if length es \<ge> MAX_HISTORY_ENTRIES then tl es else es) @ [entry], True))"

section \<open>The cluster view\<close>

record leader =
  ld_name :: string
  ld_version :: u64

record cluster =
  cl_leader :: "leader option"
  cl_members :: "member list"
  cl_initialize :: "string option"
  cl_config :: "cluster_config option"
  cl_sync_state :: "sync_state option"
  cl_failover :: "failover option"
  cl_history :: "history_entry list"
  cl_timeline :: cluster_timeline
  cl_dcs_voters :: "nat option"

definition empty_cluster :: cluster where
  "empty_cluster = \<lparr>cl_leader = None, cl_members = [], cl_initialize = None, cl_config = None,
     cl_sync_state = None, cl_failover = None, cl_history = [], cl_timeline = Timeline_Absent,
     cl_dcs_voters = None\<rparr>"

definition is_unlocked :: "cluster \<Rightarrow> bool" where
  "is_unlocked cl \<longleftrightarrow> cl_leader cl = None"

definition has_member :: "cluster \<Rightarrow> string \<Rightarrow> bool" where
  "has_member cl name = list_ex (\<lambda>m. mb_name m = name) (cl_members cl)"

definition get_member :: "cluster \<Rightarrow> string \<Rightarrow> member option" where
  "get_member cl name = find (\<lambda>m. mb_name m = name) (cl_members cl)"

definition get_clone_member :: "cluster \<Rightarrow> string \<Rightarrow> member option" where
  "get_clone_member cl exclude_name =
    (let clone_source = find (\<lambda>m. mb_name m \<noteq> exclude_name \<and>
           Option.bind (mb_tags m ''clonefrom'') as_bool = Some True) (cl_members cl)
     in if clone_source \<noteq> None then clone_source
        else case cl_leader cl of
          None \<Rightarrow> None
        | Some l \<Rightarrow> find (\<lambda>m. mb_name m = ld_name l \<and> mb_name m \<noteq> exclude_name) (cl_members cl))"

section \<open>Lemmas\<close>

lemma timeline_id_eq_iff:
  "(a :: timeline_id) = b \<longleftrightarrow> tl_timeline a = tl_timeline b \<and> tl_begin a = tl_begin b"
  by (cases a; cases b) simp

lemma record_id_simps [simp]: "tl_timeline (record_id r) = tr_timeline r" "tl_begin (record_id r) = tr_begin r"
  by (simp_all add: record_id_def)

lemma evidence_id_simps [simp]: "tl_timeline (evidence_id h) = he_timeline h" "tl_begin (evidence_id h) = he_begin h"
  by (simp_all add: evidence_id_def)

lemma get_member_None: "get_member cl name = None \<longleftrightarrow> \<not> has_member cl name"
  by (auto simp: get_member_def has_member_def find_None_iff list_ex_iff)

lemma get_member_Some: "get_member cl name = Some m \<Longrightarrow> m \<in> set (cl_members cl) \<and> mb_name m = name"
  by (auto simp: get_member_def find_Some_iff in_set_conv_nth)

lemma get_member_distinct:
  assumes "distinct (map mb_name (cl_members cl))" "m \<in> set (cl_members cl)"
  shows "get_member cl (mb_name m) = Some m"
proof (cases "get_member cl (mb_name m)")
  case None
  then show ?thesis using assms(2) by (auto simp: get_member_None has_member_def list_ex_iff)
next
  case (Some m')
  then have "m' \<in> set (cl_members cl)" "mb_name m' = mb_name m" using get_member_Some by blast+
  then have "m' = m" using assms by (metis distinct_map inj_on_def)
  then show ?thesis using Some by simp
qed

lemma str_split_nonempty: "str_split d s \<noteq> []"
  by (induction s) (auto split: list.splits)

lemma str_split_no_delim: "d \<notin> set s \<Longrightarrow> str_split d s = [s]"
  by (induction s) auto

lemma str_split_append: "d \<notin> set a \<Longrightarrow> str_split d (a @ d # b) = a # str_split d b"
  by (induction a) auto

section \<open>The history buffer\<close>

lemma history_from_entries_bound: "length (history_from_entries es) \<le> MAX_HISTORY_ENTRIES"
  by (simp add: history_from_entries_def)

text \<open>
  Appending to the cluster history: the buffer read back from the DCS never exceeds 100 entries;
  a new event is appended at the end and the result is the newest 100 of old entries and event;
  an event that is already recorded changes nothing, so a retried append is harmless.
\<close>

theorem history_push_bounded:
  "let es = history_from_entries stored; (es', new) = history_push e es
   in length es' \<le> MAX_HISTORY_ENTRIES \<and>
      (new \<longleftrightarrow> \<not> list_ex (\<lambda>x. same_event x e) es) \<and>
      es' = (if new then history_from_entries (es @ [e]) else es) \<and>
      history_push e es' = (es', False)"
proof -
  define es where "es = history_from_entries stored"
  have l: "length es \<le> MAX_HISTORY_ENTRIES" by (simp add: es_def history_from_entries_bound)
  have t: "(if length es \<ge> MAX_HISTORY_ENTRIES then tl es else es) @ [e] = history_from_entries (es @ [e])"
    using l by (cases "length es = MAX_HISTORY_ENTRIES"; cases es) (simp_all add: history_from_entries_def MAX_HISTORY_ENTRIES_def)
  have "list_ex (\<lambda>x. same_event x e) (xs @ [e])" for xs by (simp add: same_event_def)
  then show ?thesis
    using l history_from_entries_bound [of "es @ [e]"]
    by (auto simp: history_push_def Let_def simp flip: es_def t)
qed

end
