(* ===== verification/Raft_Dcs.thy ===== *)
theory Raft_Dcs
  imports Cluster Kv_State_Machine
begin

text \<open>
  The DCS adapter of \<open>crates/pg-ha-dcs/src/raft_dcs.rs\<close> (and the write endpoint of
  \<open>raft_server.rs\<close>): the keys, the requests each adapter call proposes, how a response becomes its
  result, the forwarding of a write to the Raft leader, and the cluster view read from the local
  state machine. openraft and the HTTP client are the fields of a \<open>raft_link\<close> parameter, the JSON
  codecs those of a \<open>dcs_json\<close> parameter; the iteration order of a \<open>HashMap\<close> is an argument.

  The lemmas show the lock contract (who may take, extend and remove the leader lock), that a
  versioned write never overwrites a change made since the read, that a written record is read
  back, and that the clock in a committed request is the Raft leader's.
\<close>

section \<open>The adapter\<close>

record raft_dcs =
  rd_node_name :: string
  rd_base_path :: string
  rd_ttl :: u64
  rd_loop_wait :: u64
  rd_write_timeout_secs :: u64
  rd_tls_enabled :: bool

definition new_raft_dcs :: "string \<Rightarrow> string \<Rightarrow> string \<Rightarrow> u64 \<Rightarrow> u64 \<Rightarrow> u64 \<Rightarrow> bool \<Rightarrow> raft_dcs" where
  "new_raft_dcs node_name scope namespace ttl loop_wait retry_timeout tls =
    \<lparr>rd_node_name = node_name, rd_base_path = ''/'' @ namespace @ ''/'' @ scope @ ''/'', rd_ttl = ttl,
     rd_loop_wait = loop_wait, rd_write_timeout_secs = max retry_timeout 1, rd_tls_enabled = tls\<rparr>"

definition lock_ttl :: "raft_dcs \<Rightarrow> u64" where
  "lock_ttl d = rd_ttl d"

definition write_timeout :: "raft_dcs \<Rightarrow> u64" where
  "write_timeout d = max (rd_write_timeout_secs d) 1"

definition set_lock_timing :: "u64 \<Rightarrow> u64 \<Rightarrow> raft_dcs \<Rightarrow> raft_dcs" where
  "set_lock_timing ttl retry_timeout d =
    d\<lparr>rd_ttl := max ttl 1, rd_write_timeout_secs := max retry_timeout 1\<rparr>"

definition leader_path :: "raft_dcs \<Rightarrow> string" where
  "leader_path d = rd_base_path d @ ''leader''"

definition members_path :: "raft_dcs \<Rightarrow> string" where
  "members_path d = rd_base_path d @ ''members/''"

definition member_path :: "raft_dcs \<Rightarrow> string" where
  "member_path d = rd_base_path d @ ''members/'' @ rd_node_name d"

definition initialize_path :: "raft_dcs \<Rightarrow> string" where
  "initialize_path d = rd_base_path d @ ''initialize''"

definition config_path :: "raft_dcs \<Rightarrow> string" where
  "config_path d = rd_base_path d @ ''config''"

definition sync_path :: "raft_dcs \<Rightarrow> string" where
  "sync_path d = rd_base_path d @ ''sync''"

definition failover_path :: "raft_dcs \<Rightarrow> string" where
  "failover_path d = rd_base_path d @ ''failover''"

definition history_path :: "raft_dcs \<Rightarrow> string" where
  "history_path d = rd_base_path d @ ''history''"

definition timeline_path :: "raft_dcs \<Rightarrow> string" where
  "timeline_path d = rd_base_path d @ ''timeline''"

lemmas path_defs = leader_path_def members_path_def member_path_def initialize_path_def config_path_def
  sync_path_def failover_path_def history_path_def timeline_path_def

section \<open>Proposing a write\<close>

datatype dcs_error =
    Raft_Write_Failed
  | No_Leader_Address
  | Forward_Failed
  | Bad_Leader_Response
  | Leader_Rejected
  | Write_Timeout
  | Serialize_Error

datatype raft_write = Raft_Written response | Raft_Forward | Raft_Error

datatype http_reply = Http_Send_Failed | Http_Success "response option" | Http_Failure

record raft_link =
  client_write :: "request \<Rightarrow> raft_write"
  current_leader :: "nat option"
  node_addr :: "nat \<Rightarrow> string option"
  http_post :: "string \<Rightarrow> request \<Rightarrow> http_reply"

text \<open>The endpoint a forwarded write reaches on the Raft leader: it stamps its own clock.\<close>

definition handle_client_write :: "(request \<Rightarrow> raft_write) \<Rightarrow> u64 \<Rightarrow> request \<Rightarrow> http_reply" where
  "handle_client_write leader_write leader_clock req =
    (case leader_write (stamp_leader_time req leader_clock) of
       Raft_Written resp \<Rightarrow> Http_Success (Some resp)
     | _ \<Rightarrow> Http_Failure)"

definition leader_url :: "raft_dcs \<Rightarrow> string \<Rightarrow> string" where
  "leader_url d addr =
    (if prefix ''http'' addr then addr
     else if rd_tls_enabled d then ''https://'' @ addr
     else ''http://'' @ addr) @ ''/raft/client-write''"

definition forward_to_leader :: "raft_dcs \<Rightarrow> raft_link \<Rightarrow> nat \<Rightarrow> request \<Rightarrow> (dcs_error, response) res" where
  "forward_to_leader d link leader_id req =
    (case node_addr link leader_id of
       None \<Rightarrow> Err No_Leader_Address
     | Some addr \<Rightarrow>
         (case http_post link (leader_url d addr) req of
            Http_Send_Failed \<Rightarrow> Err Forward_Failed
          | Http_Success (Some resp) \<Rightarrow> Ok resp
          | Http_Success None \<Rightarrow> Err Bad_Leader_Response
          | Http_Failure \<Rightarrow> Err Leader_Rejected))"

definition propose_unbounded :: "raft_dcs \<Rightarrow> raft_link \<Rightarrow> u64 \<Rightarrow> request \<Rightarrow> (dcs_error, response) res" where
  "propose_unbounded d link clock req =
    (case client_write link (stamp_leader_time req clock) of
       Raft_Written resp \<Rightarrow> Ok resp
     | Raft_Forward \<Rightarrow>
         (case current_leader link of
            Some leader_id \<Rightarrow> forward_to_leader d link leader_id req
          | None \<Rightarrow> Err Raft_Write_Failed)
     | Raft_Error \<Rightarrow> Err Raft_Write_Failed)"

text \<open>\<open>in_time\<close>: the write finished within \<open>write_timeout\<close>; otherwise it is abandoned.\<close>

definition bounded_write :: "bool \<Rightarrow> (dcs_error, response) res \<Rightarrow> (dcs_error, response) res" where
  "bounded_write in_time r = (if in_time then r else Err Write_Timeout)"

definition propose :: "raft_dcs \<Rightarrow> raft_link \<Rightarrow> bool \<Rightarrow> u64 \<Rightarrow> request \<Rightarrow> (dcs_error, response) res" where
  "propose d link in_time clock req = bounded_write in_time (propose_unbounded d link clock req)"

section \<open>The adapter calls\<close>

text \<open>Every write is one request; \<open>Ok\<close> becomes true, \<open>NotChanged\<close> false, an error stays one.\<close>

definition changed :: "(dcs_error, response) res \<Rightarrow> (dcs_error, bool) res" where
  "changed r = (case r of Inl e \<Rightarrow> Err e | Inr (Response_Ok _) \<Rightarrow> Ok True | Inr Response_NotChanged \<Rightarrow> Ok False)"

definition acquire_request :: "raft_dcs \<Rightarrow> u64 \<Rightarrow> request" where
  "acquire_request d now =
    Request_Set (leader_path d) (rd_node_name d) (Some (lock_ttl d)) (Some False) None None now"

definition renew_request :: "raft_dcs \<Rightarrow> u64 \<Rightarrow> request" where
  "renew_request d now =
    Request_Set (leader_path d) (rd_node_name d) (Some (lock_ttl d)) None (Some (rd_node_name d)) None now"

definition release_request :: "raft_dcs \<Rightarrow> request" where
  "release_request d = Request_Delete (leader_path d) (Some (rd_node_name d)) False"

definition plain_set :: "string \<Rightarrow> string \<Rightarrow> u64 option \<Rightarrow> u64 \<Rightarrow> request" where
  "plain_set key val ttl now = Request_Set key val ttl None None None now"

type_synonym proposer = "request \<Rightarrow> (dcs_error, response) res"

definition attempt_to_acquire_leader :: "raft_dcs \<Rightarrow> proposer \<Rightarrow> u64 \<Rightarrow> (dcs_error, bool) res" where
  "attempt_to_acquire_leader d prop now = changed (prop (acquire_request d now))"

definition update_leader :: "raft_dcs \<Rightarrow> proposer \<Rightarrow> u64 \<Rightarrow> (dcs_error, bool) res" where
  "update_leader d prop now = changed (prop (renew_request d now))"

definition delete_leader :: "raft_dcs \<Rightarrow> proposer \<Rightarrow> (dcs_error, bool) res" where
  "delete_leader d prop = changed (prop (release_request d))"

definition dcs_touch_member :: "raft_dcs \<Rightarrow> proposer \<Rightarrow> u64 \<Rightarrow> string option \<Rightarrow> (dcs_error, bool) res" where
  "dcs_touch_member d prop now data =
    (case data of
       None \<Rightarrow> Err Serialize_Error
     | Some v \<Rightarrow> changed (prop (plain_set (member_path d) v (Some (lock_ttl d)) now)))"

definition dcs_initialize :: "raft_dcs \<Rightarrow> proposer \<Rightarrow> u64 \<Rightarrow> string \<Rightarrow> (dcs_error, bool) res" where
  "dcs_initialize d prop now sysid =
    changed (prop (Request_Set (initialize_path d) sysid None (Some False) None None now))"

definition set_sync_value :: "raft_dcs \<Rightarrow> proposer \<Rightarrow> u64 \<Rightarrow> string \<Rightarrow> (dcs_error, bool) res" where
  "set_sync_value d prop now v = changed (prop (plain_set (sync_path d) v None now))"

definition set_failover_value :: "raft_dcs \<Rightarrow> proposer \<Rightarrow> u64 \<Rightarrow> string \<Rightarrow> (dcs_error, bool) res" where
  "set_failover_value d prop now v =
    changed (prop (plain_set (failover_path d) v (if v = '''' then None else Some (lock_ttl d)) now))"

definition set_config_value :: "raft_dcs \<Rightarrow> proposer \<Rightarrow> u64 \<Rightarrow> string \<Rightarrow> (dcs_error, bool) res" where
  "set_config_value d prop now v = changed (prop (plain_set (config_path d) v None now))"

definition get_config_value :: "raft_dcs \<Rightarrow> kv_state_machine \<Rightarrow> u64 \<Rightarrow> string option" where
  "get_config_value d sm clock = map_option kv_value (sm_get sm clock (config_path d))"

text \<open>The JSON codecs of the stored values.\<close>

record dcs_json =
  de_member :: "string \<Rightarrow> member option"
  de_failover :: "string \<Rightarrow> failover option"
  de_sync_state :: "string \<Rightarrow> sync_state option"
  de_config_data :: "string \<Rightarrow> (string \<rightharpoonup> json_value) option"
  ser_timeline :: "timeline_record \<Rightarrow> string option"
  de_timeline :: "string \<Rightarrow> timeline_record option"
  ser_history :: "history_entry list \<Rightarrow> string option"
  de_history :: "string \<Rightarrow> history_entry list option"

definition versioned_set :: "string \<Rightarrow> string \<Rightarrow> u64 option \<Rightarrow> u64 \<Rightarrow> request" where
  "versioned_set key val expected now =
    Request_Set key val None (if expected = None then Some False else None) None expected now"

definition timeline_write_request ::
  "dcs_json \<Rightarrow> string \<Rightarrow> timeline_record \<Rightarrow> u64 option \<Rightarrow> u64 \<Rightarrow> (dcs_error, request) res" where
  "timeline_write_request js key r expected now =
    (case ser_timeline js r of None \<Rightarrow> Err Serialize_Error | Some v \<Rightarrow> Ok (versioned_set key v expected now))"

definition history_write_request ::
  "dcs_json \<Rightarrow> string \<Rightarrow> history_entry list \<Rightarrow> u64 option \<Rightarrow> u64 \<Rightarrow> (dcs_error, request) res" where
  "history_write_request js key es expected now =
    (case ser_history js es of None \<Rightarrow> Err Serialize_Error | Some v \<Rightarrow> Ok (versioned_set key v expected now))"

definition write_cluster_timeline ::
  "raft_dcs \<Rightarrow> dcs_json \<Rightarrow> proposer \<Rightarrow> u64 \<Rightarrow> timeline_record \<Rightarrow> u64 option \<Rightarrow> (dcs_error, bool) res" where
  "write_cluster_timeline d js prop now r expected =
    (case timeline_write_request js (timeline_path d) r expected now of
       Inl e \<Rightarrow> Err e | Inr req \<Rightarrow> changed (prop req))"

definition write_history ::
  "raft_dcs \<Rightarrow> dcs_json \<Rightarrow> proposer \<Rightarrow> u64 \<Rightarrow> history_entry list \<Rightarrow> u64 option \<Rightarrow> (dcs_error, bool) res" where
  "write_history d js prop now es expected =
    (case history_write_request js (history_path d) es expected now of
       Inl e \<Rightarrow> Err e | Inr req \<Rightarrow> changed (prop req))"

definition history_from_json :: "dcs_json \<Rightarrow> string \<Rightarrow> history_entry list" where
  "history_from_json js v = unwrap_or (de_history js v) []"

definition read_history :: "raft_dcs \<Rightarrow> dcs_json \<Rightarrow> kv_state_machine \<Rightarrow> u64 \<Rightarrow> history_entry list \<times> u64 option" where
  "read_history d js sm clock =
    (case sm_get sm clock (history_path d) of
       None \<Rightarrow> ([], None)
     | Some e \<Rightarrow> (history_from_json js (kv_value e), Some (kv_version e)))"

definition fallback_member :: "string \<Rightarrow> member" where
  "fallback_member name =
    \<lparr>mb_name = name, mb_conn_url = '''', mb_api_url = '''', mb_state = Unknown, mb_role = Uninitialized,
     mb_wal_position = None, mb_timeline = None, mb_tags = Map.empty, mb_version = None,
     mb_rewind_check = False, mb_lineage = None, mb_watchdog_failed = False\<rparr>"

definition strip_prefix :: "string \<Rightarrow> string \<Rightarrow> string" where
  "strip_prefix pre s = (if prefix pre s then drop (length pre) s else s)"

definition read_member :: "raft_dcs \<Rightarrow> dcs_json \<Rightarrow> string \<Rightarrow> kv_entry \<Rightarrow> member" where
  "read_member d js key e =
    (case de_member js (kv_value e) of
       Some m \<Rightarrow> m
     | None \<Rightarrow> fallback_member (strip_prefix (members_path d) key))"

text \<open>\<open>order\<close> lists the keys below \<open>members_path\<close> in the iteration order of the hash map.\<close>

definition get_cluster :: "raft_dcs \<Rightarrow> dcs_json \<Rightarrow> kv_state_machine \<Rightarrow> u64 \<Rightarrow> string list \<Rightarrow> nat \<Rightarrow> cluster" where
  "get_cluster d js sm clock order voters =
    (let get = sm_get sm clock;
         member_entries = sm_get_prefix sm clock (members_path d)
     in \<lparr>cl_leader = map_option (\<lambda>e. \<lparr>ld_name = kv_value e, ld_version = kv_version e\<rparr>) (get (leader_path d)),
         cl_members = concat (map (\<lambda>key. case member_entries key of
             None \<Rightarrow> [] | Some e \<Rightarrow> [read_member d js key e]) order),
         cl_initialize = map_option kv_value (get (initialize_path d)),
         cl_config = map_option (\<lambda>e. \<lparr>cc_version = kv_version e,
             cc_data = unwrap_or (de_config_data js (kv_value e)) Map.empty\<rparr>) (get (config_path d)),
         cl_sync_state = Option.bind (get (sync_path d)) (\<lambda>e. de_sync_state js (kv_value e)),
         cl_failover = Option.bind (get (failover_path d)) (\<lambda>e. de_failover js (kv_value e)),
         cl_history = (case get (history_path d) of None \<Rightarrow> [] | Some e \<Rightarrow> history_from_json js (kv_value e)),
         cl_timeline = (case get (timeline_path d) of
             None \<Rightarrow> Timeline_Absent
           | Some e \<Rightarrow> parse_timeline (de_timeline js) (kv_value e) (kv_version e)),
         cl_dcs_voters = Some voters\<rparr>)"

section \<open>The lock contract\<close>

text \<open>
  What the HA nodes rely on of the lock key, whatever stores it: operations of several nodes,
  each with the clock value the store compares against.
\<close>

datatype lock_op =
    Lock_Acquire string u64
  | Lock_Renew string u64
  | Lock_Release string
  | Lock_Expire u64

fun op_stamp :: "lock_op \<Rightarrow> u64 option" where
  "op_stamp (Lock_Acquire _ t) = Some t"
| "op_stamp (Lock_Renew _ t) = Some t"
| "op_stamp (Lock_Release _) = None"
| "op_stamp (Lock_Expire t) = Some t"

locale lock_register =
  fixes perform :: "lock_op \<Rightarrow> 's \<Rightarrow> 's \<times> bool"
    and holder :: "'s \<Rightarrow> (string \<times> u64 option) option"
    and ttl :: u64
    and stamp_ok :: "u64 \<Rightarrow> bool"
  assumes acquire_law: "stamp_ok t \<Longrightarrow> perform (Lock_Acquire n t) s = (s', b) \<Longrightarrow>
      (b \<longleftrightarrow> is_none_or (holder s) (\<lambda>(_, exp). is_some_and exp (\<lambda>e. e \<le> t))) \<and>
      holder s' = (if b then Some (n, Some (t + ttl * 1000)) else holder s)"
    and renew_law: "stamp_ok t \<Longrightarrow> perform (Lock_Renew n t) s = (s', b) \<Longrightarrow>
      (b \<longleftrightarrow> is_some_and (holder s) (\<lambda>(m, exp). m = n \<and> is_none_or exp (\<lambda>e. e > t))) \<and>
      holder s' = (if b then Some (n, Some (t + ttl * 1000)) else holder s)"
    and release_law: "perform (Lock_Release n) s = (s', b) \<Longrightarrow>
      (b \<longleftrightarrow> is_some_and (holder s) (\<lambda>(m, _). m = n)) \<and>
      holder s' = (if b then None else holder s)"
    and expire_law: "perform (Lock_Expire t) s = (s', b) \<Longrightarrow>
      holder s' = (if is_some_and (holder s) (\<lambda>(_, exp). is_some_and exp (\<lambda>e. e \<le> t)) then None else holder s)"
begin

lemma acquired_was_free:
  "\<lbrakk>stamp_ok t; perform (Lock_Acquire n t) s = (s', True); holder s = Some (m, Some e)\<rbrakk> \<Longrightarrow> e \<le> t"
  using acquire_law by fastforce

lemma granted_holds:
  assumes "stamp_ok t" "op = Lock_Acquire n t \<or> op = Lock_Renew n t" "perform op s = (s', True)"
  shows "holder s' = Some (n, Some (t + ttl * 1000))"
  using assms(2)
proof
  assume "op = Lock_Acquire n t"
  then show ?thesis using acquire_law [OF assms(1)] assms(3) by fastforce
next
  assume "op = Lock_Renew n t"
  then show ?thesis using renew_law [OF assms(1)] assms(3) by fastforce
qed

text \<open>A lock that has not expired at the operation's clock stays with its holder, unless the
  holder releases it.\<close>

lemma unexpired_stays:
  assumes "perform op s = (s', b)" "holder s = Some (n, Some e)"
    and "\<And>t. op_stamp op = Some t \<Longrightarrow> stamp_ok t \<and> t < e" "op \<noteq> Lock_Release n"
  shows "holder s' = Some (n, Some e) \<or> (\<exists>t. op = Lock_Renew n t \<and> b \<and> holder s' = Some (n, Some (t + ttl * 1000)))"
proof (cases op)
  case (Lock_Acquire m t)
  then show ?thesis using assms acquire_law [of t m s s' b] by (auto simp: is_some_and_def is_none_or_def)
next
  case (Lock_Renew m t)
  then show ?thesis using assms renew_law [of t m s s' b] by (auto simp: is_some_and_def is_none_or_def)
next
  case (Lock_Release m)
  then show ?thesis using assms release_law [of m s s' b] by (auto simp: is_some_and_def)
next
  case (Lock_Expire t)
  then show ?thesis using assms expire_law [of t s s' b] by (auto simp: is_some_and_def)
qed

end

text \<open>
  The lock as the state machine keeps it: the operations are the requests of the adapters of the
  nodes of one cluster (same base path and TTL), stamped by the Raft leader.
\<close>

definition node_dcs :: "raft_dcs \<Rightarrow> string \<Rightarrow> raft_dcs" where
  "node_dcs d n = d\<lparr>rd_node_name := n\<rparr>"

fun lock_request :: "raft_dcs \<Rightarrow> lock_op \<Rightarrow> request" where
  "lock_request d (Lock_Acquire n t) = stamp_leader_time (acquire_request (node_dcs d n) 0) t"
| "lock_request d (Lock_Renew n t) = stamp_leader_time (renew_request (node_dcs d n) 0) t"
| "lock_request d (Lock_Release n) = release_request (node_dcs d n)"
| "lock_request d (Lock_Expire t) = Request_ExpireKeys t"

definition lock_perform :: "raft_dcs \<Rightarrow> u64 \<Rightarrow> u64 \<Rightarrow> lock_op \<Rightarrow> kv_state_machine \<Rightarrow> kv_state_machine \<times> bool" where
  "lock_perform d clock idx op sm =
    (case sm_apply sm clock (lock_request d op) idx of (sm', r) \<Rightarrow> (sm', r \<noteq> Response_NotChanged))"

definition lock_holder :: "raft_dcs \<Rightarrow> kv_state_machine \<Rightarrow> (string \<times> u64 option) option" where
  "lock_holder d sm = map_option (\<lambda>e. (kv_value e, kv_expire_at e)) (sm_data sm (leader_path d))"

lemma node_dcs_simps [simp]:
  "leader_path (node_dcs d n) = leader_path d" "lock_ttl (node_dcs d n) = lock_ttl d"
  "rd_node_name (node_dcs d n) = n"
  by (simp_all add: node_dcs_def leader_path_def lock_ttl_def)

lemmas lock_request_defs = acquire_request_def renew_request_def release_request_def stamp_leader_time_def

interpretation raft_lock: lock_register "lock_perform d clock idx" "lock_holder d" "lock_ttl d" "\<lambda>t. t \<noteq> 0"
  for d clock idx
proof
  fix t n s s' b
  assume t: "t \<noteq> (0 :: u64)" and "lock_perform d clock idx (Lock_Acquire n t) s = (s', b)"
  then show "(b \<longleftrightarrow> is_none_or (lock_holder d s) (\<lambda>(_, exp). is_some_and exp (\<lambda>e. e \<le> t))) \<and>
      lock_holder d s' = (if b then Some (n, Some (t + lock_ttl d * 1000)) else lock_holder d s)"
    by (auto simp: lock_perform_def lock_request_defs sm_apply_set [OF t] lock_holder_def cas_ok_def
        written_entry_def live_def is_none_or_def is_some_and_def split: option.splits if_splits)
next
  fix t n s s' b
  assume t: "t \<noteq> (0 :: u64)" and "lock_perform d clock idx (Lock_Renew n t) s = (s', b)"
  then show "(b \<longleftrightarrow> is_some_and (lock_holder d s) (\<lambda>(m, exp). m = n \<and> is_none_or exp (\<lambda>e. e > t))) \<and>
      lock_holder d s' = (if b then Some (n, Some (t + lock_ttl d * 1000)) else lock_holder d s)"
    by (auto simp: lock_perform_def lock_request_defs sm_apply_set [OF t] lock_holder_def cas_ok_def
        written_entry_def live_def is_none_or_def is_some_and_def split: option.splits if_splits)
next
  fix n s s' b
  assume "lock_perform d clock idx (Lock_Release n) s = (s', b)"
  then show "(b \<longleftrightarrow> is_some_and (lock_holder d s) (\<lambda>(m, _). m = n)) \<and>
      lock_holder d s' = (if b then None else lock_holder d s)"
    by (auto simp: lock_perform_def lock_request_defs sm_apply_def apply_delete_def lock_holder_def
        is_some_and_def Let_def split: option.splits if_splits)
next
  fix t s s' b
  assume "lock_perform d clock idx (Lock_Expire t) s = (s', b)"
  then show "lock_holder d s' =
      (if is_some_and (lock_holder d s) (\<lambda>(_, exp). is_some_and exp (\<lambda>e. e \<le> t)) then None else lock_holder d s)"
    by (auto simp: lock_perform_def sm_apply_def apply_expire_def lock_holder_def
        is_some_and_def is_none_or_def Let_def split: option.splits if_splits)
qed

fun other_op :: "string \<Rightarrow> lock_op \<Rightarrow> bool" where
  "other_op n (Lock_Acquire m _) = True"
| "other_op n (Lock_Renew m _) = (m \<noteq> n)"
| "other_op n (Lock_Release m) = (m \<noteq> n)"
| "other_op n (Lock_Expire _) = True"

fun perform_all :: "raft_dcs \<Rightarrow> (u64 \<times> u64 \<times> lock_op) list \<Rightarrow> kv_state_machine \<Rightarrow> kv_state_machine \<times> bool list" where
  "perform_all d [] sm = (sm, [])"
| "perform_all d ((clock, idx, op) # ops) sm =
     (case lock_perform d clock idx op sm of (sm1, b) \<Rightarrow>
        case perform_all d ops sm1 of (sm2, bs) \<Rightarrow> (sm2, b # bs))"

lemma other_op_refused:
  assumes "lock_perform d clock idx op sm = (sm', b)" "lock_holder d sm = Some (n, Some e)" "other_op n op"
    and "is_none_or (op_stamp op) (\<lambda>t. t \<noteq> 0 \<and> t < e)"
  shows "lock_holder d sm' = Some (n, Some e) \<and> ((\<forall>t. op \<noteq> Lock_Expire t) \<longrightarrow> \<not> b)"
proof -
  have st: "\<And>t. op_stamp op = Some t \<Longrightarrow> t \<noteq> 0 \<and> t < e" using assms(4) by auto
  have "op \<noteq> Lock_Release n" "\<And>t. op \<noteq> Lock_Renew n t" using assms(3) by auto
  then have h: "lock_holder d sm' = Some (n, Some e)"
    using raft_lock.unexpired_stays [OF assms(1,2)] st by blast
  moreover have "\<not> b" if "\<forall>t. op \<noteq> Lock_Expire t"
  proof (cases op)
    case (Lock_Acquire m t)
    then show ?thesis
      using raft_lock.acquire_law [of t d clock idx m sm sm' b] assms(1,2) st by (auto simp: is_none_or_def is_some_and_def)
  next
    case (Lock_Renew m t)
    then show ?thesis
      using raft_lock.renew_law [of t d clock idx m sm sm' b] assms st by (auto simp: is_none_or_def is_some_and_def)
  next
    case (Lock_Release m)
    then show ?thesis
      using raft_lock.release_law [of d clock idx m sm sm' b] assms by (auto simp: is_some_and_def)
  qed (use that in blast)
  ultimately show ?thesis by blast
qed

text \<open>
  C17. An unexpired leader lock is exclusive: whatever acquire, renew and release requests the
  other nodes propose, in any order and interleaved with expiry sweeps, while the Raft leader's
  clock is below the expiry written in the lock, every one of them is refused and the holder and
  its expiry stay as they are.
\<close>

theorem unexpired_lock_is_exclusive:
  assumes "lock_holder d sm = Some (n, Some e)"
    and "\<forall>(clock, idx, op) \<in> set ops. other_op n op \<and> is_none_or (op_stamp op) (\<lambda>t. t \<noteq> 0 \<and> t < e)"
    and "perform_all d ops sm = (sm', bs)"
  shows "lock_holder d sm' = Some (n, Some e) \<and>
    (\<forall>i < length ops. bs ! i \<longrightarrow> (\<exists>t. snd (snd (ops ! i)) = Lock_Expire t))"
  using assms
proof (induction ops arbitrary: sm bs)
  case Nil
  then show ?case by simp
next
  case (Cons x ops)
  obtain clock idx op where x: "x = (clock, idx, op)" by (cases x) auto
  obtain sm1 b bs' where s: "lock_perform d clock idx op sm = (sm1, b)" "perform_all d ops sm1 = (sm', bs')" "bs = b # bs'"
    using Cons.prems(3) by (auto simp: x split: prod.splits)
  have r: "lock_holder d sm1 = Some (n, Some e) \<and> ((\<forall>t. op \<noteq> Lock_Expire t) \<longrightarrow> \<not> b)"
    using other_op_refused [OF s(1) Cons.prems(1)] Cons.prems(2) by (simp add: x)
  have "lock_holder d sm' = Some (n, Some e) \<and>
      (\<forall>i < length ops. bs' ! i \<longrightarrow> (\<exists>t. snd (snd (ops ! i)) = Lock_Expire t))"
    using Cons.IH [OF _ _ s(2)] r Cons.prems(2) by simp
  then show ?case using r s(3) by (auto simp: x nth_Cons split: nat.splits)
qed

definition demo_dcs :: raft_dcs where
  "demo_dcs = new_raft_dcs ''a'' ''s'' ''n'' 30 10 10 False"

definition demo_locked :: kv_state_machine where
  "demo_locked = fst (lock_perform demo_dcs 0 1 (Lock_Acquire ''a'' 1000) new_state_machine)"

lemma demo_locked_holder: "lock_holder demo_dcs demo_locked = Some (''a'', Some 31000)"
  by (simp add: demo_locked_def demo_dcs_def new_raft_dcs_def lock_perform_def lock_request_defs sm_apply_set
      new_state_machine_def cas_ok_def written_entry_def lock_holder_def lock_ttl_def leader_path_def node_dcs_def live_def)

theorem unexpired_lock_is_exclusive_witness:
  "lock_holder demo_dcs (fst (perform_all demo_dcs
     [(0, 2, Lock_Acquire ''b'' 2000), (0, 3, Lock_Expire 3000), (0, 4, Lock_Release ''c'')] demo_locked)) =
    Some (''a'', Some 31000)"
proof -
  let ?ops = "[(0, 2, Lock_Acquire ''b'' 2000), (0, 3, Lock_Expire 3000), (0, 4, Lock_Release ''c'')] :: (u64 \<times> u64 \<times> lock_op) list"
  have "\<forall>(clock, idx, op) \<in> set ?ops. other_op ''a'' op \<and> is_none_or (op_stamp op) (\<lambda>t. t \<noteq> 0 \<and> t < 31000)"
    by simp
  from unexpired_lock_is_exclusive [OF demo_locked_holder this, of "fst (perform_all demo_dcs ?ops demo_locked)"
      "snd (perform_all demo_dcs ?ops demo_locked)"]
  show ?thesis by simp
qed

section \<open>Versioned writes and clocks\<close>

text \<open>
  No lost update of a versioned key (\<open>/timeline\<close>, \<open>/history\<close>): a write that expects the version
  it read succeeds only if, through every request applied in between, the key still holds the
  very entry that was read.
\<close>

theorem versioned_write_sees_no_change:
  assumes "versions_bounded sm" and "sm_get sm read_clock key = Some e"
    and "increasing_from (sm_last_applied_log sm) xs" and "run_log sm_apply sm xs = (sm', os)"
    and "now \<noteq> 0" and "snd (sm_apply sm' clock (versioned_set key val (Some (kv_version e)) now) idx) = Response_Ok i"
  shows "sm_data sm' key = Some e"
proof -
  have e: "sm_data sm key = Some e" using assms(2) by (simp add: is_expired_live live_Some)
  obtain e' where e': "live now sm' key = Some e'" "kv_version e' = kv_version e"
    using assms(6) by (auto simp: versioned_set_def sm_apply_set [OF assms(5)] cas_ok_def split: if_splits)
  then have e'': "sm_data sm' key = Some e'" by (simp add: live_Some)
  have "kv_version e' \<le> sm_last_applied_log sm" using assms(1) e e'(2) by (auto simp: versions_bounded_def)
  from run_log_versions [OF assms(1,3,4) e'' this] show ?thesis using e e'' by simp
qed

theorem versioned_write_sees_no_change_witness:
  "sm_data (fst (sm_apply new_state_machine 0 (plain_set ''t'' ''1'' None 5) 1)) ''t'' =
    Some \<lparr>kv_value = ''1'', kv_created_at = 5, kv_updated_at = 5, kv_expire_at = None, kv_version = 1\<rparr>"
proof -
  let ?e = "\<lparr>kv_value = ''1'', kv_created_at = 5, kv_updated_at = 5, kv_expire_at = None, kv_version = 1\<rparr> :: kv_entry"
  let ?sm = "\<lparr>sm_data = [''t'' \<mapsto> ?e], sm_last_applied_log = 1\<rparr>"
  have sm: "fst (sm_apply new_state_machine 0 (plain_set ''t'' ''1'' None 5) 1) = ?sm"
    by (simp add: sm_apply_def apply_set_def new_state_machine_def plain_set_def Let_def)
  have "sm_data ?sm ''t'' = Some ?e"
    by (rule versioned_write_sees_no_change [where sm = "?sm" and xs = "[]" and read_clock = 6 and now = 7 and clock = 0
          and idx = 2 and i = 2 and val = "''2''" and os = "[]"])
      (simp_all add: versions_bounded_def sm_get_def is_expired_def versioned_set_def sm_apply_def apply_set_def Let_def)
  then show ?thesis by (simp add: sm)
qed

lemma json_object_text:
  assumes "s = CHR ''{'' # t @ [CHR ''}'']"
  shows "str_trim s = s" and "parse_u64 s = None"
proof -
  have "\<not> is_ascii_space (CHR ''{'')" "\<not> is_ascii_space (CHR ''}'')" by (simp_all add: is_ascii_space_def)
  then show "str_trim s = s" by (simp add: assms str_trim_def)
  show "parse_u64 s = None" by (simp add: assms parse_u64_def is_digit_def)
qed

text \<open>
  A \<open>/timeline\<close> record that was written is what every node then reads: after a write that the
  state machine accepted, the cluster view holds that record, with the log index of the write
  as the version for the next one.
\<close>

theorem timeline_write_read_back:
  assumes "timeline_write_request js (timeline_path d) r expected now = Ok req" and "now \<noteq> 0"
    and "\<forall>v. ser_timeline js r = Some v \<longrightarrow> de_timeline js v = Some r \<and> (\<exists>t. v = CHR ''{'' # t @ [CHR ''}''])"
    and "sm_apply sm clock req idx = (sm', Response_Ok i)"
  shows "cl_timeline (get_cluster d js sm' clock' order voters) = Timeline_Record r idx"
proof -
  obtain v where v: "ser_timeline js r = Some v" "req = versioned_set (timeline_path d) v expected now"
    using assms(1) by (auto simp: timeline_write_request_def split: option.splits)
  then obtain t where t: "de_timeline js v = Some r" "v = CHR ''{'' # t @ [CHR ''}'']" using assms(3) by blast
  have "sm_get sm' clock' (timeline_path d) = Some (written_entry (live now sm (timeline_path d)) v None now idx)"
    using assms(4) v(2)
    by (auto simp: versioned_set_def sm_apply_set [OF assms(2)] sm_get_def written_entry_def is_expired_def split: if_splits)
  moreover have "parse_timeline (de_timeline js) v idx = Timeline_Record r idx"
    using json_object_text [OF t(2)] t(1) by (simp add: parse_timeline_def Let_def)
  ultimately show ?thesis by (simp add: get_cluster_def Let_def written_entry_def)
qed

definition demo_record :: timeline_record where
  "demo_record = \<lparr>tr_timeline = 2, tr_begin = 7, tr_primary = ''a'', tr_generation = 0, tr_pending = None\<rparr>"

definition demo_dcs_json :: dcs_json where
  "demo_dcs_json = \<lparr>de_member = (\<lambda>_. None), de_failover = (\<lambda>_. None), de_sync_state = (\<lambda>_. None),
     de_config_data = (\<lambda>_. None), ser_timeline = (\<lambda>r. if r = demo_record then Some ''{2}'' else None),
     de_timeline = (\<lambda>v. if v = ''{2}'' then Some demo_record else None),
     ser_history = (\<lambda>_. None), de_history = (\<lambda>_. None)\<rparr>"

theorem timeline_write_read_back_witness:
  "cl_timeline (get_cluster demo_dcs demo_dcs_json (fst (sm_apply new_state_machine 0
     (versioned_set (timeline_path demo_dcs) ''{2}'' None 5) 1)) 9 [] 3) = Timeline_Record demo_record 1"
proof -
  have 1: "timeline_write_request demo_dcs_json (timeline_path demo_dcs) demo_record None 5 =
      Ok (versioned_set (timeline_path demo_dcs) ''{2}'' None 5)"
    by (simp add: timeline_write_request_def demo_dcs_json_def)
  have 2: "\<forall>v. ser_timeline demo_dcs_json demo_record = Some v \<longrightarrow>
      de_timeline demo_dcs_json v = Some demo_record \<and> (\<exists>t. v = CHR ''{'' # t @ [CHR ''}''])"
    by (simp add: demo_dcs_json_def)
  have 3: "sm_apply new_state_machine 0 (versioned_set (timeline_path demo_dcs) ''{2}'' None 5) 1 =
      (fst (sm_apply new_state_machine 0 (versioned_set (timeline_path demo_dcs) ''{2}'' None 5) 1), Response_Ok 1)"
    by (simp add: versioned_set_def sm_apply_def apply_set_def new_state_machine_def Let_def)
  show ?thesis using timeline_write_read_back [OF 1 _ 2 3] by simp
qed

text \<open>
  The clock of a committed request is the Raft leader's: a write proposed on another node and
  forwarded to the leader is applied with the leader's clock, whatever the proposing node's clock
  or the request's own time said.
\<close>

theorem forwarded_write_uses_leader_clock:
  assumes "\<And>r. client_write link r = Raft_Forward" and "current_leader link = Some l"
    and "node_addr link l = Some addr"
    and "http_post link = (\<lambda>url. handle_client_write leader_write leader_clock)"
    and "leader_write (stamp_leader_time req leader_clock) = Raft_Written resp"
  shows "propose_unbounded d link clock (stamp_leader_time req own_time) = Ok resp"
proof -
  have "stamp_leader_time (stamp_leader_time req own_time) leader_clock = stamp_leader_time req leader_clock"
    by (cases req) (simp_all add: stamp_leader_time_def)
  then show ?thesis
    using assms by (simp add: propose_unbounded_def forward_to_leader_def handle_client_write_def)
qed

theorem forwarded_write_uses_leader_clock_witness:
  "propose_unbounded demo_dcs \<lparr>client_write = (\<lambda>_. Raft_Forward), current_leader = Some 2,
      node_addr = (\<lambda>_. Some ''h:1''),
      http_post = (\<lambda>url. handle_client_write (\<lambda>r. Raft_Written (Response_Ok (set_now r))) 77)\<rparr> 5
      (acquire_request demo_dcs 3) = Ok (Response_Ok 77)"
proof -
  have "stamp_leader_time (acquire_request demo_dcs 0) 3 = acquire_request demo_dcs 3"
    by (simp add: stamp_leader_time_def acquire_request_def)
  then show ?thesis
    using forwarded_write_uses_leader_clock
      [of "\<lparr>client_write = (\<lambda>_. Raft_Forward), current_leader = Some 2, node_addr = (\<lambda>_. Some ''h:1''),
          http_post = (\<lambda>url. handle_client_write (\<lambda>r. Raft_Written (Response_Ok (set_now r))) 77)\<rparr>" 2 "''h:1''"
        "\<lambda>r. Raft_Written (Response_Ok (set_now r))" 77 "acquire_request demo_dcs 0" "Response_Ok 77" demo_dcs 5 3]
    by (simp add: stamp_leader_time_def acquire_request_def)
qed

end
