(* ===== verification/Lease.thy ===== *)
theory Lease
  imports Cluster
begin

text \<open>
  The leader lease of \<open>crates/pg-ha-core/src/ha/lease.rs\<close> and the lag arithmetic of
  \<open>ha/lag.rs\<close>. Instants of both clocks are natural numbers of milliseconds (the durations the
  source adds are whole seconds); \<open>wait_for_expiry\<close> is the polling loop for one published lease,
  with the wall clock given as a function of the monotonic one.

  The lemmas show when a lease is valid and that the wait returns at the first moment it may: an
  expired lease is noticed no later than the monotonic deadline, and within one polling
  interval of a wall clock that reached its deadline.
\<close>

section \<open>Leases\<close>

definition LEASE_POLL_INTERVAL :: nat where "LEASE_POLL_INTERVAL = 1000"

record lease_anchor =
  la_mono :: nat
  la_wall :: nat

record leader_lease =
  ls_mono_deadline :: nat
  ls_wall_deadline :: nat

definition lease_valid_ms :: "u64 \<Rightarrow> u64 \<Rightarrow> nat" where
  "lease_valid_ms lock_ttl_secs safety_margin_secs = unat (saturating_sub lock_ttl_secs safety_margin_secs) * 1000"

definition lease_new :: "lease_anchor \<Rightarrow> u64 \<Rightarrow> u64 \<Rightarrow> leader_lease" where
  "lease_new anchor lock_ttl_secs safety_margin_secs =
    (let valid = lease_valid_ms lock_ttl_secs safety_margin_secs
     in \<lparr>ls_mono_deadline = la_mono anchor + valid, ls_wall_deadline = la_wall anchor + valid\<rparr>)"

definition expired_at :: "leader_lease \<Rightarrow> nat \<Rightarrow> nat \<Rightarrow> bool" where
  "expired_at l mono_now wall_now \<longleftrightarrow> ls_mono_deadline l \<le> mono_now \<or> ls_wall_deadline l \<le> wall_now"

definition lease_remaining :: "leader_lease \<Rightarrow> nat \<Rightarrow> nat \<Rightarrow> nat" where
  "lease_remaining l mono_now wall_now = min (ls_mono_deadline l - mono_now) (ls_wall_deadline l - wall_now)"

definition until_next_check :: "leader_lease \<Rightarrow> nat \<Rightarrow> nat \<Rightarrow> nat" where
  "until_next_check l mono_now wall_now = min (lease_remaining l mono_now wall_now) LEASE_POLL_INTERVAL"

lemma expired_iff_remaining: "expired_at l m w \<longleftrightarrow> lease_remaining l m w = 0"
  by (auto simp: expired_at_def lease_remaining_def min_def)

lemma until_next_check_pos: "\<not> expired_at l m w \<Longrightarrow> 0 < until_next_check l m w"
  by (auto simp: expired_at_def until_next_check_def lease_remaining_def LEASE_POLL_INTERVAL_def)

function wait_for_expiry :: "(nat \<Rightarrow> nat) \<Rightarrow> leader_lease \<Rightarrow> nat \<Rightarrow> nat" where
  "wait_for_expiry wall l t =
    (if expired_at l t (wall t) then t
     else wait_for_expiry wall l (t + until_next_check l t (wall t)))"
  by pat_completeness auto
termination
  by (relation "measure (\<lambda>(wall, l, t). ls_mono_deadline l - t)")
    (use until_next_check_pos in \<open>auto simp: expired_at_def intro: diff_less_mono2\<close>)

declare wait_for_expiry.simps [simp del]

lemma wait_for_expiry_returns:
  "expired_at l (wait_for_expiry wall l t) (wall (wait_for_expiry wall l t)) \<and> t \<le> wait_for_expiry wall l t \<and>
    wait_for_expiry wall l t \<le> max t (ls_mono_deadline l)"
proof (induction wall l t rule: wait_for_expiry.induct)
  case (1 wall l t)
  show ?case
  proof (cases "expired_at l t (wall t)")
    case False
    let ?t = "t + until_next_check l t (wall t)"
    have "?t \<le> ls_mono_deadline l"
      using False by (auto simp: expired_at_def until_next_check_def lease_remaining_def)
    then show ?thesis using 1 [OF False] False by (subst (1 2 3 4) wait_for_expiry.simps) auto
  qed (simp add: wait_for_expiry.simps)
qed

lemma wait_for_expiry_prompt:
  assumes "t \<le> u" "\<And>v. u \<le> v \<Longrightarrow> expired_at l v (wall v)"
  shows "wait_for_expiry wall l t < u + LEASE_POLL_INTERVAL + 1"
  using assms
proof (induction wall l t rule: wait_for_expiry.induct)
  case (1 wall l t)
  show ?case
  proof (cases "expired_at l t (wall t)")
    case True
    then show ?thesis using 1(2) by (simp add: wait_for_expiry.simps)
  next
    case False
    let ?t = "t + until_next_check l t (wall t)"
    have step: "wait_for_expiry wall l t = wait_for_expiry wall l ?t"
      using False by (subst wait_for_expiry.simps) simp
    have tu: "t < u" using False 1(3) by (meson not_le)
    have "?t \<le> t + LEASE_POLL_INTERVAL" by (simp add: until_next_check_def)
    show ?thesis
    proof (cases "?t \<le> u")
      case True
      then show ?thesis using 1(1) [OF False True 1(3)] step by simp
    next
      case False
      then have "expired_at l ?t (wall ?t)" using 1(3) by simp
      then have "wait_for_expiry wall l ?t = ?t" by (simp add: wait_for_expiry.simps)
      then show ?thesis using step tu \<open>?t \<le> t + LEASE_POLL_INTERVAL\<close> by simp
    qed
  qed
qed

text \<open>
  The wait for the lease to expire always returns, at a moment when the lease has expired on
  one of the two clocks, never after its monotonic deadline, and at most one polling interval
  after the moment from which either clock stays past its deadline.
\<close>

theorem lease_expiry_is_noticed:
  "expired_at l (wait_for_expiry wall l t) (wall (wait_for_expiry wall l t)) \<and>
   wait_for_expiry wall l t \<le> max t (ls_mono_deadline l) \<and>
   (\<forall>u \<ge> t. (\<forall>v \<ge> u. expired_at l v (wall v)) \<longrightarrow> wait_for_expiry wall l t \<le> u + LEASE_POLL_INTERVAL)"
  using wait_for_expiry_returns [of l wall t] wait_for_expiry_prompt [of t _ l wall] by fastforce

theorem lease_expiry_is_noticed_witness:
  "wait_for_expiry (\<lambda>t. t) (lease_new \<lparr>la_mono = 0, la_wall = 50\<rparr> 30 5) 0 \<le> 25000"
  using lease_expiry_is_noticed [of "lease_new \<lparr>la_mono = 0, la_wall = 50\<rparr> 30 5" "\<lambda>t. t" 0]
  by (simp add: lease_new_def lease_valid_ms_def Let_def saturating_sub_def)

lemma lease_new_simps [simp]:
  "ls_mono_deadline (lease_new a ttl margin) = la_mono a + lease_valid_ms ttl margin"
  "ls_wall_deadline (lease_new a ttl margin) = la_wall a + lease_valid_ms ttl margin"
  by (simp_all add: lease_new_def Let_def)

lemma lease_valid_ms_bound: "0 < lease_valid_ms ttl margin \<Longrightarrow> lease_valid_ms ttl margin + unat margin * 1000 = unat ttl * 1000"
  by (simp add: lease_valid_ms_def diff_mult_distrib)

section \<open>Lag\<close>

definition replication_lag_bytes :: "member_role \<Rightarrow> u64 option \<Rightarrow> u64 option \<Rightarrow> u64 option" where
  "replication_lag_bytes role leader_wal own_wal =
    (case own_wal of
       None \<Rightarrow> None
     | Some own \<Rightarrow>
         (case role of
            Primary \<Rightarrow> Some 0
          | Replica \<Rightarrow> map_option (\<lambda>l. saturating_sub l own) leader_wal
          | _ \<Rightarrow> None))"

definition exceeds_failover_lag :: "u64 option \<Rightarrow> u64 \<Rightarrow> u64 option \<Rightarrow> bool" where
  "exceeds_failover_lag own_wal max_wal threshold =
    (case threshold of
       None \<Rightarrow> False
     | Some t \<Rightarrow> (case own_wal of None \<Rightarrow> True | Some own \<Rightarrow> saturating_sub max_wal own > t))"

lemma exceeds_failover_lag_mono:
  "\<lbrakk>exceeds_failover_lag (Some b) m th; a \<le> b\<rbrakk> \<Longrightarrow> exceeds_failover_lag (Some a) m th"
proof (cases th)
  case (Some t)
  assume a: "exceeds_failover_lag (Some b) m th" "a \<le> b"
  have "unat a \<le> unat b" using a(2) by (simp add: word_le_nat_alt)
  then show ?thesis
    using a(1) Some by (simp add: exceeds_failover_lag_def word_less_nat_alt)
qed (simp add: exceeds_failover_lag_def)

lemma max_never_exceeds: "\<not> exceeds_failover_lag (Some m) m th"
  by (simp add: exceeds_failover_lag_def split: option.splits)

end
