(* ===== verification/Lock_Protocol.thy ===== *)
theory Lock_Protocol
  imports Raft_Dcs Lease
begin

text \<open>
  The leader-lock protocol between the nodes and the replicated state machine, as the step
  relation \<open>lock_step\<close>: a node reads its clocks, sends a lock write (\<open>raft_dcs.rs\<close>), the Raft leader
  stamps it with its own clock and it is applied in log order (\<open>state_machine.rs\<close>), the answer
  reaches the node if it still waits for it, and the node extends its lease from the anchor it
  read before sending (\<open>lease.rs\<close>, \<open>extend_leader_lease\<close> of \<open>ha/helpers.rs\<close>). Requests may be lost,
  delayed and reordered; a write a node gave up on may still be applied later. Time is true time
  in milliseconds; a node's monotonic clock advances with it, wall clocks are arbitrary, and the
  clocks of successive Raft leaders lie in a window of width \<open>lp_skew\<close>.

  A node that asks for its lock to be released keeps its lease until the answer or longer: only
  \<open>release_lock_as_standby\<close> clears it, after \<open>delete_leader\<close> returned, while
  \<open>release_leader_lock_if_stopped\<close> and \<open>handle_postgres_not_running\<close> leave it to the end of the
  cycle. So dropping the lease is a step of its own (\<open>drop_lease\<close>), which may come at any time or
  never, and the history variable \<open>pr_released\<close> holds the nodes that have asked for a release
  since their last lease was granted.

  The main theorem is the safety of the lease: two nodes that have not asked for a release never
  hold unexpired leases at the same time, if the window is not wider than the safety margin and a
  node sends no lock write while a release of its own may still be on its way. Both conditions
  are needed: a released lock may be granted to another node before the first one has forgotten
  its lease, and a delayed release removes the lock of a node whose lease is valid. What a node
  that asked for a release may do with its old lease is a matter of the engine, which asks only
  over a server that is stopped or in recovery (\<open>Ha_Safety\<close>).
\<close>

record lock_params =
  lp_dcs :: raft_dcs
  lp_margin :: u64
  lp_epoch :: nat
  lp_skew :: nat
  lp_strict :: bool

datatype lock_kind = Kind_Acquire | Kind_Renew | Kind_Release

record lock_msg =
  lm_id :: nat
  lm_kind :: lock_kind
  lm_node :: string
  lm_anchor :: nat

record protocol =
  pr_now :: nat
  pr_machine :: kv_state_machine
  pr_next_id :: nat
  pr_sent :: "lock_msg set"
  pr_replies :: "lock_msg set"
  pr_waiting :: "string \<Rightarrow> nat option"
  pr_leases :: "string \<Rightarrow> leader_lease option"
  pr_released :: "string set"

definition protocol_init :: protocol where
  "protocol_init = \<lparr>pr_now = 0, pr_machine = new_state_machine, pr_next_id = 0, pr_sent = {}, pr_replies = {},
     pr_waiting = (\<lambda>_. None), pr_leases = (\<lambda>_. None), pr_released = {}\<rparr>"

definition release_in_flight :: "string \<Rightarrow> protocol \<Rightarrow> bool" where
  "release_in_flight n st \<longleftrightarrow> (\<exists>m \<in> pr_sent st. lm_node m = n \<and> lm_kind m = Kind_Release)"

definition new_msg :: "lock_kind \<Rightarrow> string \<Rightarrow> protocol \<Rightarrow> lock_msg" where
  "new_msg k n st = \<lparr>lm_id = pr_next_id st, lm_kind = k, lm_node = n, lm_anchor = pr_now st\<rparr>"

definition send :: "lock_kind \<Rightarrow> string \<Rightarrow> protocol \<Rightarrow> protocol" where
  "send k n st = st\<lparr>pr_next_id := Suc (pr_next_id st), pr_sent := insert (new_msg k n st) (pr_sent st),
     pr_waiting := (pr_waiting st)(n \<mapsto> pr_next_id st)\<rparr>"

definition msg_op :: "lock_msg \<Rightarrow> u64 \<Rightarrow> lock_op" where
  "msg_op m t = (case lm_kind m of Kind_Acquire \<Rightarrow> Lock_Acquire (lm_node m) t
     | Kind_Renew \<Rightarrow> Lock_Renew (lm_node m) t | Kind_Release \<Rightarrow> Lock_Release (lm_node m))"

definition stamp_at :: "lock_params \<Rightarrow> nat \<Rightarrow> u64 \<Rightarrow> bool" where
  "stamp_at p now t \<longleftrightarrow> lp_epoch p + now \<le> unat t \<and> unat t \<le> lp_epoch p + now + lp_skew p \<and> 0 < unat t \<and>
     unat t + unat (lock_ttl (lp_dcs p)) * 1000 < 2 ^ 64"

definition extend_lease :: "lock_params \<Rightarrow> lock_msg \<Rightarrow> nat \<Rightarrow> leader_lease" where
  "extend_lease p m wall =
    lease_new \<lparr>la_mono = lm_anchor m, la_wall = wall\<rparr> (lock_ttl (lp_dcs p)) (lp_margin p)"

inductive lock_step :: "lock_params \<Rightarrow> protocol \<Rightarrow> protocol \<Rightarrow> bool" for p where
  tick: "lock_step p st (st\<lparr>pr_now := pr_now st + d\<rparr>)"
| send_write: "k \<noteq> Kind_Release \<Longrightarrow> (lp_strict p \<longrightarrow> \<not> release_in_flight n st) \<Longrightarrow> lock_step p st (send k n st)"
| send_release: "lock_step p st (send Kind_Release n (st\<lparr>pr_released := insert n (pr_released st)\<rparr>))"
| lose: "lock_step p st (st\<lparr>pr_sent := pr_sent st - {m}\<rparr>)"
| apply_write: "m \<in> pr_sent st \<Longrightarrow> stamp_at p (pr_now st) t \<Longrightarrow>
    lock_perform (lp_dcs p) clock idx (msg_op m t) (pr_machine st) = (sm', ok) \<Longrightarrow>
    lock_step p st (st\<lparr>pr_machine := sm', pr_sent := pr_sent st - {m},
      pr_replies := (if ok \<and> lm_kind m \<noteq> Kind_Release then insert m (pr_replies st) else pr_replies st)\<rparr>)"
| expire: "stamp_at p (pr_now st) t \<Longrightarrow>
    lock_perform (lp_dcs p) clock idx (Lock_Expire t) (pr_machine st) = (sm', ok) \<Longrightarrow>
    lock_step p st (st\<lparr>pr_machine := sm'\<rparr>)"
| other_write: "sm_data sm' (leader_path (lp_dcs p)) = sm_data (pr_machine st) (leader_path (lp_dcs p)) \<Longrightarrow>
    lock_step p st (st\<lparr>pr_machine := sm'\<rparr>)"
| granted: "m \<in> pr_replies st \<Longrightarrow> pr_waiting st (lm_node m) = Some (lm_id m) \<Longrightarrow>
    lock_step p st (st\<lparr>pr_waiting := (pr_waiting st)(lm_node m := None),
      pr_leases := (pr_leases st)(lm_node m \<mapsto> extend_lease p m wall),
      pr_released := pr_released st - {lm_node m}\<rparr>)"
| give_up: "lock_step p st (st\<lparr>pr_waiting := (pr_waiting st)(n := None)\<rparr>)"
| drop_lease: "lock_step p st (st\<lparr>pr_leases := (pr_leases st)(n := None)\<rparr>)"

inductive lock_reachable :: "lock_params \<Rightarrow> protocol \<Rightarrow> bool" for p where
  init: "lock_reachable p protocol_init"
| step: "lock_reachable p st \<Longrightarrow> lock_step p st st' \<Longrightarrow> lock_reachable p st'"

section \<open>The invariant\<close>

text \<open>The lock is \<open>n\<close>'s, and no stamp taken before true time \<open>deadline\<close> can see it expired.\<close>

definition protects :: "lock_params \<Rightarrow> string \<Rightarrow> nat \<Rightarrow> protocol \<Rightarrow> bool" where
  "protects p n deadline st \<longleftrightarrow> \<not> release_in_flight n st \<and>
    (\<exists>e. lock_holder (lp_dcs p) (pr_machine st) = Some (n, Some e) \<and> deadline + lp_epoch p + lp_skew p \<le> unat e)"

definition msg_deadline :: "lock_params \<Rightarrow> lock_msg \<Rightarrow> nat" where
  "msg_deadline p m = lm_anchor m + lease_valid_ms (lock_ttl (lp_dcs p)) (lp_margin p)"

definition inv_lease :: "lock_params \<Rightarrow> protocol \<Rightarrow> bool" where
  "inv_lease p st \<longleftrightarrow> (\<forall>n l. pr_leases st n = Some l \<and> n \<notin> pr_released st \<longrightarrow>
     ls_mono_deadline l \<le> pr_now st + lease_valid_ms (lock_ttl (lp_dcs p)) (lp_margin p) \<and>
     (pr_now st < ls_mono_deadline l \<longrightarrow> protects p n (ls_mono_deadline l) st))"

definition inv_reply :: "lock_params \<Rightarrow> protocol \<Rightarrow> bool" where
  "inv_reply p st \<longleftrightarrow> (\<forall>m \<in> pr_replies st. pr_waiting st (lm_node m) = Some (lm_id m) \<longrightarrow>
     pr_now st < msg_deadline p m \<longrightarrow> protects p (lm_node m) (msg_deadline p m) st)"

definition inv_sent :: "lock_params \<Rightarrow> protocol \<Rightarrow> bool" where
  "inv_sent p st \<longleftrightarrow> (\<forall>m \<in> pr_sent st \<union> pr_replies st. lm_id m < pr_next_id st \<and> lm_anchor m \<le> pr_now st) \<and>
     (\<forall>m \<in> pr_sent st. lm_kind m \<noteq> Kind_Release \<longrightarrow> pr_waiting st (lm_node m) = Some (lm_id m) \<longrightarrow>
        \<not> release_in_flight (lm_node m) st)"

definition lock_inv :: "lock_params \<Rightarrow> protocol \<Rightarrow> bool" where
  "lock_inv p st \<longleftrightarrow> inv_lease p st \<and> inv_reply p st \<and> inv_sent p st"

lemmas lock_inv_defs = lock_inv_def inv_lease_def inv_reply_def inv_sent_def

text \<open>What a step keeps of a protected deadline.\<close>

lemma protects_frame:
  assumes "protects p n D st" "lock_holder (lp_dcs p) (pr_machine st') = lock_holder (lp_dcs p) (pr_machine st)"
    and "pr_sent st' \<subseteq> pr_sent st \<or> (\<exists>k j. pr_sent st' = insert (new_msg k j st) (pr_sent st) \<and> (k = Kind_Release \<longrightarrow> j \<noteq> n))"
  shows "protects p n D st'"
  using assms by (auto simp: protects_def release_in_flight_def new_msg_def)

lemma stamp_before:
  assumes "stamp_at p now t" "now < D" "D + lp_epoch p + lp_skew p \<le> unat e"
  shows "t \<noteq> 0 \<and> t < e"
proof -
  have "unat t < unat e" using assms by (simp add: stamp_at_def)
  then show ?thesis using assms(1) by (auto simp: stamp_at_def word_less_nat_alt)
qed

lemma written_expiry:
  assumes "stamp_at p now t"
  shows "unat (t + lock_ttl (lp_dcs p) * 1000) = unat t + unat (lock_ttl (lp_dcs p)) * 1000"
proof -
  have m: "unat (lock_ttl (lp_dcs p) * 1000) = unat (lock_ttl (lp_dcs p)) * 1000"
    using assms by (simp add: stamp_at_def unat_word_ariths(2))
  then show ?thesis using assms by (simp add: stamp_at_def unat_word_ariths(1))
qed

lemma written_lock_protects:
  assumes "stamp_at p now t" "lp_skew p \<le> unat (lp_margin p) * 1000"
    and "D \<le> now + lease_valid_ms (lock_ttl (lp_dcs p)) (lp_margin p)" "now < D"
  shows "D + lp_epoch p + lp_skew p \<le> unat (t + lock_ttl (lp_dcs p) * 1000)"
proof -
  have "0 < lease_valid_ms (lock_ttl (lp_dcs p)) (lp_margin p)" using assms(3,4) by simp
  then have "lease_valid_ms (lock_ttl (lp_dcs p)) (lp_margin p) + unat (lp_margin p) * 1000 =
      unat (lock_ttl (lp_dcs p)) * 1000" by (rule lease_valid_ms_bound)
  then show ?thesis using assms by (simp add: written_expiry [OF assms(1)] stamp_at_def)
qed

lemma apply_keeps_protection:
  assumes "protects p n D st" "m \<in> pr_sent st" "stamp_at p (pr_now st) t"
    and "lock_perform (lp_dcs p) clock idx (msg_op m t) (pr_machine st) = (sm', ok)"
    and "pr_now st < D" "D \<le> pr_now st + lease_valid_ms (lock_ttl (lp_dcs p)) (lp_margin p)"
    and "lp_skew p \<le> unat (lp_margin p) * 1000" "pr_sent st' \<subseteq> pr_sent st" "pr_machine st' = sm'"
  shows "protects p n D st'"
proof -
  obtain e where nr: "\<not> release_in_flight n st" and h: "lock_holder (lp_dcs p) (pr_machine st) = Some (n, Some e)"
    and e: "D + lp_epoch p + lp_skew p \<le> unat e"
    using assms(1) by (auto simp: protects_def)
  have "msg_op m t \<noteq> Lock_Release n"
    using nr assms(2) by (auto simp: msg_op_def release_in_flight_def split: lock_kind.splits)
  moreover have "\<And>u. op_stamp (msg_op m t) = Some u \<Longrightarrow> u \<noteq> 0 \<and> u < e"
    using stamp_before [OF assms(3,5) e] by (auto simp: msg_op_def split: lock_kind.splits)
  ultimately consider "lock_holder (lp_dcs p) sm' = Some (n, Some e)"
    | u where "msg_op m t = Lock_Renew n u" "lock_holder (lp_dcs p) sm' = Some (n, Some (u + lock_ttl (lp_dcs p) * 1000))"
    using raft_lock.unexpired_stays [OF assms(4) h] by blast
  then have "\<exists>e'. lock_holder (lp_dcs p) sm' = Some (n, Some e') \<and> D + lp_epoch p + lp_skew p \<le> unat e'"
  proof cases
    case 1
    then show ?thesis using e by blast
  next
    case 2
    then have "u = t" by (auto simp: msg_op_def split: lock_kind.splits)
    then show ?thesis using 2(2) written_lock_protects [OF assms(3,7,6,5)] by blast
  qed
  moreover have "\<not> release_in_flight n st'" using nr assms(8) by (auto simp: release_in_flight_def)
  ultimately show ?thesis using assms(9) by (simp add: protects_def)
qed

lemma new_write_protected:
  assumes "m \<in> pr_sent st" "stamp_at p (pr_now st) t" "lm_kind m \<noteq> Kind_Release"
    and "lock_perform (lp_dcs p) clock idx (msg_op m t) (pr_machine st) = (sm', True)"
    and "lp_skew p \<le> unat (lp_margin p) * 1000" "inv_sent p st"
    and "pr_waiting st (lm_node m) = Some (lm_id m)" "pr_now st < msg_deadline p m"
    and "pr_sent st' \<subseteq> pr_sent st" "pr_machine st' = sm'"
  shows "protects p (lm_node m) (msg_deadline p m) st'"
proof -
  have "t \<noteq> 0" using assms(2) by (auto simp: stamp_at_def)
  moreover have "msg_op m t = Lock_Acquire (lm_node m) t \<or> msg_op m t = Lock_Renew (lm_node m) t"
    using assms(3) by (auto simp: msg_op_def split: lock_kind.splits)
  ultimately have "lock_holder (lp_dcs p) sm' = Some (lm_node m, Some (t + lock_ttl (lp_dcs p) * 1000))"
    using raft_lock.granted_holds assms(4) by blast
  moreover have "msg_deadline p m \<le> pr_now st + lease_valid_ms (lock_ttl (lp_dcs p)) (lp_margin p)"
    using assms(1,6) by (auto simp: inv_sent_def msg_deadline_def)
  then have "msg_deadline p m + lp_epoch p + lp_skew p \<le> unat (t + lock_ttl (lp_dcs p) * 1000)"
    using written_lock_protects [OF assms(2,5) _ assms(8)] by blast
  moreover have "\<not> release_in_flight (lm_node m) st" using assms(1,3,6,7) by (auto simp: inv_sent_def)
  ultimately show ?thesis using assms(9,10) by (auto simp: protects_def release_in_flight_def)
qed

lemma inv_sent_step:
  assumes "lock_step p st st'" "lp_strict p" "inv_sent p st"
  shows "inv_sent p st'"
  using assms
proof (cases rule: lock_step.cases)
  case (send_write k n)
  then show ?thesis using assms(2,3)
    by (auto simp: inv_sent_def send_def new_msg_def release_in_flight_def less_Suc_eq)
next
  case (send_release n)
  then show ?thesis using assms(3)
    by (auto simp: inv_sent_def send_def new_msg_def release_in_flight_def less_Suc_eq)
next
  case (tick d)
  then show ?thesis using assms(3) by (auto simp: inv_sent_def release_in_flight_def intro: trans_le_add1)
qed (auto simp: inv_sent_def release_in_flight_def split: if_splits)

lemma inv_lease_mono:
  assumes "inv_lease p st" "pr_now st \<le> pr_now st'"
    and "\<And>n l. \<lbrakk>pr_leases st' n = Some l; n \<notin> pr_released st'\<rbrakk> \<Longrightarrow> pr_leases st n = Some l \<and> n \<notin> pr_released st"
    and "\<And>n l. \<lbrakk>pr_leases st' n = Some l; n \<notin> pr_released st'; pr_now st' < ls_mono_deadline l;
            protects p n (ls_mono_deadline l) st\<rbrakk> \<Longrightarrow> protects p n (ls_mono_deadline l) st'"
  shows "inv_lease p st'"
  unfolding inv_lease_def
proof (intro allI impI conjI)
  fix n l assume "pr_leases st' n = Some l \<and> n \<notin> pr_released st'"
  then have l: "pr_leases st' n = Some l" "n \<notin> pr_released st'" by simp_all
  then have o: "ls_mono_deadline l \<le> pr_now st + lease_valid_ms (lock_ttl (lp_dcs p)) (lp_margin p) \<and>
      (pr_now st < ls_mono_deadline l \<longrightarrow> protects p n (ls_mono_deadline l) st)"
    using assms(1,3) by (auto simp: inv_lease_def)
  then show "ls_mono_deadline l \<le> pr_now st' + lease_valid_ms (lock_ttl (lp_dcs p)) (lp_margin p)"
    using assms(2) by linarith
  assume d: "pr_now st' < ls_mono_deadline l"
  then have "protects p n (ls_mono_deadline l) st" using o assms(2) by linarith
  then show "protects p n (ls_mono_deadline l) st'" by (rule assms(4) [OF l d])
qed

lemma inv_reply_mono:
  assumes "inv_reply p st" "pr_now st \<le> pr_now st'" "pr_replies st' \<subseteq> pr_replies st"
    and "\<And>m. \<lbrakk>m \<in> pr_replies st'; pr_waiting st' (lm_node m) = Some (lm_id m)\<rbrakk> \<Longrightarrow> pr_waiting st (lm_node m) = Some (lm_id m)"
    and "\<And>m. \<lbrakk>m \<in> pr_replies st'; pr_waiting st' (lm_node m) = Some (lm_id m); pr_now st' < msg_deadline p m;
            protects p (lm_node m) (msg_deadline p m) st\<rbrakk> \<Longrightarrow> protects p (lm_node m) (msg_deadline p m) st'"
  shows "inv_reply p st'"
  unfolding inv_reply_def
proof (intro ballI impI)
  fix m assume m: "m \<in> pr_replies st'" "pr_waiting st' (lm_node m) = Some (lm_id m)" "pr_now st' < msg_deadline p m"
  have "pr_now st < msg_deadline p m" using m(3) assms(2) by linarith
  then have "protects p (lm_node m) (msg_deadline p m) st"
    using assms(1,3) assms(4) [OF m(1,2)] m(1) unfolding inv_reply_def by blast
  then show "protects p (lm_node m) (msg_deadline p m) st'" by (rule assms(5) [OF m])
qed

lemma lock_inv_same_lock:
  assumes "lock_inv p st" "pr_now st \<le> pr_now st'" "pr_replies st' = pr_replies st" "pr_sent st' \<subseteq> pr_sent st"
    and "\<And>n l. pr_leases st' n = Some l \<Longrightarrow> pr_leases st n = Some l" "pr_released st' = pr_released st"
    and "\<And>n i. pr_waiting st' n = Some i \<Longrightarrow> pr_waiting st n = Some i"
    and "\<And>n D. \<lbrakk>protects p n D st; pr_now st' < D\<rbrakk> \<Longrightarrow> protects p n D st'"
    and "inv_sent p st'"
  shows "lock_inv p st'"
  unfolding lock_inv_def
proof (intro conjI)
  have "inv_lease p st" using assms(1) by (simp add: lock_inv_def)
  then show "inv_lease p st'" by (rule inv_lease_mono [OF _ assms(2)]) (use assms(5-8) in auto)
  have "inv_reply p st" using assms(1) by (simp add: lock_inv_def)
  then show "inv_reply p st'"
    using inv_reply_mono [OF _ assms(2) equalityD1 [OF assms(3)] assms(7) assms(8)] by blast
qed (rule assms(9))

lemma lock_inv_send:
  assumes "lock_inv p st" "inv_sent p (send k n st)" "k = Kind_Release \<longrightarrow> n \<in> pr_released st"
  shows "lock_inv p (send k n st)"
proof -
  have id: "lm_id m < pr_next_id st" if "m \<in> pr_replies st" for m
    using assms(1) that by (auto simp: lock_inv_def inv_sent_def)
  have keep: "protects p j D (send k n st)" if "protects p j D st" "k = Kind_Release \<longrightarrow> j \<noteq> n" for j D
    using that by (intro protects_frame [OF that(1)]) (auto simp: send_def)
  have "inv_lease p (send k n st)"
  proof (rule inv_lease_mono [of p st])
    fix j l assume "j \<notin> pr_released (send k n st)" "protects p j (ls_mono_deadline l) st"
    then show "protects p j (ls_mono_deadline l) (send k n st)"
      using assms(3) by (intro keep) (auto simp: send_def)
  qed (use assms(1) in \<open>auto simp: lock_inv_def send_def\<close>)
  moreover have "inv_reply p (send k n st)"
  proof (rule inv_reply_mono [of p st])
    fix m assume m: "m \<in> pr_replies (send k n st)" "pr_waiting (send k n st) (lm_node m) = Some (lm_id m)"
    then have "lm_node m \<noteq> n" using id [of m] by (auto simp: send_def)
    then show "pr_waiting st (lm_node m) = Some (lm_id m)" using m by (simp add: send_def)
    assume "protects p (lm_node m) (msg_deadline p m) st"
    then show "protects p (lm_node m) (msg_deadline p m) (send k n st)" using \<open>lm_node m \<noteq> n\<close> by (intro keep) auto
  qed (use assms(1) in \<open>auto simp: lock_inv_def send_def\<close>)
  ultimately show ?thesis using assms(2) by (simp add: lock_inv_def)
qed

lemma lock_inv_apply:
  assumes "lock_inv p st" "m \<in> pr_sent st" "stamp_at p (pr_now st) t"
    and "lock_perform (lp_dcs p) clock idx (msg_op m t) (pr_machine st) = (sm', ok)"
    and "lp_skew p \<le> unat (lp_margin p) * 1000"
    and "st' = st\<lparr>pr_machine := sm', pr_sent := pr_sent st - {m},
      pr_replies := (if ok \<and> lm_kind m \<noteq> Kind_Release then insert m (pr_replies st) else pr_replies st)\<rparr>"
    and "inv_sent p st'"
  shows "lock_inv p st'"
proof -
  have sent: "pr_sent st' \<subseteq> pr_sent st" and machine: "pr_machine st' = sm'" and now: "pr_now st' = pr_now st"
    and same: "pr_leases st' = pr_leases st" "pr_waiting st' = pr_waiting st" "pr_released st' = pr_released st"
    using assms(6) by auto
  note keep = apply_keeps_protection [OF _ assms(2,3,4) _ _ assms(5) sent machine]
  have "inv_lease p st'"
    unfolding inv_lease_def now same using assms(1) keep by (auto simp: lock_inv_def inv_lease_def)
  moreover have "inv_reply p st'"
    unfolding inv_reply_def now same
  proof (intro ballI impI)
    fix r assume r: "r \<in> pr_replies st'" "pr_waiting st (lm_node r) = Some (lm_id r)" "pr_now st < msg_deadline p r"
    show "protects p (lm_node r) (msg_deadline p r) st'"
    proof (cases "r \<in> pr_replies st")
      case True
      then have "protects p (lm_node r) (msg_deadline p r) st" "lm_anchor r \<le> pr_now st"
        using assms(1) r by (auto simp: lock_inv_def inv_reply_def inv_sent_def)
      then show ?thesis using keep [of "lm_node r" "msg_deadline p r"] r(3) by (simp add: msg_deadline_def)
    next
      case False
      then have "r = m" "ok" "lm_kind m \<noteq> Kind_Release" using r(1) assms(6) by (auto split: if_splits)
      then show ?thesis
        using new_write_protected [OF assms(2,3) _ _ assms(5) _ _ _ sent machine] assms(1,4) r(2,3)
        by (simp add: lock_inv_def)
    qed
  qed
  ultimately show ?thesis using assms(7) by (simp add: lock_inv_def)
qed

lemma expire_keeps_protection:
  assumes "protects p n D st" "stamp_at p (pr_now st) t" "pr_now st < D"
    and "lock_perform (lp_dcs p) clock idx (Lock_Expire t) (pr_machine st) = (sm', ok)"
  shows "protects p n D (st\<lparr>pr_machine := sm'\<rparr>)"
proof -
  obtain e where h: "lock_holder (lp_dcs p) (pr_machine st) = Some (n, Some e)"
    and e: "D + lp_epoch p + lp_skew p \<le> unat e" and nr: "\<not> release_in_flight n st"
    using assms(1) by (auto simp: protects_def)
  have "lock_holder (lp_dcs p) sm' = Some (n, Some e)"
    using raft_lock.unexpired_stays [OF assms(4) h] stamp_before [OF assms(2,3) e] by auto
  then show ?thesis using e nr by (auto simp: protects_def release_in_flight_def)
qed

lemma lock_inv_granted:
  assumes "lock_inv p st" "m \<in> pr_replies st" "pr_waiting st (lm_node m) = Some (lm_id m)"
    and "st' = st\<lparr>pr_waiting := (pr_waiting st)(lm_node m := None),
      pr_leases := (pr_leases st)(lm_node m \<mapsto> extend_lease p m wall), pr_released := pr_released st - {lm_node m}\<rparr>"
    and "inv_sent p st'"
  shows "lock_inv p st'"
proof -
  have eq: "protects p n D st' \<longleftrightarrow> protects p n D st" for n D
    using assms(4) by (simp add: protects_def release_in_flight_def)
  have l: "pr_leases st' = (pr_leases st)(lm_node m \<mapsto> extend_lease p m wall)" "pr_now st' = pr_now st"
    "pr_released st' = pr_released st - {lm_node m}"
    using assms(4) by simp_all
  have d: "ls_mono_deadline (extend_lease p m wall) = msg_deadline p m"
    by (simp add: extend_lease_def msg_deadline_def)
  have "lm_anchor m \<le> pr_now st" using assms(1,2) by (auto simp: lock_inv_def inv_sent_def)
  moreover have "protects p (lm_node m) (msg_deadline p m) st" if "pr_now st < msg_deadline p m"
    using assms(1-3) that by (auto simp: lock_inv_def inv_reply_def)
  ultimately have "inv_lease p st'"
    using assms(1) unfolding inv_lease_def eq l by (auto simp: d lock_inv_def inv_lease_def msg_deadline_def)
  moreover have "inv_reply p st'"
    unfolding inv_reply_def eq l using assms(1,4) by (auto simp: lock_inv_def inv_reply_def split: if_splits)
  ultimately show ?thesis using assms(5) by (simp add: lock_inv_def)
qed

lemma lock_inv_step:
  assumes "lock_step p st st'" "lp_strict p" "lp_skew p \<le> unat (lp_margin p) * 1000" "lock_inv p st"
  shows "lock_inv p st'"
proof -
  have s: "inv_sent p st'" using inv_sent_step [OF assms(1,2)] assms(4) by (simp add: lock_inv_def)
  show ?thesis
    using assms(1)
  proof (cases rule: lock_step.cases)
    case (tick d)
    then show ?thesis using s
      by (intro lock_inv_same_lock [OF assms(4)]) (auto simp: protects_def release_in_flight_def)
  next
    case (send_write k n)
    then show ?thesis using s assms(4) by (auto intro!: lock_inv_send)
  next
    case (send_release n)
    define st1 where "st1 = st\<lparr>pr_released := insert n (pr_released st)\<rparr>"
    have "lock_inv p st1"
      using assms(4) by (auto simp: st1_def lock_inv_defs protects_def release_in_flight_def)
    then show ?thesis using s send_release by (auto simp: st1_def intro!: lock_inv_send)
  next
    case (lose m)
    then show ?thesis using s
      by (intro lock_inv_same_lock [OF assms(4)]) (auto simp: protects_def release_in_flight_def)
  next
    case (apply_write m t clock idx sm' ok)
    then show ?thesis using s by (intro lock_inv_apply [OF assms(4) _ _ _ assms(3)]) auto
  next
    case (expire t clock idx sm' ok)
    then show ?thesis using s expire_keeps_protection
      by (intro lock_inv_same_lock [OF assms(4)]) auto
  next
    case (other_write sm')
    then show ?thesis using s
      by (intro lock_inv_same_lock [OF assms(4)]) (auto simp: protects_def release_in_flight_def lock_holder_def)
  next
    case (granted m wall)
    then show ?thesis using s by (intro lock_inv_granted [OF assms(4)]) auto
  next
    case (give_up n)
    then show ?thesis using s
      by (intro lock_inv_same_lock [OF assms(4)]) (auto simp: protects_def release_in_flight_def split: if_splits)
  next
    case (drop_lease n)
    then show ?thesis using s
      by (intro lock_inv_same_lock [OF assms(4)]) (auto simp: protects_def release_in_flight_def split: if_splits)
  qed
qed

lemma lock_reachable_inv:
  "\<lbrakk>lock_reachable p st; lp_strict p; lp_skew p \<le> unat (lp_margin p) * 1000\<rbrakk> \<Longrightarrow> lock_inv p st"
proof (induction rule: lock_reachable.induct)
  case init
  then show ?case by (simp add: lock_inv_defs protocol_init_def)
next
  case (step st st')
  then show ?case using lock_inv_step by blast
qed

lemma live_lease_protects:
  assumes "lock_inv p st" "pr_leases st n = Some l" "n \<notin> pr_released st"
    and "\<not> expired_at l (pr_now st) wall"
  shows "protects p n (ls_mono_deadline l) st"
  using assms by (auto simp: lock_inv_def inv_lease_def expired_at_def)

text \<open>
  C1. Lease safety (L5): in every reachable state of the lock protocol, with requests delayed,
  lost and reordered and answers that never arrive, two nodes never hold unexpired leases at the
  same time, whatever their wall clocks say, and the lock in the state machine names the node
  whose lease is valid. This holds under three conditions: the clocks of successive Raft leaders
  differ by at most the safety margin; a node sends no lock write while a release of its own may
  still be on its way (\<open>lp_strict\<close>); and neither node has asked for its lock to be released since
  its lease was granted - such a node may keep the lease for a while after the lock is gone.
\<close>

theorem at_most_one_valid_lease:
  assumes "lock_reachable p st" and "lp_strict p" and "lp_skew p \<le> unat (lp_margin p) * 1000"
    and "pr_leases st n = Some l" and "n \<notin> pr_released st" and "\<not> expired_at l (pr_now st) wall"
    and "pr_leases st n' = Some l'" and "n' \<notin> pr_released st" and "\<not> expired_at l' (pr_now st) wall'"
  shows "n = n' \<and> map_option fst (lock_holder (lp_dcs p) (pr_machine st)) = Some n"
proof -
  have inv: "lock_inv p st" by (rule lock_reachable_inv [OF assms(1-3)])
  show ?thesis
    using live_lease_protects [OF inv assms(4-6)] live_lease_protects [OF inv assms(7-9)]
    by (auto simp: protects_def)
qed

text \<open>A send, its application and its answer, as one run.\<close>

lemma write_cycle:
  assumes "lock_reachable p st" "k \<noteq> Kind_Release" "lp_strict p \<longrightarrow> \<not> release_in_flight n st"
    and "stamp_at p (pr_now st) t" "new_msg k n st \<notin> pr_sent st"
    and "lock_perform (lp_dcs p) 0 0 (msg_op (new_msg k n st) t) (pr_machine st) = (sm', True)"
  shows "lock_reachable p (st\<lparr>pr_next_id := Suc (pr_next_id st), pr_machine := sm',
      pr_replies := insert (new_msg k n st) (pr_replies st), pr_waiting := (pr_waiting st)(n := None),
      pr_leases := (pr_leases st)(n \<mapsto> extend_lease p (new_msg k n st) 0), pr_released := pr_released st - {n}\<rparr>)"
    (is "lock_reachable p ?st3")
proof -
  let ?m = "new_msg k n st"
  let ?st1 = "send k n st"
  let ?st2 = "?st1\<lparr>pr_machine := sm', pr_sent := pr_sent ?st1 - {?m}, pr_replies := insert ?m (pr_replies ?st1)\<rparr>"
  have r1: "lock_reachable p ?st1" by (rule lock_reachable.step [OF assms(1) send_write [OF assms(2,3)]])
  have "lock_step p ?st1 (?st1\<lparr>pr_machine := sm', pr_sent := pr_sent ?st1 - {?m},
      pr_replies := (if True \<and> lm_kind ?m \<noteq> Kind_Release then insert ?m (pr_replies ?st1) else pr_replies ?st1)\<rparr>)"
    using assms(4,6) by (intro apply_write) (auto simp: send_def)
  then have r2: "lock_reachable p ?st2"
    using lock_reachable.step [OF r1] assms(2) by (simp add: new_msg_def)
  have "lock_step p ?st2 (?st2\<lparr>pr_waiting := (pr_waiting ?st2)(lm_node ?m := None),
      pr_leases := (pr_leases ?st2)(lm_node ?m \<mapsto> extend_lease p ?m 0), pr_released := pr_released ?st2 - {lm_node ?m}\<rparr>)"
    by (rule granted) (simp_all add: send_def new_msg_def)
  from lock_reachable.step [OF r2 this] show ?thesis
    using assms(5) by (simp add: send_def new_msg_def)
qed

definition demo_params :: "bool \<Rightarrow> lock_params" where
  "demo_params strict = \<lparr>lp_dcs = demo_dcs, lp_margin = 5, lp_epoch = 1000, lp_skew = 0, lp_strict = strict\<rparr>"

lemma demo_ttl: "lock_ttl demo_dcs = 30"
  by (simp add: demo_dcs_def new_raft_dcs_def lock_ttl_def)

lemma demo_stamp: "stamp_at (demo_params strict) 0 1000"
  by (simp add: stamp_at_def demo_params_def demo_ttl)

lemma acquire_free:
  assumes "lock_holder demo_dcs sm = None"
  obtains sm' where "lock_perform demo_dcs 0 0 (Lock_Acquire n 1000) sm = (sm', True)"
    "lock_holder demo_dcs sm' = Some (n, Some 31000)"
proof -
  obtain sm' b where "lock_perform demo_dcs 0 0 (Lock_Acquire n 1000) sm = (sm', b)" by fastforce
  then show thesis using raft_lock.acquire_law [of 1000 demo_dcs 0 0 n sm sm' b] assms that
    by (simp add: demo_ttl)
qed

lemma demo_acquired:
  obtains sm where "lock_holder demo_dcs sm = Some (''a'', Some 31000)"
    and "lock_reachable (demo_params strict) (protocol_init\<lparr>pr_next_id := 1, pr_machine := sm,
      pr_replies := {new_msg Kind_Acquire ''a'' protocol_init}, pr_waiting := (\<lambda>_. None),
      pr_leases := [''a'' \<mapsto> extend_lease (demo_params strict) (new_msg Kind_Acquire ''a'' protocol_init) 0]\<rparr>)"
proof -
  have "lock_holder demo_dcs new_state_machine = None" by (simp add: lock_holder_def new_state_machine_def)
  then obtain sm where sm: "lock_perform demo_dcs 0 0 (Lock_Acquire ''a'' 1000) new_state_machine = (sm, True)"
    "lock_holder demo_dcs sm = Some (''a'', Some 31000)" by (rule acquire_free)
  have "lock_reachable (demo_params strict) (protocol_init\<lparr>pr_next_id := Suc (pr_next_id protocol_init), pr_machine := sm,
      pr_replies := insert (new_msg Kind_Acquire ''a'' protocol_init) (pr_replies protocol_init),
      pr_waiting := (pr_waiting protocol_init)(''a'' := None),
      pr_leases := (pr_leases protocol_init)(''a'' \<mapsto> extend_lease (demo_params strict) (new_msg Kind_Acquire ''a'' protocol_init) 0),
      pr_released := pr_released protocol_init - {''a''}\<rparr>)"
    by (rule write_cycle [OF lock_reachable.init, where t = 1000])
      (use sm(1) demo_stamp in \<open>simp_all add: protocol_init_def new_msg_def msg_op_def demo_params_def release_in_flight_def\<close>)
  then show thesis by (intro that [OF sm(2)]) (simp add: protocol_init_def)
qed

lemma demo_lease:
  "ls_mono_deadline (extend_lease (demo_params strict) m w) = lm_anchor m + 25000"
  "ls_wall_deadline (extend_lease (demo_params strict) m w) = w + 25000"
  by (simp_all add: extend_lease_def demo_params_def demo_ttl lease_valid_ms_def)

theorem at_most_one_valid_lease_witness:
  "\<exists>st l. lock_reachable (demo_params True) st \<and> pr_leases st ''a'' = Some l \<and> ''a'' \<notin> pr_released st \<and>
    \<not> expired_at l (pr_now st) 0 \<and>
    map_option fst (lock_holder demo_dcs (pr_machine st)) = Some ''a''"
proof -
  obtain sm where r: "lock_reachable (demo_params True) (protocol_init\<lparr>pr_next_id := 1, pr_machine := sm,
      pr_replies := {new_msg Kind_Acquire ''a'' protocol_init}, pr_waiting := (\<lambda>_. None),
      pr_leases := [''a'' \<mapsto> extend_lease (demo_params True) (new_msg Kind_Acquire ''a'' protocol_init) 0]\<rparr>)"
      (is "lock_reachable _ ?st")
    using demo_acquired [of True] by blast
  let ?l = "extend_lease (demo_params True) (new_msg Kind_Acquire ''a'' protocol_init) 0"
  have l: "pr_leases ?st ''a'' = Some ?l" "''a'' \<notin> pr_released ?st" "\<not> expired_at ?l (pr_now ?st) 0"
    by (simp_all add: expired_at_def demo_lease protocol_init_def)
  have "lp_strict (demo_params True)" "lp_skew (demo_params True) \<le> unat (lp_margin (demo_params True)) * 1000"
    by (simp_all add: demo_params_def)
  from at_most_one_valid_lease [OF r this l l]
  have "map_option fst (lock_holder demo_dcs (pr_machine ?st)) = Some ''a''" by (simp add: demo_params_def)
  then show ?thesis using r l by blast
qed

section \<open>A lease kept over a release\<close>

text \<open>
  Why the theorem above leaves out a node that has asked for a release: the lock is free as soon
  as the release is applied, another node acquires it, and the first one still holds a lease that
  has not expired.
\<close>

lemma released_lease_overlaps:
  "\<exists>st l l'. lock_reachable (demo_params True) st \<and> ''a'' \<in> pr_released st \<and>
    pr_leases st ''a'' = Some l \<and> \<not> expired_at l (pr_now st) 0 \<and>
    pr_leases st ''b'' = Some l' \<and> \<not> expired_at l' (pr_now st) 0"
proof -
  let ?p = "demo_params True"
  obtain sm1 where h1: "lock_holder demo_dcs sm1 = Some (''a'', Some 31000)"
    and r1: "lock_reachable ?p (protocol_init\<lparr>pr_next_id := 1, pr_machine := sm1,
      pr_replies := {new_msg Kind_Acquire ''a'' protocol_init}, pr_waiting := (\<lambda>_. None),
      pr_leases := [''a'' \<mapsto> extend_lease ?p (new_msg Kind_Acquire ''a'' protocol_init) 0]\<rparr>)" (is "lock_reachable _ ?s1")
    using demo_acquired [of True] by blast
  define s2 where "s2 = send Kind_Release ''a'' (?s1\<lparr>pr_released := insert ''a'' (pr_released ?s1)\<rparr>)"
  define rel where "rel = new_msg Kind_Release ''a'' (?s1\<lparr>pr_released := insert ''a'' (pr_released ?s1)\<rparr>)"
  have r2: "lock_reachable ?p s2" unfolding s2_def by (rule lock_reachable.step [OF r1 send_release])
  have s2: "pr_machine s2 = sm1" "pr_now s2 = 0" "pr_sent s2 = {rel}" "''a'' \<in> pr_released s2"
    "pr_leases s2 = pr_leases ?s1"
    by (simp_all add: s2_def rel_def send_def new_msg_def protocol_init_def)
  obtain sm3 b3 where p3: "lock_perform demo_dcs 0 0 (Lock_Release ''a'') sm1 = (sm3, b3)" by fastforce
  have h3: "lock_holder demo_dcs sm3 = None" using raft_lock.release_law [OF p3] h1 by simp
  define s3 where "s3 = s2\<lparr>pr_machine := sm3, pr_sent := pr_sent s2 - {rel},
      pr_replies := (if b3 \<and> lm_kind rel \<noteq> Kind_Release then insert rel (pr_replies s2) else pr_replies s2)\<rparr>"
  have "lock_step ?p s2 s3"
    unfolding s3_def
    by (rule apply_write [where t = 1000 and clock = 0 and idx = 0])
      (use p3 demo_stamp [of True] s2 in \<open>simp_all add: msg_op_def rel_def new_msg_def demo_params_def\<close>)
  then have r3: "lock_reachable ?p s3" by (rule lock_reachable.step [OF r2])
  have s3: "pr_now s3 = 0" "pr_sent s3 = {}" "pr_machine s3 = sm3" using s2 by (simp_all add: s3_def)
  obtain sm4 where p4: "lock_perform demo_dcs 0 0 (Lock_Acquire ''b'' 1000) sm3 = (sm4, True)"
    using acquire_free [OF h3] by blast
  have r4: "lock_reachable ?p (s3\<lparr>pr_next_id := Suc (pr_next_id s3), pr_machine := sm4,
      pr_replies := insert (new_msg Kind_Acquire ''b'' s3) (pr_replies s3), pr_waiting := (pr_waiting s3)(''b'' := None),
      pr_leases := (pr_leases s3)(''b'' \<mapsto> extend_lease ?p (new_msg Kind_Acquire ''b'' s3) 0),
      pr_released := pr_released s3 - {''b''}\<rparr>)" (is "lock_reachable _ ?s4")
    by (rule write_cycle [OF r3, where t = 1000])
      (use p4 demo_stamp [of True] s3 in \<open>simp_all add: msg_op_def new_msg_def release_in_flight_def demo_params_def\<close>)
  have "\<not> expired_at (extend_lease ?p m 0) 0 0" for m by (simp add: expired_at_def demo_lease)
  then show ?thesis using r4 s2 s3 by (intro exI [of _ "?s4"]) (auto simp: s3_def)
qed

section \<open>A delayed release\<close>

text \<open>
  C39. A release that a node gave up on is not harmless: it may be applied after the node has
  renewed the lock (which still named it) and got a new lease. The lock is then free while that
  lease is valid, and another node acquires it: two nodes hold unexpired leases and neither has
  asked for a release since it got its lease, with no clock skew at all.
\<close>

theorem late_release_breaks_lease_safety:
  "\<exists>st l l'. lock_reachable (demo_params False) st \<and> lp_skew (demo_params False) = 0 \<and>
    pr_leases st ''a'' = Some l \<and> \<not> expired_at l (pr_now st) 0 \<and>
    pr_leases st ''b'' = Some l' \<and> \<not> expired_at l' (pr_now st) 0 \<and> ''a'' \<notin> pr_released st \<and> ''b'' \<notin> pr_released st"
proof -
  let ?p = "demo_params False"
  have ns: "\<not> lp_strict ?p" "lp_dcs ?p = demo_dcs" by (simp_all add: demo_params_def)
  obtain sm1 where h1: "lock_holder demo_dcs sm1 = Some (''a'', Some 31000)"
    and r1: "lock_reachable ?p (protocol_init\<lparr>pr_next_id := 1, pr_machine := sm1,
      pr_replies := {new_msg Kind_Acquire ''a'' protocol_init}, pr_waiting := (\<lambda>_. None),
      pr_leases := [''a'' \<mapsto> extend_lease ?p (new_msg Kind_Acquire ''a'' protocol_init) 0]\<rparr>)" (is "lock_reachable _ ?s1")
    using demo_acquired [of False] by blast
  define s2 where "s2 = send Kind_Release ''a'' (?s1\<lparr>pr_released := insert ''a'' (pr_released ?s1)\<rparr>)"
  define rel where "rel = new_msg Kind_Release ''a'' (?s1\<lparr>pr_released := insert ''a'' (pr_released ?s1)\<rparr>)"
  have r2: "lock_reachable ?p s2" unfolding s2_def by (rule lock_reachable.step [OF r1 send_release])
  have s2: "pr_machine s2 = sm1" "pr_now s2 = 0" "pr_sent s2 = {rel}" "pr_next_id s2 = 2" "lm_id rel = 1"
    "pr_released s2 = {''a''}"
    by (simp_all add: s2_def rel_def send_def new_msg_def protocol_init_def)
  obtain sm3 b where p3: "lock_perform demo_dcs 0 0 (Lock_Renew ''a'' 1000) sm1 = (sm3, b)" by fastforce
  have h3: "b" "lock_holder demo_dcs sm3 = Some (''a'', Some 31000)"
    using raft_lock.renew_law [OF _ p3] h1 by (simp_all add: demo_ttl)
  define s3 where "s3 = s2\<lparr>pr_next_id := Suc (pr_next_id s2), pr_machine := sm3,
      pr_replies := insert (new_msg Kind_Renew ''a'' s2) (pr_replies s2), pr_waiting := (pr_waiting s2)(''a'' := None),
      pr_leases := (pr_leases s2)(''a'' \<mapsto> extend_lease ?p (new_msg Kind_Renew ''a'' s2) 0), pr_released := pr_released s2 - {''a''}\<rparr>"
  have r3: "lock_reachable ?p s3"
    unfolding s3_def
    by (rule write_cycle [OF r2, where t = 1000])
      (use p3 h3 ns demo_stamp [of False] s2 in \<open>auto simp: msg_op_def new_msg_def rel_def\<close>)
  obtain sm4 b4 where p4: "lock_perform demo_dcs 0 0 (Lock_Release ''a'') sm3 = (sm4, b4)" by fastforce
  have h4: "lock_holder demo_dcs sm4 = None"
    using raft_lock.release_law [OF p4] h3(2) by simp
  define s4 where "s4 = s3\<lparr>pr_machine := sm4, pr_sent := pr_sent s3 - {rel},
      pr_replies := (if b4 \<and> lm_kind rel \<noteq> Kind_Release then insert rel (pr_replies s3) else pr_replies s3)\<rparr>"
  have "lock_step ?p s3 s4"
    unfolding s4_def
    by (rule apply_write [where t = 1000 and clock = 0 and idx = 0])
      (use p4 ns demo_stamp [of False] s2 in \<open>simp_all add: s3_def msg_op_def rel_def new_msg_def\<close>)
  then have r4: "lock_reachable ?p s4" by (rule lock_reachable.step [OF r3])
  obtain sm5 where p5: "lock_perform demo_dcs 0 0 (Lock_Acquire ''b'' 1000) sm4 = (sm5, True)"
    using acquire_free [OF h4] by blast
  have s4: "pr_now s4 = 0" "pr_sent s4 = {}" "pr_machine s4 = sm4"
    using s2 by (simp_all add: s4_def s3_def)
  have r5: "lock_reachable ?p (s4\<lparr>pr_next_id := Suc (pr_next_id s4), pr_machine := sm5,
      pr_replies := insert (new_msg Kind_Acquire ''b'' s4) (pr_replies s4), pr_waiting := (pr_waiting s4)(''b'' := None),
      pr_leases := (pr_leases s4)(''b'' \<mapsto> extend_lease ?p (new_msg Kind_Acquire ''b'' s4) 0),
      pr_released := pr_released s4 - {''b''}\<rparr>)" (is "lock_reachable _ ?s5")
    by (rule write_cycle [OF r4, where t = 1000])
      (use p5 ns demo_stamp [of False] s4 in \<open>simp_all add: msg_op_def new_msg_def\<close>)
  have "pr_leases ?s5 ''a'' = Some (extend_lease ?p (new_msg Kind_Renew ''a'' s2) 0)"
    "pr_leases ?s5 ''b'' = Some (extend_lease ?p (new_msg Kind_Acquire ''b'' s4) 0)" "pr_now ?s5 = 0"
    "pr_released ?s5 = {}"
    using s4 s2 by (simp_all add: s4_def s3_def)
  moreover have "\<not> expired_at (extend_lease ?p m 0) 0 0" for m by (simp add: expired_at_def demo_lease)
  ultimately show ?thesis using r5 by (intro exI [of _ "?s5"]) (auto simp: demo_params_def)
qed

end
