(* ===== verification/Raft_Network.thy ===== *)
theory Raft_Network
  imports Raft_Dcs Btree_Map "HOL-Library.Multiset"
begin

text \<open>
  Raft RPC between the nodes (\<open>crates/pg-ha-dcs/src/network.rs\<close>, \<open>raft_server.rs\<close>) and the start of
  the Raft cluster (\<open>src/main.rs\<close>, \<open>wait_for_leader\<close> and \<open>bootstrap_cluster\<close> of \<open>raft_dcs.rs\<close>). The
  consensus core (\<open>openraft\<close>), JSON (\<open>serde\<close>) and the HTTP framework are parameters: the calls of the
  core with its state, an encoder and a decoder per message, and the limit the framework puts on a
  request body.

  The lemmas show that an answer the client returns was given by the remote core to exactly this
  request, that the nodes derive one consistent membership from their configurations, and that the
  start always ends.
\<close>

section \<open>Client\<close>

type_synonym 'a json_codec = "('a \<Rightarrow> string) \<times> (string \<Rightarrow> 'a option)"

abbreviation to_json :: "'a json_codec \<Rightarrow> 'a \<Rightarrow> string" where "to_json \<equiv> fst"

abbreviation from_json :: "'a json_codec \<Rightarrow> string \<Rightarrow> 'a option" where "from_json \<equiv> snd"

type_synonym http_answer = "nat \<times> string"

datatype rpc_error = Unreachable

record network_factory =
  nf_tls_enabled :: bool

definition new_network_factory :: network_factory where
  "new_network_factory = \<lparr>nf_tls_enabled = False\<rparr>"

record raft_tls_config =
  rt_ca_cert :: "string option"
  rt_client_cert :: "string option"
  rt_client_key :: "string option"

text \<open>Files and the TLS library are arguments: \<open>read\<close>, the two parsers and the construction of the client.\<close>

definition read_pem :: "(string \<Rightarrow> (string, bytes) res) \<Rightarrow> string \<Rightarrow> string \<Rightarrow> (string, bytes) res" where
  "read_pem read what path =
    map_err (\<lambda>e. ''Failed to read '' @ what @ '' '' @ [CHR 0x27] @ path @ [CHR 0x27] @ '': '' @ e) (read path)"

definition with_tls ::
  "(string \<Rightarrow> (string, bytes) res) \<Rightarrow> (bytes \<Rightarrow> (string, unit) res) \<Rightarrow> (bytes \<Rightarrow> (string, unit) res) \<Rightarrow> (string, unit) res \<Rightarrow>
   raft_tls_config \<Rightarrow> (string, network_factory) res" where
  "with_tls read ca_from_pem identity_from_pem build cfg =
    and_then
      (case rt_ca_cert cfg of
         None \<Rightarrow> Ok ()
       | Some ca_path \<Rightarrow>
           and_then (read_pem read ''CA cert'' ca_path) (\<lambda>ca_pem. map_err (\<lambda>e. ''Invalid CA cert: '' @ e) (ca_from_pem ca_pem)))
      (\<lambda>_. and_then
        (case (rt_client_cert cfg, rt_client_key cfg) of
           (Some cert_path, Some key_path) \<Rightarrow>
             and_then (read_pem read ''client cert'' cert_path)
               (\<lambda>cert_pem. and_then (read_pem read ''client key'' key_path)
                 (\<lambda>key_pem. map_err (\<lambda>e. ''Invalid client identity: '' @ e) (identity_from_pem (cert_pem @ key_pem))))
         | _ \<Rightarrow> Ok ())
        (\<lambda>_. and_then (map_err (\<lambda>e. ''Failed to build TLS HTTP client: '' @ e) build)
          (\<lambda>_. Ok \<lparr>nf_tls_enabled = True\<rparr>)))"

definition new_client :: "network_factory \<Rightarrow> string \<Rightarrow> string" where
  "new_client f addr =
    (if prefix ''http'' addr then addr
     else if nf_tls_enabled f then ''https://'' @ addr
     else ''http://'' @ addr)"

text \<open>
  The adapter builds a second client, for the requests it forwards: here a file that cannot be used is
  skipped without an error. The client is the root certificate and the identity it got. \<open>open_raft_dcs\<close> is
  the constructor of the adapter, with the configuration check and the start of the consensus core as
  arguments.
\<close>

definition forward_client ::
  "(string \<Rightarrow> (string, bytes) res) \<Rightarrow> (bytes \<Rightarrow> (string, unit) res) \<Rightarrow> (bytes \<Rightarrow> (string, unit) res) \<Rightarrow> raft_tls_config \<Rightarrow>
   bytes option \<times> bytes option" where
  "forward_client read ca_from_pem identity_from_pem cfg =
    (case rt_ca_cert cfg of
       None \<Rightarrow> None
     | Some ca_path \<Rightarrow>
         (case read ca_path of
            Inl _ \<Rightarrow> None
          | Inr ca_pem \<Rightarrow> (if is_ok (ca_from_pem ca_pem) then Some ca_pem else None)),
     case (rt_client_cert cfg, rt_client_key cfg) of
       (Some cert_path, Some key_path) \<Rightarrow>
         (case (read cert_path, read key_path) of
            (Inr cert_pem, Inr key_pem) \<Rightarrow>
              (if is_ok (identity_from_pem (cert_pem @ key_pem)) then Some (cert_pem @ key_pem) else None)
          | _ \<Rightarrow> None)
     | _ \<Rightarrow> None)"

definition open_raft_dcs ::
  "(string, unit) res \<Rightarrow> (raft_tls_config \<Rightarrow> (string, network_factory) res) \<Rightarrow> (network_factory \<Rightarrow> (string, unit) res) \<Rightarrow>
   string \<Rightarrow> string \<Rightarrow> string \<Rightarrow> u64 \<Rightarrow> u64 \<Rightarrow> u64 \<Rightarrow> raft_tls_config option \<Rightarrow> (string, raft_dcs) res" where
  "open_raft_dcs valid tls_factory raft_new node_name scope namespace ttl loop_wait retry_timeout tls =
    and_then valid
      (\<lambda>_. and_then (case tls of Some cfg \<Rightarrow> tls_factory cfg | None \<Rightarrow> Ok new_network_factory)
        (\<lambda>network. and_then (raft_new network)
          (\<lambda>_. Ok (new_raft_dcs node_name scope namespace ttl loop_wait retry_timeout (tls \<noteq> None)))))"

text \<open>
  A request is posted to a URL; \<open>post\<close> gives the answer, if one arrives, and the state of the remote
  node afterwards. The status is not looked at: whatever does not parse as the response is an error.
\<close>

type_synonym 'r http_post = "string \<Rightarrow> string \<Rightarrow> 'r \<Rightarrow> http_answer option \<times> 'r"

definition append_entries ::
  "'q json_codec \<Rightarrow> 'a json_codec \<Rightarrow> 'r http_post \<Rightarrow> string \<Rightarrow> 'q \<Rightarrow> 'r \<Rightarrow> (rpc_error, 'a) res \<times> 'r" where
  "append_entries reqs resps post target_addr rpc r =
    (case post (target_addr @ ''/raft/append'') (to_json reqs rpc) r of
       (None, r') \<Rightarrow> (Err Unreachable, r')
     | (Some (status, body), r') \<Rightarrow>
         (case from_json resps body of None \<Rightarrow> Err Unreachable | Some result \<Rightarrow> Ok result, r'))"

definition vote_rpc ::
  "'q json_codec \<Rightarrow> 'a json_codec \<Rightarrow> 'r http_post \<Rightarrow> string \<Rightarrow> 'q \<Rightarrow> 'r \<Rightarrow> (rpc_error, 'a) res \<times> 'r" where
  "vote_rpc reqs resps post target_addr rpc r =
    (case post (target_addr @ ''/raft/vote'') (to_json reqs rpc) r of
       (None, r') \<Rightarrow> (Err Unreachable, r')
     | (Some (status, body), r') \<Rightarrow>
         (case from_json resps body of None \<Rightarrow> Err Unreachable | Some result \<Rightarrow> Ok result, r'))"

definition install_snapshot_rpc ::
  "'q json_codec \<Rightarrow> 'a json_codec \<Rightarrow> 'r http_post \<Rightarrow> string \<Rightarrow> 'q \<Rightarrow> 'r \<Rightarrow> (rpc_error, 'a) res \<times> 'r" where
  "install_snapshot_rpc reqs resps post target_addr rpc r =
    (case post (target_addr @ ''/raft/install-snapshot'') (to_json reqs rpc) r of
       (None, r') \<Rightarrow> (Err Unreachable, r')
     | (Some (status, body), r') \<Rightarrow>
         (case from_json resps body of None \<Rightarrow> Err Unreachable | Some result \<Rightarrow> Ok result, r'))"

record ('v, 'm) snapshot_request =
  sr_vote :: 'v
  sr_meta :: 'm
  sr_data :: bytes

record 'm snapshot =
  sn_meta :: 'm
  sn_data :: bytes

definition full_snapshot ::
  "('v, 'm) snapshot_request json_codec \<Rightarrow> 'a json_codec \<Rightarrow> 'r http_post \<Rightarrow> string \<Rightarrow> 'v \<Rightarrow> 'm snapshot \<Rightarrow> 'r \<Rightarrow>
   (rpc_error, 'a) res \<times> 'r" where
  "full_snapshot reqs resps post target_addr vote snap r =
    (let req = \<lparr>sr_vote = vote, sr_meta = sn_meta snap, sr_data = sn_data snap\<rparr>
     in case post (target_addr @ ''/raft/snapshot'') (to_json reqs req) r of
          (None, r') \<Rightarrow> (Err Unreachable, r')
        | (Some (status, body), r') \<Rightarrow>
            (case from_json resps body of None \<Rightarrow> Err Unreachable | Some result \<Rightarrow> Ok result, r'))"

section \<open>Server\<close>

text \<open>
  The core's calls, which may change its state and fail with a text. \<open>extract_json\<close> is the framework's
  \<open>Json\<close> extractor: it answers itself when the body is too long or does not parse.
\<close>

record ('r, 'vq, 'va, 'aq, 'aa, 'v, 'm, 'sa) raft_server =
  rs_body_limit :: nat
  rs_reject :: "string \<Rightarrow> http_answer"
  rs_vote_codecs :: "'vq json_codec \<times> 'va json_codec"
  rs_append_codecs :: "'aq json_codec \<times> 'aa json_codec"
  rs_snapshot_codecs :: "('v, 'm) snapshot_request json_codec \<times> 'sa json_codec"
  rs_vote :: "'vq \<Rightarrow> 'r \<Rightarrow> (string, 'va) res \<times> 'r"
  rs_append_entries :: "'aq \<Rightarrow> 'r \<Rightarrow> (string, 'aa) res \<times> 'r"
  rs_install_full_snapshot :: "'v \<Rightarrow> 'm snapshot \<Rightarrow> 'r \<Rightarrow> (string, 'sa) res \<times> 'r"
  rs_client_write_endpoint :: "string \<Rightarrow> 'r \<Rightarrow> http_answer \<times> 'r"

definition extract_json :: "nat \<Rightarrow> 'q json_codec \<Rightarrow> string \<Rightarrow> 'q option" where
  "extract_json limit reqs body = (if limit < length body then None else from_json reqs body)"

definition rpc_answer :: "string \<Rightarrow> 'a json_codec \<Rightarrow> (string, 'a) res \<Rightarrow> http_answer" where
  "rpc_answer what resps result =
    (case result of Inr resp \<Rightarrow> (200, to_json resps resp) | Inl e \<Rightarrow> (500, what @ '' error: '' @ e))"

definition handle_vote :: "('r, 'vq, 'va, 'aq, 'aa, 'v, 'm, 'sa) raft_server \<Rightarrow> string \<Rightarrow> 'r \<Rightarrow> http_answer \<times> 'r" where
  "handle_vote s body r =
    (case extract_json (rs_body_limit s) (fst (rs_vote_codecs s)) body of
       None \<Rightarrow> (rs_reject s body, r)
     | Some req \<Rightarrow> (case rs_vote s req r of (result, r') \<Rightarrow> (rpc_answer ''vote'' (snd (rs_vote_codecs s)) result, r')))"

definition handle_append :: "('r, 'vq, 'va, 'aq, 'aa, 'v, 'm, 'sa) raft_server \<Rightarrow> string \<Rightarrow> 'r \<Rightarrow> http_answer \<times> 'r" where
  "handle_append s body r =
    (case extract_json (rs_body_limit s) (fst (rs_append_codecs s)) body of
       None \<Rightarrow> (rs_reject s body, r)
     | Some req \<Rightarrow>
         (case rs_append_entries s req r of (result, r') \<Rightarrow> (rpc_answer ''append'' (snd (rs_append_codecs s)) result, r')))"

definition handle_snapshot :: "('r, 'vq, 'va, 'aq, 'aa, 'v, 'm, 'sa) raft_server \<Rightarrow> string \<Rightarrow> 'r \<Rightarrow> http_answer \<times> 'r" where
  "handle_snapshot s body r =
    (case extract_json (rs_body_limit s) (fst (rs_snapshot_codecs s)) body of
       None \<Rightarrow> (rs_reject s body, r)
     | Some req \<Rightarrow>
         (case rs_install_full_snapshot s (sr_vote req) \<lparr>sn_meta = sr_meta req, sn_data = sr_data req\<rparr> r of
            (result, r') \<Rightarrow> (rpc_answer ''snapshot'' (snd (rs_snapshot_codecs s)) result, r')))"

definition raft_router :: "('r, 'vq, 'va, 'aq, 'aa, 'v, 'm, 'sa) raft_server \<Rightarrow> string \<Rightarrow> string \<Rightarrow> 'r \<Rightarrow> http_answer \<times> 'r" where
  "raft_router s path body r =
    (if path = ''/raft/vote'' then handle_vote s body r
     else if path = ''/raft/append'' then handle_append s body r
     else if path = ''/raft/snapshot'' then handle_snapshot s body r
     else if path = ''/raft/client-write'' then rs_client_write_endpoint s body r
     else ((404, []), r))"

text \<open>One exchange over the network: the request or the answer may be lost.\<close>

datatype delivery = Request_Lost | Answer_Lost | Delivered

definition exchange :: "delivery \<Rightarrow> string \<Rightarrow> ('r, 'vq, 'va, 'aq, 'aa, 'v, 'm, 'sa) raft_server \<Rightarrow> 'r http_post" where
  "exchange del base s url body r =
    (if del = Request_Lost \<or> \<not> prefix base url then (None, r)
     else (case raft_router s (drop (length base) url) body r of
             (answer, r') \<Rightarrow> (if del = Answer_Lost then None else Some answer, r')))"

section \<open>Membership\<close>

definition all_addrs :: "string \<Rightarrow> string list \<Rightarrow> string list" where
  "all_addrs self_addr partner_addrs = sort (self_addr # partner_addrs)"

fun position :: "('a \<Rightarrow> bool) \<Rightarrow> 'a list \<Rightarrow> nat option" where
  "position p [] = None"
| "position p (x # xs) = (if p x then Some 0 else map_option Suc (position p xs))"

definition derive_node_id :: "u64 option \<Rightarrow> string \<Rightarrow> string list \<Rightarrow> u64" where
  "derive_node_id node_id self_addr partner_addrs =
    (case node_id of
       Some n \<Rightarrow> n
     | None \<Rightarrow> word_of_nat (unwrap_or (position (\<lambda>a. a = self_addr) (all_addrs self_addr partner_addrs)) 0) + 1)"

definition member_id :: "nat \<Rightarrow> u64" where
  "member_id i = word_of_nat (i + 1)"

definition bootstrap_members :: "string \<Rightarrow> string list \<Rightarrow> (u64 \<times> string) list" where
  "bootstrap_members self_addr partner_addrs =
    map (\<lambda>(i, addr). (member_id i, addr)) (enumerate 0 (all_addrs self_addr partner_addrs))"

definition bootstrap_cluster :: "((u64, string) btree \<Rightarrow> (string, unit) res) \<Rightarrow> (u64 \<times> string) list \<Rightarrow> (string, unit) res" where
  "bootstrap_cluster initialize members =
    map_err (\<lambda>e. ''Raft cluster bootstrap failed: '' @ e)
      (initialize (fold (\<lambda>(i, addr) m. bt_insert i addr m) members []))"

section \<open>Waiting for the cluster\<close>

text \<open>What one round sees: whether a leader is reported, how the test write ends, and the time.\<close>

record leader_probe =
  lp_has_leader :: bool
  lp_client_write :: "request \<Rightarrow> raft_write"
  lp_in_time :: bool
  lp_clock :: u64
  lp_now :: nat

definition health_check_request :: "raft_dcs \<Rightarrow> u64 \<Rightarrow> request" where
  "health_check_request d clock =
    stamp_leader_time (plain_set (rd_base_path d @ ''__health_check'') ''ok'' (Some 5) clock) clock"

definition leader_works :: "raft_dcs \<Rightarrow> leader_probe \<Rightarrow> bool" where
  "leader_works d p \<longleftrightarrow> lp_has_leader p \<and> lp_in_time p \<and>
     (case lp_client_write p (health_check_request d (lp_clock p)) of
        Raft_Written _ \<Rightarrow> True | Raft_Forward \<Rightarrow> True | Raft_Error \<Rightarrow> False)"

partial_function (option) wait_for_leader ::
  "raft_dcs \<Rightarrow> (nat \<Rightarrow> leader_probe) \<Rightarrow> nat \<Rightarrow> nat \<Rightarrow> (string, unit) res option" where
  "wait_for_leader d probe deadline n =
    (if leader_works d (probe n) then Some (Ok ())
     else if deadline \<le> lp_now (probe n) then Some (Err ''Raft cluster has no leader'')
     else wait_for_leader d probe deadline (Suc n))"

definition is_initialized :: "u64 option \<Rightarrow> u64 option \<Rightarrow> bool" where
  "is_initialized leader_id last_log_index \<longleftrightarrow> leader_id \<noteq> None \<or> last_log_index \<noteq> None"

text \<open>The loop of \<open>main\<close>: the results of \<open>wait_for_leader\<close> and the time after each; the attempts to
  bootstrap made so far are returned, last one first.\<close>

partial_function (option) startup_loop ::
  "(nat \<Rightarrow> (string, unit) res) \<Rightarrow> (nat \<Rightarrow> nat) \<Rightarrow> nat \<Rightarrow> (nat \<Rightarrow> (string, unit) res) \<Rightarrow> nat \<Rightarrow> bool \<Rightarrow> nat list \<Rightarrow>
   (bool \<times> nat list) option" where
  "startup_loop waited now deadline bootstrap n bootstrapped calls =
    (if is_ok (waited n) then Some (True, calls)
     else if deadline \<le> now n then Some (False, calls)
     else if bootstrapped then startup_loop waited now deadline bootstrap (Suc n) bootstrapped calls
     else (case bootstrap n of
             Inr _ \<Rightarrow> startup_loop waited now deadline bootstrap (Suc n) True (n # calls)
           | Inl e \<Rightarrow> startup_loop waited now deadline bootstrap (Suc n) True (n # calls)))"

section \<open>An RPC is a remote call made at most once\<close>

definition wire_ok :: "'q json_codec \<Rightarrow> 'a json_codec \<Rightarrow> string \<Rightarrow> (string \<Rightarrow> http_answer) \<Rightarrow> bool" where
  "wire_ok reqs resps what reject \<longleftrightarrow>
    (\<forall>q. from_json reqs (to_json reqs q) = Some q) \<and> (\<forall>a. from_json resps (to_json resps a) = Some a) \<and>
    (\<forall>e. from_json resps (what @ '' error: '' @ e) = None) \<and> (\<forall>body. from_json resps (snd (reject body)) = None)"

definition remote_call :: "delivery \<Rightarrow> bool \<Rightarrow> ('r \<Rightarrow> (string, 'a) res \<times> 'r) \<Rightarrow> 'r \<Rightarrow> (rpc_error, 'a) res \<times> 'r" where
  "remote_call del fits call r =
    (if del = Request_Lost \<or> \<not> fits then (Err Unreachable, r)
     else (case call r of
             (result, r') \<Rightarrow> (if del = Answer_Lost then Err Unreachable else map_err (\<lambda>_. Unreachable) result, r')))"

lemma wire_okD:
  assumes "wire_ok reqs resps what reject"
  shows "from_json reqs (to_json reqs q) = Some q" "from_json resps (to_json resps a) = Some a"
    "from_json resps (what @ '' error: '' @ e) = None" "from_json resps (snd (reject body)) = None"
  using assms by (auto simp: wire_ok_def)

text \<open>
  C18. A vote, an append and a snapshot transfer are each one remote call, made at most once: the
  client returns an answer exactly when the request and the answer got through, the request is within
  the server's body limit and the remote Raft core accepted it, and then it is the core's answer to this
  request; every other outcome is \<open>Unreachable\<close>, with the remote core untouched when the request was
  lost or refused. The JSON library is assumed to read back what it writes and not to accept the plain
  error texts as responses.
\<close>

theorem rpc_is_remote_call:
  fixes s :: "('r, 'vq, 'va, 'aq, 'aa, 'v, 'm, 'sa) raft_server"
  assumes "wire_ok (fst (rs_vote_codecs s)) (snd (rs_vote_codecs s)) ''vote'' (rs_reject s)"
    and "wire_ok (fst (rs_append_codecs s)) (snd (rs_append_codecs s)) ''append'' (rs_reject s)"
    and "wire_ok (fst (rs_snapshot_codecs s)) (snd (rs_snapshot_codecs s)) ''snapshot'' (rs_reject s)"
  shows "(case rs_vote_codecs s of (reqs, resps) \<Rightarrow>
      vote_rpc reqs resps (exchange del base s) base vq r =
        remote_call del (length (to_json reqs vq) \<le> rs_body_limit s) (rs_vote s vq) r) \<and>
    (case rs_append_codecs s of (reqs, resps) \<Rightarrow>
      append_entries reqs resps (exchange del base s) base aq r =
        remote_call del (length (to_json reqs aq) \<le> rs_body_limit s) (rs_append_entries s aq) r) \<and>
    (case rs_snapshot_codecs s of (reqs, resps) \<Rightarrow>
      full_snapshot reqs resps (exchange del base s) base vote snap r =
        remote_call del
          (length (to_json reqs \<lparr>sr_vote = vote, sr_meta = sn_meta snap, sr_data = sn_data snap\<rparr>) \<le> rs_body_limit s)
          (rs_install_full_snapshot s vote snap) r)"
proof (intro conjI)
  note rpc = exchange_def raft_router_def remote_call_def extract_json_def rpc_answer_def map_err_def
  show "case rs_vote_codecs s of (reqs, resps) \<Rightarrow>
      vote_rpc reqs resps (exchange del base s) base vq r =
        remote_call del (length (to_json reqs vq) \<le> rs_body_limit s) (rs_vote s vq) r"
    using wire_okD [OF assms(1)]
    by (cases "rs_vote_codecs s") (auto simp: rpc vote_rpc_def handle_vote_def prod.case_eq_if split: prod.splits sum.splits)
  show "case rs_append_codecs s of (reqs, resps) \<Rightarrow>
      append_entries reqs resps (exchange del base s) base aq r =
        remote_call del (length (to_json reqs aq) \<le> rs_body_limit s) (rs_append_entries s aq) r"
    using wire_okD [OF assms(2)]
    by (cases "rs_append_codecs s") (auto simp: rpc append_entries_def handle_append_def prod.case_eq_if split: prod.splits sum.splits)
  show "case rs_snapshot_codecs s of (reqs, resps) \<Rightarrow>
      full_snapshot reqs resps (exchange del base s) base vote snap r =
        remote_call del
          (length (to_json reqs \<lparr>sr_vote = vote, sr_meta = sn_meta snap, sr_data = sn_data snap\<rparr>) \<le> rs_body_limit s)
          (rs_install_full_snapshot s vote snap) r"
    using wire_okD [OF assms(3)]
    by (cases "rs_snapshot_codecs s", cases snap) (auto simp: rpc full_snapshot_def handle_snapshot_def prod.case_eq_if Let_def split: prod.splits sum.splits)
qed

text \<open>A node that records the calls it gets; strings are quoted, snapshots are sent as characters.\<close>

definition text_codec_json :: "string json_codec" where
  "text_codec_json =
    ((\<lambda>t. CHR 0x22 # t), (\<lambda>t. case t of [] \<Rightarrow> None | c # x \<Rightarrow> (if c = CHR 0x22 then Some x else None)))"

definition snapshot_codec_json :: "(unit, unit) snapshot_request json_codec" where
  "snapshot_codec_json =
    ((\<lambda>q. map (\<lambda>b. char_of (unat b)) (sr_data q)),
     (\<lambda>t. Some \<lparr>sr_vote = (), sr_meta = (), sr_data = map (\<lambda>c. word_of_nat (of_char c)) t\<rparr>))"

definition demo_node :: "(string list, string, string, string, string, unit, unit, string) raft_server" where
  "demo_node =
    \<lparr>rs_body_limit = 4, rs_reject = (\<lambda>_. (422, [])),
     rs_vote_codecs = (text_codec_json, text_codec_json), rs_append_codecs = (text_codec_json, text_codec_json),
     rs_snapshot_codecs = (snapshot_codec_json, text_codec_json),
     rs_vote = (\<lambda>q r. (Ok ''granted'', q # r)), rs_append_entries = (\<lambda>q r. (Err ''stopped'', q # r)),
     rs_install_full_snapshot = (\<lambda>v sn r. (Ok ''installed'', ''snapshot'' # r)),
     rs_client_write_endpoint = (\<lambda>body r. ((503, []), r))\<rparr>"

lemma unat_u8_lt: "unat (b :: u8) < 256"
  using unsigned_less [of b, where ?'a = nat] by simp

lemma snapshot_codec_json_ok: "from_json snapshot_codec_json (to_json snapshot_codec_json q) = Some q"
  by (cases q) (simp add: snapshot_codec_json_def comp_def map_idI unat_u8_lt)

lemma demo_wire:
  "wire_ok (fst (rs_vote_codecs demo_node)) (snd (rs_vote_codecs demo_node)) ''vote'' (rs_reject demo_node)"
  "wire_ok (fst (rs_append_codecs demo_node)) (snd (rs_append_codecs demo_node)) ''append'' (rs_reject demo_node)"
  "wire_ok (fst (rs_snapshot_codecs demo_node)) (snd (rs_snapshot_codecs demo_node)) ''snapshot'' (rs_reject demo_node)"
  using snapshot_codec_json_ok by (auto simp: wire_ok_def demo_node_def text_codec_json_def)

theorem rpc_is_remote_call_witness:
  "vote_rpc text_codec_json text_codec_json (exchange Delivered ''b'' demo_node) ''b'' ''q'' [] = (Ok ''granted'', [''q'']) \<and>
   append_entries text_codec_json text_codec_json (exchange Delivered ''b'' demo_node) ''b'' ''q'' [] = (Err Unreachable, [''q'']) \<and>
   full_snapshot snapshot_codec_json text_codec_json (exchange Delivered ''b'' demo_node) ''b'' ()
     \<lparr>sn_meta = (), sn_data = [1, 2, 3, 4, 5]\<rparr> [] = (Err Unreachable, [])"
proof -
  let ?l = "\<lparr>sn_meta = (), sn_data = [1, 2, 3, 4, 5]\<rparr> :: unit snapshot"
  have "length (to_json snapshot_codec_json \<lparr>sr_vote = (), sr_meta = (), sr_data = [1, 2, 3, 4, 5]\<rparr>) = 5"
    by (simp add: snapshot_codec_json_def)
  then show ?thesis
    using rpc_is_remote_call [OF demo_wire, of Delivered "''b''" "''q''" "[]" "''q''" "()" ?l]
    by (simp add: demo_node_def remote_call_def map_err_def) (simp add: text_codec_json_def)
qed

text \<open>
  A snapshot whose encoding exceeds the server's body limit is never installed, however often it is
  sent: the data are encoded with at least two characters a byte, so with a limit of \<open>n\<close> characters no
  snapshot of more than \<open>n div 2\<close> bytes reaches a node that needs it.
\<close>

theorem large_snapshot_never_installed:
  assumes "\<And>q. 2 * length (sr_data q) \<le> length (to_json (fst (rs_snapshot_codecs s)) q)"
    and "from_json (snd (rs_snapshot_codecs s)) (snd (rs_reject s body)) = None"
    and "body = to_json (fst (rs_snapshot_codecs s)) \<lparr>sr_vote = vote, sr_meta = sn_meta snap, sr_data = sn_data snap\<rparr>"
    and "rs_body_limit s < 2 * length (sn_data snap)"
  shows "full_snapshot (fst (rs_snapshot_codecs s)) (snd (rs_snapshot_codecs s)) (exchange del base s) base vote snap r =
    (Err Unreachable, r)"
proof -
  have "rs_body_limit s < length body"
    using assms(4) assms(1) [of "\<lparr>sr_vote = vote, sr_meta = sn_meta snap, sr_data = sn_data snap\<rparr>"] assms(3) by simp
  then show ?thesis
    using assms(2) unfolding assms(3)
    by (simp add: full_snapshot_def exchange_def raft_router_def handle_snapshot_def extract_json_def prod.case_eq_if Let_def)
qed

text \<open>The chunked transfer is posted to a path the router does not serve: it fails at every node.\<close>

theorem install_snapshot_is_not_served:
  assumes "from_json resps [] = None"
  shows "install_snapshot_rpc reqs resps (exchange del base s) base rpc r = (Err Unreachable, r)"
  using assms by (auto simp: install_snapshot_rpc_def exchange_def raft_router_def)

text \<open>An address whose host name begins with \<open>http\<close> is taken for a URL and gets no scheme.\<close>

theorem http_named_host_has_no_scheme:
  "new_client f (''http'' @ rest) = ''http'' @ rest"
  by (simp add: new_client_def)

text \<open>With TLS configured no connection is made in clear to an address given as host and port.\<close>

theorem tls_client_uses_https:
  assumes "with_tls read ca ident build cfg = Ok f" and "\<not> prefix ''http'' addr"
  shows "new_client f addr = ''https://'' @ addr"
proof -
  have "nf_tls_enabled f"
    using assms(1) by (auto simp: with_tls_def and_then_Ok)
  with assms(2) show ?thesis by (simp add: new_client_def)
qed

section \<open>One membership\<close>

lemma position_nth: "distinct xs \<Longrightarrow> i < length xs \<Longrightarrow> position (\<lambda>a. a = xs ! i) xs = Some i"
proof (induction xs arbitrary: i)
  case (Cons x xs)
  then show ?case by (cases i) auto
qed simp

lemma all_addrs_mset: "mset (self # partners) = mset addrs \<Longrightarrow> all_addrs self partners = sort addrs"
  unfolding all_addrs_def by (metis properties_for_sort sorted_sort mset_sort)

lemma fold_insert_lookup:
  "distinct (map fst ms) \<Longrightarrow> map_of (fold (\<lambda>(i, addr) m. bt_insert i addr m) ms m0) = map_of m0 ++ map_of ms"
proof (induction ms arbitrary: m0)
  case (Cons a ms)
  obtain i addr where a: "a = (i, addr)" by fastforce
  have "map_of ms i = None" using Cons.prems a by (auto simp: map_of_eq_None_iff)
  then show ?case using Cons a by (auto simp: fun_eq_iff map_add_def split: option.splits)
qed simp

definition member_map :: "string \<Rightarrow> string list \<Rightarrow> (u64, string) btree" where
  "member_map self partners = fold (\<lambda>(i, addr) m. bt_insert i addr m) (bootstrap_members self partners) []"

lemma unat_member_id:
  assumes "i < 2 ^ 64 - 1"
  shows "unat (member_id i) = i + 1"
proof -
  have "i + 1 < 2 ^ 64" using assms by linarith
  then show ?thesis unfolding member_id_def unat_of_nat by simp
qed

lemma member_id_inj: "i < 2 ^ 64 - 1 \<Longrightarrow> j < 2 ^ 64 - 1 \<Longrightarrow> member_id i = member_id j \<longleftrightarrow> i = j"
  by (metis add_right_imp_eq unat_member_id)

lemma bootstrap_members_nth:
  "bootstrap_members self partners =
    map (\<lambda>i. (member_id i, all_addrs self partners ! i)) [0..<Suc (length partners)]"
  by (rule nth_equalityI) (simp_all add: bootstrap_members_def all_addrs_def nth_enumerate_eq del: upt_Suc)

lemma bootstrap_members_ids:
  assumes "length partners < 2 ^ 64 - 2"
  shows "distinct (map fst (bootstrap_members self partners))"
proof -
  have "map fst (bootstrap_members self partners) = map member_id [0..<Suc (length partners)]"
    by (simp add: bootstrap_members_nth comp_def del: upt_Suc)
  moreover have "inj_on member_id {0..<Suc (length partners)}"
    using assms by (auto simp: inj_on_def member_id_inj)
  ultimately show ?thesis by (simp add: distinct_map del: upt_Suc)
qed

lemma member_map_lookup:
  assumes "length partners < 2 ^ 64 - 2"
  shows "map_of (member_map self partners) = map_of (bootstrap_members self partners)"
  using fold_insert_lookup [OF bootstrap_members_ids [OF assms], of self "[]"] by (simp add: member_map_def)

lemma member_at:
  assumes "length partners < 2 ^ 64 - 2" "i \<le> length partners"
  shows "map_of (member_map self partners) (member_id i) = Some (all_addrs self partners ! i)"
proof -
  have "(member_id i, all_addrs self partners ! i) \<in> set (bootstrap_members self partners)"
    using assms(2) by (auto simp: bootstrap_members_nth simp del: upt_Suc)
  then show ?thesis
    using bootstrap_members_ids [OF assms(1)] by (simp add: member_map_lookup [OF assms(1)])
qed

text \<open>
  C19. Nodes that are given the same distinct addresses, each its own as \<open>self_addr\<close> and the others as
  partners in any order, agree on the Raft membership without talking to each other: all hand the same
  map to \<open>bootstrap_cluster\<close>, in which the identifier a node derives for itself belongs to its own
  address, so that no two nodes take the same identifier.
\<close>

theorem nodes_derive_one_membership:
  assumes "distinct addrs" "length addrs < 2 ^ 64 - 1"
    and "mset (self # partners) = mset addrs" "mset (self' # partners') = mset addrs"
  shows "member_map self partners = member_map self' partners' \<and>
    map_of (member_map self partners) (derive_node_id None self partners) = Some self \<and>
    (self \<noteq> self' \<longrightarrow> derive_node_id None self partners \<noteq> derive_node_id None self' partners')"
proof -
  have e: "all_addrs self partners = sort addrs" "all_addrs self' partners' = sort addrs"
    by (rule all_addrs_mset [OF assms(3)], rule all_addrs_mset [OF assms(4)])
  have m: "member_map self partners = member_map self' partners'"
    by (simp add: member_map_def bootstrap_members_def e)
  have own: "map_of (member_map x xs) (derive_node_id None x xs) = Some x" if "mset (x # xs) = mset addrs" for x xs
  proof -
    have a: "all_addrs x xs = sort addrs" using that by (rule all_addrs_mset)
    have l: "Suc (length xs) = length addrs" using that by (metis length_Cons size_mset)
    have "x \<in> set (sort addrs)" using that by (metis list.set_intros(1) set_mset_mset set_sort)
    then obtain i where i: "i < length addrs" "sort addrs ! i = x" by (metis in_set_conv_nth length_sort)
    then have "position (\<lambda>a. a = x) (sort addrs) = Some i"
      using position_nth [of "sort addrs" i] assms(1) by simp
    then have "derive_node_id None x xs = member_id i"
      by (simp add: derive_node_id_def a unwrap_or_def member_id_def add.commute)
    then show ?thesis using member_at [of xs i x] i l assms(2) a by simp
  qed
  show ?thesis using m own [OF assms(3)] own [OF assms(4)] by auto
qed

theorem nodes_derive_one_membership_witness:
  "member_map ''b:1'' [''a:1''] = member_map ''a:1'' [''b:1''] \<and>
   derive_node_id None ''b:1'' [''a:1''] \<noteq> derive_node_id None ''a:1'' [''b:1'']"
  using nodes_derive_one_membership [of "[''a:1'', ''b:1'']" "''b:1''" "[''a:1'']" "''a:1''" "[''b:1'']"]
  by (auto simp: add_mset_commute)

text \<open>
  An explicit \<open>node_id\<close> does not enter the membership, which is always numbered by position: a node
  configured with zero or with a number above the cluster size is not a member of the cluster it starts.
\<close>

theorem explicit_node_id_is_no_member:
  assumes "length partners < 2 ^ 64 - 2" "n = 0 \<or> unat n > Suc (length partners)"
  shows "map_of (member_map self partners) (derive_node_id (Some n) self partners) = None"
proof -
  have "n \<notin> fst ` set (bootstrap_members self partners)"
  proof
    assume "n \<in> fst ` set (bootstrap_members self partners)"
    then obtain i where "i \<le> length partners" "n = member_id i"
      by (auto simp: bootstrap_members_nth less_Suc_eq_le simp del: upt_Suc)
    moreover have "unat (member_id i) = i + 1" using calculation assms(1) by (intro unat_member_id) linarith
    ultimately show False using assms(2) by auto
  qed
  then show ?thesis
    by (auto simp: member_map_lookup [OF assms(1)] derive_node_id_def map_of_eq_None_iff)
qed

section \<open>The start ends\<close>

lemma wait_returns:
  assumes "\<And>n. lp_now (probe n) + 500 \<le> lp_now (probe (Suc n))"
  shows "\<exists>res. wait_for_leader d probe deadline n = Some res \<and>
    (is_ok res \<longleftrightarrow> (\<exists>m \<ge> n. leader_works d (probe m) \<and> (\<forall>k. n \<le> k \<and> k < m \<longrightarrow> lp_now (probe k) < deadline)))"
proof (induction "deadline - lp_now (probe n)" arbitrary: n rule: less_induct)
  case less
  show ?case
  proof (cases "leader_works d (probe n) \<or> deadline \<le> lp_now (probe n)")
    case True
    have "leader_works d (probe n) \<longleftrightarrow>
        (\<exists>m \<ge> n. leader_works d (probe m) \<and> (\<forall>k. n \<le> k \<and> k < m \<longrightarrow> lp_now (probe k) < deadline))"
      using True by (metis leD le_neq_implies_less order_refl)
    then show ?thesis using True by (subst wait_for_leader.simps) auto
  next
    case False
    then have l: "deadline - lp_now (probe (Suc n)) < deadline - lp_now (probe n)" using assms [of n] by linarith
    have "(\<exists>m \<ge> Suc n. leader_works d (probe m) \<and> (\<forall>k. Suc n \<le> k \<and> k < m \<longrightarrow> lp_now (probe k) < deadline)) \<longleftrightarrow>
        (\<exists>m \<ge> n. leader_works d (probe m) \<and> (\<forall>k. n \<le> k \<and> k < m \<longrightarrow> lp_now (probe k) < deadline))"
      using False by (metis Suc_leD Suc_leI le_neq_implies_less not_le)
    then show ?thesis using less [OF l] False by (subst wait_for_leader.simps) simp
  qed
qed

lemma startup_returns:
  assumes "\<And>n. now n + 1000 \<le> now (Suc n)"
  shows "\<exists>ready calls'. startup_loop waited now limit bootstrap n bootstrapped calls = Some (ready, calls') \<and>
    (calls' = calls \<or> \<not> bootstrapped \<and> (\<exists>c. calls' = c # calls \<and> \<not> is_ok (waited c))) \<and> (ready \<longrightarrow> (\<exists>m. is_ok (waited m)))"
proof (induction "limit - now n" arbitrary: n bootstrapped calls rule: less_induct)
  case less
  show ?case
  proof (cases "is_ok (waited n) \<or> limit \<le> now n")
    case True
    then show ?thesis by (subst startup_loop.simps) auto
  next
    case False
    then have l: "limit - now (Suc n) < limit - now n" using assms [of n] by linarith
    show ?thesis
    proof (cases bootstrapped)
      case True
      then show ?thesis using False less [OF l, of True calls] by (subst startup_loop.simps) simp
    next
      case nb: False
      have "startup_loop waited now limit bootstrap n bootstrapped calls =
          startup_loop waited now limit bootstrap (Suc n) True (n # calls)"
        using False nb by (subst startup_loop.simps) (simp split: sum.split)
      then show ?thesis using False nb less [OF l, of True "n # calls"] by auto
    qed
  qed
qed

text \<open>
  Both clients of a node use the same certificates: once the RPC client could be built, the forwarding
  client, which would skip an unusable file silently, has the configured root certificate and the
  configured identity.
\<close>

theorem forward_client_has_material:
  assumes "with_tls read ca_from_pem identity_from_pem build cfg = Ok f"
  shows "(fst (forward_client read ca_from_pem identity_from_pem cfg) = None \<longleftrightarrow> rt_ca_cert cfg = None) \<and>
    (snd (forward_client read ca_from_pem identity_from_pem cfg) = None \<longleftrightarrow> rt_client_cert cfg = None \<or> rt_client_key cfg = None)"
  using assms
  by (auto simp: with_tls_def forward_client_def and_then_Ok map_err_Ok read_pem_def split: option.splits sum.splits)

text \<open>
  Waiting for the Raft leader and the start of the cluster always end, whatever the nodes report,
  because time passes between the rounds: the wait is over at the first round after its deadline at the
  latest and succeeds exactly when some round up to then found a working leader; the start asks the
  cluster to be bootstrapped at most once, and only after a wait without a leader.
\<close>

theorem cluster_start_returns:
  assumes "\<And>n. lp_now (probe n) + 500 \<le> lp_now (probe (Suc n))" "\<And>n. now n + 1000 \<le> now (Suc n)"
  shows "(\<exists>res. wait_for_leader d probe deadline n = Some res \<and>
      (is_ok res \<longleftrightarrow> (\<exists>m \<ge> n. leader_works d (probe m) \<and> (\<forall>k. n \<le> k \<and> k < m \<longrightarrow> lp_now (probe k) < deadline)))) \<and>
    (\<exists>ready calls. startup_loop waited now limit bootstrap 0 False [] = Some (ready, calls) \<and>
      length calls \<le> 1 \<and> (\<forall>c \<in> set calls. \<not> is_ok (waited c)) \<and> (ready \<longrightarrow> (\<exists>m. is_ok (waited m))))"
proof
  show "\<exists>res. wait_for_leader d probe deadline n = Some res \<and>
      (is_ok res \<longleftrightarrow> (\<exists>m \<ge> n. leader_works d (probe m) \<and> (\<forall>k. n \<le> k \<and> k < m \<longrightarrow> lp_now (probe k) < deadline)))"
    using assms(1) by (rule wait_returns)
  show "\<exists>ready calls. startup_loop waited now limit bootstrap 0 False [] = Some (ready, calls) \<and>
      length calls \<le> 1 \<and> (\<forall>c \<in> set calls. \<not> is_ok (waited c)) \<and> (ready \<longrightarrow> (\<exists>m. is_ok (waited m)))"
    using startup_returns [of now waited limit bootstrap 0 False "[]"] assms(2) by fastforce
qed

definition demo_probe :: "nat \<Rightarrow> leader_probe" where
  "demo_probe n = \<lparr>lp_has_leader = 2 \<le> n, lp_client_write = (\<lambda>_. Raft_Forward), lp_in_time = True, lp_clock = 0, lp_now = 500 * n\<rparr>"

theorem cluster_start_returns_witness:
  "\<exists>res. wait_for_leader demo_dcs demo_probe 2000 0 = Some res \<and> is_ok res"
proof -
  have w: "leader_works demo_dcs (demo_probe 2)" by (simp add: leader_works_def demo_probe_def)
  have "\<forall>k. 0 \<le> k \<and> k < 2 \<longrightarrow> lp_now (demo_probe k) < 2000" by (simp add: demo_probe_def)
  with w have "\<exists>m \<ge> 0. leader_works demo_dcs (demo_probe m) \<and> (\<forall>k. 0 \<le> k \<and> k < m \<longrightarrow> lp_now (demo_probe k) < 2000)" by blast
  moreover have "lp_now (demo_probe n) + 500 \<le> lp_now (demo_probe (Suc n))" for n by (simp add: demo_probe_def)
  ultimately show ?thesis
    using cluster_start_returns [of demo_probe "\<lambda>n. 1000 * n" demo_dcs 2000 0 "\<lambda>_. Ok ()" 0 "\<lambda>_. Ok ()"] by auto
qed

end
