(* ===== verification/Standby_Config.thy ===== *)
theory Standby_Config
  imports Cluster
begin

text \<open>
  The text pg-ha writes to make PostgreSQL start as a standby
  (\<open>crates/pg-ha-core/src/standby_config.rs\<close>): host and port of a member's conn_url, the connection
  string, the rewrite of \<open>postgresql.auto.conf\<close> and the one-line cause of a failed rewind. The
  files themselves are in theory \<open>Standby_Files\<close>, the time stamp in theory \<open>Utc_Time\<close>.

  The lemmas show that a rewrite keeps every line pg-ha does not manage, that repeating it changes
  nothing, and that a quoted value reads back.
\<close>

section \<open>Text helpers of the standard library\<close>

fun split_on :: "(char \<Rightarrow> bool) \<Rightarrow> string \<Rightarrow> string list" where
  "split_on p [] = [[]]"
| "split_on p (c # cs) =
     (if p c then [] # split_on p cs
      else (case split_on p cs of [] \<Rightarrow> [[c]] | w # ws \<Rightarrow> (c # w) # ws))"

definition split_whitespace :: "string \<Rightarrow> string list" where
  "split_whitespace s = filter (\<lambda>w. w \<noteq> []) (split_on is_ascii_space s)"

definition LF :: char where "LF = CHR 0x0A"

definition CR :: char where "CR = CHR 0x0D"

definition strip_cr :: "string \<Rightarrow> string" where
  "strip_cr l = (if l \<noteq> [] \<and> last l = CR then butlast l else l)"

text \<open>\<open>str::lines\<close>: a carriage return is dropped only before a line feed, not at the end of the text.\<close>

definition str_lines :: "string \<Rightarrow> string list" where
  "str_lines s =
    (let ls = split_on (\<lambda>c. c = LF) s
     in map strip_cr (butlast ls) @ (if last ls = [] then [] else [last ls]))"

definition trim_start :: "string \<Rightarrow> string" where
  "trim_start s = dropWhile is_ascii_space s"

definition strip_prefix_opt :: "string \<Rightarrow> string \<Rightarrow> string option" where
  "strip_prefix_opt pre s = (if prefix pre s then Some (drop (length pre) s) else None)"

definition is_ascii_alnum :: "char \<Rightarrow> bool" where
  "is_ascii_alnum c \<longleftrightarrow> is_digit c \<or> (65 \<le> (of_char c :: nat) \<and> (of_char c :: nat) \<le> 90) \<or>
     (97 \<le> (of_char c :: nat) \<and> (of_char c :: nat) \<le> 122)"

section \<open>Connection strings\<close>

fun host_port_parts :: "string list \<Rightarrow> string option \<Rightarrow> string option \<Rightarrow> string option \<times> string option" where
  "host_port_parts [] host port = (host, port)"
| "host_port_parts (part # parts) host port =
     (case strip_prefix_opt ''host='' part of
        Some v \<Rightarrow> host_port_parts parts (Some v) port
      | None \<Rightarrow>
          (case strip_prefix_opt ''port='' part of
             Some v \<Rightarrow> host_port_parts parts host (Some v)
           | None \<Rightarrow> host_port_parts parts host port))"

definition conn_url_host_port :: "string \<Rightarrow> (string \<times> string) option" where
  "conn_url_host_port conn_url =
    (case host_port_parts (split_whitespace conn_url) None None of (host, port) \<Rightarrow>
       (case host of
          None \<Rightarrow> None
        | Some h \<Rightarrow>
            if h = [] then None
            else Some (h, case port of Some p \<Rightarrow> (if p = [] then ''5432'' else p) | None \<Rightarrow> ''5432'')))"

definition conn_url_has_host :: "string \<Rightarrow> bool" where
  "conn_url_has_host conn_url \<longleftrightarrow> conn_url_host_port conn_url \<noteq> None"

definition SQUOTE :: char where "SQUOTE = CHR 0x27"

definition BACKSLASH :: char where "BACKSLASH = CHR 0x5C"

definition str_replace :: "char \<Rightarrow> string \<Rightarrow> string \<Rightarrow> string" where
  "str_replace c by s = concat (map (\<lambda>x. if x = c then by else [x]) s)"

definition libpq_quote :: "string \<Rightarrow> string" where
  "libpq_quote val =
    (if \<not> (val = [] \<or> list_ex (\<lambda>c. is_ascii_space c \<or> c = SQUOTE \<or> c = BACKSLASH) val) then val
     else [SQUOTE] @ str_replace SQUOTE [BACKSLASH, SQUOTE] (str_replace BACKSLASH [BACKSLASH, BACKSLASH] val) @ [SQUOTE])"

definition conf_quote :: "string \<Rightarrow> string" where
  "conf_quote val =
    [SQUOTE] @ str_replace SQUOTE [SQUOTE, SQUOTE] (str_replace BACKSLASH [BACKSLASH, BACKSLASH] val) @ [SQUOTE]"

definition build_primary_conninfo :: "string \<Rightarrow> string \<Rightarrow> string option \<Rightarrow> string \<Rightarrow> string option" where
  "build_primary_conninfo upstream_conn_url username password application_name =
    (if \<not> conn_url_has_host upstream_conn_url then None
     else (case conn_url_host_port upstream_conn_url of
             None \<Rightarrow> None
           | Some (host, port) \<Rightarrow>
               Some (''host='' @ libpq_quote host @ '' port='' @ libpq_quote port @ '' user='' @ libpq_quote username @
                 (case password of Some p \<Rightarrow> '' password='' @ libpq_quote p | None \<Rightarrow> []) @
                 '' application_name='' @ libpq_quote application_name)))"

section \<open>Rewriting the configuration file\<close>

definition PG_HA_HEADER :: string where "PG_HA_HEADER = ''# pg-ha managed standby configuration''"

definition PG_HA_HEADER_PREFIX :: string where "PG_HA_HEADER_PREFIX = ''# pg-ha managed''"

definition conf_line_key :: "string \<Rightarrow> string" where
  "conf_line_key line = takeWhile (\<lambda>c. is_ascii_alnum c \<or> c = CHR ''_'' \<or> c = CHR ''.'') (trim_start line)"

definition managed_line :: "bool \<Rightarrow> string \<Rightarrow> bool" where
  "managed_line with_conninfo line \<longleftrightarrow>
    prefix PG_HA_HEADER_PREFIX (trim_start line) \<or>
    eq_ignore_ascii_case (conf_line_key line) ''primary_conninfo'' \<or>
    (with_conninfo \<and> eq_ignore_ascii_case (conf_line_key line) ''recovery_target_timeline'')"

definition rewrite_auto_conf :: "string \<Rightarrow> string option \<Rightarrow> string" where
  "rewrite_auto_conf existing primary_conninfo =
    concat (map (\<lambda>l. l @ [LF]) (filter (\<lambda>l. \<not> managed_line (primary_conninfo \<noteq> None) l) (str_lines existing))) @
    (case primary_conninfo of
       None \<Rightarrow> []
     | Some conninfo \<Rightarrow>
         PG_HA_HEADER @ [LF] @ ''primary_conninfo = '' @ conf_quote conninfo @ [LF] @
         ''recovery_target_timeline = '' @ [SQUOTE] @ ''latest'' @ [SQUOTE] @ [LF])"

section \<open>Failure cause\<close>

fun str_join :: "string \<Rightarrow> string list \<Rightarrow> string" where
  "str_join sep [] = []"
| "str_join sep [x] = x"
| "str_join sep (x # y # ys) = x @ sep @ str_join sep (y # ys)"

definition failure_cause :: "string \<Rightarrow> string" where
  "failure_cause text0 =
    (let text = (case strip_prefix_opt ''pg_rewind failed: '' text0 of Some t \<Rightarrow> t | None \<Rightarrow> text0);
         lines = filter (\<lambda>l. l \<noteq> []) (map str_trim (str_lines text));
         errors = filter (\<lambda>l. sublist ''error:'' (map ascii_lower l) \<or> sublist ''fatal:'' (map ascii_lower l)) lines;
         chosen = (if errors = [] then lines else errors)
     in if chosen = [] then ''no error output'' else str_join '' | '' chosen)"

section \<open>Lemmas\<close>

lemma split_on_append: "\<not> list_ex p a \<Longrightarrow> p c \<Longrightarrow> split_on p (a @ c # b) = a # split_on p b"
  by (induction a) auto

lemma split_on_Nil: "split_on p s \<noteq> []"
  by (induction s) (auto split: list.splits)

lemma split_on_pieces: "w \<in> set (split_on p s) \<Longrightarrow> \<not> list_ex p w"
  by (induction s arbitrary: w) (auto split: list.splits if_splits)

lemma split_on_pieces_subset: "w \<in> set (split_on p s) \<Longrightarrow> set w \<subseteq> set s"
proof (induction s arbitrary: w)
  case (Cons c s)
  then show ?case
    by (cases "split_on p s") (auto split: if_splits, fastforce+)
qed simp

lemma split_lines: "\<forall>l \<in> set ls. LF \<notin> set l \<Longrightarrow> split_on (\<lambda>c. c = LF) (concat (map (\<lambda>l. l @ [LF]) ls)) = ls @ [[]]"
  by (induction ls) (auto simp: split_on_append list_ex_iff)

lemma strip_cr_id: "CR \<notin> set l \<Longrightarrow> strip_cr l = l"
  by (auto simp: strip_cr_def dest: last_in_set)

lemma str_lines_concat:
  assumes "\<forall>l \<in> set ls. LF \<notin> set l \<and> CR \<notin> set l"
  shows "str_lines (concat (map (\<lambda>l. l @ [LF]) ls)) = ls"
proof -
  have "split_on (\<lambda>c. c = LF) (concat (map (\<lambda>l. l @ [LF]) ls)) = ls @ [[]]" using assms by (intro split_lines) auto
  then show ?thesis using assms by (simp add: str_lines_def map_idI strip_cr_id)
qed

lemma str_lines_clean:
  assumes "l \<in> set (str_lines s)"
  shows "LF \<notin> set l" and "CR \<notin> set s \<Longrightarrow> CR \<notin> set l"
proof -
  have ne: "split_on (\<lambda>c. c = LF) s \<noteq> []" by (rule split_on_Nil)
  obtain w where w: "w \<in> set (split_on (\<lambda>c. c = LF) s)" "l = strip_cr w \<or> l = w"
    using assms last_in_set [OF ne] by (auto simp: str_lines_def Let_def dest: in_set_butlastD split: if_splits)
  have "set l \<subseteq> set w" using w(2) by (auto simp: strip_cr_def dest: in_set_butlastD split: if_splits)
  then show "LF \<notin> set l" "CR \<notin> set s \<Longrightarrow> CR \<notin> set l"
    using split_on_pieces [OF w(1)] split_on_pieces_subset [OF w(1)] by (auto simp: list_ex_iff)
qed

definition own_lines :: "string \<Rightarrow> string list" where
  "own_lines conninfo = [PG_HA_HEADER, ''primary_conninfo = '' @ conf_quote conninfo,
     ''recovery_target_timeline = '' @ [SQUOTE] @ ''latest'' @ [SQUOTE]]"

lemma own_lines_managed: "l \<in> set (own_lines c) \<Longrightarrow> managed_line True l"
  by (auto simp: own_lines_def managed_line_def PG_HA_HEADER_def PG_HA_HEADER_PREFIX_def trim_start_def
      is_ascii_space_def conf_line_key_def is_ascii_alnum_def is_digit_def eq_ignore_ascii_case_def)

lemma set_str_replace: "set (str_replace c by s) \<subseteq> set s \<union> set by"
  by (auto simp: str_replace_def split: if_splits)

lemma own_lines_clean:
  assumes "LF \<notin> set c" "CR \<notin> set c" "l \<in> set (own_lines c)"
  shows "LF \<notin> set l \<and> CR \<notin> set l"
proof -
  have "set (conf_quote c) \<subseteq> set c \<union> {SQUOTE, BACKSLASH}"
    using set_str_replace [of SQUOTE "[SQUOTE, SQUOTE]" "str_replace BACKSLASH [BACKSLASH, BACKSLASH] c"]
      set_str_replace [of BACKSLASH "[BACKSLASH, BACKSLASH]" c]
    by (auto simp: conf_quote_def)
  then show ?thesis
    using assms by (auto simp: own_lines_def PG_HA_HEADER_def LF_def CR_def SQUOTE_def BACKSLASH_def)
qed

lemma rewrite_lines:
  "rewrite_auto_conf e (Some c) =
    concat (map (\<lambda>l. l @ [LF]) (filter (\<lambda>l. \<not> managed_line True l) (str_lines e) @ own_lines c))"
  by (simp add: rewrite_auto_conf_def own_lines_def)

text \<open>
  Rewriting \<open>postgresql.auto.conf\<close> keeps every setting pg-ha does not manage, in order, ends
  with exactly one block of its own lines, and is idempotent: running it again with the same
  connection string changes nothing.
\<close>

theorem rewrite_auto_conf_idempotent:
  assumes "CR \<notin> set existing" and "LF \<notin> set conninfo" and "CR \<notin> set conninfo"
  shows "str_lines (rewrite_auto_conf existing (Some conninfo)) =
      filter (\<lambda>l. \<not> managed_line True l) (str_lines existing) @ own_lines conninfo \<and>
    rewrite_auto_conf (rewrite_auto_conf existing (Some conninfo)) (Some conninfo) =
      rewrite_auto_conf existing (Some conninfo)"
proof -
  let ?ls = "filter (\<lambda>l. \<not> managed_line True l) (str_lines existing) @ own_lines conninfo"
  have "\<forall>l \<in> set ?ls. LF \<notin> set l \<and> CR \<notin> set l"
    using str_lines_clean [of _ existing] own_lines_clean [OF assms(2,3)] assms(1) by auto
  then have l: "str_lines (rewrite_auto_conf existing (Some conninfo)) = ?ls"
    unfolding rewrite_lines by (rule str_lines_concat)
  have "filter (\<lambda>l. \<not> managed_line True l) ?ls = filter (\<lambda>l. \<not> managed_line True l) (str_lines existing)"
    using own_lines_managed by (simp add: filter_empty_conv)
  then show ?thesis using l by (simp add: rewrite_lines del: filter_append)
qed

theorem rewrite_auto_conf_idempotent_witness:
  "rewrite_auto_conf (rewrite_auto_conf ''port = 1'' (Some ''host=h'')) (Some ''host=h'') =
    rewrite_auto_conf ''port = 1'' (Some ''host=h'')"
  using rewrite_auto_conf_idempotent [of "''port = 1''" "''host=h''"] by (simp add: CR_def LF_def)

text \<open>How PostgreSQL reads a configuration literal: doubled quotes and backslashes are single ones.\<close>

fun conf_unescape :: "string \<Rightarrow> string option" where
  "conf_unescape [] = None"
| "conf_unescape [c] = (if c = SQUOTE then Some [] else None)"
| "conf_unescape (c # d # cs) =
     (if c = SQUOTE then (if d = SQUOTE then map_option (Cons SQUOTE) (conf_unescape cs) else None)
      else if c = BACKSLASH then (if d = BACKSLASH then map_option (Cons BACKSLASH) (conf_unescape cs) else None)
      else map_option (Cons c) (conf_unescape (d # cs)))"

lemma SQUOTE_BACKSLASH [simp]: "SQUOTE \<noteq> BACKSLASH" "BACKSLASH \<noteq> SQUOTE"
  by (simp_all add: SQUOTE_def BACKSLASH_def)

lemma conf_unescape_body:
  "conf_unescape (str_replace SQUOTE [SQUOTE, SQUOTE] (str_replace BACKSLASH [BACKSLASH, BACKSLASH] s) @ [SQUOTE]) = Some s"
proof (induction s)
  case (Cons c s)
  let ?r = "str_replace SQUOTE [SQUOTE, SQUOTE] (str_replace BACKSLASH [BACKSLASH, BACKSLASH] s) @ [SQUOTE]"
  obtain d ds where r: "?r = d # ds" by (cases ?r) auto
  show ?case using Cons r
    by (auto simp: str_replace_def)
qed (simp add: str_replace_def)

text \<open>
  The connection string survives the configuration file: the literal pg-ha writes for any
  connection string, whatever quotes and backslashes a password holds, is read back unchanged.
\<close>

theorem conf_quote_roundtrip: "\<exists>body. conf_quote s = SQUOTE # body \<and> conf_unescape body = Some s"
  by (simp add: conf_quote_def conf_unescape_body)

end
