(* ===== verification/Identity.thy ===== *)
theory Identity
  imports Standby_Config
begin

text \<open>
  The decision tables of \<open>crates/pg-ha-core/src/ha/identity.rs\<close>: what PostgreSQL is right now, from
  the recovery observation of this cycle and the existence of \<open>standby.signal\<close>, and what pg-ha
  may do about it as lock holder, follower, candidate or while shutting down.

  The lemmas show the rule behind the tables: only a standby pg-ha configured is ever promoted or
  left running unattended, and a server that may be writable without the lock is always stopped.
\<close>

datatype pg_state = Pg_Running | Pg_Stopped | Pg_Starting | Pg_Crashed | Pg_Unknown

datatype pg_identity =
    Id_Primary
  | Id_ManagedStandby
  | Id_UnmanagedRecovery
  | Id_Unknown bool

definition classify :: "bool option \<Rightarrow> bool \<Rightarrow> pg_identity" where
  "classify in_recovery has_standby_signal =
    (case in_recovery of
       Some False \<Rightarrow> Id_Primary
     | Some True \<Rightarrow> if has_standby_signal then Id_ManagedStandby else Id_UnmanagedRecovery
     | None \<Rightarrow> Id_Unknown has_standby_signal)"

datatype leader_action = La_Hold | La_Promote | La_Relinquish | La_Wait

fun leader_action_of :: "pg_identity \<Rightarrow> leader_action" where
  "leader_action_of Id_Primary = La_Hold"
| "leader_action_of Id_ManagedStandby = La_Promote"
| "leader_action_of Id_UnmanagedRecovery = La_Relinquish"
| "leader_action_of (Id_Unknown _) = La_Wait"

datatype follower_action = Fa_Rejoin | Fa_Follow | Fa_RewindCheck | Fa_HandOff | Fa_Fence | Fa_Wait

definition follower_action_of :: "pg_identity \<Rightarrow> bool \<Rightarrow> bool \<Rightarrow> follower_action" where
  "follower_action_of identity stop_pending has_rewind_marker =
    (case identity of
       Id_Primary \<Rightarrow> Fa_Rejoin
     | Id_ManagedStandby \<Rightarrow> if has_rewind_marker then Fa_RewindCheck else Fa_Follow
     | Id_UnmanagedRecovery \<Rightarrow> Fa_HandOff
     | Id_Unknown has_standby_signal \<Rightarrow>
         if \<not> has_standby_signal then Fa_Fence else if stop_pending then Fa_Fence else Fa_Wait)"

datatype election_stance = Es_Participate | Es_StandAside | Es_Wait | Es_Fence

definition election_stance_of :: "pg_identity \<Rightarrow> bool \<Rightarrow> election_stance" where
  "election_stance_of identity stop_pending =
    (case identity of
       Id_Primary \<Rightarrow> if stop_pending then Es_Fence else Es_Participate
     | Id_Unknown _ \<Rightarrow> if stop_pending then Es_Fence else Es_Wait
     | Id_ManagedStandby \<Rightarrow> Es_Participate
     | Id_UnmanagedRecovery \<Rightarrow> Es_StandAside)"

definition shutdown_needs_fence :: "pg_identity \<Rightarrow> bool" where
  "shutdown_needs_fence identity =
    (case identity of Id_Primary \<Rightarrow> True | Id_Unknown _ \<Rightarrow> True | Id_ManagedStandby \<Rightarrow> False | Id_UnmanagedRecovery \<Rightarrow> False)"

definition shutdown_may_leave_running :: "pg_identity \<Rightarrow> bool \<Rightarrow> bool" where
  "shutdown_may_leave_running identity is_leader \<longleftrightarrow> \<not> is_leader \<and> identity = Id_ManagedStandby"

definition last_ran_as_primary :: "string option \<Rightarrow> bool" where
  "last_ran_as_primary controldata_state \<longleftrightarrow>
    \<not> (\<exists>s. map_option str_trim controldata_state = Some s \<and> (s = ''shut down in recovery'' \<or> s = ''in archive recovery''))"

definition standby_start_upstream :: "string option \<Rightarrow> string \<Rightarrow> string option \<Rightarrow> string option" where
  "standby_start_upstream leader self_name leader_conn_url =
    (case leader of
       None \<Rightarrow> None
     | Some name \<Rightarrow>
         (case leader_conn_url of
            None \<Rightarrow> None
          | Some url \<Rightarrow> if name \<noteq> self_name \<and> conn_url_has_host url then Some url else None))"

definition honour_designated_candidate :: "bool \<Rightarrow> bool option \<Rightarrow> bool" where
  "honour_designated_candidate is_self candidate_may_campaign \<longleftrightarrow> is_self \<or> candidate_may_campaign \<noteq> Some False"

definition leader_ready_in_dcs :: "string option \<Rightarrow> string \<Rightarrow> member option \<Rightarrow> bool" where
  "leader_ready_in_dcs lock_holder source source_member \<longleftrightarrow>
    lock_holder = Some source \<and> is_some_and source_member (\<lambda>m. mb_state m = Running \<and> mb_role m = Primary)"

definition leader_ready_for_rewind :: "string option \<Rightarrow> string \<Rightarrow> member option \<Rightarrow> bool option \<Rightarrow> bool" where
  "leader_ready_for_rewind lock_holder source source_member source_answers_as_primary \<longleftrightarrow>
    leader_ready_in_dcs lock_holder source source_member \<and> source_answers_as_primary = Some True"

datatype after_rewind_start = Rewind_Started | Rewind_StillStarting | Rewind_Failed

definition after_rewind_start_of :: "bool \<Rightarrow> bool \<Rightarrow> after_rewind_start" where
  "after_rewind_start_of start_ok running_after =
    (if start_ok then Rewind_Started else if running_after then Rewind_StillStarting else Rewind_Failed)"

datatype held_node_action = Held_NotHeld | Held_Hold | Held_Rebuild | Held_WaitForLeader

definition held_node_action_of :: "bool \<Rightarrow> bool \<Rightarrow> bool \<Rightarrow> held_node_action" where
  "held_node_action_of hold rebuild_enabled leader_ready =
    (if \<not> hold then Held_NotHeld
     else if \<not> rebuild_enabled then Held_Hold
     else if leader_ready then Held_Rebuild
     else Held_WaitForLeader)"

definition rewind_hold_state :: "bool \<Rightarrow> bool \<Rightarrow> bool \<Rightarrow> bool \<times> bool" where
  "rewind_hold_state file_exists in_memory persisted =
    (if file_exists then (True, False)
     else if in_memory then (if persisted then (False, True) else (True, False))
     else (False, False))"

definition reconcile_role :: "member_role \<Rightarrow> pg_identity \<Rightarrow> member_role" where
  "reconcile_role current identity =
    (if current = Primary \<and> (identity = Id_ManagedStandby \<or> identity = Id_UnmanagedRecovery) then Replica else current)"

datatype watchdog_action = Wd_Pet | Wd_Hold | Wd_Disarm

definition watchdog_action_of :: "bool \<Rightarrow> bool option \<Rightarrow> bool \<Rightarrow> bool \<Rightarrow> watchdog_action" where
  "watchdog_action_of pg_running in_recovery paused lease_valid =
    (let cannot_write = (\<not> pg_running \<or> in_recovery = Some True)
     in if cannot_write \<or> paused then Wd_Disarm else if lease_valid then Wd_Pet else Wd_Hold)"

definition advertised_state_of :: "bool \<Rightarrow> pg_state \<Rightarrow> pg_identity \<Rightarrow> member_state" where
  "advertised_state_of is_running state identity =
    (if \<not> is_running then (if state = Pg_Crashed then Crashed else Stopped)
     else case identity of
       Id_Primary \<Rightarrow> Running | Id_ManagedStandby \<Rightarrow> Running
     | Id_UnmanagedRecovery \<Rightarrow> Unknown | Id_Unknown _ \<Rightarrow> Unknown)"

section \<open>The rule behind the tables\<close>

text \<open>
  What the tables are told about the server: \<open>writable\<close> is the truth they cannot see. An
  observation is right; \<open>standby.signal\<close> proves a running server read-only unless it was written
  for a stop that then failed.
\<close>

definition consistent_view :: "bool \<Rightarrow> bool option \<Rightarrow> bool \<Rightarrow> bool \<Rightarrow> bool" where
  "consistent_view writable in_recovery has_standby_signal stop_pending \<longleftrightarrow>
    (in_recovery = Some True \<longrightarrow> \<not> writable) \<and> (in_recovery = Some False \<longrightarrow> writable) \<and>
    (in_recovery = None \<and> has_standby_signal \<and> \<not> stop_pending \<longrightarrow> \<not> writable)"

text \<open>
  A writable server without the leader lock is never left alone: whatever pg-ha could observe
  of it, a follower rejoins or fences it, a node whose earlier stop failed fences it before any
  election, a shutdown fences it and never leaves it running, nobody promotes it, and an armed
  watchdog stays armed.
\<close>

theorem writable_server_is_never_left_alone:
  assumes "consistent_view True in_recovery has_signal stop_pending"
  shows "follower_action_of (classify in_recovery has_signal) stop_pending marker \<in> {Fa_Rejoin, Fa_Fence} \<and>
    shutdown_needs_fence (classify in_recovery has_signal) \<and>
    \<not> shutdown_may_leave_running (classify in_recovery has_signal) is_leader \<and>
    (stop_pending \<longrightarrow> election_stance_of (classify in_recovery has_signal) stop_pending = Es_Fence) \<and>
    leader_action_of (classify in_recovery has_signal) \<noteq> La_Promote \<and>
    watchdog_action_of True in_recovery False lease_valid \<noteq> Wd_Disarm"
  using assms
  by (cases in_recovery)
    (auto simp: consistent_view_def classify_def follower_action_of_def shutdown_needs_fence_def
      shutdown_may_leave_running_def election_stance_of_def watchdog_action_of_def split: bool.splits)

theorem writable_server_is_never_left_alone_witness:
  "follower_action_of (classify None True) True False \<in> {Fa_Rejoin, Fa_Fence}"
  using writable_server_is_never_left_alone [of None True True False False True] by (simp add: consistent_view_def)

text \<open>
  pg-ha only promotes and only leaves running what it configured: the lock holder promotes
  exactly a server observed in recovery with \<open>standby.signal\<close>, a shutdown leaves only such a server
  running and only without the lock, the recorded role is never raised to primary, and a node is
  advertised as running only when its role was observed.
\<close>

theorem only_managed_standby_is_promoted:
  "(leader_action_of (classify r s) = La_Promote \<longleftrightarrow> r = Some True \<and> s) \<and>
   (shutdown_may_leave_running (classify r s) is_leader \<longleftrightarrow> r = Some True \<and> s \<and> \<not> is_leader) \<and>
   (reconcile_role role (classify r s) = Primary \<longleftrightarrow> role = Primary \<and> r \<noteq> Some True) \<and>
   (advertised_state_of running state (classify r s) = Running \<longleftrightarrow> running \<and> (r = Some False \<or> r = Some True \<and> s))"
  by (cases r) (auto simp: classify_def shutdown_may_leave_running_def reconcile_role_def advertised_state_of_def
      split: bool.splits)

end
