(* ===== verification/Lineage.thy ===== *)
theory Lineage
  imports Cluster "HOL-Library.Multiset"
begin

text \<open>
  Which timeline is the latest and who may campaign on it:
  \<open>crates/pg-ha-core/src/ha/lineage.rs\<close>. Every function is pure, as in the source; the formatted
  error texts are constructors of \<open>promote_error\<close> and \<open>hold_conflict\<close>.

  The lemmas show that all nodes reach the same verdict whatever order they see the members in,
  that an eligible member is on the latest timeline (I3), that a planned promote is based on the
  latest timeline, and that a lock holder never lowers a settled record.
\<close>

section \<open>Definitions\<close>

datatype latest_via = Via_Record | Via_PendingCreated string | Via_PendingVoid string | Via_Inferred

datatype unknown_reason =
    Conflict_Histories timeline_id timeline_id
  | Incomplete nat "nat option"
  | MixedGenerations

datatype latest =
    Latest_Known timeline_id u64 latest_via
  | Latest_PendingUnresolved pending_promote
  | Latest_Unknown unknown_reason

definition history_of :: "member \<Rightarrow> history_evidence option" where
  "history_of m = Option.bind (mb_lineage m) li_history"

text \<open>The loop over the histories: the first id, or the first id that differs from it.\<close>

fun agree_on :: "timeline_id option \<Rightarrow> timeline_id list \<Rightarrow> (unknown_reason, timeline_id option) res" where
  "agree_on acc [] = Ok acc"
| "agree_on None (i # ids) = agree_on (Some i) ids"
| "agree_on (Some c) (i # ids) = (if c = i then agree_on (Some c) ids else Err (Conflict_Histories c i))"

definition conclude :: "u64 \<Rightarrow> latest_via \<Rightarrow> latest \<Rightarrow> (unknown_reason, timeline_id option) res \<Rightarrow> latest" where
  "conclude generation via otherwise r =
    (case r of
       Inl reason \<Rightarrow> Latest_Unknown reason
     | Inr (Some i) \<Rightarrow> Latest_Known i generation via
     | Inr None \<Rightarrow> otherwise)"

definition created_above :: "pending_promote \<Rightarrow> member \<Rightarrow> timeline_id option" where
  "created_above p m =
    (case mb_lineage m of
       None \<Rightarrow> None
     | Some l \<Rightarrow>
         if li_generation l \<noteq> pp_generation p then None
         else (case li_history l of
                 None \<Rightarrow> None
               | Some h \<Rightarrow> if he_timeline h \<le> pp_base_timeline p then None else Some (evidence_id h)))"

definition pending_void :: "pending_promote \<Rightarrow> member \<Rightarrow> bool" where
  "pending_void p m =
    (case mb_lineage m of
       None \<Rightarrow> False
     | Some l \<Rightarrow>
         (let no_newer = is_some_and (li_history l) (\<lambda>h. he_timeline h \<le> pp_base_timeline p);
              stopped = (mb_state m = Stopped \<or> mb_state m = Crashed);
              restarted = (li_postmaster_start l \<noteq> None \<and> li_postmaster_start l \<noteq> pp_postmaster_start p)
          in no_newer \<and> (stopped \<or> restarted)))"

definition resolve_pending :: "timeline_record \<Rightarrow> pending_promote \<Rightarrow> member list \<Rightarrow> latest" where
  "resolve_pending r p members =
    conclude (pp_generation p) (Via_PendingCreated (pp_node p))
      (if is_some_and (find (\<lambda>m. mb_name m = pp_node p) members) (pending_void p)
       then Latest_Known (record_id r) (tr_generation r) (Via_PendingVoid (pp_node p))
       else Latest_PendingUnresolved p)
      (agree_on None (List.map_filter (created_above p) members))"

definition member_generation :: "member \<Rightarrow> u64" where
  "member_generation m = (case mb_lineage m of None \<Rightarrow> 0 | Some l \<Rightarrow> li_generation l)"

text \<open>
  \<open>histories[0]\<close> is an index into a vector: with no members and a voter count of zero the
  completeness test passes on an empty vector and the process panics.
\<close>

datatype panic = Index_Out_Of_Bounds

definition newest_timeline :: "history_evidence list \<Rightarrow> u64" where
  "newest_timeline hs = (case hs of [] \<Rightarrow> 1 | h # hs' \<Rightarrow> fold (\<lambda>h' acc. max (he_timeline h') acc) hs' (he_timeline h))"

definition infer_latest :: "member list \<Rightarrow> nat option \<Rightarrow> (panic, latest) res" where
  "infer_latest members voters =
    (let histories = List.map_filter (\<lambda>m. map_option (\<lambda>h. (m, h)) (history_of m)) members;
         complete = is_some_and voters (\<lambda>v. v \<le> length histories \<and> length histories = length members)
     in if \<not> complete then Ok (Latest_Unknown (Incomplete (length histories) voters))
        else
          (case histories of
             [] \<Rightarrow> Err Index_Out_Of_Bounds
           | (m0, _) # _ \<Rightarrow>
               (let generation = member_generation m0;
                    newest = newest_timeline (map snd histories)
                in if list_ex (\<lambda>(m, _). member_generation m \<noteq> generation) histories
                   then Ok (Latest_Unknown MixedGenerations)
                   else
                     Ok (conclude generation Via_Inferred (Latest_Unknown (Incomplete (length histories) voters))
                       (agree_on None (map evidence_id
                         (filter (\<lambda>h. he_timeline h = newest) (map snd histories))))))))"

definition resolve_latest :: "cluster_timeline \<Rightarrow> member list \<Rightarrow> nat option \<Rightarrow> (panic, latest) res" where
  "resolve_latest timeline members voters =
    (case timeline of
       Timeline_Record r _ \<Rightarrow>
         (case tr_pending r of
            None \<Rightarrow> Ok (Latest_Known (record_id r) (tr_generation r) Via_Record)
          | Some p \<Rightarrow> Ok (resolve_pending r p members))
     | _ \<Rightarrow> infer_latest members voters)"

text \<open>
  The verdict where the call is known to return (a record is present, or there is a member);
  \<open>resolve_latest_panics_iff\<close> below says that it does.
\<close>

definition latest_view :: "cluster_timeline \<Rightarrow> member list \<Rightarrow> nat option \<Rightarrow> latest" where
  "latest_view timeline members voters =
    (case resolve_latest timeline members voters of
       Inr l \<Rightarrow> l
     | Inl _ \<Rightarrow> Latest_Unknown (Incomplete 0 voters))"

datatype ineligible =
    NoEvidence
  | Generation_Mismatch u64 u64
  | Behind "u64 option" timeline_id
  | DifferentHistory timeline_id timeline_id
  | UnrecordedNewer timeline_id timeline_id
  | Pending_By string
  | LatestUnknown unknown_reason
  | WatchdogUnavailable

definition published_begin_check :: "member \<Rightarrow> lineage \<Rightarrow> timeline_id \<Rightarrow> (ineligible, bool) res" where
  "published_begin_check m l i =
    (if mb_timeline m = Some (tl_timeline i)
     then (case li_timeline_begin l of
             Some b \<Rightarrow> if b = tl_begin i then Ok True
                        else Err (DifferentHistory \<lparr>tl_timeline = tl_timeline i, tl_begin = b\<rparr> i)
           | None \<Rightarrow> Ok False)
     else Ok False)"

definition eligibility :: "member \<Rightarrow> latest \<Rightarrow> (ineligible, unit) res" where
  "eligibility m lat =
    (case lat of
       Latest_PendingUnresolved p \<Rightarrow> if mb_name m = pp_node p then Ok () else Err (Pending_By (pp_node p))
     | Latest_Unknown r \<Rightarrow> Err (LatestUnknown r)
     | Latest_Known i generation _ \<Rightarrow>
         (case mb_lineage m of
            None \<Rightarrow> Err NoEvidence
          | Some l \<Rightarrow>
              if li_generation l \<noteq> generation then Err (Generation_Mismatch (li_generation l) generation)
              else if is_some_and (li_history l) (\<lambda>h. he_timeline h > tl_timeline i)
              then Err (UnrecordedNewer (evidence_id (the (li_history l))) i)
              else
                (case published_begin_check m l i of
                   Inl e \<Rightarrow> Err e
                 | Inr on_latest \<Rightarrow>
                     if is_some_and (li_history l) (\<lambda>h. he_timeline h = tl_timeline i \<and> he_wal h \<and> he_begin h \<noteq> tl_begin i)
                     then Err (DifferentHistory (evidence_id (the (li_history l))) i)
                     else if on_latest \<or> is_some_and (li_history l) (\<lambda>h. he_timeline h = tl_timeline i \<and> he_wal h)
                     then Ok ()
                     else if mb_timeline m = Some (tl_timeline i) then Err NoEvidence
                     else Err (Behind (mb_timeline m) i))))"

datatype promote_error =
    Reuses_Number timeline_id timeline_id
  | Below_Own_Pending timeline_id u64
  | Unresolved_By string
  | Promote_Latest_Unknown unknown_reason

definition plan_promote ::
  "string \<Rightarrow> latest \<Rightarrow> u64 \<Rightarrow> history_evidence \<Rightarrow> bool \<Rightarrow> string option \<Rightarrow> (promote_error, pending_promote) res" where
  "plan_promote me lat record_generation local accept_loss postmaster_start =
    (let pending = (\<lambda>base generation. \<lparr>pp_node = me, pp_base_timeline = tl_timeline base,
           pp_base_begin = tl_begin base, pp_generation = generation, pp_postmaster_start = postmaster_start\<rparr>)
     in if accept_loss then Ok (pending (evidence_id local) (record_generation + 1))
        else case lat of
          Latest_Known i generation _ \<Rightarrow>
            if evidence_id local = i then Ok (pending i generation) else Err (Reuses_Number (evidence_id local) i)
        | Latest_PendingUnresolved p \<Rightarrow>
            if pp_node p = me
            then if he_timeline local < pp_base_timeline p
                 then Err (Below_Own_Pending (evidence_id local) (pp_base_timeline p))
                 else Ok (pending (evidence_id local) (pp_generation p))
            else Err (Unresolved_By (pp_node p))
        | Latest_Unknown r \<Rightarrow> Err (Promote_Latest_Unknown r))"

definition confirmed_record :: "string \<Rightarrow> pending_promote \<Rightarrow> timeline_id \<Rightarrow> (timeline_id \<times> u64, timeline_record) res" where
  "confirmed_record me p new =
    (if tl_timeline new \<le> pp_base_timeline p then Err (new, pp_base_timeline p)
     else Ok \<lparr>tr_timeline = tl_timeline new, tr_begin = tl_begin new, tr_primary = me,
              tr_generation = pp_generation p, tr_pending = None\<rparr>)"

datatype hold_conflict =
    Own_Pending_Generation u64 u64
  | Record_Generation u64 u64
  | Pending_Not_Resolved string
  | Record_Above timeline_id timeline_id
  | Record_Differs timeline_id timeline_id

datatype hold_action = Hold_UpToDate | Hold_Write timeline_record | Hold_Conflict hold_conflict

definition hold_action_of ::
  "string \<Rightarrow> cluster_timeline \<Rightarrow> member list \<Rightarrow> nat option \<Rightarrow> timeline_id \<Rightarrow> u64 \<Rightarrow> hold_action" where
  "hold_action_of me timeline members voters own own_generation =
    (let write = Hold_Write \<lparr>tr_timeline = tl_timeline own, tr_begin = tl_begin own, tr_primary = me,
           tr_generation = own_generation, tr_pending = None\<rparr>
     in case timeline_record_of timeline of
          None \<Rightarrow> write
        | Some r \<Rightarrow>
            if is_some_and (tr_pending r) (\<lambda>p. pp_node p = me \<and> pp_generation p \<noteq> own_generation)
            then Hold_Conflict (Own_Pending_Generation (pp_generation (the (tr_pending r))) own_generation)
            else if tr_generation r \<noteq> own_generation \<and>
                \<not> is_some_and (tr_pending r) (\<lambda>p. pp_node p = me \<and> pp_generation p = own_generation)
            then Hold_Conflict (Record_Generation (tr_generation r) own_generation)
            else if is_some_and (tr_pending r) (\<lambda>p. pp_node p \<noteq> me) \<and>
                (case latest_view timeline members voters of Latest_PendingUnresolved _ \<Rightarrow> True | _ \<Rightarrow> False)
            then Hold_Conflict (Pending_Not_Resolved (pp_node (the (tr_pending r))))
            else if tr_pending r = None \<and> tr_generation r = own_generation \<and> record_id r = own then Hold_UpToDate
            else if tr_pending r = None \<and> tr_generation r = own_generation \<and> tr_timeline r > tl_timeline own
            then Hold_Conflict (Record_Above (record_id r) own)
            else if tr_pending r = None \<and> tr_generation r = own_generation \<and> tr_timeline r = tl_timeline own
            then Hold_Conflict (Record_Differs (record_id r) own)
            else write)"

section \<open>The loop over histories\<close>

lemma agree_on_Some:
  "agree_on (Some c) ids = Ok x \<longleftrightarrow> x = Some c \<and> set ids \<subseteq> {c}"
  by (induction ids) auto

lemma agree_on_Ok:
  "agree_on None ids = Ok x \<longleftrightarrow> (case x of None \<Rightarrow> ids = [] | Some i \<Rightarrow> set ids = {i})"
  by (cases ids) (auto simp: agree_on_Some split: option.splits)

lemma agree_on_same_set:
  assumes "set ids = set ids'"
  shows "agree_on None ids = Ok x \<longleftrightarrow> agree_on None ids' = Ok x"
  using assms by (auto simp: agree_on_Ok split: option.splits)

lemma agree_on_Err:
  assumes "set ids = set ids'"
  shows "(\<exists>r. agree_on None ids = Err r) \<longleftrightarrow> (\<exists>r. agree_on None ids' = Err r)"
  using agree_on_same_set [OF assms] by (metis sum.exhaust sum.simps(4))

lemma set_map_filter': "set (List.map_filter f xs) = {y. \<exists>x \<in> set xs. f x = Some y}"
  by (auto simp: List.map_filter_def image_iff) force+

lemma mset_map_filter: "mset xs = mset ys \<Longrightarrow> mset (List.map_filter f xs) = mset (List.map_filter f ys)"
  by (simp add: List.map_filter_def)

lemma newest_timeline_eq: "hs \<noteq> [] \<Longrightarrow> newest_timeline hs = Max (he_timeline ` set hs)"
proof -
  have "fold (\<lambda>h' acc. max (he_timeline h') acc) hs' a = Max (insert a (he_timeline ` set hs'))" for hs' a
  proof (induction hs' arbitrary: a)
    case (Cons h hs')
    then show ?case by (cases "hs' = []") (simp_all add: insert_commute max.assoc max.commute)
  qed simp
  then show "hs \<noteq> [] \<Longrightarrow> newest_timeline hs = Max (he_timeline ` set hs)"
    by (cases hs) (simp_all add: newest_timeline_def)
qed

section \<open>Panics\<close>

text \<open>
  \<open>resolve_latest\<close> returns except in one case: with no timeline record, no member and a voter
  count of zero (the Raft membership of a node that is not initialised yet), the index into the
  empty list of histories panics.
\<close>

theorem resolve_latest_panics_iff:
  "resolve_latest timeline members voters = Err Index_Out_Of_Bounds \<longleftrightarrow>
    timeline_record_of timeline = None \<and> members = [] \<and> voters = Some 0"
proof -
  have "infer_latest members voters = Err Index_Out_Of_Bounds \<longleftrightarrow> members = [] \<and> voters = Some 0"
    by (auto simp: infer_latest_def is_some_and_def Let_def List.map_filter_def
        split: option.splits if_splits list.splits sum.splits)
  then show ?thesis
    by (cases timeline) (auto simp: resolve_latest_def split: option.splits)
qed

section \<open>Agreement of all nodes\<close>

definition histories :: "member list \<Rightarrow> (member \<times> history_evidence) list" where
  "histories members = List.map_filter (\<lambda>m. map_option (\<lambda>h. (m, h)) (history_of m)) members"

definition same_verdict :: "latest \<Rightarrow> latest \<Rightarrow> bool" where
  "same_verdict a b \<longleftrightarrow> a = b \<or> (\<exists>r r'. a = Latest_Unknown r \<and> b = Latest_Unknown r')"

lemma same_verdict_refl [simp]: "same_verdict l l"
  by (simp add: same_verdict_def)

lemma conclude_same:
  assumes "set ids = set ids'" "same_verdict a a'"
  shows "same_verdict (conclude g via a (agree_on None ids)) (conclude g via a' (agree_on None ids'))"
proof (cases "agree_on None ids")
  case (Inl r)
  then obtain r' where "agree_on None ids' = Err r'" using agree_on_Err [OF assms(1)] by blast
  then show ?thesis using Inl by (simp add: conclude_def same_verdict_def)
next
  case (Inr x)
  then have "agree_on None ids' = Ok x" using agree_on_same_set [OF assms(1)] by blast
  then show ?thesis using Inr assms(2) by (simp add: conclude_def split: option.splits)
qed

definition newest_ids :: "(member \<times> history_evidence) list \<Rightarrow> timeline_id list" where
  "newest_ids hs = map evidence_id (filter (\<lambda>h. he_timeline h = newest_timeline (map snd hs)) (map snd hs))"

lemma infer_latest_eq:
  "infer_latest members voters =
    (let hs = histories members in
     if \<not> is_some_and voters (\<lambda>v. v \<le> length hs \<and> length hs = length members)
     then Ok (Latest_Unknown (Incomplete (length hs) voters))
     else if hs = [] then Err Index_Out_Of_Bounds
     else if \<exists>x \<in> set hs. member_generation (fst x) \<noteq> member_generation (fst (hd hs))
     then Ok (Latest_Unknown MixedGenerations)
     else Ok (conclude (member_generation (fst (hd hs))) Via_Inferred (Latest_Unknown (Incomplete (length hs) voters))
            (agree_on None (newest_ids hs))))"
proof (cases "histories members")
  case (Cons x xs)
  then show ?thesis
    by (cases x) (auto simp: infer_latest_def Let_def list_ex_iff newest_ids_def simp flip: histories_def)
qed (simp add: infer_latest_def Let_def flip: histories_def)

lemma infer_latest_perm:
  assumes "mset ms = mset ms'"
  shows "(\<exists>l l'. infer_latest ms v = Ok l \<and> infer_latest ms' v = Ok l' \<and> same_verdict l l') \<or>
    (infer_latest ms v = Err Index_Out_Of_Bounds \<and> infer_latest ms' v = Err Index_Out_Of_Bounds)"
proof -
  let ?hs = "histories ms" and ?hs' = "histories ms'"
  have m: "mset ?hs = mset ?hs'" unfolding histories_def by (rule mset_map_filter [OF assms])
  have eq: "set ?hs = set ?hs'" "length ?hs = length ?hs'" "?hs = [] \<longleftrightarrow> ?hs' = []" "length ms = length ms'"
    using mset_eq_setD [OF m] mset_eq_length [OF m] mset_eq_length [OF assms] by auto
  let ?mixed = "\<lambda>hs. \<exists>x \<in> set hs. member_generation (fst x) \<noteq> member_generation (fst (hd hs))"
  have mixed: "?mixed ?hs \<longleftrightarrow> ?mixed ?hs'" if "?hs \<noteq> []"
    using that eq(1,3) by (metis hd_in_set)
  have gen: "member_generation (fst (hd ?hs)) = member_generation (fst (hd ?hs'))" if "?hs \<noteq> []" "\<not> ?mixed ?hs"
    using that eq(1,3) by (metis hd_in_set)
  have ids: "set (newest_ids ?hs) = set (newest_ids ?hs')"
    using eq(1,3) by (cases "?hs = []") (simp_all add: newest_ids_def newest_timeline_eq)
  consider (incomplete) "\<not> is_some_and v (\<lambda>v. v \<le> length ?hs \<and> length ?hs = length ms)"
    | (panics) "is_some_and v (\<lambda>v. v \<le> length ?hs \<and> length ?hs = length ms)" "?hs = []"
    | (mix) "is_some_and v (\<lambda>v. v \<le> length ?hs \<and> length ?hs = length ms)" "?hs \<noteq> []" "?mixed ?hs"
    | (agree) "is_some_and v (\<lambda>v. v \<le> length ?hs \<and> length ?hs = length ms)" "?hs \<noteq> []" "\<not> ?mixed ?hs"
    by blast
  then show ?thesis
  proof cases
    case incomplete
    then show ?thesis by (simp add: infer_latest_eq eq(2,4))
  next
    case panics
    then have "?hs' = []" using eq(3) by blast
    then show ?thesis using panics eq(2,4) by (simp add: infer_latest_eq)
  next
    case mix
    then have "?hs' \<noteq> []" "?mixed ?hs'" using eq(3) mixed by blast+
    then have "infer_latest ms' v = Ok (Latest_Unknown MixedGenerations)"
      using mix(1) unfolding infer_latest_eq Let_def eq(2,4) by (simp only: if_True if_False not_True_eq_False)
    moreover have "infer_latest ms v = Ok (Latest_Unknown MixedGenerations)"
      using mix unfolding infer_latest_eq Let_def by (simp only: if_True if_False not_True_eq_False)
    ultimately show ?thesis by simp
  next
    case agree
    then have h': "?hs' \<noteq> []" "\<not> ?mixed ?hs'" using eq(3) mixed by blast+
    let ?c = "\<lambda>hs. conclude (member_generation (fst (hd hs))) Via_Inferred
      (Latest_Unknown (Incomplete (length hs) v)) (agree_on None (newest_ids hs))"
    have "infer_latest ms' v = Ok (?c ?hs')"
      using agree(1) h' unfolding infer_latest_eq Let_def eq(2,4) by (simp only: if_True if_False not_True_eq_False not_False_eq_True)
    moreover have "infer_latest ms v = Ok (?c ?hs)"
      using agree unfolding infer_latest_eq Let_def by (simp only: if_True if_False not_True_eq_False not_False_eq_True)
    moreover have "same_verdict (?c ?hs) (?c ?hs')"
      using gen [OF agree(2,3)] conclude_same [OF ids same_verdict_refl] by (simp only: eq(2))
    ultimately show ?thesis by blast
  qed
qed

lemma find_perm:
  assumes "mset ms = mset ms'" "distinct (map mb_name ms)"
  shows "find (\<lambda>m. mb_name m = n) ms = find (\<lambda>m. mb_name m = n) ms'"
proof -
  have d: "distinct (map mb_name ms')" using assms by (metis mset_eq_imp_distinct_iff mset_map)
  show ?thesis by (rule find_same_set [OF assms(2) d mset_eq_setD [OF assms(1)]])
qed

lemma resolve_pending_perm:
  assumes "mset ms = mset ms'" "distinct (map mb_name ms)"
  shows "same_verdict (resolve_pending r p ms) (resolve_pending r p ms')"
  unfolding resolve_pending_def find_perm [OF assms]
  by (rule conclude_same [OF mset_eq_setD [OF mset_map_filter [OF assms(1)]] same_verdict_refl])

lemma latest_view_perm:
  assumes "mset ms = mset ms'" "distinct (map mb_name ms)"
  shows "same_verdict (latest_view t ms v) (latest_view t ms' v)"
proof -
  have "same_verdict (case infer_latest ms v of Inr l \<Rightarrow> l | Inl _ \<Rightarrow> Latest_Unknown (Incomplete 0 v))
      (case infer_latest ms' v of Inr l \<Rightarrow> l | Inl _ \<Rightarrow> Latest_Unknown (Incomplete 0 v))"
    using infer_latest_perm [OF assms(1), of v] by auto
  then show ?thesis
    using resolve_pending_perm [OF assms] by (cases t) (simp_all add: latest_view_def resolve_latest_def split: option.splits)
qed

text \<open>
  C25. All nodes reach the same verdict (A9): the members of a cluster view come in the order of a
  hash map, which differs between nodes, but two nodes that see the same members, record and
  voter count agree on the latest timeline (or both find it unknown) and on which members may
  campaign.
\<close>

theorem verdict_is_order_independent:
  assumes "mset ms = mset ms'" and "distinct (map mb_name ms)"
  shows "same_verdict (latest_view t ms v) (latest_view t ms' v) \<and>
    is_ok (eligibility m (latest_view t ms v)) = is_ok (eligibility m (latest_view t ms' v))"
  using latest_view_perm [OF assms, of t v] by (auto simp: same_verdict_def eligibility_def)

text \<open>Members used in the examples.\<close>

definition demo_member :: "string \<Rightarrow> u64 \<Rightarrow> u64 \<Rightarrow> u64 \<Rightarrow> member" where
  "demo_member name timeline begin wal =
    \<lparr>mb_name = name, mb_conn_url = [], mb_api_url = [], mb_state = Running, mb_role = Replica,
     mb_wal_position = Some wal, mb_timeline = Some timeline, mb_tags = Map.empty, mb_version = None,
     mb_rewind_check = False,
     mb_lineage = Some \<lparr>li_timeline_begin = Some begin,
       li_history = Some \<lparr>he_timeline = timeline, he_begin = begin, he_wal = True\<rparr>,
       li_postmaster_start = None, li_generation = 0\<rparr>,
     mb_watchdog_failed = False\<rparr>"

lemma demo_member_simps [simp]:
  "mb_name (demo_member n t b w) = n" "mb_timeline (demo_member n t b w) = Some t"
  "mb_state (demo_member n t b w) = Running" "mb_wal_position (demo_member n t b w) = Some w"
  "mb_tags (demo_member n t b w) = Map.empty" "mb_watchdog_failed (demo_member n t b w) = False"
  "mb_lineage (demo_member n t b w) = Some \<lparr>li_timeline_begin = Some b,
       li_history = Some \<lparr>he_timeline = t, he_begin = b, he_wal = True\<rparr>,
       li_postmaster_start = None, li_generation = 0\<rparr>"
  by (simp_all add: demo_member_def)

theorem verdict_is_order_independent_witness:
  "same_verdict (latest_view Timeline_Absent [demo_member ''a'' 2 7 9, demo_member ''b'' 1 0 5] (Some 2))
     (latest_view Timeline_Absent [demo_member ''b'' 1 0 5, demo_member ''a'' 2 7 9] (Some 2))"
  using verdict_is_order_independent
    [of "[demo_member ''a'' 2 7 9, demo_member ''b'' 1 0 5]" "[demo_member ''b'' 1 0 5, demo_member ''a'' 2 7 9]"
      Timeline_Absent "Some 2" "demo_member ''a'' 2 7 9"]
  by simp

section \<open>Who may campaign\<close>

text \<open>The declarative reading of I3.\<close>

definition on_latest :: "member \<Rightarrow> timeline_id \<Rightarrow> u64 \<Rightarrow> bool" where
  "on_latest m i g \<longleftrightarrow> (\<exists>l. mb_lineage m = Some l \<and> li_generation l = g \<and>
     (\<forall>h. li_history l = Some h \<longrightarrow> he_timeline h \<le> tl_timeline i \<and> (he_timeline h = tl_timeline i \<and> he_wal h \<longrightarrow> evidence_id h = i)) \<and>
     (\<forall>b. mb_timeline m = Some (tl_timeline i) \<and> li_timeline_begin l = Some b \<longrightarrow> b = tl_begin i) \<and>
     ((mb_timeline m = Some (tl_timeline i) \<and> li_timeline_begin l = Some (tl_begin i)) \<or>
      (\<exists>h. li_history l = Some h \<and> he_wal h \<and> evidence_id h = i)))"

text \<open>
  Only a member on the latest timeline may campaign (I3): with the latest timeline known, a
  member is eligible exactly when it publishes the cluster's generation, knows no newer history,
  contradicts the begin of the latest timeline nowhere, and proves with its timeline or with WAL on
  the newest history that it is on it. With an unresolved promote only the promoter is eligible,
  and with an unknown latest timeline nobody is.
\<close>

theorem eligible_iff_on_latest:
  "(eligibility m (Latest_Known i g via) = Ok () \<longleftrightarrow> on_latest m i g) \<and>
   (eligibility m (Latest_PendingUnresolved p) = Ok () \<longleftrightarrow> mb_name m = pp_node p) \<and>
   eligibility m (Latest_Unknown r) \<noteq> Ok ()"
proof -
  have "eligibility m (Latest_Known i g via) = Ok () \<longleftrightarrow> on_latest m i g"
  proof (cases "mb_lineage m")
    case (Some l)
    show ?thesis
      by (cases "li_history l"; cases "li_timeline_begin l")
        (auto simp: Some eligibility_def on_latest_def published_begin_check_def timeline_id_eq_iff not_less
          split: if_splits)
  qed (simp add: eligibility_def on_latest_def)
  then show ?thesis by (simp add: eligibility_def)
qed

section \<open>Promotion\<close>

text \<open>A record's pending promote starts at or above the record.\<close>

definition record_wf :: "timeline_record \<Rightarrow> bool" where
  "record_wf r \<longleftrightarrow> (\<forall>p. tr_pending r = Some p \<longrightarrow> tr_timeline r \<le> pp_base_timeline p)"

lemma created_above_Some: "created_above p m = Some i \<Longrightarrow> pp_base_timeline p < tl_timeline i"
  by (auto simp: created_above_def not_le split: option.split_asm if_split_asm)

lemma resolved_at_or_above_record:
  assumes "record_wf r" "latest_view (Timeline_Record r v) ms voters = Latest_Known i g via"
  shows "tr_timeline r \<le> tl_timeline i"
proof (cases "tr_pending r")
  case None
  then show ?thesis using assms(2) by (auto simp: latest_view_def resolve_latest_def)
next
  case (Some p)
  let ?ids = "List.map_filter (created_above p) ms"
  have "resolve_pending r p ms = Latest_Known i g via"
    using assms(2) by (simp add: Some latest_view_def resolve_latest_def)
  then have "agree_on None ?ids = Ok (Some i) \<or> i = record_id r"
    by (auto simp: resolve_pending_def conclude_def split: sum.splits option.splits if_splits)
  then have "i = record_id r \<or> i \<in> set ?ids" using agree_on_Ok [of ?ids "Some i"] by auto
  then show ?thesis
    using assms(1) Some created_above_Some by (fastforce simp: record_wf_def set_map_filter')
qed

text \<open>The timeline a plan without operator override may start from.\<close>

definition promotes_from :: "string \<Rightarrow> latest \<Rightarrow> history_evidence \<Rightarrow> pending_promote \<Rightarrow> bool" where
  "promotes_from me lat local p \<longleftrightarrow>
    pp_node p = me \<and> pp_base_timeline p = he_timeline local \<and> pp_base_begin p = he_begin local \<and>
    (case lat of
       Latest_Known i g _ \<Rightarrow> tl_timeline i = he_timeline local \<and> tl_begin i = he_begin local \<and> pp_generation p = g
     | Latest_PendingUnresolved q \<Rightarrow>
         pp_node q = me \<and> pp_base_timeline q \<le> he_timeline local \<and> pp_generation p = pp_generation q
     | Latest_Unknown _ \<Rightarrow> False)"

lemma plan_promote_from:
  "plan_promote me lat g local False ps = Ok p \<Longrightarrow> promotes_from me lat local p"
  by (auto simp: plan_promote_def promotes_from_def evidence_id_def Let_def split: latest.splits if_splits)

text \<open>
  C26. A promotion starts from the latest timeline and moves the record forward: when the lock
  holder plans a promote without an operator override, the history of its own data directory is
  exactly the latest timeline (number and starting position) and the plan is based on it and
  carries its generation - or the latest timeline is not settled because of an earlier promote of
  this very node, which the plan then continues from no lower a timeline. A node whose history
  differs from a settled latest timeline gets no plan, nor does one facing another node's pending
  promote or an unknown latest timeline. The pending record is never below the record, and the
  record written after a confirmed promote names a strictly higher timeline and carries no
  pending promote.
\<close>

theorem promotion_raises_record:
  assumes "record_wf r" and "resolve_latest (Timeline_Record r v) ms voters = Ok lat"
    and "plan_promote me lat g local False ps = Ok p"
  shows "promotes_from me lat local p \<and> pp_postmaster_start p = ps \<and> record_wf (r\<lparr>tr_pending := Some p\<rparr>) \<and>
    (\<forall>new r'. confirmed_record me p new = Ok r' \<longrightarrow> tr_timeline r < tr_timeline r' \<and> tr_pending r' = None)"
proof -
  have lat: "latest_view (Timeline_Record r v) ms voters = lat" using assms(2) by (simp add: latest_view_def)
  have plan: "promotes_from me lat local p" by (rule plan_promote_from [OF assms(3)])
  have base: "tr_timeline r \<le> pp_base_timeline p"
  proof (cases lat)
    case (Latest_Known i g' via)
    then have "tr_timeline r \<le> tl_timeline i" using resolved_at_or_above_record [OF assms(1)] lat by simp
    then show ?thesis using plan Latest_Known by (simp add: promotes_from_def)
  next
    case (Latest_PendingUnresolved q)
    then have "tr_pending r = Some q"
      using assms(2) by (auto simp: resolve_latest_def resolve_pending_def conclude_def split: option.splits sum.splits if_splits)
    then show ?thesis using assms(1) plan Latest_PendingUnresolved by (auto simp: record_wf_def promotes_from_def)
  next
    case (Latest_Unknown u)
    then show ?thesis using plan by (simp add: promotes_from_def)
  qed
  have "pp_postmaster_start p = ps"
    using assms(3) by (auto simp: plan_promote_def Let_def split: latest.splits if_splits)
  moreover have "tr_timeline r < tr_timeline r' \<and> tr_pending r' = None" if "confirmed_record me p new = Ok r'" for new r'
    using that base by (auto simp: confirmed_record_def split: if_splits)
  ultimately show ?thesis using base plan by (auto simp: record_wf_def)
qed

definition demo_tl_record :: timeline_record where
  "demo_tl_record = \<lparr>tr_timeline = 2, tr_begin = 7, tr_primary = ''a'', tr_generation = 0, tr_pending = None\<rparr>"

theorem promotion_raises_record_witness:
  "\<exists>p. plan_promote ''b'' (Latest_Known \<lparr>tl_timeline = 2, tl_begin = 7\<rparr> 0 Via_Record) 0
      \<lparr>he_timeline = 2, he_begin = 7, he_wal = True\<rparr> False None = Ok p \<and>
    record_wf (demo_tl_record\<lparr>tr_pending := Some p\<rparr>)"
proof -
  let ?p = "\<lparr>pp_node = ''b'', pp_base_timeline = 2, pp_base_begin = 7, pp_generation = 0, pp_postmaster_start = None\<rparr>"
  have 1: "record_wf demo_tl_record" by (simp add: record_wf_def demo_tl_record_def)
  have 2: "resolve_latest (Timeline_Record demo_tl_record 4) [] (Some 3) =
      Ok (Latest_Known \<lparr>tl_timeline = 2, tl_begin = 7\<rparr> 0 Via_Record)"
    by (simp add: resolve_latest_def demo_tl_record_def record_id_def)
  have 3: "plan_promote ''b'' (Latest_Known \<lparr>tl_timeline = 2, tl_begin = 7\<rparr> 0 Via_Record) 0
      \<lparr>he_timeline = 2, he_begin = 7, he_wal = True\<rparr> False None = Ok ?p"
    by (simp add: plan_promote_def evidence_id_def)
  show ?thesis using promotion_raises_record [OF 1 2 3] 3 by blast
qed

section \<open>The lock holder's record\<close>

text \<open>
  C27. What a lock-holding primary may write into \<open>/timeline\<close>: always its own timeline with no
  pending promote; over a record with no pending promote only a strictly higher timeline of the
  same generation; and never over another node's promote that is not resolved.
\<close>

theorem hold_never_lowers_settled_record:
  assumes "hold_action_of me t ms voters own g = Hold_Write r'" and "timeline_record_of t = Some r"
  shows "record_id r' = own \<and> tr_primary r' = me \<and> tr_generation r' = g \<and> tr_pending r' = None \<and>
    (tr_pending r = None \<longrightarrow> tr_generation r = g \<and> tr_timeline r < tr_timeline r') \<and>
    (\<forall>p. tr_pending r = Some p \<and> pp_node p \<noteq> me \<longrightarrow> \<not> (\<exists>q. latest_view t ms voters = Latest_PendingUnresolved q))"
proof -
  have "record_id r' = own \<and> tr_primary r' = me \<and> tr_generation r' = g \<and> tr_pending r' = None"
    using assms by (auto simp: hold_action_of_def Let_def record_id_def split: if_splits)
  moreover have "tr_generation r = g \<and> tr_timeline r < tr_timeline r'" if "tr_pending r = None"
    using assms that by (auto simp: hold_action_of_def Let_def split: if_splits)
  moreover have "\<not> (\<exists>q. latest_view t ms voters = Latest_PendingUnresolved q)"
    if "tr_pending r = Some p" "pp_node p \<noteq> me" for p
    using assms that by (auto simp: hold_action_of_def Let_def split: if_splits)
  ultimately show ?thesis by blast
qed

theorem hold_never_lowers_settled_record_witness:
  "\<exists>r'. hold_action_of ''b'' (Timeline_Record demo_tl_record 4) [] None \<lparr>tl_timeline = 3, tl_begin = 9\<rparr> 0 = Hold_Write r' \<and>
    tr_timeline demo_tl_record < tr_timeline r'"
proof -
  let ?r = "\<lparr>tr_timeline = 3, tr_begin = 9, tr_primary = ''b'', tr_generation = 0, tr_pending = None\<rparr>"
  have 1: "hold_action_of ''b'' (Timeline_Record demo_tl_record 4) [] None \<lparr>tl_timeline = 3, tl_begin = 9\<rparr> 0 = Hold_Write ?r"
    by (simp add: hold_action_of_def demo_tl_record_def record_id_def)
  show ?thesis
    using hold_never_lowers_settled_record [OF 1, of demo_tl_record] 1 by (simp add: demo_tl_record_def)
qed

end
