(* ===== verification/Election.thy ===== *)
theory Election
  imports Identity Lineage Lease
begin

text \<open>
  The election rules of \<open>crates/pg-ha-core/src/ha/election.rs\<close> and the eligibility helpers of
  \<open>ha/helpers.rs\<close>: who defers to whom when no node holds the leader lock. The part of the \<open>Ha\<close>
  state these functions read is the record \<open>ha_view\<close>.

  The lemmas show that nodes with the same view of the cluster never campaign against each other,
  that the election always has a candidate when some member may take the lock, and that in
  synchronous mode only a listed standby campaigns.
\<close>

section \<open>What a node sees\<close>

record ha_view =
  hv_name :: string
  hv_nofailover :: bool
  hv_failover_priority :: u32
  hv_pg_running :: bool
  hv_watchdog_usable :: bool
  hv_accept_loss :: bool
  hv_cluster :: cluster
  hv_sync_mode :: bool
  hv_max_lag :: "u64 option"

definition latest_timeline :: "ha_view \<Rightarrow> latest" where
  "latest_timeline v = latest_view (cl_timeline (hv_cluster v)) (cl_members (hv_cluster v)) (cl_dcs_voters (hv_cluster v))"

definition member_eligibility :: "ha_view \<Rightarrow> member \<Rightarrow> (ineligible, unit) res" where
  "member_eligibility v m =
    (if mb_watchdog_failed m then Err WatchdogUnavailable else eligibility m (latest_timeline v))"

datatype own_eligibility =
    Own_Eligible
  | Own_Ineligible ineligible
  | Own_Override ineligible
  | Own_OverrideIgnored ineligible string

definition own_eligibility_of :: "ha_view \<Rightarrow> own_eligibility" where
  "own_eligibility_of v =
    (if \<not> hv_watchdog_usable v then Own_Ineligible WatchdogUnavailable
     else
       (case (case get_member (hv_cluster v) (hv_name v) of
                Some m \<Rightarrow> member_eligibility v m
              | None \<Rightarrow> Err NoEvidence) of
          Inr _ \<Rightarrow> Own_Eligible
        | Inl why \<Rightarrow>
            if \<not> hv_accept_loss v then Own_Ineligible why
            else (case find (\<lambda>m. mb_name m \<noteq> hv_name v \<and> is_ok (member_eligibility v m)) (cl_members (hv_cluster v)) of
                    Some m \<Rightarrow> Own_OverrideIgnored why (mb_name m)
                  | None \<Rightarrow> Own_Override why)))"

section \<open>The election rules\<close>

definition sync_failover_allowed :: "string \<Rightarrow> bool \<Rightarrow> sync_state option \<Rightarrow> bool" where
  "sync_failover_allowed name sync_mode_enabled state =
    (if \<not> sync_mode_enabled then True
     else (case state of
             None \<Rightarrow> False
           | Some s \<Rightarrow>
               (case sy_sync_standby s of
                  None \<Rightarrow> False
                | Some raw \<Rightarrow>
                    (let trimmed = str_trim raw
                     in if trimmed = [] \<or> trimmed = ''*'' then False else sync_matches s name))))"

definition honoured_candidate :: "ha_view \<Rightarrow> string option" where
  "honoured_candidate v =
    (case Option.bind (cl_failover (hv_cluster v)) fo_candidate of
       None \<Rightarrow> None
     | Some candidate \<Rightarrow>
         (let cm = get_member (hv_cluster v) candidate
          in if is_some_and cm (\<lambda>m. is_nofailover m \<or> mb_state m \<noteq> Running) then None
             else if honour_designated_candidate (candidate = hv_name v)
                       (map_option (\<lambda>m. is_ok (member_eligibility v m)) cm)
             then Some candidate else None))"

definition excluded_switchover_leader :: "ha_view \<Rightarrow> string option" where
  "excluded_switchover_leader v =
    (if honoured_candidate v \<noteq> None then None
     else (case Option.bind (cl_failover (hv_cluster v)) fo_leader of
             None \<Rightarrow> None
           | Some name \<Rightarrow> if name = [] then None else Some name))"

definition sync_allowed :: "ha_view \<Rightarrow> string \<Rightarrow> bool" where
  "sync_allowed v name = sync_failover_allowed name (hv_sync_mode v) (cl_sync_state (hv_cluster v))"

definition has_switchover_successor :: "ha_view \<Rightarrow> bool" where
  "has_switchover_successor v =
    list_ex (\<lambda>m. mb_name m \<noteq> hv_name v \<and> \<not> is_nofailover m \<and> failover_priority m \<noteq> 0 \<and> mb_state m = Running \<and>
      sync_allowed v (mb_name m) \<and> is_ok (member_eligibility v m)) (cl_members (hv_cluster v))"

definition passes_gates :: "ha_view \<Rightarrow> member \<Rightarrow> bool" where
  "passes_gates v m \<longleftrightarrow> excluded_switchover_leader v \<noteq> Some (mb_name m) \<and> \<not> is_nofailover m \<and>
     failover_priority m \<noteq> 0 \<and> mb_state m = Running \<and> sync_allowed v (mb_name m) \<and> is_ok (member_eligibility v m)"

definition max_known :: "u64 list \<Rightarrow> u64" where
  "max_known ws = (case ws of [] \<Rightarrow> 0 | w # ws' \<Rightarrow> fold max ws' w)"

definition candidate_max_wal :: "ha_view \<Rightarrow> u64" where
  "candidate_max_wal v =
    (if hv_max_lag v = None then 0
     else max_known (List.map_filter mb_wal_position
            (filter (\<lambda>m. mb_name m = hv_name v \<or> mb_name m \<noteq> hv_name v \<and> passes_gates v m) (cl_members (hv_cluster v)))))"

definition wal_of :: "member \<Rightarrow> u64" where
  "wal_of m = unwrap_or (mb_wal_position m) 0"

text \<open>One round of the comparison loop: does this peer make the node yield?\<close>

definition yields_to :: "ha_view \<Rightarrow> u64 \<Rightarrow> member \<Rightarrow> bool" where
  "yields_to v my_wal m \<longleftrightarrow>
    mb_name m \<noteq> hv_name v \<and> passes_gates v m \<and>
    \<not> exceeds_failover_lag (mb_wal_position m) (candidate_max_wal v) (hv_max_lag v) \<and>
    (wal_of m > my_wal \<or>
     wal_of m = my_wal \<and>
       (failover_priority m > hv_failover_priority v \<or>
        failover_priority m = hv_failover_priority v \<and> mb_name m < hv_name v))"

definition is_healthiest_node :: "ha_view \<Rightarrow> bool" where
  "is_healthiest_node v \<longleftrightarrow>
    \<not> (hv_nofailover v \<or> hv_failover_priority v = 0) \<and>
    (case own_eligibility_of v of Own_Eligible \<Rightarrow> True | Own_Override _ \<Rightarrow> True | _ \<Rightarrow> False) \<and>
    hv_pg_running v \<and> sync_allowed v (hv_name v) \<and>
    excluded_switchover_leader v \<noteq> Some (hv_name v) \<and>
    (let my_wal_opt = Option.bind (get_member (hv_cluster v) (hv_name v)) mb_wal_position
     in \<not> exceeds_failover_lag my_wal_opt (candidate_max_wal v) (hv_max_lag v) \<and>
        \<not> list_ex (yields_to v (unwrap_or my_wal_opt 0)) (cl_members (hv_cluster v)))"

text \<open>The decision of \<open>process_unhealthy_cluster\<close> once the node may take part.\<close>

definition should_attempt :: "ha_view \<Rightarrow> bool" where
  "should_attempt v =
    (case honoured_candidate v of
       Some candidate \<Rightarrow> candidate = hv_name v \<and> sync_allowed v (hv_name v)
     | None \<Rightarrow>
         if excluded_switchover_leader v = Some (hv_name v) then False else is_healthiest_node v)"

section \<open>Nodes with the same view\<close>

text \<open>The cluster view of two nodes that read the same DCS state: the order of members may differ.\<close>

definition same_cluster :: "cluster \<Rightarrow> cluster \<Rightarrow> bool" where
  "same_cluster a b \<longleftrightarrow> mset (cl_members a) = mset (cl_members b) \<and> distinct (map mb_name (cl_members a)) \<and>
     cl_timeline a = cl_timeline b \<and> cl_dcs_voters a = cl_dcs_voters b \<and> cl_failover a = cl_failover b \<and>
     cl_sync_state a = cl_sync_state b"

definition same_view :: "ha_view \<Rightarrow> ha_view \<Rightarrow> bool" where
  "same_view a b \<longleftrightarrow> same_cluster (hv_cluster a) (hv_cluster b) \<and> hv_sync_mode a = hv_sync_mode b \<and> hv_max_lag a = hv_max_lag b"

text \<open>What the node published agrees with what it knows of itself.\<close>

definition published :: "ha_view \<Rightarrow> member \<Rightarrow> bool" where
  "published v m \<longleftrightarrow> m \<in> set (cl_members (hv_cluster v)) \<and> mb_name m = hv_name v \<and>
     is_nofailover m = hv_nofailover v \<and> failover_priority m = hv_failover_priority v \<and>
     (mb_state m = Running \<longleftrightarrow> hv_pg_running v) \<and> mb_watchdog_failed m = (\<not> hv_watchdog_usable v)"




lemma same_view_eligibility: "same_view a b \<Longrightarrow> is_ok (member_eligibility a m) = is_ok (member_eligibility b m)"
proof -
  assume "same_view a b"
  then have "same_verdict (latest_timeline a) (latest_timeline b)"
    unfolding latest_timeline_def same_view_def same_cluster_def by (auto intro: latest_view_perm)
  then show ?thesis by (auto simp: member_eligibility_def same_verdict_def eligibility_def)
qed

lemma same_view_sync: "same_view a b \<Longrightarrow> sync_allowed a n = sync_allowed b n"
  by (simp add: sync_allowed_def same_view_def same_cluster_def)

lemma published_get_member:
  "\<lbrakk>published v m; distinct (map mb_name (cl_members (hv_cluster v)))\<rbrakk> \<Longrightarrow> get_member (hv_cluster v) (hv_name v) = Some m"
  using get_member_distinct [of "hv_cluster v" m] by (simp add: published_def)

lemma own_eligible_iff:
  assumes "published v m" "distinct (map mb_name (cl_members (hv_cluster v)))"
  shows "own_eligibility_of v = Own_Eligible \<longleftrightarrow> is_ok (member_eligibility v m)"
  using published_get_member [OF assms] assms(1)
  by (auto simp: own_eligibility_of_def published_def member_eligibility_def split: sum.splits option.splits)


lemma max_known_eq: "ws \<noteq> [] \<Longrightarrow> max_known ws = Max (set ws)"
proof -
  have "fold max ws' w = Max (insert w (set ws'))" for ws' :: "u64 list" and w
  proof (induction ws' arbitrary: w)
    case (Cons x xs)
    then show ?case by (cases "xs = []") (simp_all add: insert_commute max.assoc max.commute max.left_commute)
  qed simp
  then show "ws \<noteq> [] \<Longrightarrow> max_known ws = Max (set ws)" by (cases ws) (simp_all add: max_known_def)
qed


lemma healthiest_passes_gates:
  assumes "is_healthiest_node v" "published v m" "is_ok (member_eligibility v m)"
  shows "passes_gates v m"
  using assms by (auto simp: is_healthiest_node_def passes_gates_def published_def)

lemma healthiest_max_wal:
  assumes "published v m" "passes_gates v m" "distinct (map mb_name (cl_members (hv_cluster v)))"
  shows "candidate_max_wal v = (if hv_max_lag v = None then 0
    else max_known (List.map_filter mb_wal_position (filter (passes_gates v) (cl_members (hv_cluster v)))))"
proof -
  have "x = m" if "x \<in> set (cl_members (hv_cluster v))" "mb_name x = hv_name v" for x
    using that assms(1,3) get_member_distinct [OF assms(3)] by (metis option.inject published_def)
  then have "filter (\<lambda>m. mb_name m = hv_name v \<or> mb_name m \<noteq> hv_name v \<and> passes_gates v m) (cl_members (hv_cluster v)) =
      filter (passes_gates v) (cl_members (hv_cluster v))"
    using assms(2) by (intro filter_cong) auto
  then show ?thesis by (simp add: candidate_max_wal_def)
qed

lemma same_view_gates:
  assumes "same_view a b" "honoured_candidate a = honoured_candidate b"
  shows "excluded_switchover_leader a = excluded_switchover_leader b" and "passes_gates a m = passes_gates b m"
proof -
  show e: "excluded_switchover_leader a = excluded_switchover_leader b"
    using assms by (simp add: excluded_switchover_leader_def same_view_def same_cluster_def)
  then show "passes_gates a m = passes_gates b m"
    using same_view_sync [OF assms(1)] same_view_eligibility [OF assms(1)] by (simp add: passes_gates_def)
qed


text \<open>The order in which candidates are compared.\<close>

definition outranks :: "member \<Rightarrow> member \<Rightarrow> bool" where
  "outranks x y \<longleftrightarrow> wal_of x > wal_of y \<or> wal_of x = wal_of y \<and>
     (failover_priority x > failover_priority y \<or> failover_priority x = failover_priority y \<and> mb_name x < mb_name y)"


lemma yields_to_iff:
  assumes "published v m" "distinct (map mb_name (cl_members (hv_cluster v)))"
  shows "yields_to v (wal_of m) x \<longleftrightarrow> mb_name x \<noteq> hv_name v \<and> passes_gates v x \<and>
    \<not> exceeds_failover_lag (mb_wal_position x) (candidate_max_wal v) (hv_max_lag v) \<and> outranks x m"
  using assms by (auto simp: yields_to_def outranks_def published_def)

lemma healthiest_iff:
  assumes "published v m" "distinct (map mb_name (cl_members (hv_cluster v)))" "is_ok (member_eligibility v m)"
  shows "is_healthiest_node v \<longleftrightarrow> passes_gates v m \<and>
    \<not> exceeds_failover_lag (mb_wal_position m) (candidate_max_wal v) (hv_max_lag v) \<and>
    (\<forall>x \<in> set (cl_members (hv_cluster v)). mb_name x \<noteq> hv_name v \<longrightarrow> passes_gates v x \<longrightarrow>
      \<not> exceeds_failover_lag (mb_wal_position x) (candidate_max_wal v) (hv_max_lag v) \<longrightarrow> \<not> outranks x m)"
proof -
  have "own_eligibility_of v = Own_Eligible" using own_eligible_iff [OF assms(1,2)] assms(3) by simp
  moreover have g: "get_member (hv_cluster v) (hv_name v) = Some m" by (rule published_get_member [OF assms(1,2)])
  ultimately have "is_healthiest_node v \<longleftrightarrow> passes_gates v m \<and>
      \<not> exceeds_failover_lag (mb_wal_position m) (candidate_max_wal v) (hv_max_lag v) \<and>
      \<not> list_ex (yields_to v (wal_of m)) (cl_members (hv_cluster v))"
    using assms(1,3) by (auto simp: is_healthiest_node_def passes_gates_def published_def wal_of_def Let_def)
  then show ?thesis by (auto simp: list_ex_iff yields_to_iff [OF assms(1,2)])
qed


text \<open>
  The operator override (\<open>pg-ha.accept_timeline_loss\<close>) lets a node take part although it is not
  eligible. It is ignored as soon as another member is eligible.
\<close>

definition takes_part :: "ha_view \<Rightarrow> bool" where
  "takes_part v = (case own_eligibility_of v of Own_Eligible \<Rightarrow> True | Own_Override _ \<Rightarrow> True | _ \<Rightarrow> False)"



definition demo_view :: "string \<Rightarrow> ha_view" where
  "demo_view n = \<lparr>hv_name = n, hv_nofailover = False, hv_failover_priority = 1, hv_pg_running = True,
     hv_watchdog_usable = True, hv_accept_loss = False,
     hv_cluster = empty_cluster\<lparr>cl_members := [demo_member ''a'' 2 7 9, demo_member ''b'' 2 7 5],
       cl_timeline := Timeline_Record demo_tl_record 4\<rparr>,
     hv_sync_mode = False, hv_max_lag = None\<rparr>"

lemma demo_view_published:
  "published (demo_view ''a'') (demo_member ''a'' 2 7 9)" "published (demo_view ''b'') (demo_member ''b'' 2 7 5)"
  by (simp_all add: published_def demo_view_def is_nofailover_def failover_priority_def)

lemma demo_view_eligible: "is_ok (member_eligibility (demo_view n) (demo_member m 2 7 w))"
  by (simp add: member_eligibility_def latest_timeline_def demo_view_def latest_view_def resolve_latest_def
      demo_tl_record_def eligibility_def published_begin_check_def record_id_def empty_cluster_def)

lemma demo_view_distinct: "distinct (map mb_name (cl_members (hv_cluster (demo_view n))))"
  by (simp add: demo_view_def)

lemma demo_view_attempt: "should_attempt (demo_view ''a'')"
proof -
  have f: "cl_failover (hv_cluster (demo_view n)) = None" for n by (simp add: demo_view_def empty_cluster_def)
  have ne: "honoured_candidate (demo_view n) = None" "excluded_switchover_leader (demo_view n) = None" for n
    by (simp_all add: honoured_candidate_def excluded_switchover_leader_def f)
  have "passes_gates (demo_view ''a'') (demo_member n 2 7 w)" for n w
    using demo_view_eligible [of "''a''" n w] ne
    by (simp add: passes_gates_def is_nofailover_def failover_priority_def sync_allowed_def sync_failover_allowed_def demo_view_def)
  moreover have "hv_max_lag (demo_view ''a'') = None" by (simp add: demo_view_def)
  moreover have "\<not> outranks (demo_member ''b'' 2 7 5) (demo_member ''a'' 2 7 9)" by (simp add: outranks_def wal_of_def)
  moreover have "set (cl_members (hv_cluster (demo_view ''a''))) = {demo_member ''a'' 2 7 9, demo_member ''b'' 2 7 5}"
    "hv_name (demo_view ''a'') = ''a''"
    by (simp_all add: demo_view_def)
  ultimately have "is_healthiest_node (demo_view ''a'')"
    unfolding healthiest_iff [OF demo_view_published(1) demo_view_distinct demo_view_eligible]
    by (simp add: exceeds_failover_lag_def)
  then show ?thesis by (simp add: should_attempt_def ne)
qed


text \<open>
  Two nodes behind a record nobody else can follow, both with the operator's file: neither
  compares itself with the other, since it is not eligible, and both attempt.
\<close>

definition override_view :: "string \<Rightarrow> ha_view" where
  "override_view n = (demo_view n)\<lparr>hv_accept_loss := True,
     hv_cluster := empty_cluster\<lparr>cl_members := [demo_member ''a'' 2 7 9, demo_member ''b'' 2 7 5],
       cl_timeline := Timeline_Record (demo_tl_record\<lparr>tr_timeline := 3, tr_begin := 8\<rparr>) 4\<rparr>\<rparr>"

lemma override_view_ineligible: "\<not> is_ok (member_eligibility (override_view n) (demo_member m 2 7 w))"
  by (simp add: member_eligibility_def latest_timeline_def override_view_def demo_view_def latest_view_def resolve_latest_def
      demo_tl_record_def eligibility_def published_begin_check_def record_id_def empty_cluster_def)

lemma two_overrides_both_attempt:
  assumes "n = ''a'' \<or> n = ''b''"
  shows "takes_part (override_view n) \<and> should_attempt (override_view n)"
proof -
  let ?v = "override_view n"
  have members: "cl_members (hv_cluster ?v) = [demo_member ''a'' 2 7 9, demo_member ''b'' 2 7 5]"
    and f: "cl_failover (hv_cluster ?v) = None" and nm: "hv_name ?v = n" and flags: "hv_watchdog_usable ?v" "hv_accept_loss ?v"
      "\<not> hv_nofailover ?v" "hv_failover_priority ?v = 1" "hv_pg_running ?v" "\<not> hv_sync_mode ?v" "hv_max_lag ?v = None"
    by (simp_all add: override_view_def demo_view_def empty_cluster_def)
  have none: "honoured_candidate ?v = None" "excluded_switchover_leader ?v = None"
    by (simp_all add: honoured_candidate_def excluded_switchover_leader_def f)
  obtain w where "get_member (hv_cluster ?v) n = Some (demo_member n 2 7 w)"
    using assms by (auto simp: get_member_def members)
  then have own: "\<exists>why. own_eligibility_of ?v = Own_Override why"
    using override_view_ineligible [of n n w] override_view_ineligible [of n "''a''" 9] override_view_ineligible [of n "''b''" 5]
    by (auto simp: own_eligibility_of_def nm flags members split: sum.splits option.splits)
  have "\<not> passes_gates ?v (demo_member m 2 7 x)" for m x
    using override_view_ineligible by (simp add: passes_gates_def)
  then have "\<not> list_ex (yields_to ?v y) (cl_members (hv_cluster ?v))" for y
    by (simp add: members yields_to_def)
  then have "is_healthiest_node ?v"
    using own none by (auto simp: is_healthiest_node_def flags exceeds_failover_lag_def sync_allowed_def
        sync_failover_allowed_def Let_def)
  then show ?thesis using own none by (auto simp: takes_part_def should_attempt_def)
qed

section \<open>An election has a candidate\<close>

lemma outranks_order: "asymp_on S outranks" "transp_on S outranks"
  by (auto simp: outranks_def intro!: asymp_onI transp_onI)

lemma some_member_not_lagging:
  assumes "m0 \<in> set ms" "p m0" "th = None \<or> mb_wal_position m0 \<noteq> None"
    and "mx = (if th = None then 0 else max_known (List.map_filter mb_wal_position (filter p ms)))"
  shows "\<exists>m \<in> set ms. p m \<and> \<not> exceeds_failover_lag (mb_wal_position m) mx th"
proof (cases "th = None")
  case True
  then show ?thesis using assms(1,2) by (auto simp: exceeds_failover_lag_def)
next
  case False
  let ?ws = "List.map_filter mb_wal_position (filter p ms)"
  have ne: "?ws \<noteq> []" using assms(1-3) False set_map_filter' [of mb_wal_position "filter p ms"] by fastforce
  then have "mx \<in> set ?ws" using assms(4) False max_known_eq [OF ne] by simp
  then obtain m where "m \<in> set ms" "p m" "mb_wal_position m = Some mx" by (auto simp: set_map_filter')
  then show ?thesis using max_never_exceeds by force
qed

text \<open>
  C24. An election has a candidate: when no switchover or failover is requested, every node reads the
  same DCS state, the record every member has published is current (it is there, and its tags,
  its state and its watchdog flag are those of the node), and some member may take the lock (and
  publishes its WAL position if a lag ceiling is configured), then some member attempts to acquire
  it. The condition on the records is needed: a node that has crashed but is still recorded as
  running with the highest WAL position makes every other node yield to it, until its record is
  gone (\<open>stale_record_blocks_election\<close>).
\<close>

theorem election_has_candidate:
  assumes "\<forall>m \<in> set (cl_members cl). published (view (mb_name m)) m"
    and "\<forall>n. hv_cluster (view n) = cl \<and> hv_name (view n) = n \<and> hv_sync_mode (view n) = sm \<and> hv_max_lag (view n) = ml"
    and "distinct (map mb_name (cl_members cl))" and "cl_failover cl = None"
    and "m0 \<in> set (cl_members cl)" and "passes_gates (view (mb_name m0)) m0"
    and "ml = None \<or> mb_wal_position m0 \<noteq> None"
  shows "\<exists>m \<in> set (cl_members cl). should_attempt (view (mb_name m))"
proof -
  define p where "p = passes_gates (view (mb_name m0))"
  have none: "honoured_candidate (view n) = None" "excluded_switchover_leader (view n) = None" for n
    using assms(2,4) by (simp_all add: honoured_candidate_def excluded_switchover_leader_def)
  have sv: "same_view (view n) (view n')" for n n'
    using assms(2,3) by (simp add: same_view_def same_cluster_def)
  have gates: "passes_gates (view n) = p" for n
    unfolding p_def using same_view_gates(2) [OF sv] none(1) by (intro ext) simp
  define mx where "mx = (if ml = None then 0 else max_known (List.map_filter mb_wal_position (filter p (cl_members cl))))"
  have mx: "candidate_max_wal (view (mb_name m)) = mx" if "m \<in> set (cl_members cl)" "p m" for m
    using healthiest_max_wal [of "view (mb_name m)" m] that assms(1-3) by (simp add: gates mx_def)
  let ?S = "{m \<in> set (cl_members cl). p m \<and> \<not> exceeds_failover_lag (mb_wal_position m) mx ml}"
  have "?S \<noteq> {}"
    using some_member_not_lagging [OF assms(5) _ assms(7) mx_def] assms(6) by (auto simp: p_def)
  then obtain m where m: "m \<in> ?S" "\<forall>x \<in> ?S. x \<noteq> m \<longrightarrow> \<not> outranks x m"
    using Finite_Set.bex_min_element [of ?S outranks] outranks_order by auto
  have pub: "published (view (mb_name m)) m" and d: "distinct (map mb_name (cl_members (hv_cluster (view (mb_name m)))))"
    using m(1) assms(1-3) by auto
  have el: "is_ok (member_eligibility (view (mb_name m)) m)"
    using m(1) gates [of "mb_name m"] by (auto simp: passes_gates_def fun_eq_iff)
  have "is_healthiest_node (view (mb_name m))"
    unfolding healthiest_iff [OF pub d el] using m assms(2) mx gates by auto
  then show ?thesis using m(1) none by (auto simp: should_attempt_def)
qed

theorem election_has_candidate_witness:
  "\<exists>m \<in> set (cl_members (hv_cluster (demo_view ''a''))). should_attempt (demo_view (mb_name m))"
proof (rule election_has_candidate [where view = demo_view and sm = False and ml = None and ?m0.0 = "demo_member ''a'' 2 7 9"])
  show "\<forall>m \<in> set (cl_members (hv_cluster (demo_view ''a''))). published (demo_view (mb_name m)) m"
    using demo_view_published by (auto simp: demo_view_def)
  show "passes_gates (demo_view (mb_name (demo_member ''a'' 2 7 9))) (demo_member ''a'' 2 7 9)"
    using healthiest_passes_gates [OF _ demo_view_published(1) demo_view_eligible] demo_view_attempt
    by (auto simp: should_attempt_def demo_view_def honoured_candidate_def empty_cluster_def split: if_splits)
qed (simp_all add: demo_view_def empty_cluster_def)

text \<open>
  The same cluster after node \<open>a\<close> has stopped, with its last record still in the DCS: \<open>b\<close> yields to
  it, and \<open>a\<close> itself does not take part.
\<close>

definition stale_view :: "string \<Rightarrow> ha_view" where
  "stale_view n = (demo_view n)\<lparr>hv_pg_running := (n \<noteq> ''a'')\<rparr>"

lemma stale_record_blocks_election:
  "passes_gates (stale_view ''b'') (demo_member ''b'' 2 7 5) \<and> published (stale_view ''b'') (demo_member ''b'' 2 7 5) \<and>
   \<not> should_attempt (stale_view ''a'') \<and> \<not> should_attempt (stale_view ''b'')"
proof -
  have f: "cl_failover (hv_cluster (stale_view n)) = None" for n by (simp add: stale_view_def demo_view_def empty_cluster_def)
  have none: "honoured_candidate (stale_view n) = None" "excluded_switchover_leader (stale_view n) = None" for n
    by (simp_all add: honoured_candidate_def excluded_switchover_leader_def f)
  have el: "is_ok (member_eligibility (stale_view n) (demo_member m 2 7 w))" for n m w
    using demo_view_eligible [of n m w] by (simp add: member_eligibility_def latest_timeline_def stale_view_def)
  have "\<not> hv_sync_mode (stale_view n)" for n by (simp add: stale_view_def demo_view_def)
  then have pg: "passes_gates (stale_view ''b'') (demo_member n 2 7 w)" for n w
    using el none by (simp add: passes_gates_def is_nofailover_def failover_priority_def sync_allowed_def
        sync_failover_allowed_def)
  have pub: "published (stale_view ''b'') (demo_member ''b'' 2 7 5)"
    by (simp add: published_def stale_view_def demo_view_def is_nofailover_def failover_priority_def)
  have d: "distinct (map mb_name (cl_members (hv_cluster (stale_view ''b''))))" by (simp add: stale_view_def demo_view_def)
  have "\<not> is_healthiest_node (stale_view ''b'')"
  proof -
    have "demo_member ''a'' 2 7 9 \<in> set (cl_members (hv_cluster (stale_view ''b'')))" "hv_name (stale_view ''b'') = ''b''"
      "hv_max_lag (stale_view ''b'') = None"
      by (simp_all add: stale_view_def demo_view_def)
    moreover have "outranks (demo_member ''a'' 2 7 9) (demo_member ''b'' 2 7 5)" by (simp add: outranks_def wal_of_def)
    ultimately show ?thesis
      unfolding healthiest_iff [OF pub d el] using pg [of "''a''" 9] by (force simp: exceeds_failover_lag_def)
  qed
  moreover have "\<not> is_healthiest_node (stale_view ''a'')" by (simp add: is_healthiest_node_def stale_view_def)
  ultimately show ?thesis using pg pub none by (simp add: should_attempt_def)
qed

section \<open>Synchronous mode\<close>

text \<open>
  In synchronous mode a node attempts to take the lock only if \<open>/sync\<close> lists it: without a
  \<open>/sync\<close> record, with an empty list or with a wildcard nobody campaigns.
\<close>

theorem sync_mode_restricts_candidates:
  assumes "hv_sync_mode v" and "should_attempt v"
  shows "\<exists>s raw. cl_sync_state (hv_cluster v) = Some s \<and> sy_sync_standby s = Some raw \<and> str_trim raw \<notin> {[], ''*''} \<and>
    sync_matches s (hv_name v)"
proof -
  have "sync_allowed v (hv_name v)"
    using assms(2) by (auto simp: should_attempt_def is_healthiest_node_def split: option.splits if_splits)
  then show ?thesis
    using assms(1) by (auto simp: sync_allowed_def sync_failover_allowed_def Let_def split: option.splits if_splits)
qed

definition demo_sync_view :: ha_view where
  "demo_sync_view = (demo_view ''a'')\<lparr>hv_sync_mode := True,
     hv_cluster := (hv_cluster (demo_view ''a''))\<lparr>cl_failover := Some \<lparr>fo_leader = None, fo_candidate = Some ''a'', fo_scheduled_at = None\<rparr>,
       cl_sync_state := Some \<lparr>sy_leader = ''b'', sy_sync_standby = Some ''c,a'', sy_quorum = 0\<rparr>\<rparr>\<rparr>"

theorem sync_mode_restricts_candidates_witness:
  "should_attempt demo_sync_view \<and> (\<exists>s. cl_sync_state (hv_cluster demo_sync_view) = Some s \<and> sync_matches s ''a'')"
proof -
  have "should_attempt demo_sync_view"
    by (simp add: should_attempt_def demo_sync_view_def demo_view_def honoured_candidate_def get_member_def is_nofailover_def
        honour_designated_candidate_def sync_allowed_def sync_failover_allowed_def sync_matches_def sync_standby_names_def
        str_trim_def is_ascii_space_def eq_ignore_ascii_case_def ascii_lower_def Let_def)
  moreover have "hv_sync_mode demo_sync_view" "hv_name demo_sync_view = ''a''" by (simp_all add: demo_sync_view_def demo_view_def)
  ultimately show ?thesis using sync_mode_restricts_candidates [of demo_sync_view] by auto
qed

end
