(* ===== verification/Dynamic_Config.thy ===== *)
theory Dynamic_Config
  imports Standby_Config Lease
begin

text \<open>
  The dynamic cluster configuration of \<open>crates/pg-ha-core/src/dynamic_config.rs\<close>, with the timing rule
  \<open>LeaseTiming\<close> of \<open>config.rs\<close> and the standby-cluster section of \<open>standby_cluster.rs\<close>. A \<open>HashMap\<close> of
  parameters is an association list with distinct keys; a JSON object is one too. \<open>to_lowercase\<close> is
  ASCII lowering, as on the parameter names PostgreSQL has.

  The lemmas show that an accepted change of the timing leaves room for one cycle and one DCS write
  inside the lease.
\<close>

section \<open>Timing of the lease\<close>

definition saturating_add :: "u64 \<Rightarrow> u64 \<Rightarrow> u64" where
  "saturating_add a b = (if unat a + unat b < 2 ^ 64 then a + b else - 1)"

record lease_timing =
  lt_ttl :: u64
  lt_loop_wait :: u64
  lt_retry_timeout :: u64
  lt_safety_margin :: u64

datatype timing_problem = Retry_Timeout_Zero | Ttl_Too_Small u64

definition timing_violation :: "lease_timing \<Rightarrow> timing_problem option" where
  "timing_violation t =
    (if lt_retry_timeout t = 0 then Some Retry_Timeout_Zero
     else
       (let required = saturating_add (saturating_add (lt_loop_wait t) (lt_retry_timeout t)) (lt_safety_margin t)
        in if lt_ttl t < required then Some (Ttl_Too_Small required) else None))"

section \<open>The configuration\<close>

record standby_cluster_config =
  sb_host :: string
  sb_port :: nat
  sb_primary_slot_name :: "string option"
  sb_restore_command :: "string option"
  sb_create_replica_methods :: "string list"

type_synonym pg_params = "(string \<times> string) list"

record global_config =
  gc_loop_wait :: "u64 option"
  gc_ttl :: "u64 option"
  gc_retry_timeout :: "u64 option"
  gc_maximum_lag_on_failover :: "u64 option"
  gc_maximum_lag_on_syncnode :: "u64 option"
  gc_synchronous_mode :: "bool option"
  gc_synchronous_mode_strict :: "bool option"
  gc_synchronous_node_count :: "u32 option"
  gc_failsafe_mode :: "bool option"
  gc_pause :: "bool option"
  gc_postgresql :: "pg_params option"
  gc_standby_cluster :: "standby_cluster_config option"

definition default_config :: global_config where
  "default_config = \<lparr>gc_loop_wait = None, gc_ttl = None, gc_retry_timeout = None,
     gc_maximum_lag_on_failover = None, gc_maximum_lag_on_syncnode = None, gc_synchronous_mode = None,
     gc_synchronous_mode_strict = None, gc_synchronous_node_count = None, gc_failsafe_mode = None,
     gc_pause = None, gc_postgresql = None, gc_standby_cluster = None\<rparr>"

definition is_standby_cluster :: "global_config \<Rightarrow> bool" where
  "is_standby_cluster c \<longleftrightarrow> gc_standby_cluster c \<noteq> None"

datatype pg_param_classification = NeedsReload | NeedsRestart

definition RESTART_PARAMS :: "string list" where
  "RESTART_PARAMS =
    [''shared_buffers'', ''max_connections'', ''max_prepared_transactions'', ''max_worker_processes'',
     ''max_wal_senders'', ''max_replication_slots'', ''wal_level'', ''wal_buffers'',
     ''max_locks_per_transaction'', ''max_pred_locks_per_transaction'', ''track_commit_timestamp'',
     ''shared_preload_libraries'', ''listen_addresses'', ''port'', ''superuser_reserved_connections'',
     ''unix_socket_directories'', ''huge_pages'', ''cluster_name'', ''bonjour'', ''bonjour_name'', ''ssl'',
     ''ssl_ca_file'', ''ssl_cert_file'', ''ssl_key_file'', ''ssl_crl_file'', ''password_encryption'',
     ''hot_standby'', ''max_files_per_process'', ''archive_mode'', ''restore_command'', ''recovery_target'',
     ''recovery_target_name'', ''recovery_target_time'', ''recovery_target_xid'', ''recovery_target_lsn'',
     ''recovery_target_inclusive'', ''recovery_target_timeline'', ''recovery_target_action'',
     ''primary_conninfo'', ''primary_slot_name'']"

definition classify_pg_param :: "string \<Rightarrow> pg_param_classification" where
  "classify_pg_param name =
    (if List.member RESTART_PARAMS (map ascii_lower name) then NeedsRestart else NeedsReload)"

record config_changes =
  ch_ha_params_changed :: bool
  ch_pg_reload_params :: pg_params
  ch_pg_restart_params :: pg_params
  ch_pg_removed_params :: "string list"

definition has_changes :: "config_changes \<Rightarrow> bool" where
  "has_changes c \<longleftrightarrow> ch_ha_params_changed c \<or> ch_pg_reload_params c \<noteq> [] \<or> ch_pg_restart_params c \<noteq> [] \<or>
     ch_pg_removed_params c \<noteq> []"

definition needs_restart :: "config_changes \<Rightarrow> bool" where
  "needs_restart c \<longleftrightarrow> ch_pg_restart_params c \<noteq> []"

definition needs_reload :: "config_changes \<Rightarrow> bool" where
  "needs_reload c \<longleftrightarrow> ch_pg_reload_params c \<noteq> [] \<or> ch_pg_removed_params c \<noteq> []"

definition detect_changes :: "global_config \<Rightarrow> global_config \<Rightarrow> config_changes" where
  "detect_changes old new =
    (let ha_changed = (gc_loop_wait old \<noteq> gc_loop_wait new \<or> gc_ttl old \<noteq> gc_ttl new \<or>
           gc_retry_timeout old \<noteq> gc_retry_timeout new \<or>
           gc_maximum_lag_on_failover old \<noteq> gc_maximum_lag_on_failover new \<or>
           gc_maximum_lag_on_syncnode old \<noteq> gc_maximum_lag_on_syncnode new \<or>
           gc_synchronous_mode old \<noteq> gc_synchronous_mode new \<or>
           gc_synchronous_mode_strict old \<noteq> gc_synchronous_mode_strict new \<or>
           gc_synchronous_node_count old \<noteq> gc_synchronous_node_count new \<or>
           gc_pause old \<noteq> gc_pause new \<or> gc_standby_cluster old \<noteq> gc_standby_cluster new);
         old_params = unwrap_or (gc_postgresql old) [];
         new_params = unwrap_or (gc_postgresql new) [];
         changed = filter (\<lambda>(name, new_val). map_of old_params name \<noteq> Some new_val) new_params
     in \<lparr>ch_ha_params_changed = ha_changed,
         ch_pg_reload_params = filter (\<lambda>(name, _). classify_pg_param name = NeedsReload) changed,
         ch_pg_restart_params = filter (\<lambda>(name, _). classify_pg_param name = NeedsRestart) changed,
         ch_pg_removed_params = filter (\<lambda>name. map_of new_params name = None) (map fst old_params)\<rparr>)"

record dynamic_config_state =
  dy_last_config :: global_config
  dy_pending_restart :: bool
  dy_pending_restart_params :: pg_params

definition new_dynamic_config_state :: dynamic_config_state where
  "new_dynamic_config_state =
    \<lparr>dy_last_config = default_config, dy_pending_restart = False, dy_pending_restart_params = []\<rparr>"

text \<open>\<open>HashMap::extend\<close>: later entries win.\<close>

definition extend_params :: "pg_params \<Rightarrow> pg_params \<Rightarrow> pg_params" where
  "extend_params old new = new @ filter (\<lambda>(k, _). map_of new k = None) old"

definition apply_new_config :: "dynamic_config_state \<Rightarrow> global_config \<Rightarrow> dynamic_config_state \<times> config_changes" where
  "apply_new_config st new =
    (let changes = detect_changes (dy_last_config st) new;
         st1 = (if has_changes changes \<and> needs_restart changes
                then st\<lparr>dy_pending_restart := True,
                        dy_pending_restart_params :=
                          extend_params (dy_pending_restart_params st) (ch_pg_restart_params changes)\<rparr>
                else st)
     in (st1\<lparr>dy_last_config := new\<rparr>, changes))"

definition clear_pending_restart :: "dynamic_config_state \<Rightarrow> dynamic_config_state" where
  "clear_pending_restart st = st\<lparr>dy_pending_restart := False, dy_pending_restart_params := []\<rparr>"

definition config_lease_timing :: "global_config \<Rightarrow> lease_timing \<Rightarrow> lease_timing" where
  "config_lease_timing c base =
    \<lparr>lt_ttl = unwrap_or (gc_ttl c) (lt_ttl base), lt_loop_wait = unwrap_or (gc_loop_wait c) (lt_loop_wait base),
     lt_retry_timeout = unwrap_or (gc_retry_timeout c) (lt_retry_timeout base),
     lt_safety_margin = lt_safety_margin base\<rparr>"

definition check_lease_timing_change ::
  "global_config \<Rightarrow> global_config \<Rightarrow> lease_timing \<Rightarrow> (timing_problem, unit) res" where
  "check_lease_timing_change current new base =
    (if gc_ttl current = gc_ttl new \<and> gc_loop_wait current = gc_loop_wait new \<and>
        gc_retry_timeout current = gc_retry_timeout new
     then Ok ()
     else (case timing_violation (config_lease_timing new base) of
             Some problem \<Rightarrow> Err problem
           | None \<Rightarrow> Ok ()))"

section \<open>JSON patches\<close>

text \<open>
  \<open>merge_json_patch\<close>: the entries of a patch object in turn. \<open>serde_json::Map\<close> is ordered by key;
  \<open>obj_put\<close> keeps the position of an existing key and appends a new one, which no reader observes.
\<close>

fun obj_put :: "string \<Rightarrow> json_value \<Rightarrow> (string \<times> json_value) list \<Rightarrow> (string \<times> json_value) list" where
  "obj_put k v [] = [(k, v)]"
| "obj_put k v ((k', v') # kvs) = (if k = k' then (k, v) # kvs else (k', v') # obj_put k v kvs)"

definition obj_remove :: "string \<Rightarrow> (string \<times> json_value) list \<Rightarrow> (string \<times> json_value) list" where
  "obj_remove k kvs = filter (\<lambda>(k', _). k' \<noteq> k) kvs"

fun merge_json_patch :: "json_value \<Rightarrow> json_value \<Rightarrow> json_value"
  and merge_entry :: "json_value \<Rightarrow> string \<Rightarrow> json_value \<Rightarrow> json_value" where
  "merge_json_patch (JObject base) (JObject []) = JObject base"
| "merge_json_patch (JObject base) (JObject ((key, val) # rest)) =
     merge_json_patch (merge_entry (JObject base) key val) (JObject rest)"
| "merge_json_patch base patch = base"
| "merge_entry (JObject base) key JNull = JObject (obj_remove key base)"
| "merge_entry (JObject base) key (JObject sub) =
     JObject (obj_put key (merge_json_patch (unwrap_or (map_of base key) (JObject [])) (JObject sub)) base)"
| "merge_entry (JObject base) key val = JObject (obj_put key val base)"
| "merge_entry base key val = base"

section \<open>Accepted timings\<close>

lemma unat_u64_max: "unat (- 1 :: u64) = 2 ^ 64 - 1"
  by (simp add: unsigned_minus_1_eq_mask mask_eq_exp_minus_1)

lemma unat_saturating_add: "unat (saturating_add a b) = min (unat a + unat b) (2 ^ 64 - 1)"
proof (cases "unat a + unat b < 2 ^ 64")
  case True
  then have "unat (a + b) = unat a + unat b" using unat_add_lem [of a b] by simp
  then show ?thesis using True by (simp add: saturating_add_def)
next
  case False
  then show ?thesis by (simp add: saturating_add_def unat_u64_max)
qed

lemma timing_accepted_iff:
  "timing_violation t = None \<longleftrightarrow> lt_retry_timeout t \<noteq> 0 \<and>
     min (unat (lt_loop_wait t) + unat (lt_retry_timeout t) + unat (lt_safety_margin t)) (2 ^ 64 - 1) \<le> unat (lt_ttl t)"
  by (auto simp: timing_violation_def Let_def word_less_nat_alt unat_saturating_add min_def)

definition timing_fits :: "lease_timing \<Rightarrow> bool" where
  "timing_fits t \<longleftrightarrow> lt_retry_timeout t \<noteq> 0 \<and> (lt_ttl t = - 1 \<or>
     (unat (lt_loop_wait t) + unat (lt_retry_timeout t)) * 1000 \<le> lease_valid_ms (lt_ttl t) (lt_safety_margin t))"

lemma accepted_timing_fits:
  assumes "timing_violation t = None"
  shows "timing_fits t"
proof (cases "unat (lt_ttl t) = 2 ^ 64 - 1")
  case True
  then have "lt_ttl t = - 1" by (simp add: word_unat_eq_iff unat_u64_max)
  then show ?thesis using assms by (simp add: timing_fits_def timing_accepted_iff)
next
  case False
  have "unat (lt_ttl t) < 2 ^ 64" using unsigned_less [of "lt_ttl t"] by simp
  with False assms have "unat (lt_loop_wait t) + unat (lt_retry_timeout t) + unat (lt_safety_margin t) \<le> unat (lt_ttl t)"
    by (auto simp: timing_accepted_iff)
  then have "unat (lt_loop_wait t) + unat (lt_retry_timeout t) \<le> unat (lt_ttl t) - unat (lt_safety_margin t)" by linarith
  then have "(unat (lt_loop_wait t) + unat (lt_retry_timeout t)) * 1000 \<le> lease_valid_ms (lt_ttl t) (lt_safety_margin t)"
    unfolding lease_valid_ms_def unat_saturating_sub by (rule mult_le_mono1)
  then show ?thesis using assms by (simp add: timing_fits_def timing_accepted_iff)
qed

text \<open>The exception is real: with a TTL of \<open>u64::MAX\<close> seconds any loop wait passes.\<close>

lemma saturated_timing_passes:
  "timing_violation \<lparr>lt_ttl = - 1, lt_loop_wait = w, lt_retry_timeout = 1, lt_safety_margin = m\<rparr> = None"
  by (simp add: timing_accepted_iff unat_u64_max)

definition same_timing :: "global_config \<Rightarrow> global_config \<Rightarrow> bool" where
  "same_timing a b \<longleftrightarrow> gc_ttl a = gc_ttl b \<and> gc_loop_wait a = gc_loop_wait b \<and> gc_retry_timeout a = gc_retry_timeout b"

lemma accepted_change: "check_lease_timing_change current new base = Ok () \<Longrightarrow>
   same_timing current new \<or> timing_fits (config_lease_timing new base)"
  by (auto simp: check_lease_timing_change_def same_timing_def intro: accepted_timing_fits split: if_splits option.splits)

text \<open>
  Bounds of an accepted configuration change: when the timing changes and the change is accepted, the
  retry timeout is positive and a lease, which runs for the TTL less the safety margin, lasts at least one
  loop wait and one retry timeout, so that one cycle and one lock write fit into it. The 64-bit sum
  saturates: the only timing accepted beyond that is a TTL of \<open>u64::MAX\<close> seconds.
\<close>

theorem accepted_timing_fits_lease:
  assumes "check_lease_timing_change current new base = Ok ()"
    "gc_ttl current \<noteq> gc_ttl new \<or> gc_loop_wait current \<noteq> gc_loop_wait new \<or> gc_retry_timeout current \<noteq> gc_retry_timeout new"
    "t = config_lease_timing new base"
  shows "lt_retry_timeout t \<noteq> 0 \<and> (lt_ttl t = - 1 \<or>
    (unat (lt_loop_wait t) + unat (lt_retry_timeout t)) * 1000 \<le> lease_valid_ms (lt_ttl t) (lt_safety_margin t))"
  using accepted_change [OF assms(1)] assms(2,3) by (auto simp: same_timing_def timing_fits_def)

theorem accepted_timing_fits_lease_witness:
  "config_lease_timing (default_config\<lparr>gc_ttl := Some 20\<rparr>)
     \<lparr>lt_ttl = 30, lt_loop_wait = 5, lt_retry_timeout = 5, lt_safety_margin = 5\<rparr> =
     \<lparr>lt_ttl = 20, lt_loop_wait = 5, lt_retry_timeout = 5, lt_safety_margin = 5\<rparr> \<and>
   (20 = (- 1 :: u64) \<or> (unat (5 :: u64) + unat (5 :: u64)) * 1000 \<le> lease_valid_ms 20 5)"
proof -
  let ?new = "default_config\<lparr>gc_ttl := Some 20\<rparr>"
  let ?base = "\<lparr>lt_ttl = 30, lt_loop_wait = 5, lt_retry_timeout = 5, lt_safety_margin = 5\<rparr>"
  have t: "config_lease_timing ?new ?base = \<lparr>lt_ttl = 20, lt_loop_wait = 5, lt_retry_timeout = 5, lt_safety_margin = 5\<rparr>"
    by (simp add: config_lease_timing_def default_config_def)
  have "check_lease_timing_change default_config ?new ?base = Ok ()"
    by (simp add: check_lease_timing_change_def t timing_violation_def saturating_add_def)
  moreover have "gc_ttl default_config \<noteq> gc_ttl ?new" by (simp add: default_config_def)
  ultimately show ?thesis
    using accepted_timing_fits_lease [of default_config ?new ?base "config_lease_timing ?new ?base"] unfolding t by simp
qed

end
