(* ===== verification/Sync_Replication.thy ===== *)
theory Sync_Replication
  imports Standby_Config "HOL-Library.Product_Lexorder"
begin

text \<open>
  Synchronous replication: the list of synchronous standbys \<open>SyncManager\<close> computes
  (\<open>crates/pg-ha-core/src/sync.rs\<close>) and the parsing of such a list back into names
  (\<open>extract_names_from_sync_value\<close>, \<open>sync_name_set\<close> of \<open>ha/mod.rs\<close>). A \<open>BTreeSet\<close> of names is a sorted
  list without duplicates.

  The lemmas show that the names parsed back are those of eligible streaming standbys, at most
  the configured number, and that names parsed from any value can be written to \<open>/sync\<close> and read back.
\<close>

section \<open>Decimal numbers\<close>

fun dec_of_nat :: "nat \<Rightarrow> string" where
  "dec_of_nat n = (if n < 10 then [char_of (48 + n)] else dec_of_nat (n div 10) @ [char_of (48 + n mod 10)])"

declare dec_of_nat.simps [simp del]

section \<open>Computing the list\<close>

record replica_row =
  rr_application_name :: string
  rr_flush_lsn :: u64

record replication_snapshot =
  rs_primary_flush_lsn :: u64
  rs_replicas :: "replica_row list"

datatype sync_mode = Sync_Off | Sync_Priority | Sync_Quorum

record sync_manager =
  sm_mode :: sync_mode
  sm_sync_node_count :: nat
  sm_strict_mode :: bool

definition new_sync_manager :: "sync_mode \<Rightarrow> nat \<Rightarrow> bool \<Rightarrow> sync_manager" where
  "new_sync_manager mode sync_node_count strict_mode =
    \<lparr>sm_mode = mode, sm_sync_node_count = max sync_node_count 1, sm_strict_mode = strict_mode\<rparr>"

definition DQUOTE :: char where "DQUOTE = CHR 0x22"

definition quote_ident :: "string \<Rightarrow> string" where
  "quote_ident name = [DQUOTE] @ str_replace DQUOTE [DQUOTE, DQUOTE] name @ [DQUOTE]"

definition NO_ELIGIBLE_NAME :: string where "NO_ELIGIBLE_NAME = ''_pg_ha_no_eligible_sync_standby_''"

definition STRICT_NO_ELIGIBLE_PLACEHOLDER :: string where
  "STRICT_NO_ELIGIBLE_PLACEHOLDER = ''FIRST 1 ('' @ [DQUOTE] @ NO_ELIGIBLE_NAME @ [DQUOTE] @ '')''"

record candidate =
  ca_name :: string
  ca_priority :: u32
  ca_flush_lsn :: u64
  ca_is_voter :: bool

definition find_replica :: "replica_row list \<Rightarrow> string \<Rightarrow> replica_row option" where
  "find_replica rows name = find (\<lambda>r. eq_ignore_ascii_case (rr_application_name r) name) rows"

definition sync_candidates ::
  "member list \<Rightarrow> string \<Rightarrow> replication_snapshot \<Rightarrow> string list \<Rightarrow> candidate list" where
  "sync_candidates members my_name snapshot current_voters =
    List.map_filter
      (\<lambda>m. map_option
             (\<lambda>r. \<lparr>ca_name = mb_name m, ca_priority = sync_priority m, ca_flush_lsn = rr_flush_lsn r,
                   ca_is_voter = list_ex (\<lambda>v. eq_ignore_ascii_case v (mb_name m)) current_voters\<rparr>)
             (find_replica (rs_replicas snapshot) (mb_name m)))
      (filter (\<lambda>m. mb_name m \<noteq> my_name \<and> \<not> is_nosync m \<and> mb_state m = Running \<and> mb_role m = Replica) members)"

definition lag_baseline :: "replication_snapshot \<Rightarrow> candidate list \<Rightarrow> u64" where
  "lag_baseline snapshot candidates =
    (if length candidates \<le> 1 then rs_primary_flush_lsn snapshot
     else fold max (map ca_flush_lsn candidates) 0)"

text \<open>The comparator: priority descending, voters first, flush position descending, name ascending.\<close>

definition candidate_key :: "candidate \<Rightarrow> int \<times> bool \<times> int \<times> string" where
  "candidate_key c = (- uint (ca_priority c), \<not> ca_is_voter c, - uint (ca_flush_lsn c), ca_name c)"

definition eligible_candidates ::
  "member list \<Rightarrow> string \<Rightarrow> replication_snapshot \<Rightarrow> u64 option \<Rightarrow> string list \<Rightarrow> candidate list" where
  "eligible_candidates members my_name snapshot threshold current_voters =
    (let candidates = sync_candidates members my_name snapshot current_voters;
         baseline = lag_baseline snapshot candidates
     in sort_key candidate_key
          (case threshold of
             Some t \<Rightarrow> filter (\<lambda>c. saturating_sub baseline (ca_flush_lsn c) \<le> t) candidates
           | None \<Rightarrow> candidates))"

fun join_names :: "string list \<Rightarrow> string" where
  "join_names [] = []"
| "join_names [n] = n"
| "join_names (n # ns) = n @ '','' @ join_names ns"

definition standby_list :: "string \<Rightarrow> nat \<Rightarrow> string list \<Rightarrow> string" where
  "standby_list keyword count names =
    keyword @ '' '' @ dec_of_nat count @ '' ('' @ join_names (map quote_ident names) @ '')''"

definition compute_sync_standby_names ::
  "sync_manager \<Rightarrow> member list \<Rightarrow> string \<Rightarrow> replication_snapshot \<Rightarrow> u64 option \<Rightarrow> string list \<Rightarrow> string option" where
  "compute_sync_standby_names mgr members my_name snapshot threshold current_voters =
    (if sm_mode mgr = Sync_Off then None
     else
       (let candidates = eligible_candidates members my_name snapshot threshold current_voters
        in if candidates = [] then Some (if sm_strict_mode mgr then STRICT_NO_ELIGIBLE_PLACEHOLDER else [])
           else
             (let count = (if sm_strict_mode mgr then sm_sync_node_count mgr
                           else min (sm_sync_node_count mgr) (length candidates));
                  names = map ca_name (take count candidates)
              in (case sm_mode mgr of
                    Sync_Priority \<Rightarrow> Some (standby_list ''FIRST'' count names)
                  | Sync_Quorum \<Rightarrow> Some (standby_list ''ANY'' count names)
                  | Sync_Off \<Rightarrow> None))))"

section \<open>Parsing it back\<close>

type_synonym name_set = "string list"

definition name_set_of :: "string list \<Rightarrow> name_set" where
  "name_set_of ns = sort (remdups ns)"

definition sync_name_set :: "string list \<Rightarrow> name_set" where
  "sync_name_set names = name_set_of (map (map ascii_lower) names)"

fun find_char :: "char \<Rightarrow> string \<Rightarrow> nat option" where
  "find_char c [] = None"
| "find_char c (x # xs) = (if x = c then Some 0 else map_option Suc (find_char c xs))"

definition rfind_char :: "char \<Rightarrow> string \<Rightarrow> nat option" where
  "rfind_char c s = map_option (\<lambda>i. length s - 1 - i) (find_char c (rev s))"

definition strip_dquotes :: "string \<Rightarrow> string" where
  "strip_dquotes s =
    (let s1 = (case s of c # cs \<Rightarrow> if c = DQUOTE then cs else s | [] \<Rightarrow> [])
     in if s1 \<noteq> [] \<and> last s1 = DQUOTE then butlast s1 else s1)"

text \<open>\<open>replace\<close> of a doubled quote by a single one, left to right.\<close>

fun undouble :: "char \<Rightarrow> string \<Rightarrow> string" where
  "undouble q (a # b # s) = (if a = q \<and> b = q then q # undouble q s else a # undouble q (b # s))"
| "undouble q s = s"

definition parse_sync_name :: "string \<Rightarrow> string" where
  "parse_sync_name raw = map ascii_lower (str_trim (undouble DQUOTE (strip_dquotes (str_trim raw))))"

text \<open>A slice whose end lies before its start panics.\<close>

datatype slice_panic = Slice_Out_Of_Range

definition extract_names_from_sync_value :: "string \<Rightarrow> (slice_panic, name_set) res" where
  "extract_names_from_sync_value pg_value =
    (let v = str_trim pg_value
     in if v = [] \<or> v = ''*'' then Ok []
        else (case (find_char (CHR ''('') v, rfind_char (CHR '')'') v) of
                (Some start, Some end') \<Rightarrow>
                  if end' < start + 1 then Err Slice_Out_Of_Range
                  else Ok (name_set_of (filter (\<lambda>n. n \<noteq> [])
                         (map parse_sync_name (str_split (CHR '','') (take (end' - (start + 1)) (drop (start + 1) v))))))
              | _ \<Rightarrow> Ok []))"

section \<open>The names read back\<close>

lemma find_char_append: "c \<notin> set a \<Longrightarrow> find_char c (a @ c # b) = Some (length a)"
  by (induction a) auto

lemma rfind_char_last: "rfind_char c (s @ [c]) = Some (length s)"
  by (simp add: rfind_char_def)

text \<open>A name that survives quoting, joining and splitting: no comma, no quote, no outer space.\<close>

definition plain_name :: "string \<Rightarrow> bool" where
  "plain_name n \<longleftrightarrow> n \<noteq> [] \<and> list_all (\<lambda>c. c \<noteq> CHR '','' \<and> c \<noteq> DQUOTE \<and> \<not> is_ascii_space c) n"

lemma str_trim_id: "\<lbrakk>s \<noteq> []; \<not> is_ascii_space (hd s); \<not> is_ascii_space (last s)\<rbrakk> \<Longrightarrow> str_trim s = s"
  by (simp add: str_trim_def dropWhile_eq_self_iff [THEN iffD2] hd_rev)

lemma str_replace_id: "c \<notin> set s \<Longrightarrow> str_replace c by s = s"
  by (induction s) (auto simp: str_replace_def)

lemma undouble_id: "q \<notin> set s \<Longrightarrow> undouble q s = s"
  by (induction q s rule: undouble.induct) auto

lemma plain_nameD:
  assumes "plain_name n"
  shows "n \<noteq> []" "DQUOTE \<notin> set n" "CHR '','' \<notin> set n" "\<not> is_ascii_space (hd n)" "\<not> is_ascii_space (last n)"
  using assms by (auto simp: plain_name_def list_all_iff)

lemma is_ascii_space_punct [simp]:
  "\<not> is_ascii_space DQUOTE" "\<not> is_ascii_space (CHR ''('')" "\<not> is_ascii_space (CHR '')'')"
  "\<not> is_ascii_space (CHR '','')"
  by (simp_all add: is_ascii_space_def DQUOTE_def)

lemma parse_quoted_name: "plain_name n \<Longrightarrow> parse_sync_name (quote_ident n) = map ascii_lower n"
proof -
  assume p: "plain_name n"
  have q: "quote_ident n = DQUOTE # n @ [DQUOTE]"
    using plain_nameD(2) [OF p] by (simp add: quote_ident_def str_replace_id)
  have "str_trim (quote_ident n) = quote_ident n" by (rule str_trim_id) (simp_all add: q)
  then show ?thesis
    using plain_nameD [OF p] by (simp add: parse_sync_name_def q strip_dquotes_def undouble_id str_trim_id)
qed

lemma split_joined_names:
  assumes "ns \<noteq> []" "\<forall>n \<in> set ns. CHR '','' \<notin> set n"
  shows "str_split (CHR '','') (join_names ns) = ns"
  using assms by (induction ns rule: join_names.induct) (simp_all add: str_split_no_delim str_split_append)

lemma quote_ident_no_comma: "plain_name n \<Longrightarrow> CHR '','' \<notin> set (quote_ident n)"
  using plain_nameD(2,3) [of n] by (simp add: quote_ident_def str_replace_id) (simp add: DQUOTE_def)

lemma dec_of_nat_digits: "list_all is_digit (dec_of_nat n)"
proof (induction n rule: dec_of_nat.induct)
  case (1 n)
  have "is_digit (char_of (48 + m))" if "m < 10" for m :: nat
    using that by (simp add: is_digit_def)
  then show ?case using 1 by (subst dec_of_nat.simps) (simp add: list_all_iff)
qed

lemma digits_value_dec_of_nat [simp]: "digits_value (dec_of_nat n) = n"
proof (induction n rule: dec_of_nat.induct)
  case (1 n)
  show ?case
  proof (cases "n < 10")
    case True
    then show ?thesis by (subst dec_of_nat.simps) (simp add: digits_value_def)
  next
    case False
    then have "digits_value (dec_of_nat (n div 10)) = n div 10" by (rule 1)
    then show ?thesis using False by (subst dec_of_nat.simps) (simp add: digits_value_def)
  qed
qed

lemma dec_of_nat_no_paren: "CHR ''('' \<notin> set (dec_of_nat n)"
proof
  assume "CHR ''('' \<in> set (dec_of_nat n)"
  then have "is_digit (CHR ''('')" using dec_of_nat_digits [of n] by (simp only: list_all_iff)
  then show False by (simp add: is_digit_def)
qed

lemma ascii_lower_nonempty [simp]: "map ascii_lower n = [] \<longleftrightarrow> n = []"
  by simp

text \<open>Reading the list PostgreSQL was given returns the names it was made of.\<close>

lemma extract_standby_list:
  assumes "names \<noteq> []" "\<forall>n \<in> set names. plain_name n" "CHR ''('' \<notin> set kw" "kw \<noteq> []" "\<not> is_ascii_space (hd kw)"
  shows "extract_names_from_sync_value (standby_list kw count names) = Ok (sync_name_set names)"
proof -
  define pre where "pre = kw @ '' '' @ dec_of_nat count @ '' ''"
  define body where "body = join_names (map quote_ident names)"
  have v: "standby_list kw count names = (pre @ CHR ''('' # body) @ '')''"
    by (simp add: standby_list_def pre_def body_def)
  have t: "str_trim (standby_list kw count names) = standby_list kw count names"
    by (rule str_trim_id) (use assms(4,5) in \<open>simp_all add: standby_list_def hd_append\<close>)
  have f: "find_char (CHR ''('') (standby_list kw count names) = Some (length pre)"
    using find_char_append [of "CHR ''(''" pre "body @ '')''"] assms(3) dec_of_nat_no_paren [of count]
    by (simp add: v) (simp add: pre_def)
  have r: "rfind_char (CHR '')'') (standby_list kw count names) = Some (length pre + 1 + length body)"
    unfolding v by (simp only: rfind_char_last) simp
  have b: "str_split (CHR '','') body = map quote_ident names"
    unfolding body_def using assms(1,2) quote_ident_no_comma by (intro split_joined_names) auto
  have m: "map parse_sync_name (map quote_ident names) = map (map ascii_lower) names"
    using assms(2) by (simp add: parse_quoted_name)
  have ne: "filter (\<lambda>n. n \<noteq> []) (map (map ascii_lower) names) = map (map ascii_lower) names"
    using assms(2) by (auto simp: filter_id_conv plain_name_def)
  have "standby_list kw count names \<noteq> []" "standby_list kw count names \<noteq> ''*''"
    using assms(4) by (auto simp: standby_list_def Cons_eq_append_conv)
  moreover have "take (length body) (drop (length pre + 1) (standby_list kw count names)) = body"
    by (simp add: v)
  ultimately show ?thesis
    using b by (simp add: extract_names_from_sync_value_def t f r m ne sync_name_set_def del: map_map)
qed

lemma extract_empty [simp]: "extract_names_from_sync_value [] = Ok []"
  by (simp add: extract_names_from_sync_value_def str_trim_def)

lemma extract_placeholder:
  "extract_names_from_sync_value STRICT_NO_ELIGIBLE_PLACEHOLDER = Ok [NO_ELIGIBLE_NAME]"
  by code_simp

section \<open>Names a list carries as they are\<close>

lemma of_char_ascii_lower:
  "(of_char (ascii_lower c) :: nat) = (if 65 \<le> (of_char c :: nat) \<and> (of_char c :: nat) \<le> 90 then of_char c + 32 else of_char c)"
  by (simp add: ascii_lower_def)

lemma ascii_lower_idem [simp]: "ascii_lower (ascii_lower c) = ascii_lower c"
  unfolding ascii_lower_def [of "ascii_lower c"] of_char_ascii_lower by auto

lemma is_ascii_space_lower [simp]: "is_ascii_space (ascii_lower c) \<longleftrightarrow> is_ascii_space c"
  by (auto simp: is_ascii_space_def of_char_ascii_lower)

lemma ascii_lower_comma [simp]: "ascii_lower c = CHR '','' \<longleftrightarrow> c = CHR '',''"
proof -
  have "(of_char (ascii_lower c) :: nat) = of_char (CHR '','') \<longleftrightarrow> (of_char c :: nat) = of_char (CHR '','')"
    by (simp add: of_char_ascii_lower)
  then show ?thesis by (metis char_of_char)
qed

lemma str_trim_lower: "str_trim (map ascii_lower s) = map ascii_lower (str_trim s)"
  by (simp add: str_trim_def dropWhile_map rev_map comp_def)

lemma str_trim_edge: "str_trim s = [] \<or> \<not> is_ascii_space (hd (str_trim s)) \<and> \<not> is_ascii_space (last (str_trim s))"
proof -
  let ?d = "dropWhile is_ascii_space s" and ?t = "str_trim s"
  have r: "rev ?t = dropWhile is_ascii_space (rev ?d)" by (simp add: str_trim_def)
  show ?thesis
  proof (cases "?t = []")
    case False
    then have l: "\<not> is_ascii_space (last ?t)" using hd_dropWhile [of is_ascii_space "rev ?d"] r by (metis hd_rev rev_is_Nil_conv)
    have "\<exists>u. rev ?d = u @ rev ?t" unfolding r by (metis takeWhile_dropWhile_id)
    then obtain u where "?d = ?t @ u" by (metis rev_append rev_rev_ident)
    then have "\<not> is_ascii_space (hd ?t)" using hd_dropWhile [of is_ascii_space s] False by (metis append_is_Nil_conv hd_append)
    then show ?thesis using l by simp
  qed simp
qed

lemma str_trim_idem [simp]: "str_trim (str_trim s) = str_trim s"
  using str_trim_edge [of s] str_trim_id [of "str_trim s"] by (cases "str_trim s = []") (metis dropWhile.simps(1) rev.simps(1) str_trim_def, blast)

lemma set_str_trim: "set (str_trim s) \<subseteq> set s"
  by (auto simp: str_trim_def dest!: set_dropWhileD)

lemma set_undouble: "set (undouble q s) \<subseteq> set s"
  by (induction q s rule: undouble.induct) auto

lemma set_strip_dquotes: "set (strip_dquotes s) \<subseteq> set s"
  by (auto simp: strip_dquotes_def Let_def split: list.splits if_splits dest: in_set_butlastD)

lemma str_split_pieces: "w \<in> set (str_split d s) \<Longrightarrow> d \<notin> set w"
  by (induction s arbitrary: w) (auto split: if_splits list.splits)

text \<open>A name that a \<open>/sync\<close> value carries as it is.\<close>

definition clean_name :: "string \<Rightarrow> bool" where
  "clean_name n \<longleftrightarrow> n \<noteq> [] \<and> CHR '','' \<notin> set n \<and> str_trim n = n \<and> map ascii_lower n = n"

lemma parse_sync_name_clean: "w \<in> set (str_split (CHR '','') s) \<Longrightarrow> parse_sync_name w \<noteq> [] \<Longrightarrow> clean_name (parse_sync_name w)"
proof -
  assume w: "w \<in> set (str_split (CHR '','') s)" "parse_sync_name w \<noteq> []"
  have "set (str_trim (undouble DQUOTE (strip_dquotes (str_trim w)))) \<subseteq> set w"
    using set_str_trim set_undouble set_strip_dquotes by blast
  then have "CHR '','' \<notin> set (str_trim (undouble DQUOTE (strip_dquotes (str_trim w))))"
    using str_split_pieces [OF w(1)] by blast
  then have "CHR '','' \<notin> set (parse_sync_name w)" unfolding parse_sync_name_def by (auto dest: sym)
  then show ?thesis using w(2) by (simp add: clean_name_def) (simp add: parse_sync_name_def str_trim_lower)
qed

section \<open>The computed list\<close>

definition sync_eligible :: "member list \<Rightarrow> string \<Rightarrow> replication_snapshot \<Rightarrow> u64 option \<Rightarrow> string list \<Rightarrow> member \<Rightarrow> bool" where
  "sync_eligible members my_name snapshot threshold voters m \<longleftrightarrow>
     m \<in> set members \<and> mb_name m \<noteq> my_name \<and> \<not> is_nosync m \<and> mb_state m = Running \<and> mb_role m = Replica \<and>
     (\<exists>row. find_replica (rs_replicas snapshot) (mb_name m) = Some row \<and>
        (\<forall>t. threshold = Some t \<longrightarrow>
          saturating_sub (lag_baseline snapshot (sync_candidates members my_name snapshot voters)) (rr_flush_lsn row) \<le> t))"

lemma candidates_are_eligible:
  "c \<in> set (eligible_candidates members my_name snapshot threshold voters) \<Longrightarrow>
   \<exists>m. ca_name c = mb_name m \<and> sync_eligible members my_name snapshot threshold voters m"
  by (fastforce simp: eligible_candidates_def sync_candidates_def sync_eligible_def Let_def List.map_filter_def split: option.splits)

lemma eligible_are_candidates:
  assumes "sync_eligible members my_name snapshot threshold voters m"
  shows "eligible_candidates members my_name snapshot threshold voters \<noteq> []"
proof -
  obtain row where "find_replica (rs_replicas snapshot) (mb_name m) = Some row"
    "\<forall>t. threshold = Some t \<longrightarrow>
       saturating_sub (lag_baseline snapshot (sync_candidates members my_name snapshot voters)) (rr_flush_lsn row) \<le> t"
    using assms by (auto simp: sync_eligible_def)
  moreover from this(1) obtain c where "c \<in> set (sync_candidates members my_name snapshot voters)" "ca_flush_lsn c = rr_flush_lsn row"
    using assms by (force simp: sync_eligible_def sync_candidates_def List.map_filter_def)
  ultimately have "c \<in> set (eligible_candidates members my_name snapshot threshold voters)"
    by (cases threshold) (simp_all add: eligible_candidates_def Let_def)
  then show ?thesis by auto
qed

lemma length_sync_name_set: "length (sync_name_set ns) \<le> length ns"
  unfolding sync_name_set_def name_set_of_def by (metis length_map length_remdups_leq length_sort)

lemma set_sync_name_set: "set (sync_name_set ns) = map ascii_lower ` set ns"
  by (simp add: sync_name_set_def name_set_of_def)

text \<open>
  The list computed for PostgreSQL, read back, names at most the configured number of standbys, each a
  running replica of the cluster other than this node, not tagged \<open>nosync\<close>, streaming, and within the lag
  ceiling; if there is no such member the list is empty, or in strict mode the placeholder.
\<close>

theorem sync_list_names_eligible_standbys:
  assumes "compute_sync_standby_names mgr members my_name snapshot threshold voters = Some v"
    "\<forall>m \<in> set members. plain_name (mb_name m)" "0 < sm_sync_node_count mgr"
  shows "if \<exists>m. sync_eligible members my_name snapshot threshold voters m
    then \<exists>ns. extract_names_from_sync_value v = Ok ns \<and> ns \<noteq> [] \<and> length ns \<le> sm_sync_node_count mgr \<and>
      (\<forall>n \<in> set ns. \<exists>m. n = map ascii_lower (mb_name m) \<and> sync_eligible members my_name snapshot threshold voters m)
    else extract_names_from_sync_value v = Ok (if sm_strict_mode mgr then [NO_ELIGIBLE_NAME] else [])"
proof -
  let ?cs = "eligible_candidates members my_name snapshot threshold voters"
  define count where "count = (if sm_strict_mode mgr then sm_sync_node_count mgr else min (sm_sync_node_count mgr) (length ?cs))"
  define names where "names = map ca_name (take count ?cs)"
  show ?thesis
  proof (cases "?cs = []")
    case True
    then have "\<not> (\<exists>m. sync_eligible members my_name snapshot threshold voters m)" using eligible_are_candidates by blast
    then show ?thesis using assms(1) True
      by (auto simp: compute_sync_standby_names_def extract_placeholder split: if_splits)
  next
    case False
    then have e: "\<exists>m. sync_eligible members my_name snapshot threshold voters m"
      using candidates_are_eligible [of "hd ?cs"] hd_in_set by blast
    have n: "\<exists>m. n = mb_name m \<and> sync_eligible members my_name snapshot threshold voters m" if "n \<in> set names" for n
      using that candidates_are_eligible by (fastforce simp: names_def dest: in_set_takeD)
    have c: "0 < count" "count \<le> sm_sync_node_count mgr" using False assms(3) by (auto simp: count_def)
    have ne: "names \<noteq> []" using False c by (simp add: names_def)
    obtain kw where "v = standby_list kw count names" "kw = ''FIRST'' \<or> kw = ''ANY''"
      using assms(1) False
      by (auto simp: compute_sync_standby_names_def Let_def count_def names_def split: if_splits sync_mode.splits)
    then have "extract_names_from_sync_value v = Ok (sync_name_set names)"
      using extract_standby_list [OF ne, of kw count] n assms(2) by (fastforce simp: sync_eligible_def is_ascii_space_def)
    moreover have "length (sync_name_set names) \<le> sm_sync_node_count mgr"
      using length_sync_name_set [of names] c by (simp add: names_def)
    moreover have "sync_name_set names \<noteq> []" using ne set_sync_name_set [of names] by auto
    ultimately show ?thesis using e n by (auto simp: set_sync_name_set)
  qed
qed

theorem sync_list_names_eligible_standbys_witness:
  "let b = \<lparr>mb_name = ''b'', mb_conn_url = [], mb_api_url = [], mb_state = Running, mb_role = Replica, mb_wal_position = None,
              mb_timeline = None, mb_tags = (\<lambda>_. None), mb_version = None, mb_rewind_check = False, mb_lineage = None,
              mb_watchdog_failed = False\<rparr>;
       snap = \<lparr>rs_primary_flush_lsn = 7, rs_replicas = [\<lparr>rr_application_name = ''B'', rr_flush_lsn = 5\<rparr>]\<rparr>
   in \<exists>ns. extract_names_from_sync_value (standby_list ''FIRST'' 1 [''b'']) = Ok ns \<and> ns \<noteq> [] \<and> length ns \<le> 1 \<and>
     (\<forall>n \<in> set ns. \<exists>m. n = map ascii_lower (mb_name m) \<and> sync_eligible [b] ''a'' snap (Some 2) [] m)"
proof -
  define b where "b = \<lparr>mb_name = ''b'', mb_conn_url = [], mb_api_url = [], mb_state = Running, mb_role = Replica, mb_wal_position = None,
              mb_timeline = None, mb_tags = (\<lambda>_. None), mb_version = None, mb_rewind_check = False, mb_lineage = None,
              mb_watchdog_failed = False\<rparr>"
  define snap where "snap = \<lparr>rs_primary_flush_lsn = (7 :: u64), rs_replicas = [\<lparr>rr_application_name = ''B'', rr_flush_lsn = (5 :: u64)\<rparr>]\<rparr>"
  have r: "find_replica (rs_replicas snap) (mb_name b) = Some \<lparr>rr_application_name = ''B'', rr_flush_lsn = 5\<rparr>"
    unfolding snap_def b_def by code_simp
  have c: "sync_candidates [b] ''a'' snap [] = [\<lparr>ca_name = ''b'', ca_priority = sync_priority b, ca_flush_lsn = 5, ca_is_voter = False\<rparr>]"
    by (simp add: sync_candidates_def List.map_filter_def r) (simp add: b_def is_nosync_def)
  have e: "sync_eligible [b] ''a'' snap (Some 2) [] b"
    unfolding sync_eligible_def r c by (simp add: lag_baseline_def) (simp add: b_def snap_def is_nosync_def saturating_sub_def)
  have v: "compute_sync_standby_names (new_sync_manager Sync_Priority 1 False) [b] ''a'' snap (Some 2) [] = Some (standby_list ''FIRST'' 1 [''b''])"
    by (simp add: compute_sync_standby_names_def eligible_candidates_def c lag_baseline_def new_sync_manager_def)
      (simp add: snap_def saturating_sub_def)
  have "plain_name (mb_name b)" by (simp add: b_def plain_name_def DQUOTE_def is_ascii_space_def)
  moreover have "sm_sync_node_count (new_sync_manager Sync_Priority 1 False) = 1" by (simp add: new_sync_manager_def)
  moreover have "\<exists>m. sync_eligible [b] ''a'' snap (Some 2) [] m" using e by blast
  ultimately show ?thesis
    using sync_list_names_eligible_standbys [OF v] unfolding Let_def b_def [symmetric] snap_def [symmetric]
    by (simp only: if_True simp_thms list.set insert_iff empty_iff ball_simps ball_empty zero_less_one)
qed

end
