(* ===== verification/Ha_State.thy ===== *)
theory Ha_State
  imports Election Dynamic_Config Sync_Replication "HOL-Library.State_Monad"
begin

text \<open>
  The state of the HA engine and its calls: the struct \<open>Ha\<close> of \<open>crates/pg-ha-core/src/ha/mod.rs\<close>, the
  handle \<open>Postgresql\<close> of \<open>postgresql.rs\<close>, the \<open>Watchdog\<close> of \<open>watchdog.rs\<close>, and the calls they make on
  \<open>pg_ctl\<close>, the data directory and the DCS.

  An engine function has type \<open>(sys, _) state\<close>: it reads and writes the engine's fields and makes
  calls. The environment is a parameter (\<open>sy_env\<close>): it answers every call, numbered in order, and
  changes the world while a call is pending (a crash, an operator, other processes, the clocks), so
  after an \<open>await\<close> nothing is known of the world but what the call itself did. Every call is appended
  to the trace with the engine and the world at the moment it was issued. Log output is not modelled;
  the texts of results are abbreviated.
\<close>

section \<open>The engine\<close>

datatype watchdog_mode = Watchdog_Off | Watchdog_Automatic | Watchdog_Required

record ha_config =
  hc_name :: string
  hc_ttl :: u64
  hc_loop_wait :: u64
  hc_retry_timeout :: u64
  hc_safety_margin :: u64
  hc_watchdog_mode :: watchdog_mode
  hc_nofailover :: bool
  hc_failover_priority :: u32
  hc_replicatefrom :: "string option"
  hc_replication_user :: string
  hc_replication_password :: "string option"
  hc_rebuild_on_rewind_failure :: bool
  hc_self_addr :: string
  hc_pg_port :: nat
  hc_dbname :: string
  hc_superuser :: string
  hc_restapi_tls :: bool
  hc_restapi_port :: nat
  hc_bootstrap_config :: "string option"
  hc_post_bootstrap_sql :: "string list"

text \<open>The handle on the server: what pg-ha last recorded, never what the server is.\<close>

record postgresql =
  pg_role :: member_role
  pg_state_field :: pg_state
  pg_in_recovery :: "bool option"
  pg_starts_blocked :: bool

record watchdog =
  wd_active :: bool
  wd_timeout_secs :: u64

record wal_sample =
  ws_position :: u64
  ws_timeline :: "u64 option"

record pending_history =
  ph_timestamp :: u64
  ph_event_type :: history_event_type
  ph_old_leader :: "string option"
  ph_reason :: string
  ph_prev_timeline :: "u64 option"

record ha =
  h_config :: ha_config
  h_pg :: postgresql
  h_watchdog :: watchdog
  h_dcs_ttl :: u64
  h_cluster :: cluster
  h_is_leader :: bool
  h_is_paused :: bool
  h_dynamic :: dynamic_config_state
  h_start_fail_count :: u32
  h_applied_sync :: "string option"
  h_sync_flush_mark :: "u64 option"
  h_stop_pending :: bool
  h_promote_pending :: "pending_promote option"
  h_pending_history :: "pending_history option"
  h_rewind_hold :: bool
  h_rewind_hold_persisted :: bool
  h_leader_lease :: "leader_lease option"
  h_fence_deadline :: "leader_lease option"
  h_shutting_down :: bool
  h_wal_sample :: "wal_sample option"

definition new_ha :: "ha_config \<Rightarrow> ha" where
  "new_ha c =
    \<lparr>h_config = c,
     h_pg = \<lparr>pg_role = Uninitialized, pg_state_field = Pg_Unknown, pg_in_recovery = None, pg_starts_blocked = False\<rparr>,
     h_watchdog = \<lparr>wd_active = False, wd_timeout_secs = 30\<rparr>, h_dcs_ttl = hc_ttl c,
     h_cluster = empty_cluster, h_is_leader = False, h_is_paused = False, h_dynamic = new_dynamic_config_state,
     h_start_fail_count = 0, h_applied_sync = None, h_sync_flush_mark = None, h_stop_pending = False,
     h_promote_pending = None, h_pending_history = None, h_rewind_hold = False, h_rewind_hold_persisted = False,
     h_leader_lease = None, h_fence_deadline = None, h_shutting_down = False, h_wal_sample = None\<rparr>"

section \<open>The world outside\<close>

datatype management_command =
    Switchover "string option" "string option" "string option"
  | Failover_Command "string option"
  | CancelSwitchover
  | Restart
  | Reinitialize

datatype command_response = Accepted string | Rejected string | Command_Error string

record world =
  w_running :: bool
  w_data_dir_empty :: "(string, bool) res"
  w_standby_signal :: bool
  w_recovery_signal :: bool
  w_rewind_marker :: bool
  w_hold_file :: bool
  w_accept_loss :: bool
  w_generation :: "(string, u64) res"
  w_newest_history :: "(string, history_evidence) res"
  w_timeline_begin :: "u64 \<Rightarrow> (string, u64 option) res"
  w_server_run :: "(string, string option) res"
  w_auto_conf :: "string option"
  w_auto_conf_age :: "u64 option"
  w_watchdog_writable :: bool
  w_watchdog_opens :: bool
  w_mono :: nat
  w_wall :: nat
  w_commands :: "management_command list"

record api_snapshot =
  as_role :: member_role
  as_state :: member_state
  as_pg_running :: bool
  as_pg_in_recovery :: "bool option"
  as_is_leader :: bool
  as_is_paused :: bool
  as_pending_restart :: bool
  as_shutting_down :: bool
  as_rewind_check :: bool
  as_timeline :: "u64 option"
  as_wal_position :: "u64 option"
  as_replication_lag :: "u64 option"

record member_data =
  md_name :: string
  md_conn_url :: string
  md_api_url :: string
  md_state :: member_state
  md_role :: member_role
  md_rewind_check :: bool
  md_watchdog_failed :: bool
  md_wal_position :: "u64 option"
  md_timeline :: "u64 option"
  md_lineage :: "lineage option"

text \<open>
  The calls the engine makes. A stop and a promote carry the recovery observation they invalidate.
  \<open>Ev_Command\<close> takes a command from the queue, \<open>Ev_Reply\<close> answers it.
\<close>

datatype event =
    Ev_Publish api_snapshot
  | Ev_Stop string "bool option"
  | Ev_Start
  | Ev_Promote "bool option"
  | Ev_Reload
  | Ev_Checkpoint
  | Ev_Observe
  | Ev_Wal_Status
  | Ev_Primary_Timeline
  | Ev_Replication_Status
  | Ev_Alter_Sync string
  | Ev_Controldata_State
  | Ev_Controldata_Timeline
  | Ev_Probe string
  | Ev_Rewind string
  | Ev_Basebackup string
  | Ev_Bootstrap
  | Ev_Write_Pg_Config
  | Ev_Post_Bootstrap_Sql "string list"
  | Ev_Remove_Data
  | Ev_Standby_Config "string option"
  | Ev_Standby_Signal
  | Ev_Marker string
  | Ev_Write_Hold
  | Ev_Remove_State_Files
  | Ev_Write_Generation u64
  | Ev_Remove_Accept_Loss
  | Ev_Arm u64
  | Ev_Pet
  | Ev_Disarm
  | Ev_Get_Cluster
  | Ev_Acquire
  | Ev_Renew
  | Ev_Release
  | Ev_Touch member_data
  | Ev_Initialize
  | Ev_Get_Config
  | Ev_Set_Config
  | Ev_Set_Failover "failover option"
  | Ev_Set_Sync sync_state
  | Ev_Write_Timeline timeline_record "u64 option"
  | Ev_Read_History
  | Ev_Write_History "history_entry list" "u64 option"
  | Ev_Command management_command
  | Ev_Reply command_response
  | Ev_Sleep nat

section \<open>The environment\<close>

datatype cmd_outcome = Cmd_Ok | Cmd_Failed string | Cmd_NotRun string

record env =
  en_move :: "nat \<Rightarrow> world \<Rightarrow> world"
  en_cmd :: "nat \<Rightarrow> cmd_outcome"
  en_unit :: "nat \<Rightarrow> (string, unit) res"
  en_bool :: "nat \<Rightarrow> (string, bool) res"
  en_recovery :: "nat \<Rightarrow> bool option"
  en_wal :: "nat \<Rightarrow> (string, wal_sample) res"
  en_number :: "nat \<Rightarrow> (string, u64) res"
  en_text :: "nat \<Rightarrow> (string, string) res"
  en_cluster :: "nat \<Rightarrow> (string, cluster) res"
  en_config :: "nat \<Rightarrow> (string, global_config option) res"
  en_replication :: "nat \<Rightarrow> (string, replication_snapshot) res"
  en_history :: "nat \<Rightarrow> (string, history_entry list \<times> u64 option) res"
  en_fires :: "nat \<Rightarrow> bool"
  en_dropped :: "nat \<Rightarrow> world \<Rightarrow> world"

text \<open>
  One call of the trace: the engine and the world when it was issued, whether the engine may be
  dropped while it is pending, the world when it returned and whether it succeeded.
\<close>

record call =
  tc_event :: event
  tc_ha :: ha
  tc_world :: world
  tc_await :: bool
  tc_step :: nat
  tc_resume :: world
  tc_ok :: bool

record sys =
  sy_env :: env
  sy_ha :: ha
  sy_world :: world
  sy_step :: nat
  sy_trace :: "call list"

type_synonym 'a eng = "(sys, 'a) state"

definition ret :: "'a \<Rightarrow> 'a eng" where
  "ret = State_Monad.return"

definition gets_ha :: "(ha \<Rightarrow> 'a) \<Rightarrow> 'a eng" where
  "gets_ha f = State (\<lambda>s. (f (sy_ha s), s))"

definition gets_world :: "(world \<Rightarrow> 'a) \<Rightarrow> 'a eng" where
  "gets_world f = State (\<lambda>s. (f (sy_world s), s))"

definition gets_both :: "(ha \<Rightarrow> world \<Rightarrow> 'a) \<Rightarrow> 'a eng" where
  "gets_both f = State (\<lambda>s. (f (sy_ha s) (sy_world s), s))"

definition mod_ha :: "(ha \<Rightarrow> ha) \<Rightarrow> unit eng" where
  "mod_ha f = State (\<lambda>s. ((), s\<lparr>sy_ha := f (sy_ha s)\<rparr>))"

definition mod_world :: "(world \<Rightarrow> world) \<Rightarrow> unit eng" where
  "mod_world f = State (\<lambda>s. ((), s\<lparr>sy_world := f (sy_world s)\<rparr>))"

text \<open>
  A call: the environment moves the world while it is pending, then the call's own effect takes
  place. The engine can be dropped at an asynchronous call (\<open>await\<close>), never at a synchronous one.
\<close>

definition do_call ::
  "bool \<Rightarrow> event \<Rightarrow> (env \<Rightarrow> nat \<Rightarrow> 'a) \<Rightarrow> ('a \<Rightarrow> bool) \<Rightarrow> ('a \<Rightarrow> world \<Rightarrow> world) \<Rightarrow> 'a eng" where
  "do_call aw ev answer ok effect = State (\<lambda>s.
     let n = sy_step s; r = answer (sy_env s) n; w = effect r (en_move (sy_env s) n (sy_world s))
     in (r, s\<lparr>sy_world := w, sy_step := Suc n,
              sy_trace := sy_trace s @ [\<lparr>tc_event = ev, tc_ha = sy_ha s, tc_world = sy_world s, tc_await = aw,
                                        tc_step = n, tc_resume = w, tc_ok = ok r\<rparr>]\<rparr>))"

definition granted :: "(string, bool) res \<Rightarrow> bool" where
  "granted r = (case r of Inr b \<Rightarrow> b | Inl _ \<Rightarrow> False)"

definition no_effect :: "'a \<Rightarrow> world \<Rightarrow> world" where
  "no_effect r w = w"

definition on_ok :: "(world \<Rightarrow> world) \<Rightarrow> (string, 'a) res \<Rightarrow> world \<Rightarrow> world" where
  "on_ok f r w = (if is_ok r then f w else w)"

definition cmd_res :: "cmd_outcome \<Rightarrow> (string, unit) res" where
  "cmd_res c = (case c of Cmd_Ok \<Rightarrow> Ok () | Cmd_Failed e \<Rightarrow> Err e | Cmd_NotRun e \<Rightarrow> Err e)"

text \<open>The calls with one kind of answer.\<close>

definition unit_call :: "event \<Rightarrow> (world \<Rightarrow> world) \<Rightarrow> (string, unit) res eng" where
  "unit_call ev f = do_call True ev en_unit is_ok (on_ok f)"

definition unit_call_sync :: "event \<Rightarrow> (world \<Rightarrow> world) \<Rightarrow> (string, unit) res eng" where
  "unit_call_sync ev f = do_call False ev en_unit is_ok (on_ok f)"

definition bool_call :: "event \<Rightarrow> (string, bool) res eng" where
  "bool_call ev = do_call True ev en_bool granted no_effect"

end
