(* ===== verification/Ha_Calls.thy ===== *)
theory Ha_Calls
  imports Ha_State
begin

text \<open>
  The calls of the engine: the PostgreSQL handle (\<open>start\<close>, \<open>stop\<close>, \<open>promote\<close>, \<open>observe_recovery\<close> of
  \<open>crates/pg-ha-core/src/postgresql.rs\<close>), the watchdog (\<open>watchdog.rs\<close>), the files of the data
  directory, the DCS adapter, and the heartbeat \<open>touch_member\<close> and \<open>api_snapshot\<close> (\<open>ha/helpers.rs\<close>,
  \<open>ha/mod.rs\<close>). What is assumed of the tools: a successful \<open>pg_ctl stop -w\<close> leaves no running server,
  a file write that reports success took place, a sleep takes at least its time.
\<close>

section \<open>The PostgreSQL handle\<close>

definition set_pg :: "(postgresql \<Rightarrow> postgresql) \<Rightarrow> unit eng" where
  "set_pg f = mod_ha (\<lambda>h. h\<lparr>h_pg := f (h_pg h)\<rparr>)"

definition is_running :: "bool eng" where
  "is_running = gets_world w_running"

definition sleep_ms :: "nat \<Rightarrow> unit eng" where
  "sleep_ms d = State (\<lambda>s. run_state
     (do_call True (Ev_Sleep d) (\<lambda>_ _. ()) (\<lambda>_. True) (\<lambda>_ w. w\<lparr>w_mono := max (w_mono w) (w_mono (sy_world s) + d)\<rparr>)) s)"

fun poll_started :: "nat \<Rightarrow> bool eng" where
  "poll_started 0 = ret False"
| "poll_started (Suc k) = do {
     sleep_ms 500;
     up \<leftarrow> is_running;
     if up then ret True else poll_started k
   }"

definition pg_start :: "(string, unit) res eng" where
  "pg_start = do {
     blocked \<leftarrow> gets_ha (\<lambda>h. pg_starts_blocked (h_pg h));
     if blocked then ret (Err ''graceful shutdown in progress'')
     else do {
       set_pg (\<lambda>p. p\<lparr>pg_state_field := Pg_Starting, pg_in_recovery := None\<rparr>);
       out \<leftarrow> do_call True Ev_Start en_cmd (\<lambda>c. c = Cmd_Ok) no_effect;
       case out of
         Cmd_NotRun e \<Rightarrow> ret (Err e)
       | Cmd_Failed e \<Rightarrow> do {
           set_pg (\<lambda>p. p\<lparr>pg_state_field := Pg_Crashed\<rparr>);
           ret (Err e)
         }
       | Cmd_Ok \<Rightarrow> do {
           up \<leftarrow> is_running;
           up \<leftarrow> (if up then ret True else poll_started 10);
           if up then do {
             set_pg (\<lambda>p. p\<lparr>pg_state_field := Pg_Running\<rparr>);
             ret (Ok ())
           } else do {
             set_pg (\<lambda>p. p\<lparr>pg_state_field := Pg_Crashed\<rparr>);
             ret (Err ''did not start within timeout'')
           }
         }
     }
   }"

definition pg_stop :: "string \<Rightarrow> (string, unit) res eng" where
  "pg_stop mode = do {
     obs \<leftarrow> gets_ha (\<lambda>h. pg_in_recovery (h_pg h));
     set_pg (\<lambda>p. p\<lparr>pg_in_recovery := None\<rparr>);
     out \<leftarrow> do_call True (Ev_Stop mode obs) en_cmd (\<lambda>c. c = Cmd_Ok)
              (\<lambda>c w. if c = Cmd_Ok then w\<lparr>w_running := False\<rparr> else w);
     case out of
       Cmd_Ok \<Rightarrow> do {
         set_pg (\<lambda>p. p\<lparr>pg_state_field := Pg_Stopped\<rparr>);
         ret (Ok ())
       }
     | Cmd_Failed e \<Rightarrow> ret (Err ''pg_ctl stop failed'')
     | Cmd_NotRun e \<Rightarrow> ret (Err e)
   }"

definition pg_promote :: "(string, unit) res eng" where
  "pg_promote = do {
     obs \<leftarrow> gets_ha (\<lambda>h. pg_in_recovery (h_pg h));
     set_pg (\<lambda>p. p\<lparr>pg_in_recovery := None\<rparr>);
     out \<leftarrow> do_call True (Ev_Promote obs) en_cmd (\<lambda>c. c = Cmd_Ok) no_effect;
     ret (cmd_res out)
   }"

definition observe_recovery :: "bool option eng" where
  "observe_recovery = do {
     up \<leftarrow> is_running;
     r \<leftarrow> (if up then do_call True Ev_Observe en_recovery (\<lambda>r. r \<noteq> None) no_effect else ret None);
     set_pg (\<lambda>p. p\<lparr>pg_in_recovery := r\<rparr>);
     ret r
   }"

definition set_role :: "member_role \<Rightarrow> unit eng" where
  "set_role r = set_pg (\<lambda>p. p\<lparr>pg_role := r\<rparr>)"

definition emptied_data_dir :: "world \<Rightarrow> world" where
  "emptied_data_dir w = w\<lparr>w_data_dir_empty := Ok True, w_standby_signal := False, w_recovery_signal := False,
     w_rewind_marker := False, w_hold_file := False, w_accept_loss := False, w_generation := Ok 0,
     w_auto_conf := None, w_auto_conf_age := None\<rparr>"

definition remove_data_directory :: "(string, unit) res eng" where
  "remove_data_directory = unit_call_sync Ev_Remove_Data emptied_data_dir"

section \<open>Files of the data directory\<close>

definition standby_config_written :: "string option \<Rightarrow> world \<Rightarrow> world" where
  "standby_config_written conninfo w =
    w\<lparr>w_standby_signal := True, w_auto_conf := Some (rewrite_auto_conf (unwrap_or (w_auto_conf w) []) conninfo),
      w_auto_conf_age := Some 0\<rparr>"

definition write_standby_files :: "string option \<Rightarrow> (string, unit) res eng" where
  "write_standby_files conninfo = unit_call (Ev_Standby_Config conninfo) (standby_config_written conninfo)"

definition standby_signal_written :: "world \<Rightarrow> world" where
  "standby_signal_written w = w\<lparr>w_standby_signal := True\<rparr>"

definition write_standby_signal :: "(string, unit) res eng" where
  "write_standby_signal = unit_call Ev_Standby_Signal standby_signal_written"

definition rewind_marker_written :: "world \<Rightarrow> world" where
  "rewind_marker_written w = w\<lparr>w_rewind_marker := True\<rparr>"

definition create_rewind_check_marker :: "string \<Rightarrow> (string, unit) res eng" where
  "create_rewind_check_marker reason = unit_call (Ev_Marker reason) rewind_marker_written"

definition rewind_hold_written :: "world \<Rightarrow> world" where
  "rewind_hold_written w = w\<lparr>w_hold_file := True\<rparr>"

definition write_rewind_hold :: "(string, unit) res eng" where
  "write_rewind_hold = unit_call Ev_Write_Hold rewind_hold_written"

definition state_files_removed :: "world \<Rightarrow> world" where
  "state_files_removed w = w\<lparr>w_rewind_marker := False, w_hold_file := False\<rparr>"

definition remove_node_state_files :: "(string, unit) res eng" where
  "remove_node_state_files = unit_call Ev_Remove_State_Files state_files_removed"

definition generation_written :: "u64 \<Rightarrow> world \<Rightarrow> world" where
  "generation_written g w = w\<lparr>w_generation := Ok g\<rparr>"

definition write_generation :: "u64 \<Rightarrow> (string, unit) res eng" where
  "write_generation g = unit_call_sync (Ev_Write_Generation g) (generation_written g)"

definition accept_loss_removed :: "world \<Rightarrow> world" where
  "accept_loss_removed w = w\<lparr>w_accept_loss := False\<rparr>"

text \<open>\<open>finish_override\<close>: the override was recorded, the operator's file has done its job.\<close>

definition finish_override :: "unit eng" where
  "finish_override = do {
     there \<leftarrow> gets_world w_accept_loss;
     if there then do {
       _ \<leftarrow> unit_call_sync Ev_Remove_Accept_Loss accept_loss_removed;
       ret ()
     } else ret ()
   }"

section \<open>Watchdog\<close>

definition watchdog_usable :: "ha \<Rightarrow> world \<Rightarrow> bool" where
  "watchdog_usable h w \<longleftrightarrow>
    hc_watchdog_mode (h_config h) \<noteq> Watchdog_Required \<or> wd_active (h_watchdog h) \<or> w_watchdog_writable w"

definition watchdog_blocks_leadership :: "ha \<Rightarrow> world \<Rightarrow> bool" where
  "watchdog_blocks_leadership h w \<longleftrightarrow> \<not> watchdog_usable h w"

definition watchdog_activate :: "u64 \<Rightarrow> bool eng" where
  "watchdog_activate timeout_secs = do {
     mode \<leftarrow> gets_ha (\<lambda>h. hc_watchdog_mode (h_config h));
     if mode = Watchdog_Off then ret True
     else do {
       let t = max timeout_secs 1;
       mod_ha (\<lambda>h. h\<lparr>h_watchdog := (h_watchdog h)\<lparr>wd_timeout_secs := t\<rparr>\<rparr>);
       opened \<leftarrow> do_call False (Ev_Arm t) en_unit is_ok no_effect;
       if is_ok opened then do {
         mod_ha (\<lambda>h. h\<lparr>h_watchdog := (h_watchdog h)\<lparr>wd_active := True\<rparr>\<rparr>);
         ret True
       } else ret (mode \<noteq> Watchdog_Required)
     }
   }"

definition arm_watchdog :: "(string, unit) res eng" where
  "arm_watchdog = do {
     active \<leftarrow> gets_ha (\<lambda>h. wd_active (h_watchdog h));
     if active then ret (Ok ())
     else do {
       t \<leftarrow> gets_ha (\<lambda>h. max (saturating_sub (h_dcs_ttl h) (hc_safety_margin (h_config h))) 1);
       armed \<leftarrow> watchdog_activate t;
       ret (if armed then Ok () else Err ''the watchdog is required but could not be activated'')
     }
   }"

definition watchdog_keepalive :: "unit eng" where
  "watchdog_keepalive = do {
     active \<leftarrow> gets_ha (\<lambda>h. wd_active (h_watchdog h));
     if active then do_call False Ev_Pet (\<lambda>_ _. ()) (\<lambda>_. True) no_effect else ret ()
   }"

definition watchdog_disarm :: "unit eng" where
  "watchdog_disarm = do {
     active \<leftarrow> gets_ha (\<lambda>h. wd_active (h_watchdog h));
     if active then do {
       do_call False Ev_Disarm (\<lambda>_ _. ()) (\<lambda>_. True) no_effect;
       mod_ha (\<lambda>h. h\<lparr>h_watchdog := (h_watchdog h)\<lparr>wd_active := False\<rparr>\<rparr>)
     } else ret ()
   }"

section \<open>What the engine reads\<close>

definition my_name :: "ha \<Rightarrow> string" where
  "my_name h = hc_name (h_config h)"

definition pg_identity_of :: "ha \<Rightarrow> world \<Rightarrow> pg_identity" where
  "pg_identity_of h w = classify (pg_in_recovery (h_pg h)) (w_standby_signal w)"

definition is_lock_owner :: "ha \<Rightarrow> bool" where
  "is_lock_owner h \<longleftrightarrow> is_some_and (cl_leader (h_cluster h)) (\<lambda>l. ld_name l = my_name h)"

definition last_config :: "ha \<Rightarrow> global_config" where
  "last_config h = dy_last_config (h_dynamic h)"

definition ha_view_of :: "ha \<Rightarrow> world \<Rightarrow> ha_view" where
  "ha_view_of h w =
    \<lparr>hv_name = my_name h, hv_nofailover = hc_nofailover (h_config h),
     hv_failover_priority = hc_failover_priority (h_config h), hv_pg_running = w_running w,
     hv_watchdog_usable = watchdog_usable h w, hv_accept_loss = w_accept_loss w, hv_cluster = h_cluster h,
     hv_sync_mode = unwrap_or (gc_synchronous_mode (last_config h)) False,
     hv_max_lag = gc_maximum_lag_on_failover (last_config h)\<rparr>"

definition advertised_state :: "ha \<Rightarrow> world \<Rightarrow> member_state" where
  "advertised_state h w = advertised_state_of (w_running w) (pg_state_field (h_pg h)) (pg_identity_of h w)"

definition api_snapshot_of :: "ha \<Rightarrow> world \<Rightarrow> api_snapshot" where
  "api_snapshot_of h w =
    (let running = w_running w;
         sample = (if running then h_wal_sample h else None);
         wal = map_option ws_position sample;
         leader_wal = (if is_lock_owner h then None
                       else Option.bind (cl_leader (h_cluster h))
                              (\<lambda>l. Option.bind (get_member (h_cluster h) (ld_name l)) mb_wal_position))
     in \<lparr>as_role = pg_role (h_pg h), as_state = advertised_state h w, as_pg_running = running,
         as_pg_in_recovery = pg_in_recovery (h_pg h), as_is_leader = h_is_leader h, as_is_paused = h_is_paused h,
         as_pending_restart = dy_pending_restart (h_dynamic h), as_shutting_down = h_shutting_down h,
         as_rewind_check = w_rewind_marker w, as_timeline = Option.bind sample ws_timeline,
         as_wal_position = wal,
         as_replication_lag = replication_lag_bytes (pg_role (h_pg h)) leader_wal wal\<rparr>)"

definition local_lineage :: "world \<Rightarrow> u64 option \<Rightarrow> lineage option" where
  "local_lineage w timeline =
    (case w_newest_history w of
       Inl _ \<Rightarrow> None
     | Inr history \<Rightarrow>
         (case (case timeline of Some t \<Rightarrow> w_timeline_begin w t | None \<Rightarrow> Ok None) of
            Inl _ \<Rightarrow> None
          | Inr begin' \<Rightarrow>
              (case w_server_run w of
                 Inl _ \<Rightarrow> None
               | Inr run \<Rightarrow>
                   (case w_generation w of
                      Inl _ \<Rightarrow> None
                    | Inr generation \<Rightarrow>
                        Some \<lparr>li_timeline_begin = begin', li_history = Some history, li_postmaster_start = run,
                              li_generation = generation\<rparr>))))"

definition reachable_host :: "ha_config \<Rightarrow> string" where
  "reachable_host c = hd (str_split (CHR '':'') (hc_self_addr c))"

definition member_conn_url :: "ha_config \<Rightarrow> string" where
  "member_conn_url c =
    ''host='' @ libpq_quote (reachable_host c) @ '' port='' @ dec_of_nat (hc_pg_port c) @
    '' dbname='' @ libpq_quote (hc_dbname c) @ '' user='' @ libpq_quote (hc_superuser c)"

definition member_api_url :: "ha_config \<Rightarrow> string" where
  "member_api_url c =
    (if hc_restapi_tls c then ''https'' else ''http'') @ ''://'' @ reachable_host c @ '':'' @ dec_of_nat (hc_restapi_port c)"

definition member_data_of :: "ha \<Rightarrow> world \<Rightarrow> member_data" where
  "member_data_of h w =
    (let timeline = Option.bind (h_wal_sample h) ws_timeline
     in \<lparr>md_name = my_name h, md_conn_url = member_conn_url (h_config h), md_api_url = member_api_url (h_config h),
         md_state = advertised_state h w, md_role = pg_role (h_pg h), md_rewind_check = w_rewind_marker w,
         md_watchdog_failed = watchdog_blocks_leadership h w,
         md_wal_position = map_option ws_position (h_wal_sample h), md_timeline = timeline,
         md_lineage = local_lineage w timeline\<rparr>)"

section \<open>Heartbeat and REST state\<close>

definition sample_wal :: "unit eng" where
  "sample_wal = do {
     up \<leftarrow> is_running;
     r \<leftarrow> (if up then do_call True Ev_Wal_Status en_wal is_ok no_effect else ret (Err ''not running''));
     mod_ha (\<lambda>h. h\<lparr>h_wal_sample := (case r of Inr x \<Rightarrow> Some x | Inl _ \<Rightarrow> None)\<rparr>)
   }"

definition touch_member :: "(string, bool) res eng" where
  "touch_member = do {
     sample_wal;
     d \<leftarrow> gets_both member_data_of;
     bool_call (Ev_Touch d)
   }"

definition gets_env :: "(env \<Rightarrow> nat \<Rightarrow> 'a) \<Rightarrow> 'a eng" where
  "gets_env f = State (\<lambda>s. (f (sy_env s) (sy_step s), s))"

text \<open>\<open>touch_member\<close> under a time limit that may cut it before the DCS write.\<close>

definition touch_member_bounded :: "unit eng" where
  "touch_member_bounded = do {
     cut \<leftarrow> gets_env en_fires;
     if cut then sample_wal else do { _ \<leftarrow> touch_member; ret () }
   }"

definition publish :: "api_snapshot \<Rightarrow> unit eng" where
  "publish snap = do_call True (Ev_Publish snap) (\<lambda>_ _. ()) (\<lambda>_. True) no_effect"

definition publish_snapshot :: "unit eng" where
  "publish_snapshot = do {
     snap \<leftarrow> gets_both api_snapshot_of;
     publish snap
   }"

definition publish_not_primary :: "unit eng" where
  "publish_not_primary = do {
     snap \<leftarrow> gets_both api_snapshot_of;
     publish (snap\<lparr>as_is_leader := False, as_role := (if as_role snap = Primary then Replica else as_role snap),
                   as_pg_in_recovery := None, as_replication_lag := None\<rparr>)
   }"

definition reset_sync_cache :: "unit eng" where
  "reset_sync_cache = mod_ha (\<lambda>h. h\<lparr>h_applied_sync := None, h_sync_flush_mark := None\<rparr>)"

section \<open>Leader lease\<close>

definition lease_anchor_now :: "lease_anchor eng" where
  "lease_anchor_now = gets_world (\<lambda>w. \<lparr>la_mono = w_mono w, la_wall = w_wall w\<rparr>)"

definition publish_fence_deadline :: "unit eng" where
  "publish_fence_deadline =
    mod_ha (\<lambda>h. h\<lparr>h_fence_deadline := (if h_is_paused h then None else h_leader_lease h)\<rparr>)"

definition set_leader_lease :: "leader_lease option \<Rightarrow> unit eng" where
  "set_leader_lease l = do {
     mod_ha (\<lambda>h. h\<lparr>h_leader_lease := l\<rparr>);
     publish_fence_deadline
   }"

definition extend_leader_lease :: "lease_anchor \<Rightarrow> unit eng" where
  "extend_leader_lease anchor = do {
     l \<leftarrow> gets_ha (\<lambda>h. lease_new anchor (h_dcs_ttl h) (hc_safety_margin (h_config h)));
     set_leader_lease (Some l)
   }"

definition lease_expired :: "leader_lease \<Rightarrow> world \<Rightarrow> bool" where
  "lease_expired l w = expired_at l (w_mono w) (w_wall w)"

definition lease_lost :: "ha \<Rightarrow> world \<Rightarrow> bool" where
  "lease_lost h w \<longleftrightarrow> \<not> h_is_paused h \<and> is_none_or (h_leader_lease h) (\<lambda>l. lease_expired l w)"

definition lease_is_valid :: "ha \<Rightarrow> world \<Rightarrow> bool" where
  "lease_is_valid h w \<longleftrightarrow> h_is_leader h \<and> is_some_and (h_leader_lease h) (\<lambda>l. \<not> lease_expired l w)"

end
