(* ===== verification/Ha_Fence.thy ===== *)
theory Ha_Fence
  imports Ha_Calls
begin

text \<open>
  Stopping and fencing PostgreSQL, the watchdog rule, and the leader lock of the running node: the
  helpers of \<open>crates/pg-ha-core/src/ha/helpers.rs\<close>. Every demotion writes \<open>standby.signal\<close> first and
  stops afterwards; a failed stop is remembered in \<open>stop_pending\<close>.
\<close>

datatype cycle_result =
    Leader_Result string
  | Follower_Result string
  | Acquiring_Result string
  | Error_Result string

section \<open>Standby configuration\<close>

definition write_standby_config :: "string option \<Rightarrow> (string, unit) res eng" where
  "write_standby_config upstream_conn_url = do {
     reset_sync_cache;
     conninfo \<leftarrow> gets_ha (\<lambda>h. Option.bind upstream_conn_url (\<lambda>url.
       build_primary_conninfo url (hc_replication_user (h_config h)) (hc_replication_password (h_config h)) (my_name h)));
     write_standby_files conninfo
   }"

definition ensure_standby_signal :: "(string, unit) res eng" where
  "ensure_standby_signal = do {
     reset_sync_cache;
     write_standby_signal
   }"

definition leader_name :: "ha \<Rightarrow> string option" where
  "leader_name h = map_option ld_name (cl_leader (h_cluster h))"

definition member_url :: "ha \<Rightarrow> string \<Rightarrow> string option" where
  "member_url h name = map_option mb_conn_url (get_member (h_cluster h) name)"

definition prepare_standby_start :: "(string, unit) res eng" where
  "prepare_standby_start = do {
     st \<leftarrow> do_call True Ev_Controldata_State en_text is_ok no_effect;
     marked \<leftarrow> (if last_ran_as_primary (case st of Inr t \<Rightarrow> Some t | Inl _ \<Rightarrow> None)
               then create_rewind_check_marker ''last ran as a primary''
               else ret (Ok ()));
     case marked of
       Inl e \<Rightarrow> ret (Err e)
     | Inr _ \<Rightarrow> do {
         upstream \<leftarrow> gets_ha (\<lambda>h. standby_start_upstream (leader_name h) (my_name h)
                                 (Option.bind (leader_name h) (member_url h)));
         case upstream of
           Some url \<Rightarrow> write_standby_config (Some url)
         | None \<Rightarrow> ensure_standby_signal
       }
   }"

definition prepare_demotion :: "string option \<Rightarrow> string option \<Rightarrow> (string, unit) res eng" where
  "prepare_demotion upstream_conn_url rewind_check_reason = do {
     marked \<leftarrow> (case rewind_check_reason of
                  Some reason \<Rightarrow> create_rewind_check_marker reason
                | None \<Rightarrow> ret (Ok ()));
     written \<leftarrow> write_standby_config upstream_conn_url;
     ret (case marked of Inl e \<Rightarrow> Err e | Inr _ \<Rightarrow> written)
   }"

section \<open>Watchdog\<close>

definition reconcile_watchdog :: "unit eng" where
  "reconcile_watchdog = do {
     active \<leftarrow> gets_ha (\<lambda>h. wd_active (h_watchdog h));
     if \<not> active then ret ()
     else do {
       ask \<leftarrow> gets_both (\<lambda>h w. w_running w \<and> pg_in_recovery (h_pg h) = None);
       _ \<leftarrow> (if ask then observe_recovery else ret None);
       act \<leftarrow> gets_both (\<lambda>h w. watchdog_action_of (w_running w) (pg_in_recovery (h_pg h)) (h_is_paused h) (lease_is_valid h w));
       case act of
         Wd_Pet \<Rightarrow> watchdog_keepalive
       | Wd_Hold \<Rightarrow> ret ()
       | Wd_Disarm \<Rightarrow> watchdog_disarm
     }
   }"

section \<open>Stopping\<close>

definition set_stop_pending :: "bool \<Rightarrow> unit eng" where
  "set_stop_pending b = mod_ha (\<lambda>h. h\<lparr>h_stop_pending := b\<rparr>)"

definition set_is_leader :: "bool \<Rightarrow> unit eng" where
  "set_is_leader b = mod_ha (\<lambda>h. h\<lparr>h_is_leader := b\<rparr>)"

definition stop_publishing_not_primary :: "string \<Rightarrow> (string, unit) res eng" where
  "stop_publishing_not_primary mode = do {
     publish_not_primary;
     stopped \<leftarrow> pg_stop mode;
     publish_not_primary;
     case stopped of
       Inl e \<Rightarrow> do {
         set_stop_pending True;
         ret (Err e)
       }
     | Inr _ \<Rightarrow> do {
         set_stop_pending False;
         reconcile_watchdog;
         touch_member_bounded;
         ret (Ok ())
       }
   }"

definition stop_after_demotion_write :: "string \<Rightarrow> (string, unit) res eng" where
  "stop_after_demotion_write mode = stop_publishing_not_primary mode"

definition stop_preserving_recovery_intent :: "string \<Rightarrow> (string, unit) res eng" where
  "stop_preserving_recovery_intent mode = stop_publishing_not_primary mode"

definition retry_pending_stop :: "string \<Rightarrow> (string, unit) res eng" where
  "retry_pending_stop mode = do {
     pitr \<leftarrow> gets_world w_recovery_signal;
     if pitr then stop_preserving_recovery_intent mode else stop_after_demotion_write mode
   }"

definition fence_primary :: "string \<Rightarrow> string \<Rightarrow> string option \<Rightarrow> (string, unit) res eng" where
  "fence_primary mode reason upstream_conn_url = do {
     reset_sync_cache;
     _ \<leftarrow> prepare_demotion upstream_conn_url (Some reason);
     stop_after_demotion_write mode
   }"

section \<open>The leader lock of this node\<close>

definition release_lock_as_standby :: "unit eng" where
  "release_lock_as_standby = do {
     held \<leftarrow> gets_ha (\<lambda>h. cl_leader (h_cluster h));
     _ \<leftarrow> (case held of Some _ \<Rightarrow> bool_call Ev_Release | None \<Rightarrow> ret (Ok False));
     set_is_leader False;
     set_leader_lease None;
     reset_sync_cache
   }"

definition fence_for_lost_lease :: "(string, unit) res eng" where
  "fence_for_lost_lease = do {
     set_is_leader False;
     set_leader_lease None;
     stopped \<leftarrow> fence_primary ''immediate'' ''leader lease expired before renewal'' None;
     set_role Replica;
     reconcile_watchdog;
     ret stopped
   }"

definition fence_at_lease_check :: "string \<Rightarrow> cycle_result eng" where
  "fence_at_lease_check moment = do {
     _ \<leftarrow> fence_for_lost_lease;
     ret (Error_Result (''leader lease expired before '' @ moment))
   }"

definition shutdown_fence_if_lease_expired :: "bool eng" where
  "shutdown_fence_if_lease_expired = do {
     lost \<leftarrow> gets_both (\<lambda>h w. h_is_leader h \<and> lease_lost h w);
     if \<not> lost then ret False
     else do {
       _ \<leftarrow> fence_for_lost_lease;
       ret True
     }
   }"

definition renew_held_lock :: "bool eng" where
  "renew_held_lock = do {
     mine \<leftarrow> gets_ha is_lock_owner;
     if \<not> mine then ret False
     else do {
       anchor \<leftarrow> lease_anchor_now;
       r \<leftarrow> bool_call Ev_Renew;
       if granted r then do {
         set_is_leader True;
         extend_leader_lease anchor;
         ret True
       } else do {
         set_leader_lease None;
         ret False
       }
     }
   }"

text \<open>
  The drain of a shutdown. A round renews the lock and sleeps for at most one \<open>loop_wait\<close>; the number
  of rounds is bounded by the argument, \<open>None\<close> is running out of it.
\<close>

definition loop_wait_ms :: "ha \<Rightarrow> nat" where
  "loop_wait_ms h = unat (max (hc_loop_wait (h_config h)) 1) * 1000"

fun drain_rounds :: "nat \<Rightarrow> nat \<Rightarrow> bool option eng" where
  "drain_rounds 0 deadline = ret None"
| "drain_rounds (Suc k) deadline = do {
     renewed \<leftarrow> renew_held_lock;
     reconcile_watchdog;
     paused \<leftarrow> gets_ha h_is_paused;
     if \<not> renewed \<and> \<not> paused then do {
       _ \<leftarrow> fence_for_lost_lease;
       ret (Some True)
     } else do {
       now \<leftarrow> gets_world w_mono;
       if deadline \<le> now then ret (Some False)
       else do {
         lw \<leftarrow> gets_ha loop_wait_ms;
         sleep_ms (min (deadline - now) lw);
         drain_rounds k deadline
       }
     }
   }"

definition drain_renewing_leader_lock :: "nat \<Rightarrow> nat \<Rightarrow> bool option eng" where
  "drain_renewing_leader_lock rounds drain = do {
     leader \<leftarrow> gets_ha h_is_leader;
     if \<not> leader then do {
       sleep_ms drain;
       ret (Some False)
     } else do {
       now \<leftarrow> gets_world w_mono;
       drain_rounds rounds (now + drain)
     }
   }"

definition release_leader_lock_if_stopped :: "bool eng" where
  "release_leader_lock_if_stopped = do {
     up \<leftarrow> is_running;
     if up then ret False
     else do {
       leader \<leftarrow> gets_ha h_is_leader;
       if \<not> leader then ret True
       else do {
         held \<leftarrow> gets_ha (\<lambda>h. cl_leader (h_cluster h));
         case held of
           None \<Rightarrow> do {
             set_is_leader False;
             reset_sync_cache;
             ret True
           }
         | Some _ \<Rightarrow> do {
             r \<leftarrow> bool_call Ev_Release;
             if granted r then do {
               set_is_leader False;
               reset_sync_cache;
               ret True
             } else ret False
           }
       }
     }
   }"

section \<open>Stopping for a shutdown\<close>

definition stop_observed_postgres_for_shutdown :: "(string, unit) res eng" where
  "stop_observed_postgres_for_shutdown = do {
     observed \<leftarrow> gets_both pg_identity_of;
     let fence = shutdown_needs_fence observed;
     fast \<leftarrow> (if fence then fence_primary ''fast'' ''stopped by graceful shutdown'' None else pg_stop ''fast'');
     up \<leftarrow> is_running;
     if is_ok fast \<or> \<not> up then ret (Ok ())
     else if fence then stop_after_demotion_write ''immediate''
     else do {
       immediate \<leftarrow> pg_stop ''immediate'';
       stuck \<leftarrow> gets_both (\<lambda>h w. \<not> is_ok immediate \<and> w_running w \<and> \<not> shutdown_may_leave_running observed (h_is_leader h));
       (if stuck then set_stop_pending True else ret ());
       ret immediate
     }
   }"

definition stop_postgres_for_shutdown :: "(string, unit) res eng" where
  "stop_postgres_for_shutdown = do {
     up \<leftarrow> is_running;
     if \<not> up then ret (Ok ())
     else do {
       _ \<leftarrow> observe_recovery;
       stop_observed_postgres_for_shutdown
     }
   }"

end
