(* ===== verification/Ha_Timeline.thy ===== *)
theory Ha_Timeline
  imports Ha_Fence
begin

text \<open>
  Recording timelines and history: the \<open>/timeline\<close> part of \<open>crates/pg-ha-core/src/ha/helpers.rs\<close> and
  \<open>ha/history_log.rs\<close>. A promote is recorded as pending before it happens and confirmed afterwards;
  a lock-holding primary keeps the record equal to its own timeline; a change of primary is appended
  to \<open>/history\<close> later, as best effort.
\<close>

definition primary_timeline_id :: "(string, timeline_id) res eng" where
  "primary_timeline_id = do {
     r \<leftarrow> do_call True Ev_Primary_Timeline en_number is_ok no_effect;
     case r of
       Inl e \<Rightarrow> ret (Err e)
     | Inr timeline \<Rightarrow> do {
         b \<leftarrow> gets_world (\<lambda>w. w_timeline_begin w timeline);
         ret (case b of
                Inl e \<Rightarrow> Err e
              | Inr None \<Rightarrow> Err ''no history file for this timeline''
              | Inr (Some begin') \<Rightarrow> Ok \<lparr>tl_timeline = timeline, tl_begin = begin'\<rparr>)
       }
   }"

definition dcs_write_timeline :: "timeline_record \<Rightarrow> u64 option \<Rightarrow> (string, bool) res eng" where
  "dcs_write_timeline r expected = bool_call (Ev_Write_Timeline r expected)"

definition own_hold_action :: "timeline_id \<Rightarrow> u64 \<Rightarrow> ha \<Rightarrow> hold_action" where
  "own_hold_action own own_generation h =
    hold_action_of (my_name h) (cl_timeline (h_cluster h)) (cl_members (h_cluster h)) (cl_dcs_voters (h_cluster h))
      own own_generation"

definition record_own_timeline :: "timeline_id \<Rightarrow> unit eng" where
  "record_own_timeline own = do {
     g \<leftarrow> gets_world w_generation;
     case g of
       Inl _ \<Rightarrow> ret ()
     | Inr own_generation \<Rightarrow> do {
         act \<leftarrow> gets_ha (own_hold_action own own_generation);
         case act of
           Hold_UpToDate \<Rightarrow> finish_override
         | Hold_Write r \<Rightarrow> do {
             v \<leftarrow> gets_ha (\<lambda>h. timeline_version (cl_timeline (h_cluster h)));
             written \<leftarrow> dcs_write_timeline r v;
             if granted written then finish_override else ret ()
           }
         | Hold_Conflict _ \<Rightarrow> ret ()
       }
   }"

definition record_cluster_timeline :: "unit eng" where
  "record_cluster_timeline = do {
     r \<leftarrow> primary_timeline_id;
     case r of Inr own \<Rightarrow> record_own_timeline own | Inl _ \<Rightarrow> ret ()
   }"

definition record_standby_leader_timeline :: "unit eng" where
  "record_standby_leader_timeline = do {
     r \<leftarrow> gets_world w_newest_history;
     case r of Inr hist \<Rightarrow> if he_wal hist then record_own_timeline (evidence_id hist) else ret () | Inl _ \<Rightarrow> ret ()
   }"

section \<open>Pending promotes\<close>

definition pending_record :: "cluster_timeline \<Rightarrow> pending_promote \<Rightarrow> timeline_record" where
  "pending_record t p =
    (case timeline_record_of t of
       Some r \<Rightarrow> r\<lparr>tr_pending := Some p\<rparr>
     | None \<Rightarrow> \<lparr>tr_timeline = pp_base_timeline p, tr_begin = pp_base_begin p, tr_primary = [],
                 tr_generation = timeline_generation t, tr_pending = Some p\<rparr>)"

definition planned_promote :: "ha \<Rightarrow> world \<Rightarrow> (string, pending_promote) res" where
  "planned_promote h w =
    (case w_newest_history w of
       Inl e \<Rightarrow> Err e
     | Inr local \<Rightarrow>
         (case w_server_run w of
            Inl e \<Rightarrow> Err e
          | Inr None \<Rightarrow> Err ''postmaster.pid is missing''
          | Inr (Some postmaster_start) \<Rightarrow>
              (let accept_loss = (case own_eligibility_of (ha_view_of h w) of Own_Override _ \<Rightarrow> True | _ \<Rightarrow> False)
               in case plan_promote (my_name h) (latest_timeline (ha_view_of h w))
                         (timeline_generation (cl_timeline (h_cluster h))) local accept_loss (Some postmaster_start) of
                    Inl _ \<Rightarrow> Err ''not on the latest timeline''
                  | Inr p \<Rightarrow> Ok p)))"

definition record_pending_promote :: "(string, pending_promote) res eng" where
  "record_pending_promote = do {
     already \<leftarrow> gets_ha h_promote_pending;
     case already of
       Some p \<Rightarrow> ret (Ok p)
     | None \<Rightarrow> do {
         plan \<leftarrow> gets_both planned_promote;
         case plan of
           Inl e \<Rightarrow> ret (Err e)
         | Inr p \<Rightarrow> do {
             t \<leftarrow> gets_ha (\<lambda>h. cl_timeline (h_cluster h));
             written \<leftarrow> dcs_write_timeline (pending_record t p) (timeline_version t);
             if granted written then do {
               mod_ha (\<lambda>h. h\<lparr>h_promote_pending := Some p\<rparr>);
               ret (Ok p)
             } else ret (Err ''pending promote not recorded'')
           }
       }
   }"

definition confirm_promote :: "pending_promote \<Rightarrow> unit eng" where
  "confirm_promote p = do {
     new \<leftarrow> primary_timeline_id;
     case new of
       Inl _ \<Rightarrow> ret ()
     | Inr i \<Rightarrow> do {
         me \<leftarrow> gets_ha my_name;
         case confirmed_record me p i of
           Inl _ \<Rightarrow> ret ()
         | Inr r \<Rightarrow> do {
             override \<leftarrow> gets_ha (\<lambda>h. pp_generation p > timeline_generation (cl_timeline (h_cluster h)));
             gen \<leftarrow> (if override then write_generation (pp_generation p) else ret (Ok ()));
             case gen of
               Inl _ \<Rightarrow> ret ()
             | Inr _ \<Rightarrow> do {
                 c \<leftarrow> do_call True Ev_Get_Cluster en_cluster is_ok no_effect;
                 case c of
                   Inl _ \<Rightarrow> ret ()
                 | Inr cl \<Rightarrow>
                     if Option.bind (timeline_record_of (cl_timeline cl)) tr_pending \<noteq> Some p then ret ()
                     else do {
                       written \<leftarrow> dcs_write_timeline r (timeline_version (cl_timeline cl));
                       if granted written then do {
                         mod_ha (\<lambda>h. h\<lparr>h_promote_pending := None\<rparr>);
                         finish_override
                       } else ret ()
                     }
               }
           }
       }
   }"

section \<open>Generations\<close>

definition stale_generation :: "ha \<Rightarrow> world \<Rightarrow> bool" where
  "stale_generation h w =
    (let recorded = timeline_generation (cl_timeline (h_cluster h));
         stale = (\<lambda>generation. case w_generation w of Inr local \<Rightarrow> local < generation | Inl _ \<Rightarrow> True)
     in case latest_timeline (ha_view_of h w) of
          Latest_Known _ generation _ \<Rightarrow> stale generation
        | Latest_PendingUnresolved p \<Rightarrow>
            if pp_node p = my_name h then False else stale (max recorded (pp_generation p))
        | Latest_Unknown _ \<Rightarrow> stale recorded)"

section \<open>History\<close>

definition classify_acquisition ::
  "failover option \<Rightarrow> cluster_timeline \<Rightarrow> history_event_type \<times> string option \<times> string" where
  "classify_acquisition fo timeline =
    (let named = (\<lambda>s. case s of Some n \<Rightarrow> (if n = [] then None else Some n) | None \<Rightarrow> None);
         previous_primary = named (map_option tr_primary (timeline_record_of timeline))
     in case fo of
          Some f \<Rightarrow>
            (case named (fo_leader f) of
               Some l \<Rightarrow>
                 (Event_Switchover, Some l,
                  ''switchover requested from '' @ l @
                    (case named (fo_candidate f) of Some c \<Rightarrow> '' to '' @ c | None \<Rightarrow> []))
             | None \<Rightarrow>
                 (Event_Failover, previous_primary,
                  ''manual failover requested'' @
                    (case named (fo_candidate f) of Some c \<Rightarrow> '' to '' @ c | None \<Rightarrow> [])))
        | None \<Rightarrow> (Event_Failover, previous_primary, ''automatic failover: the leader lock was free''))"

definition note_pending_history :: "unit eng" where
  "note_pending_history = do {
     wall \<leftarrow> gets_world w_wall;
     mod_ha (\<lambda>h. h\<lparr>h_pending_history :=
       (if is_standby_cluster (last_config h) then None
        else (case classify_acquisition (cl_failover (h_cluster h)) (cl_timeline (h_cluster h)) of
                (event_type, old_leader, reason) \<Rightarrow>
                  Some \<lparr>ph_timestamp = word_of_nat (wall div 1000), ph_event_type = event_type,
                        ph_old_leader = old_leader, ph_reason = reason,
                        ph_prev_timeline = map_option tr_timeline (timeline_record_of (cl_timeline (h_cluster h)))\<rparr>))\<rparr>)
   }"

datatype history_append = History_Written | History_NotAPromotion | History_Failed

definition history_timeline :: "(timeline_id option \<times> bool) eng" where
  "history_timeline = do {
     r \<leftarrow> primary_timeline_id;
     case r of
       Inr i \<Rightarrow> ret (Some i, True)
     | Inl _ \<Rightarrow> do {
         fallback \<leftarrow> gets_ha (\<lambda>h. case timeline_record_of (cl_timeline (h_cluster h)) of
            Some rec \<Rightarrow> if tr_primary rec = my_name h \<and> tr_pending rec = None then Some (record_id rec) else None
          | None \<Rightarrow> None);
         ret (fallback, False)
       }
   }"

fun append_attempts :: "nat \<Rightarrow> history_entry \<Rightarrow> history_append eng" where
  "append_attempts 0 entry = ret History_Failed"
| "append_attempts (Suc k) entry = do {
     r \<leftarrow> do_call True Ev_Read_History en_history is_ok no_effect;
     case r of
       Inl _ \<Rightarrow> ret History_Failed
     | Inr (entries, version) \<Rightarrow>
         (case history_push entry (history_from_entries entries) of
            (es, new) \<Rightarrow>
              if \<not> new then ret History_Written
              else do {
                written \<leftarrow> bool_call (Ev_Write_History es version);
                case written of
                  Inr True \<Rightarrow> ret History_Written
                | Inr False \<Rightarrow> append_attempts k entry
                | Inl _ \<Rightarrow> ret History_Failed
              })
   }"

definition HISTORY_CAS_ATTEMPTS :: nat where "HISTORY_CAS_ATTEMPTS = 3"

definition try_append_history :: "pending_history \<Rightarrow> history_append eng" where
  "try_append_history p = do {
     (i, authoritative) \<leftarrow> history_timeline;
     if authoritative \<and> ph_prev_timeline p \<noteq> None \<and> ph_prev_timeline p = map_option tl_timeline i
     then ret History_NotAPromotion
     else do {
       me \<leftarrow> gets_ha my_name;
       append_attempts HISTORY_CAS_ATTEMPTS
         \<lparr>hi_timestamp = ph_timestamp p, hi_event_type = ph_event_type p, hi_old_leader = ph_old_leader p,
          hi_new_leader = Some me, hi_reason = ph_reason p, hi_timeline = map_option tl_timeline i,
          hi_lsn = map_option tl_begin i\<rparr>
     }
   }"

text \<open>
  The budget in milliseconds: the retry timeout, at most half of what is left of the lease. An append
  that runs out of it is one whose pending call fails: the entry stays pending either way.
\<close>

definition history_budget :: "ha \<Rightarrow> world \<Rightarrow> nat" where
  "history_budget h w =
    (let b = unat (max (hc_retry_timeout (h_config h)) 1) * 1000
     in case h_leader_lease h of
          Some l \<Rightarrow> min b (lease_remaining l (w_mono w) (w_wall w) div 2)
        | None \<Rightarrow> b)"

definition append_pending_history :: "unit eng" where
  "append_pending_history = do {
     pending \<leftarrow> gets_ha h_pending_history;
     case pending of
       None \<Rightarrow> ret ()
     | Some p \<Rightarrow> do {
         lost \<leftarrow> gets_both lease_lost;
         budget \<leftarrow> gets_both history_budget;
         if lost \<or> budget < 1000 then ret ()
         else do {
           out \<leftarrow> try_append_history p;
           case out of
             History_Written \<Rightarrow> mod_ha (\<lambda>h. h\<lparr>h_pending_history := None\<rparr>)
           | History_NotAPromotion \<Rightarrow> mod_ha (\<lambda>h. h\<lparr>h_pending_history := None\<rparr>)
           | History_Failed \<Rightarrow> ret ()
         }
       }
   }"

end
