(* ===== verification/Ha_Follow.thy ===== *)
theory Ha_Follow
  imports Ha_Timeline
begin

text \<open>
  Following and rejoining: \<open>crates/pg-ha-core/src/ha/follow.rs\<close>, the choice of the upstream
  (\<open>cascading.rs\<close>), and the two rules that keep a node stopped, the hold after a failed \<open>pg_rewind\<close>
  and data of an older generation (\<open>ha/helpers.rs\<close>).
\<close>

section \<open>Cascading replication\<close>

definition is_cascade_source_healthy :: "string \<Rightarrow> cluster \<Rightarrow> bool" where
  "is_cascade_source_healthy source_name cl = is_some_and (get_member cl source_name) (\<lambda>m. mb_state m = Running)"

definition get_primary_member :: "cluster \<Rightarrow> member option" where
  "get_primary_member cl = Option.bind (cl_leader cl) (\<lambda>l. get_member cl (ld_name l))"

definition select_upstream :: "string \<Rightarrow> string option \<Rightarrow> cluster \<Rightarrow> member option" where
  "select_upstream member_name replicatefrom cl =
    (case replicatefrom of
       Some source_name \<Rightarrow>
         if source_name \<noteq> member_name \<and> is_cascade_source_healthy source_name cl
         then get_member cl source_name
         else get_primary_member cl
     | None \<Rightarrow> get_primary_member cl)"

record cascade_node =
  cn_name :: string
  cn_role :: string
  cn_upstream :: "string option"
  cn_replicatefrom :: "string option"

definition build_cascade_topology :: "cluster \<Rightarrow> cascade_node list" where
  "build_cascade_topology cl =
    (let primary_name = map_option ld_name (cl_leader cl)
     in map (\<lambda>m.
          if primary_name = Some (mb_name m)
          then \<lparr>cn_name = mb_name m, cn_role = role_name (mb_role m), cn_upstream = None, cn_replicatefrom = None\<rparr>
          else
            (let tag = Option.bind (mb_tags m ''replicatefrom'') as_str;
                 upstream = (case tag of
                   Some source_name \<Rightarrow>
                     if is_cascade_source_healthy source_name cl \<and> source_name \<noteq> mb_name m then Some source_name
                     else primary_name
                 | None \<Rightarrow> primary_name)
             in \<lparr>cn_name = mb_name m, cn_role = role_name (mb_role m), cn_upstream = upstream, cn_replicatefrom = tag\<rparr>))
        (cl_members cl))"

section \<open>The rewind hold\<close>

definition clear_rewind_hold :: "unit eng" where
  "clear_rewind_hold = mod_ha (\<lambda>h. h\<lparr>h_rewind_hold := False, h_rewind_hold_persisted := False\<rparr>)"

definition refresh_rewind_hold :: "bool eng" where
  "refresh_rewind_hold = do {
     (held, operator_removed) \<leftarrow>
       gets_both (\<lambda>h w. rewind_hold_state (w_hold_file w) (h_rewind_hold h) (h_rewind_hold_persisted h));
     (if operator_removed then clear_rewind_hold else ret ());
     ret held
   }"

definition stop_held_postgres :: "string \<Rightarrow> (string, unit) res eng" where
  "stop_held_postgres fence_reason = do {
     up \<leftarrow> is_running;
     if \<not> up then ret (Ok ())
     else do {
       i \<leftarrow> gets_both pg_identity_of;
       if i = Id_Primary then fence_primary ''fast'' fence_reason None else pg_stop ''fast''
     }
   }"

definition REWIND_HOLD_REASON :: string where
  "REWIND_HOLD_REASON = ''stopped while held after a pg_rewind failure''"

definition enter_rewind_hold :: "cycle_result eng" where
  "enter_rewind_hold = do {
     mod_ha (\<lambda>h. h\<lparr>h_rewind_hold := True\<rparr>);
     written \<leftarrow> write_rewind_hold;
     mod_ha (\<lambda>h. h\<lparr>h_rewind_hold_persisted := is_ok written\<rparr>);
     stopped \<leftarrow> stop_held_postgres REWIND_HOLD_REASON;
     case stopped of
       Inl _ \<Rightarrow> ret (Error_Result ''rewind hold: stop failed'')
     | Inr _ \<Rightarrow> do {
         _ \<leftarrow> touch_member;
         ret (Error_Result ''rewind hold'')
       }
   }"

definition report_rewind_hold :: "cycle_result eng" where
  "report_rewind_hold = do {
     _ \<leftarrow> touch_member;
     ret (Error_Result ''rewind hold'')
   }"

definition hold_stop_and_report :: "cycle_result eng" where
  "hold_stop_and_report = do {
     stopped \<leftarrow> stop_held_postgres REWIND_HOLD_REASON;
     case stopped of
       Inl _ \<Rightarrow> ret (Error_Result ''rewind hold: stop failed'')
     | Inr _ \<Rightarrow> report_rewind_hold
   }"

definition enforce_generation :: "cycle_result option eng" where
  "enforce_generation = do {
     stale \<leftarrow> gets_both stale_generation;
     if \<not> stale then ret None
     else do {
       stopped \<leftarrow> stop_held_postgres ''stopped: data of an older history generation'';
       case stopped of
         Inl _ \<Rightarrow> ret (Some (Error_Result ''older history generation: stop failed''))
       | Inr _ \<Rightarrow> do {
           _ \<leftarrow> touch_member;
           ret (Some (Error_Result ''data of an older history generation''))
         }
     }
   }"

section \<open>Rejoining\<close>

definition start_as_replica :: "string \<Rightarrow> cycle_result eng" where
  "start_as_replica how = do {
     set_role Replica;
     _ \<leftarrow> touch_member;
     ret (Follower_Result how)
   }"

definition rebuild_from_leader :: "string \<Rightarrow> cycle_result eng" where
  "rebuild_from_leader leader_connstr = do {
     removed \<leftarrow> remove_data_directory;
     if \<not> is_ok removed then ret (Error_Result ''rejoin failed: cleanup'')
     else do {
       copied \<leftarrow> unit_call (Ev_Basebackup leader_connstr) (\<lambda>w. w);
       if \<not> is_ok copied then ret (Error_Result ''rejoin failed: basebackup'')
       else do {
         _ \<leftarrow> remove_node_state_files;
         clear_rewind_hold;
         written \<leftarrow> write_standby_config (Some leader_connstr);
         if \<not> is_ok written then ret (Error_Result ''rejoin: standby configuration not written'')
         else do {
           started \<leftarrow> pg_start;
           if is_ok started then start_as_replica ''rejoined via basebackup''
           else ret (Error_Result ''failed to start after basebackup'')
         }
       }
     }
   }"

definition probe_source :: "string \<Rightarrow> bool option eng" where
  "probe_source conn_url = do_call True (Ev_Probe conn_url) en_recovery (\<lambda>r. r \<noteq> None) no_effect"

definition rewind_and_restart :: "string \<Rightarrow> cycle_result eng" where
  "rewind_and_restart leader_connstr = do {
     rebuild \<leftarrow> gets_ha (\<lambda>h. hc_rebuild_on_rewind_failure (h_config h));
     rewound \<leftarrow> unit_call (Ev_Rewind leader_connstr) (\<lambda>w. w);
     if \<not> is_ok rewound then (if rebuild then rebuild_from_leader leader_connstr else enter_rewind_hold)
     else do {
       _ \<leftarrow> remove_node_state_files;
       clear_rewind_hold;
       written \<leftarrow> write_standby_config (Some leader_connstr);
       if \<not> is_ok written then ret (Error_Result ''rejoin: standby configuration not written'')
       else do {
         started \<leftarrow> pg_start;
         up \<leftarrow> is_running;
         case after_rewind_start_of (is_ok started) up of
           Rewind_Started \<Rightarrow> start_as_replica ''rejoined via pg_rewind''
         | Rewind_StillStarting \<Rightarrow> do {
             set_pg (\<lambda>p. p\<lparr>pg_state_field := Pg_Starting\<rparr>);
             start_as_replica ''rejoined via pg_rewind; still starting''
           }
         | Rewind_Failed \<Rightarrow> if rebuild then rebuild_from_leader leader_connstr else enter_rewind_hold
       }
     }
   }"

text \<open>The source was ready: stop the server, check the source again, rewind.\<close>

definition rejoin_ready :: "string \<Rightarrow> string \<Rightarrow> cycle_result eng" where
  "rejoin_ready leader_name' leader_connstr = do {
     up \<leftarrow> is_running;
     i \<leftarrow> gets_both pg_identity_of;
     stopped \<leftarrow>
       (if \<not> up then ret (Ok ())
        else if i = Id_Primary
        then fence_primary ''fast'' ''stopped for pg_rewind while running as a primary without the leader lock''
               (Some leader_connstr)
        else pg_stop ''fast'');
     if \<not> is_ok stopped then ret (Error_Result ''rejoin stop failed'')
     else do {
       probe \<leftarrow> probe_source leader_connstr;
       ready \<leftarrow> gets_ha (\<lambda>h. leader_ready_for_rewind (leader_name h) leader_name' (get_member (h_cluster h) leader_name') probe);
       if \<not> ready then do {
         _ \<leftarrow> touch_member;
         ret (Follower_Result ''not running pg_rewind; stopped'')
       } else rewind_and_restart leader_connstr
     }
   }"

text \<open>The source is not ready: a primary without the lock is stopped all the same.\<close>

definition rejoin_not_ready :: "string \<Rightarrow> cycle_result eng" where
  "rejoin_not_ready leader_name' = do {
     i \<leftarrow> gets_both pg_identity_of;
     if i = Id_Primary then do {
       upstream \<leftarrow> gets_ha (\<lambda>h. if leader_name h = Some leader_name' then member_url h leader_name' else None);
       stopped \<leftarrow> fence_primary ''fast''
         ''stopped while running as a primary without the leader lock; leader not ready for pg_rewind'' upstream;
       ret (if is_ok stopped then Follower_Result ''stopped PostgreSQL: leader not ready''
            else Error_Result ''rejoin stop failed'')
     } else do {
       _ \<leftarrow> touch_member;
       ret (Follower_Result ''not running pg_rewind'')
     }
   }"

definition rejoin_as_replica :: "string \<Rightarrow> cycle_result eng" where
  "rejoin_as_replica leader_name' = do {
     rebuild \<leftarrow> gets_ha (\<lambda>h. hc_rebuild_on_rewind_failure (h_config h));
     held \<leftarrow> refresh_rewind_hold;
     if held \<and> \<not> rebuild then hold_stop_and_report
     else do {
       member \<leftarrow> gets_ha (\<lambda>h. get_member (h_cluster h) leader_name');
       dcs_ready \<leftarrow> gets_ha (\<lambda>h. leader_ready_in_dcs (leader_name h) leader_name' member);
       probe \<leftarrow> (case member of
                   Some m \<Rightarrow> if dcs_ready then probe_source (mb_conn_url m) else ret None
                 | None \<Rightarrow> ret None);
       ready \<leftarrow> gets_ha (\<lambda>h. leader_ready_for_rewind (leader_name h) leader_name' member probe);
       if \<not> ready then rejoin_not_ready leader_name'
       else (case member of
               None \<Rightarrow> ret (Error_Result ''leader not found'')
             | Some m \<Rightarrow> rejoin_ready leader_name' (mb_conn_url m))
     }
   }"

definition other_leader :: "ha \<Rightarrow> string option" where
  "other_leader h = (case leader_name h of Some n \<Rightarrow> (if n = my_name h then None else Some n) | None \<Rightarrow> None)"

definition enforce_rewind_hold :: "cycle_result option eng" where
  "enforce_rewind_hold = do {
     held \<leftarrow> refresh_rewind_hold;
     if \<not> held then ret None
     else do {
       leader \<leftarrow> gets_ha other_leader;
       ready \<leftarrow> gets_ha (\<lambda>h. is_some_and leader (\<lambda>n. leader_ready_in_dcs (Some n) n (get_member (h_cluster h) n)));
       rebuild \<leftarrow> gets_ha (\<lambda>h. hc_rebuild_on_rewind_failure (h_config h));
       case (held_node_action_of True rebuild ready, leader) of
         (Held_NotHeld, _) \<Rightarrow> ret None
       | (Held_Hold, _) \<Rightarrow> do { r \<leftarrow> hold_stop_and_report; ret (Some r) }
       | (Held_Rebuild, Some n) \<Rightarrow> do { r \<leftarrow> rejoin_as_replica n; ret (Some r) }
       | (_, _) \<Rightarrow> do {
           stopped \<leftarrow> stop_held_postgres REWIND_HOLD_REASON;
           case stopped of
             Inl _ \<Rightarrow> ret (Some (Error_Result ''rewind hold: stop failed''))
           | Inr _ \<Rightarrow> do {
               _ \<leftarrow> touch_member;
               ret (Some (Error_Result ''rewind hold: waiting for a leader''))
             }
         }
     }
   }"

section \<open>Following\<close>

definition strip_matches :: "char \<Rightarrow> string \<Rightarrow> string" where
  "strip_matches c s = rev (dropWhile (\<lambda>x. x = c) (rev (dropWhile (\<lambda>x. x = c) s)))"

fun find_sub :: "string \<Rightarrow> string \<Rightarrow> string option" where
  "find_sub pat [] = (if pat = [] then Some [] else None)"
| "find_sub pat (c # cs) = (if prefix pat (c # cs) then Some (drop (length pat) (c # cs)) else find_sub pat cs)"

fun upstream_of_lines :: "string list \<Rightarrow> string option" where
  "upstream_of_lines [] = None"
| "upstream_of_lines (line # lines) =
     (let trimmed = str_trim line
      in if prefix ''primary_conninfo'' trimmed
         then (case find_sub ''host='' trimmed of
                 Some after_host \<Rightarrow>
                   (let host = strip_matches DQUOTE (strip_matches SQUOTE
                          (case split_whitespace after_host of [] \<Rightarrow> [] | w # _ \<Rightarrow> w))
                    in if host \<noteq> [] then Some host else upstream_of_lines lines)
               | None \<Rightarrow> upstream_of_lines lines)
         else upstream_of_lines lines)"

definition read_current_upstream :: "world \<Rightarrow> string option" where
  "read_current_upstream w = Option.bind (w_auto_conf w) (\<lambda>content. upstream_of_lines (str_lines content))"

definition is_recently_reconfigured :: "ha \<Rightarrow> world \<Rightarrow> bool" where
  "is_recently_reconfigured h w = is_some_and (w_auto_conf_age w) (\<lambda>age. age < hc_retry_timeout (h_config h))"

definition needs_upstream_reconfig :: "string option \<Rightarrow> string \<Rightarrow> bool" where
  "needs_upstream_reconfig current expected_host \<longleftrightarrow> expected_host \<noteq> [] \<and> current \<noteq> Some expected_host"

definition conn_url_host :: "string \<Rightarrow> string" where
  "conn_url_host url =
    unwrap_or (Option.bind (find (prefix ''host='') (split_whitespace url)) (strip_prefix_opt ''host='')) []"

definition expected_host :: "ha \<Rightarrow> string \<Rightarrow> string" where
  "expected_host h upstream = (case member_url h upstream of Some url \<Rightarrow> conn_url_host url | None \<Rightarrow> [])"

text \<open>The host \<open>reconfigure_replica\<close> looks up: the last \<open>host=\<close> part, \<open>127.0.0.1\<close> without one.\<close>

definition reconfigure_host :: "string \<Rightarrow> string" where
  "reconfigure_host url = unwrap_or (fst (host_port_parts (split_whitespace url) None None)) ''127.0.0.1''"

definition reconfigure_replica :: "string \<Rightarrow> unit eng" where
  "reconfigure_replica new_upstream_connstr = do {
     written \<leftarrow> write_standby_config (Some new_upstream_connstr);
     if \<not> is_ok written then ret ()
     else do {
       tl \<leftarrow> do_call True Ev_Controldata_Timeline en_number is_ok no_effect;
       let local_tl = (case tl of Inr t \<Rightarrow> t | Inl _ \<Rightarrow> 0);
       upstream_tl \<leftarrow> gets_ha (\<lambda>h. unwrap_or
         (Option.bind (get_member (h_cluster h) (reconfigure_host new_upstream_connstr)) mb_timeline) 0);
       if local_tl > 0 \<and> upstream_tl > 0 \<and> local_tl \<noteq> upstream_tl then do {
         _ \<leftarrow> pg_stop ''fast'';
         ret ()
       } else do {
         stopped \<leftarrow> pg_stop ''fast'';
         if is_ok stopped then do { _ \<leftarrow> pg_start; ret () } else ret ()
       }
     }
   }"

definition follow_managed_standby :: "string \<Rightarrow> cycle_result eng" where
  "follow_managed_standby upstream = do {
     set_role Replica;
     reconf \<leftarrow> gets_both (\<lambda>h w. needs_upstream_reconfig (read_current_upstream w) (expected_host h upstream) \<and>
                                \<not> is_recently_reconfigured h w);
     url \<leftarrow> gets_ha (\<lambda>h. member_url h upstream);
     (case url of
        Some u \<Rightarrow> if reconf then reconfigure_replica u else ret ()
      | None \<Rightarrow> ret ());
     _ \<leftarrow> touch_member;
     ret (Follower_Result ''following upstream'')
   }"

definition follower_fence :: "string \<Rightarrow> cycle_result eng" where
  "follower_fence lock_owner = do {
     upstream \<leftarrow> gets_ha (\<lambda>h. member_url h lock_owner);
     written \<leftarrow> prepare_demotion upstream None;
     stopped \<leftarrow> stop_after_demotion_write ''fast'';
     ret (if \<not> is_ok stopped then Error_Result ''fence stop failed''
          else if \<not> is_ok written then Error_Result ''fence: standby configuration not written''
          else Follower_Result ''stopped PostgreSQL'')
   }"

definition follow_upstream :: "string \<Rightarrow> cycle_result eng" where
  "follow_upstream lock_owner = do {
     g \<leftarrow> enforce_generation;
     case g of
       Some r \<Rightarrow> ret r
     | None \<Rightarrow> do {
         held \<leftarrow> enforce_rewind_hold;
         case held of
           Some r \<Rightarrow> ret r
         | None \<Rightarrow> do {
             upstream \<leftarrow> gets_ha (\<lambda>h. case select_upstream (my_name h) (hc_replicatefrom (h_config h)) (h_cluster h) of
                Some m \<Rightarrow> mb_name m | None \<Rightarrow> lock_owner);
             act \<leftarrow> gets_both (\<lambda>h w. follower_action_of (pg_identity_of h w) (h_stop_pending h) (w_rewind_marker w));
             case act of
               Fa_Rejoin \<Rightarrow> rejoin_as_replica lock_owner
             | Fa_RewindCheck \<Rightarrow> do {
                 _ \<leftarrow> touch_member;
                 ready \<leftarrow> gets_ha (\<lambda>h. leader_ready_in_dcs (Some lock_owner) lock_owner (get_member (h_cluster h) lock_owner));
                 if ready then rejoin_as_replica lock_owner
                 else ret (Follower_Result ''rewind-check marker present; waiting'')
               }
             | Fa_HandOff \<Rightarrow> do {
                 _ \<leftarrow> touch_member;
                 ret (Error_Result ''unmanaged recovery; operator action required'')
               }
             | Fa_Fence \<Rightarrow> follower_fence lock_owner
             | Fa_Wait \<Rightarrow> do {
                 _ \<leftarrow> touch_member;
                 ret (Follower_Result ''waiting for the next cycle'')
               }
             | Fa_Follow \<Rightarrow> follow_managed_standby upstream
           }
       }
   }"

end
