(* ===== verification/Ha_Leader.thy ===== *)
theory Ha_Leader
  imports Ha_Follow
begin

text \<open>
  The lock holder and the candidate: promotion, synchronous replication, demotion
  (\<open>crates/pg-ha-core/src/ha/mod.rs\<close>) and the cycle of an unlocked cluster (\<open>ha/election.rs\<close>).
\<close>

section \<open>Synchronous replication\<close>

definition extracted_names :: "string \<Rightarrow> name_set" where
  "extracted_names v = (case extract_names_from_sync_value v of Inr ns \<Rightarrow> ns | Inl _ \<Rightarrow> [])"

definition own_voters :: "ha \<Rightarrow> string list" where
  "own_voters h =
    (case cl_sync_state (h_cluster h) of
       Some s \<Rightarrow> if eq_ignore_ascii_case (sy_leader s) (my_name h) then sync_standby_names s else []
     | None \<Rightarrow> [])"

definition sync_standby_caught_up ::
  "u64 option \<Rightarrow> string \<Rightarrow> replication_snapshot option \<Rightarrow> u64 option \<Rightarrow> bool" where
  "sync_standby_caught_up flush_mark name snapshot threshold =
    (case snapshot of
       None \<Rightarrow> False
     | Some snap \<Rightarrow>
         (case flush_mark of
            None \<Rightarrow> False
          | Some mark \<Rightarrow>
              (case find_replica (rs_replicas snap) name of
                 None \<Rightarrow> False
               | Some row \<Rightarrow> saturating_sub mark (rr_flush_lsn row) \<le> unwrap_or threshold 0)))"

definition sync_state_for :: "ha \<Rightarrow> name_set \<Rightarrow> bool \<Rightarrow> nat \<Rightarrow> sync_state" where
  "sync_state_for h names enabled node_count =
    \<lparr>sy_leader = my_name h, sy_sync_standby = (if names = [] then None else Some (join_names names)),
     sy_quorum = (if enabled then word_of_nat node_count else 0)\<rparr>"

definition write_sync_state :: "name_set \<Rightarrow> bool \<Rightarrow> nat \<Rightarrow> bool eng" where
  "write_sync_state names enabled node_count = do {
     st \<leftarrow> gets_ha (\<lambda>h. sync_state_for h names enabled node_count);
     r \<leftarrow> do_call True (Ev_Set_Sync st) en_bool is_ok no_effect;
     ret (is_ok r)
   }"

definition set_synchronous_standby_names :: "string \<Rightarrow> (string, unit) res eng" where
  "set_synchronous_standby_names v = unit_call (Ev_Alter_Sync v) (\<lambda>w. w)"

text \<open>The desired list and the snapshot it was computed from; \<open>None\<close> is "no change this cycle".\<close>

definition desired_sync_list :: "bool \<Rightarrow> (string \<times> replication_snapshot option) option eng" where
  "desired_sync_list enabled = do {
     if \<not> enabled then ret (Some ([], None))
     else do {
       r \<leftarrow> do_call True Ev_Replication_Status en_replication is_ok no_effect;
       case r of
         Inl _ \<Rightarrow> ret None
       | Inr snap \<Rightarrow> do {
           d \<leftarrow> gets_ha (\<lambda>h. compute_sync_standby_names
                  (new_sync_manager Sync_Priority (unat (unwrap_or (gc_synchronous_node_count (last_config h)) 1))
                     (unwrap_or (gc_synchronous_mode_strict (last_config h)) False))
                  (cl_members (h_cluster h)) (my_name h) snap (gc_maximum_lag_on_syncnode (last_config h)) (own_voters h));
           ret (map_option (\<lambda>v. (v, Some snap)) d)
         }
     }
   }"

definition sync_phase_remove :: "name_set \<Rightarrow> name_set \<Rightarrow> bool \<Rightarrow> nat \<Rightarrow> bool eng" where
  "sync_phase_remove current desired enabled node_count =
    (if set current \<subseteq> set desired then ret True
     else write_sync_state (filter (\<lambda>n. n \<in> set desired) current) enabled node_count)"

definition sync_phase_alter :: "string \<Rightarrow> u64 option \<Rightarrow> bool eng" where
  "sync_phase_alter desired_pg flush_lsn = do {
     applied \<leftarrow> gets_ha h_applied_sync;
     if applied = Some desired_pg then ret True
     else do {
       r \<leftarrow> set_synchronous_standby_names desired_pg;
       if \<not> is_ok r then ret False
       else do {
         mod_ha (\<lambda>h. h\<lparr>h_applied_sync := Some desired_pg, h_sync_flush_mark := flush_lsn\<rparr>);
         ret True
       }
     }
   }"

definition sync_phase_add ::
  "name_set \<Rightarrow> name_set \<Rightarrow> replication_snapshot option \<Rightarrow> bool \<Rightarrow> nat \<Rightarrow> unit eng" where
  "sync_phase_add current desired snapshot enabled node_count = do {
     publishable \<leftarrow> gets_ha (\<lambda>h. filter (\<lambda>n. n \<in> set current \<or>
        sync_standby_caught_up (h_sync_flush_mark h) n snapshot (gc_maximum_lag_on_syncnode (last_config h))) desired);
     if publishable \<noteq> current then do { _ \<leftarrow> write_sync_state publishable enabled node_count; ret () } else ret ()
   }"

definition enforce_synchronous_replication :: "unit eng" where
  "enforce_synchronous_replication = do {
     enabled \<leftarrow> gets_ha (\<lambda>h. unwrap_or (gc_synchronous_mode (last_config h)) False);
     node_count \<leftarrow> gets_ha (\<lambda>h. unat (unwrap_or (gc_synchronous_node_count (last_config h)) 1));
     d \<leftarrow> desired_sync_list enabled;
     case d of
       None \<Rightarrow> ret ()
     | Some (desired_pg, snapshot) \<Rightarrow> do {
         let desired = extracted_names desired_pg;
         current \<leftarrow> gets_ha (\<lambda>h. sync_name_set (own_voters h));
         applied \<leftarrow> gets_ha h_applied_sync;
         if applied = Some desired_pg \<and> current = desired then ret ()
         else do {
           removed \<leftarrow> sync_phase_remove current desired enabled node_count;
           if \<not> removed then ret ()
           else do {
             altered \<leftarrow> sync_phase_alter desired_pg (map_option rs_primary_flush_lsn snapshot);
             if \<not> altered then ret ()
             else sync_phase_add current desired snapshot enabled node_count
           }
         }
       }
   }"

section \<open>Promotion\<close>

definition promote_and_confirm :: "cycle_result eng" where
  "promote_and_confirm = do {
     armed \<leftarrow> arm_watchdog;
     if \<not> is_ok armed then do {
       release_lock_as_standby;
       ret (Error_Result ''not promoting: watchdog'')
     } else do {
       recorded \<leftarrow> record_pending_promote;
       case recorded of
         Inl e \<Rightarrow> ret (Error_Result ''not promoting'')
       | Inr pending \<Rightarrow> do {
           lost \<leftarrow> gets_both lease_lost;
           if lost then fence_at_lease_check ''pg_ctl promote''
           else do {
             promoted \<leftarrow> pg_promote;
             if \<not> is_ok promoted then ret (Error_Result ''promote failed'')
             else do {
               _ \<leftarrow> observe_recovery;
               i \<leftarrow> gets_both pg_identity_of;
               if i \<noteq> Id_Primary then do {
                 _ \<leftarrow> touch_member;
                 ret (Error_Result ''promote reported success but not observed as primary'')
               } else do {
                 set_role Primary;
                 confirm_promote pending;
                 _ \<leftarrow> touch_member;
                 enforce_synchronous_replication;
                 ret (Leader_Result ''promoted to primary'')
               }
             }
           }
         }
     }
   }"

definition relinquish_unmanaged_recovery :: "cycle_result eng" where
  "relinquish_unmanaged_recovery = do {
     pitr \<leftarrow> gets_world w_recovery_signal;
     paused \<leftarrow> gets_ha h_is_paused;
     if paused then do {
       _ \<leftarrow> touch_member;
       ret (Error_Result ''unmanaged recovery; paused'')
     } else do {
       stopped \<leftarrow> (if pitr then stop_preserving_recovery_intent ''fast''
                  else do {
                    _ \<leftarrow> prepare_demotion None (Some ''unmanaged recovery without standby.signal'');
                    stop_after_demotion_write ''fast''
                  });
       up \<leftarrow> is_running;
       if \<not> is_ok stopped \<or> up then do {
         _ \<leftarrow> touch_member;
         ret (Error_Result ''unmanaged recovery; stop failed'')
       } else do {
         released \<leftarrow> release_leader_lock_if_stopped;
         _ \<leftarrow> touch_member;
         ret (Error_Result (if released then ''released leader lock: unmanaged recovery''
                            else ''unmanaged recovery; the leader lock was not released''))
       }
     }
   }"

definition follows_remote :: "ha \<Rightarrow> world \<Rightarrow> bool" where
  "follows_remote h w \<longleftrightarrow> w_running w \<and> pg_in_recovery (h_pg h) = Some True"

definition enforce_standby_leader_role :: "cycle_result eng" where
  "enforce_standby_leader_role = do {
     configured \<leftarrow> gets_ha (\<lambda>h. is_standby_cluster (last_config h));
     if \<not> configured then ret (Leader_Result ''standby_cluster config missing'')
     else do {
       following \<leftarrow> gets_both follows_remote;
       if following then do {
         set_role StandbyLeader;
         _ \<leftarrow> touch_member;
         record_standby_leader_timeline;
         ret (Leader_Result ''standby leader'')
       } else do {
         _ \<leftarrow> touch_member;
         ret (Leader_Result ''standby leader, reconfiguration needed'')
       }
     }
   }"

definition hold_as_primary :: "cycle_result eng" where
  "hold_as_primary = do {
     lost \<leftarrow> gets_both lease_lost;
     if lost then fence_at_lease_check ''reporting the leader role''
     else do {
       armed \<leftarrow> arm_watchdog;
       if \<not> is_ok armed then do {
         set_leader_lease None;
         fence_at_lease_check ''activating the required watchdog''
       } else do {
         set_role Primary;
         _ \<leftarrow> touch_member;
         record_cluster_timeline;
         enforce_synchronous_replication;
         append_pending_history;
         ret (Leader_Result ''no action'')
       }
     }
   }"

definition enforce_primary_role :: "cycle_result eng" where
  "enforce_primary_role = do {
     standby \<leftarrow> gets_ha (\<lambda>h. is_standby_cluster (last_config h));
     if standby then enforce_standby_leader_role
     else do {
       i \<leftarrow> gets_both pg_identity_of;
       case leader_action_of i of
         La_Hold \<Rightarrow> hold_as_primary
       | La_Promote \<Rightarrow> promote_and_confirm
       | La_Relinquish \<Rightarrow> relinquish_unmanaged_recovery
       | La_Wait \<Rightarrow> do {
           _ \<leftarrow> touch_member;
           ret (Error_Result ''holding the leader lock but PostgreSQL is unobserved'')
         }
     }
   }"

definition demote :: "cycle_result eng" where
  "demote = do {
     reset_sync_cache;
     written \<leftarrow> prepare_demotion None (Some ''demoted after losing the leader lock'');
     _ \<leftarrow> stop_after_demotion_write ''immediate'';
     set_role Replica;
     ret (if is_ok written then Follower_Result ''demoted self'' else Error_Result ''demoted self; standby configuration not written'')
   }"

section \<open>A cluster with a leader\<close>

definition process_healthy_cluster :: "cycle_result eng" where
  "process_healthy_cluster = do {
     mine \<leftarrow> gets_ha is_lock_owner;
     if mine then do {
       anchor \<leftarrow> lease_anchor_now;
       renewed \<leftarrow> bool_call Ev_Renew;
       if granted renewed then do {
         set_is_leader True;
         extend_leader_lease anchor;
         pending_stop \<leftarrow> gets_both (\<lambda>h w. h_stop_pending h \<and> w_running w);
         if pending_stop then do {
           _ \<leftarrow> retry_pending_stop ''fast'';
           ret (Error_Result ''leader lock held but PostgreSQL stop is still pending'')
         } else enforce_primary_role
       } else do {
         set_leader_lease None;
         set_is_leader False;
         paused \<leftarrow> gets_ha h_is_paused;
         if paused then ret (Leader_Result ''continue in pause mode'') else demote
       }
     } else do {
       set_is_leader False;
       owner \<leftarrow> gets_ha (\<lambda>h. unwrap_or (leader_name h) []);
       follow_upstream owner
     }
   }"

section \<open>A cluster without a leader\<close>

definition election_fence :: "cycle_result eng" where
  "election_fence = do {
     stopped \<leftarrow> fence_primary ''fast'' ''stopped again after a failed demotion stop'' None;
     ret (if is_ok stopped then Follower_Result ''stopped PostgreSQL: a demotion stop had failed''
          else Error_Result ''fence stop failed'')
   }"

definition stand_aside :: "cycle_result eng" where
  "stand_aside = do {
     i \<leftarrow> gets_both pg_identity_of;
     if i = Id_Primary then do {
       stopped \<leftarrow> fence_primary ''fast'' ''stopped: not eligible for the election while running as a primary'' None;
       ret (if is_ok stopped then Follower_Result ''not taking part; stopped PostgreSQL''
            else Error_Result ''stop failed for an ineligible primary'')
     } else do {
       _ \<leftarrow> touch_member;
       ret (Follower_Result ''not taking part in the election'')
     }
   }"

definition stop_stale_primary :: "cycle_result eng" where
  "stop_stale_primary = do {
     stopped \<leftarrow> fence_primary ''fast'' ''stopped as a stale primary'' None;
     if \<not> is_ok stopped then ret (Error_Result ''stale primary: stop failed'')
     else do {
       _ \<leftarrow> touch_member;
       ret (Follower_Result ''stale primary: stopped PostgreSQL'')
     }
   }"

definition attempt_lock :: "cycle_result eng" where
  "attempt_lock = do {
     anchor \<leftarrow> lease_anchor_now;
     r \<leftarrow> bool_call Ev_Acquire;
     case r of
       Inr True \<Rightarrow> do {
         set_is_leader True;
         extend_leader_lease anchor;
         note_pending_history;
         _ \<leftarrow> bool_call (Ev_Set_Failover None);
         enforce_primary_role
       }
     | Inr False \<Rightarrow> do {
         set_is_leader False;
         ret (Follower_Result ''failed to acquire lock'')
       }
     | Inl _ \<Rightarrow> ret (Error_Result ''leader acquisition error'')
   }"

definition campaign :: "cycle_result eng" where
  "campaign = do {
     eligible \<leftarrow> gets_both (\<lambda>h w. case own_eligibility_of (ha_view_of h w) of Own_Eligible \<Rightarrow> True | Own_Override _ \<Rightarrow> True | _ \<Rightarrow> False);
     if \<not> eligible then stand_aside
     else do {
       stale \<leftarrow> gets_both (\<lambda>h w. pg_identity_of h w = Id_Primary \<and> \<not> is_healthiest_node (ha_view_of h w) \<and>
                                  cl_members (h_cluster h) \<noteq> []);
       if stale then stop_stale_primary
       else do {
         attempt \<leftarrow> gets_both (\<lambda>h w. should_attempt (ha_view_of h w));
         if attempt then attempt_lock
         else do {
           set_is_leader False;
           ret (Follower_Result ''not attempting to acquire the lock'')
         }
       }
     }
   }"

definition process_unhealthy_cluster :: "cycle_result eng" where
  "process_unhealthy_cluster = do {
     paused \<leftarrow> gets_ha h_is_paused;
     if paused then ret (Follower_Result ''no action in pause mode'')
     else do {
       g \<leftarrow> enforce_generation;
       case g of
         Some r \<Rightarrow> ret r
       | None \<Rightarrow> do {
           held \<leftarrow> enforce_rewind_hold;
           case held of
             Some r \<Rightarrow> ret r
           | None \<Rightarrow> do {
               stance \<leftarrow> gets_both (\<lambda>h w. election_stance_of (pg_identity_of h w) (h_stop_pending h));
               case stance of
                 Es_Participate \<Rightarrow> campaign
               | Es_StandAside \<Rightarrow> do {
                   _ \<leftarrow> touch_member;
                   ret (Error_Result ''unmanaged recovery; not taking part'')
                 }
               | Es_Fence \<Rightarrow> election_fence
               | Es_Wait \<Rightarrow> do {
                   _ \<leftarrow> touch_member;
                   ret (Follower_Result ''unobserved; not taking part this cycle'')
                 }
             }
         }
     }
   }"

end
