(* ===== verification/Ha_Commands.thy ===== *)
theory Ha_Commands
  imports Ha_Leader
begin

text \<open>
  The management commands of \<open>crates/pg-ha-core/src/ha/commands.rs\<close>. The queue is drained in one go; a
  command that arrives during the drain is one that was in the queue when it began.
\<close>

definition candidate_problem :: "string \<Rightarrow> ha \<Rightarrow> world \<Rightarrow> string option" where
  "candidate_problem candidate h w =
    (case get_member (h_cluster h) candidate of
       None \<Rightarrow> Some ''candidate not found''
     | Some m \<Rightarrow>
         if is_nofailover m then Some ''candidate has nofailover tag''
         else if mb_state m \<noteq> Running then Some ''candidate is not running''
         else if mb_rewind_check m then Some ''candidate has a rewind-check marker''
         else if mb_watchdog_failed m then Some ''candidate cannot use its required watchdog''
         else if \<not> sync_failover_allowed candidate (unwrap_or (gc_synchronous_mode (last_config h)) False)
                      (cl_sync_state (h_cluster h))
         then Some ''candidate is not a synchronous standby''
         else None)"

definition execute_switchover :: "string option \<Rightarrow> command_response eng" where
  "execute_switchover candidate = do {
     me \<leftarrow> gets_ha my_name;
     asked \<leftarrow> do_call True (Ev_Set_Failover (Some \<lparr>fo_leader = Some me, fo_candidate = candidate, fo_scheduled_at = None\<rparr>))
                en_bool is_ok no_effect;
     if \<not> is_ok asked then ret (Command_Error ''switchover aborted: /failover not written'')
     else do {
       renewed \<leftarrow> renew_held_lock;
       if \<not> renewed then do {
         _ \<leftarrow> fence_for_lost_lease;
         ret (Command_Error ''switchover aborted: leader lock renewal failed'')
       } else do {
         url \<leftarrow> gets_ha (\<lambda>h. Option.bind candidate (member_url h));
         written \<leftarrow> prepare_demotion url None;
         stopped \<leftarrow> stop_after_demotion_write ''fast'';
         set_role Replica;
         if \<not> is_ok stopped then ret (Command_Error ''switchover: stop failed, lock held'')
         else do {
           released \<leftarrow> release_leader_lock_if_stopped;
           ret (if \<not> released then Command_Error ''switchover: stopped, leader lock not released''
                else if \<not> is_ok written then Command_Error ''switchover: stopped, standby configuration not written''
                else Accepted ''switchover initiated, leader lock released'')
         }
       }
     }
   }"

definition handle_switchover_command ::
  "string option \<Rightarrow> string option \<Rightarrow> string option \<Rightarrow> command_response eng" where
  "handle_switchover_command leader candidate scheduled_at = do {
     is_leader \<leftarrow> gets_ha h_is_leader;
     me \<leftarrow> gets_ha my_name;
     problem \<leftarrow> gets_both (\<lambda>h w. Option.bind candidate (\<lambda>c. candidate_problem c h w));
     successor \<leftarrow> gets_both (\<lambda>h w. has_switchover_successor (ha_view_of h w));
     if \<not> is_leader then ret (Rejected ''not the leader'')
     else if leader \<noteq> None \<and> leader \<noteq> Some me then ret (Rejected ''leader mismatch'')
     else if problem \<noteq> None then ret (Rejected (the problem))
     else if scheduled_at \<noteq> None then ret (Rejected ''scheduled switchover is not implemented'')
     else if candidate = None \<and> \<not> successor then ret (Rejected ''no other running member can take over'')
     else execute_switchover candidate
   }"

definition handle_failover_command :: "string option \<Rightarrow> command_response eng" where
  "handle_failover_command candidate = do {
     problem \<leftarrow> gets_both (\<lambda>h w. Option.bind candidate (\<lambda>c. candidate_problem c h w));
     if problem \<noteq> None then ret (Rejected (the problem))
     else do {
       asked \<leftarrow> do_call True (Ev_Set_Failover (Some \<lparr>fo_leader = None, fo_candidate = candidate, fo_scheduled_at = None\<rparr>))
                  en_bool is_ok no_effect;
       ret (if is_ok asked then Accepted ''failover request submitted'' else Command_Error ''failover aborted'')
     }
   }"

definition stop_for_restart :: "bool \<Rightarrow> (string, unit) res eng" where
  "stop_for_restart holding =
    (if holding then do {
       publish_not_primary;
       r \<leftarrow> pg_stop ''fast'';
       publish_not_primary;
       set_stop_pending (\<not> is_ok r);
       ret r
     } else stop_after_demotion_write ''fast'')"

definition handle_restart_command :: "command_response eng" where
  "handle_restart_command = do {
     stale \<leftarrow> gets_both stale_generation;
     if stale then ret (Rejected ''restart refused: older history generation'')
     else do {
       held \<leftarrow> refresh_rewind_hold;
       if held then ret (Rejected ''held after a pg_rewind failure'')
       else do {
         holding \<leftarrow> gets_ha (\<lambda>h. h_is_leader h \<and> is_lock_owner h);
         prepared \<leftarrow> (if holding then ret (Ok ()) else prepare_standby_start);
         if \<not> is_ok prepared then ret (Command_Error ''not restarting: standby configuration not written'')
         else do {
           stopped \<leftarrow> stop_for_restart holding;
           if \<not> is_ok stopped then ret (Command_Error ''stop failed'')
           else do {
             started \<leftarrow> pg_start;
             if \<not> is_ok started then ret (Command_Error ''start failed'')
             else do {
               mod_ha (\<lambda>h. h\<lparr>h_dynamic := clear_pending_restart (h_dynamic h)\<rparr>);
               ret (Accepted ''PostgreSQL restarted'')
             }
           }
         }
       }
     }
   }"

definition handle_reinitialize_command :: "command_response eng" where
  "handle_reinitialize_command = do {
     is_leader \<leftarrow> gets_ha h_is_leader;
     if is_leader then ret (Rejected ''cannot reinitialize the leader node'')
     else do {
       primary \<leftarrow> gets_both (\<lambda>h w. w_running w \<and> pg_identity_of h w = Id_Primary);
       fenced \<leftarrow> (if primary
                 then fence_primary ''immediate''
                        ''stopped for reinitialize while running as a primary without the leader lock'' None
                 else do { _ \<leftarrow> pg_stop ''immediate''; ret (Ok ()) });
       if \<not> is_ok fenced then ret (Command_Error ''reinitialize: stop failed; data directory not removed'')
       else do {
         removed \<leftarrow> remove_data_directory;
         if \<not> is_ok removed then ret (Command_Error ''remove data dir failed'')
         else do {
           clear_rewind_hold;
           ret (Accepted ''node reinitialized'')
         }
       }
     }
   }"

definition handle_command :: "management_command \<Rightarrow> command_response eng" where
  "handle_command cmd = do {
     down \<leftarrow> gets_ha h_shutting_down;
     if down then ret (Rejected ''graceful shutdown in progress'')
     else (case cmd of
       Switchover leader candidate scheduled_at \<Rightarrow> handle_switchover_command leader candidate scheduled_at
     | Failover_Command candidate \<Rightarrow> handle_failover_command candidate
     | CancelSwitchover \<Rightarrow> ret (Accepted ''scheduled switchover cancelled'')
     | Restart \<Rightarrow> handle_restart_command
     | Reinitialize \<Rightarrow> handle_reinitialize_command)
   }"

fun handle_commands :: "management_command list \<Rightarrow> unit eng" where
  "handle_commands [] = ret ()"
| "handle_commands (cmd # cmds) = do {
     do_call False (Ev_Command cmd) (\<lambda>_ _. ()) (\<lambda>_. True) no_effect;
     response \<leftarrow> handle_command cmd;
     do_call True (Ev_Reply response) (\<lambda>_ _. ()) (\<lambda>_. True) no_effect;
     handle_commands cmds
   }"

definition process_commands :: "unit eng" where
  "process_commands = do {
     cmds \<leftarrow> gets_world w_commands;
     mod_world (\<lambda>w. w\<lparr>w_commands := []\<rparr>);
     handle_commands cmds
   }"

end
