(* ===== verification/Ha_Cycle.thy ===== *)
theory Ha_Cycle
  imports Ha_Commands
begin

text \<open>
  The HA cycle: \<open>run_cycle\<close> and \<open>run_cycle_bounded\<close> of \<open>crates/pg-ha-core/src/ha/mod.rs\<close>, with the
  handling of a stopped server, an empty data directory (\<open>bootstrap.rs\<close>), a failed DCS read and a new
  dynamic configuration. The bounded cycle is raced against the lease: when the lease expires while a
  call is pending, the cycle is dropped at that call and PostgreSQL is fenced.
\<close>

section \<open>Bootstrap\<close>

datatype bootstrap_result = InitializedAsPrimary | ClonedAsReplica | LostRace | Bootstrap_Failed

definition has_noclone_tag :: "member \<Rightarrow> bool" where
  "has_noclone_tag m = unwrap_or (Option.bind (mb_tags m ''noclone'') as_bool) False"

definition has_clonefrom_tag :: "member \<Rightarrow> bool" where
  "has_clonefrom_tag m = unwrap_or (Option.bind (mb_tags m ''clonefrom'') as_bool) False"

definition select_clone_source :: "cluster \<Rightarrow> string \<Rightarrow> member option" where
  "select_clone_source cl exclude_name =
    (let tagged = find (\<lambda>m. mb_name m \<noteq> exclude_name \<and> \<not> has_noclone_tag m \<and> has_clonefrom_tag m) (cl_members cl);
         leader = Option.bind (cl_leader cl) (\<lambda>l.
           find (\<lambda>m. mb_name m = ld_name l \<and> mb_name m \<noteq> exclude_name \<and> \<not> has_noclone_tag m) (cl_members cl));
         running = find (\<lambda>m. mb_name m \<noteq> exclude_name \<and> \<not> has_noclone_tag m \<and> mb_state m = Running) (cl_members cl)
     in if tagged \<noteq> None then tagged else if leader \<noteq> None then leader else running)"

definition cleanup_on_failure :: "unit eng" where
  "cleanup_on_failure = do { _ \<leftarrow> remove_data_directory; ret () }"

definition bootstrap_new_cluster :: "bootstrap_result eng" where
  "bootstrap_new_cluster = do {
     won \<leftarrow> bool_call Ev_Initialize;
     case won of
       Inl _ \<Rightarrow> ret Bootstrap_Failed
     | Inr False \<Rightarrow> ret LostRace
     | Inr True \<Rightarrow> do {
         created \<leftarrow> unit_call Ev_Bootstrap (\<lambda>w. w\<lparr>w_data_dir_empty := Ok False\<rparr>);
         if \<not> is_ok created then do { cleanup_on_failure; ret Bootstrap_Failed }
         else do {
           _ \<leftarrow> unit_call_sync Ev_Write_Pg_Config (\<lambda>w. w);
           started \<leftarrow> pg_start;
           if \<not> is_ok started then do { cleanup_on_failure; ret Bootstrap_Failed }
           else do {
             sql \<leftarrow> gets_ha (\<lambda>h. hc_post_bootstrap_sql (h_config h));
             (if sql \<noteq> [] then do { _ \<leftarrow> unit_call (Ev_Post_Bootstrap_Sql sql) (\<lambda>w. w); ret () } else ret ());
             dcs \<leftarrow> gets_ha (\<lambda>h. hc_bootstrap_config (h_config h));
             (case dcs of Some _ \<Rightarrow> do { _ \<leftarrow> bool_call Ev_Set_Config; ret () } | None \<Rightarrow> ret ());
             ret InitializedAsPrimary
           }
         }
       }
   }"

definition clone_from_member :: "bootstrap_result eng" where
  "clone_from_member = do {
     source \<leftarrow> gets_ha (\<lambda>h. select_clone_source (h_cluster h) (my_name h));
     case source of
       None \<Rightarrow> ret Bootstrap_Failed
     | Some m \<Rightarrow> do {
         copied \<leftarrow> unit_call (Ev_Basebackup (mb_conn_url m)) (\<lambda>w. w\<lparr>w_data_dir_empty := Ok False\<rparr>);
         if \<not> is_ok copied then do { cleanup_on_failure; ret Bootstrap_Failed }
         else do {
           _ \<leftarrow> unit_call_sync Ev_Write_Pg_Config (\<lambda>w. w);
           removed \<leftarrow> do_call False Ev_Remove_State_Files en_unit is_ok
                        (on_ok state_files_removed);
           conninfo \<leftarrow> gets_ha (\<lambda>h. build_primary_conninfo (mb_conn_url m) (hc_replication_user (h_config h))
                                     (hc_replication_password (h_config h)) (my_name h));
           configured \<leftarrow>
             (if \<not> is_ok removed \<or> conninfo = None then ret (Err ''standby configuration after clone failed'')
              else unit_call_sync (Ev_Standby_Config conninfo) (standby_config_written conninfo));
           if \<not> is_ok configured then do { cleanup_on_failure; ret Bootstrap_Failed }
           else ret ClonedAsReplica
         }
       }
   }"

section \<open>An empty data directory\<close>

definition after_bootstrap :: "cycle_result eng" where
  "after_bootstrap = do {
     _ \<leftarrow> observe_recovery;
     primary \<leftarrow> gets_ha (\<lambda>h. pg_in_recovery (h_pg h) = Some False);
     (if primary then set_role Primary else ret ());
     anchor \<leftarrow> lease_anchor_now;
     r \<leftarrow> bool_call Ev_Acquire;
     if granted r then do {
       set_is_leader True;
       extend_leader_lease anchor;
       _ \<leftarrow> touch_member;
       ret (Leader_Result ''bootstrapped new cluster as leader'')
     } else do {
       set_is_leader False;
       ret (Acquiring_Result ''bootstrapped but failed to acquire leader lock'')
     }
   }"

definition clone_and_start :: "cycle_result eng" where
  "clone_and_start = do {
     r \<leftarrow> clone_from_member;
     case r of
       ClonedAsReplica \<Rightarrow> do {
         started \<leftarrow> pg_start;
         if is_ok started then do {
           set_role Replica;
           reset_sync_cache;
           ret (Follower_Result ''cloned and started as replica'')
         } else ret (Error_Result ''start after clone failed'')
       }
     | Bootstrap_Failed \<Rightarrow> ret (Error_Result ''clone failed'')
     | _ \<Rightarrow> ret (Acquiring_Result ''waiting for leader to clone from'')
   }"

definition handle_empty_data_dir :: "cycle_result eng" where
  "handle_empty_data_dir = do {
     paused \<leftarrow> gets_ha h_is_paused;
     fresh \<leftarrow> gets_ha (\<lambda>h. is_unlocked (h_cluster h) \<and> cl_initialize (h_cluster h) = None);
     if paused then ret (Follower_Result ''data directory empty (paused)'')
     else if fresh then do {
       blocked \<leftarrow> gets_both watchdog_blocks_leadership;
       if blocked then do {
         _ \<leftarrow> touch_member;
         ret (Follower_Result ''not bootstrapping: watchdog'')
       } else do {
         r \<leftarrow> bootstrap_new_cluster;
         case r of
           InitializedAsPrimary \<Rightarrow> after_bootstrap
         | LostRace \<Rightarrow> ret (Acquiring_Result ''lost initialization race'')
         | Bootstrap_Failed \<Rightarrow> ret (Error_Result ''bootstrap failed'')
         | ClonedAsReplica \<Rightarrow> ret (Follower_Result ''cloned as replica'')
       }
     } else do {
       known \<leftarrow> gets_ha (\<lambda>h. has_member (h_cluster h) (my_name h) \<or> cl_members (h_cluster h) \<noteq> [] \<or>
                              cl_leader (h_cluster h) \<noteq> None);
       if known then clone_and_start else ret (Acquiring_Result ''waiting for leader to clone from'')
     }
   }"

section \<open>A stopped server\<close>

definition release_lock_of_stopped_server :: "bool eng" where
  "release_lock_of_stopped_server = do {
     r \<leftarrow> bool_call Ev_Release;
     case r of
       Inr _ \<Rightarrow> do {
         set_is_leader False;
         reset_sync_cache;
         ret True
       }
     | Inl _ \<Rightarrow> ret False
   }"

definition start_as_standby :: "cycle_result eng" where
  "start_as_standby = do {
     prepared \<leftarrow> prepare_standby_start;
     if \<not> is_ok prepared then ret (Error_Result ''not starting PostgreSQL: standby configuration not written'')
     else do {
       started \<leftarrow> pg_start;
       if is_ok started then do {
         mod_ha (\<lambda>h. h\<lparr>h_start_fail_count := 0\<rparr>);
         ret (Follower_Result ''started PostgreSQL, recovering'')
       } else do {
         mod_ha (\<lambda>h. h\<lparr>h_start_fail_count := h_start_fail_count h + 1\<rparr>);
         ret (Error_Result ''failed to start PostgreSQL'')
       }
     }
   }"

definition start_or_rejoin :: "cycle_result eng" where
  "start_or_rejoin = do {
     repeated \<leftarrow> gets_both (\<lambda>h w. h_start_fail_count h \<ge> 3 \<and> w_standby_signal w);
     if repeated then do {
       mod_ha (\<lambda>h. h\<lparr>h_start_fail_count := 0\<rparr>);
       leader \<leftarrow> gets_ha other_leader;
       case leader of
         Some n \<Rightarrow> rejoin_as_replica n
       | None \<Rightarrow> start_as_standby
     } else start_as_standby
   }"

definition handle_postgres_not_running :: "cycle_result eng" where
  "handle_postgres_not_running = do {
     mine \<leftarrow> gets_ha is_lock_owner;
     paused \<leftarrow> gets_ha h_is_paused;
     if mine \<and> paused then ret (Leader_Result ''postgres not running (paused)'')
     else do {
       released \<leftarrow> (if mine then release_lock_of_stopped_server else ret True);
       if \<not> released then ret (Error_Result ''not starting PostgreSQL: leader lock release failed'')
       else if paused then ret (Follower_Result ''postgres is not running (paused)'')
       else do {
         g \<leftarrow> enforce_generation;
         case g of
           Some r \<Rightarrow> ret r
         | None \<Rightarrow> do {
             held \<leftarrow> enforce_rewind_hold;
             case held of
               Some r \<Rightarrow> ret r
             | None \<Rightarrow> start_or_rejoin
           }
       }
     }
   }"

section \<open>DCS errors and dynamic configuration\<close>

definition handle_dcs_error :: "cycle_result eng" where
  "handle_dcs_error = do {
     leader \<leftarrow> gets_ha h_is_leader;
     if leader then do {
       set_is_leader False;
       reset_sync_cache;
       written \<leftarrow> prepare_demotion None (Some ''demoted because the DCS is unreachable'');
       _ \<leftarrow> stop_after_demotion_write ''fast'';
       set_role Replica;
       ret (Error_Result ''DCS unreachable: demoted'')
     } else do {
       retry \<leftarrow> gets_both (\<lambda>h w. h_stop_pending h \<and> w_running w);
       (if retry then do { _ \<leftarrow> retry_pending_stop ''fast''; ret () } else ret ());
       ret (Error_Result ''DCS unreachable'')
     }
   }"

definition apply_ha_params :: "global_config \<Rightarrow> ha \<Rightarrow> ha" where
  "apply_ha_params c h =
    (let cfg = (h_config h)\<lparr>hc_loop_wait := unwrap_or (gc_loop_wait c) (hc_loop_wait (h_config h)),
                            hc_ttl := unwrap_or (gc_ttl c) (hc_ttl (h_config h)),
                            hc_retry_timeout := unwrap_or (gc_retry_timeout c) (hc_retry_timeout (h_config h))\<rparr>
     in h\<lparr>h_config := cfg, h_dcs_ttl := max (hc_ttl cfg) 1\<rparr>)"

text \<open>An answer \<open>Inl\<close> is a failed read or a value that does not parse: both change nothing.\<close>

definition process_dynamic_config :: "unit eng" where
  "process_dynamic_config = do {
     r \<leftarrow> do_call True Ev_Get_Config en_config is_ok no_effect;
     case r of
       Inl _ \<Rightarrow> ret ()
     | Inr None \<Rightarrow> ret ()
     | Inr (Some c) \<Rightarrow> do {
         mod_ha (\<lambda>h. h\<lparr>h_is_paused := unwrap_or (gc_pause c) (h_is_paused h)\<rparr>);
         changes \<leftarrow> gets_ha (\<lambda>h. snd (apply_new_config (h_dynamic h) c));
         mod_ha (\<lambda>h. h\<lparr>h_dynamic := fst (apply_new_config (h_dynamic h) c)\<rparr>);
         if \<not> has_changes changes then ret ()
         else do {
           (if ch_ha_params_changed changes then mod_ha (apply_ha_params c) else ret ());
           up \<leftarrow> is_running;
           if needs_reload changes \<and> up then do { _ \<leftarrow> unit_call Ev_Reload (\<lambda>w. w); ret () } else ret ()
         }
       }
   }"

section \<open>The cycle\<close>

definition paused_in_view :: "cluster \<Rightarrow> bool" where
  "paused_in_view cl =
    unwrap_or (Option.bind (Option.bind (cl_config cl) (\<lambda>c. cc_data c ''pause'')) as_bool) False"

definition load_cluster :: "cluster \<Rightarrow> unit eng" where
  "load_cluster cl = do {
     mod_ha (\<lambda>h. h\<lparr>h_cluster := cl, h_is_paused := paused_in_view cl\<rparr>);
     mine \<leftarrow> gets_ha is_lock_owner;
     if mine then ret ()
     else do {
       mod_ha (\<lambda>h. h\<lparr>h_promote_pending := None, h_pending_history := None\<rparr>);
       set_leader_lease None
     }
   }"

definition decide :: "cycle_result eng" where
  "decide = do {
     unlocked \<leftarrow> gets_ha (\<lambda>h. is_unlocked (h_cluster h));
     if unlocked then process_unhealthy_cluster else process_healthy_cluster
   }"

definition cycle_running :: "cycle_result eng" where
  "cycle_running = do {
     _ \<leftarrow> observe_recovery;
     role \<leftarrow> gets_both (\<lambda>h w. reconcile_role (pg_role (h_pg h)) (pg_identity_of h w));
     set_role role;
     stuck \<leftarrow> gets_ha (\<lambda>h. h_shutting_down h \<and> h_stop_pending h \<and> \<not> is_lock_owner h);
     if stuck then do {
       _ \<leftarrow> retry_pending_stop ''immediate'';
       ret (Error_Result ''graceful shutdown: PostgreSQL stop is still pending'')
     } else decide
   }"

definition cycle_stopped :: "cycle_result eng" where
  "cycle_stopped = do {
     set_stop_pending False;
     down \<leftarrow> gets_ha h_shutting_down;
     if down then ret (Follower_Result ''PostgreSQL stopped; graceful shutdown finishing'')
     else handle_postgres_not_running
   }"

definition run_cycle :: "cycle_result eng" where
  "run_cycle = do {
     process_commands;
     r \<leftarrow> do_call True Ev_Get_Cluster en_cluster is_ok no_effect;
     case r of
       Inl _ \<Rightarrow> handle_dcs_error
     | Inr cl \<Rightarrow> do {
         load_cluster cl;
         process_dynamic_config;
         publish_fence_deadline;
         registered \<leftarrow> gets_ha (\<lambda>h. has_member (h_cluster h) (my_name h));
         (if registered then ret () else do { _ \<leftarrow> touch_member; ret () });
         empty' \<leftarrow> gets_world w_data_dir_empty;
         case empty' of
           Inl _ \<Rightarrow> ret (Error_Result ''data directory error'')
         | Inr True \<Rightarrow> handle_empty_data_dir
         | Inr False \<Rightarrow> do {
             up \<leftarrow> is_running;
             if up then cycle_running else cycle_stopped
           }
       }
   }"

section \<open>The race against the lease\<close>

text \<open>
  Whether the expiry of the lease wins the race while this call is pending: the published deadline
  has passed when it returns and the environment lets the timer fire.
\<close>

definition expires_during :: "env \<Rightarrow> call \<Rightarrow> bool" where
  "expires_during e c \<longleftrightarrow> tc_await c \<and>
     is_some_and (h_fence_deadline (tc_ha c)) (\<lambda>l. lease_expired l (tc_resume c)) \<and> en_fires e (tc_step c)"

text \<open>The run dropped at a call: the engine as it was then, the call's effect left to the environment.\<close>

definition dropped_at :: "nat \<Rightarrow> sys \<Rightarrow> sys" where
  "dropped_at i s =
    s\<lparr>sy_ha := tc_ha (sy_trace s ! i),
      sy_world := en_dropped (sy_env s) (tc_step (sy_trace s ! i)) (tc_resume (sy_trace s ! i)),
      sy_trace := take (Suc i) (sy_trace s)\<rparr>"

definition first_expiry :: "nat \<Rightarrow> sys \<Rightarrow> nat option" where
  "first_expiry start s = find (\<lambda>i. expires_during (sy_env s) (sy_trace s ! i)) [start ..< length (sy_trace s)]"

definition race_lease :: "'a eng \<Rightarrow> 'a option eng" where
  "race_lease m = do {
     publish_fence_deadline;
     expired \<leftarrow> gets_both (\<lambda>h w. is_some_and (h_fence_deadline h) (\<lambda>l. lease_expired l w));
     if expired then ret None
     else State (\<lambda>s. case run_state m s of (r, s') \<Rightarrow>
       (case first_expiry (length (sy_trace s)) s' of
          None \<Rightarrow> (Some r, s')
        | Some i \<Rightarrow> (None, dropped_at i s')))
   }"

definition run_cycle_bounded :: "cycle_result eng" where
  "run_cycle_bounded = do {
     finished \<leftarrow> race_lease run_cycle;
     case finished of
       Some r \<Rightarrow> do {
         leader \<leftarrow> gets_ha h_is_leader;
         (if leader then ret () else set_leader_lease None);
         reconcile_watchdog;
         ret r
       }
     | None \<Rightarrow> do {
         _ \<leftarrow> fence_for_lost_lease;
         ret (Error_Result ''leader lease expired before the lock renewal completed; fenced'')
       }
   }"

end
