(* ===== verification/Ha_Shutdown.thy ===== *)
theory Ha_Shutdown
  imports Ha_Cycle
begin

text \<open>
  Graceful shutdown (\<open>crates/pg-ha-core/src/ha/shutdown.rs\<close>) and the process around the engine
  (\<open>src/main.rs\<close>): the HA loop that a signal drops, the shutdown, and the loop that keeps the process
  alive while a server that may be writable cannot be stopped.
\<close>

datatype shutdown_outcome = Released | StoppedLockKept | Fenced | StandbyLeftRunning | KeepRunning

definition begin_shutdown :: "unit eng" where
  "begin_shutdown = do {
     mod_ha (\<lambda>h. h\<lparr>h_shutting_down := True, h_pg := (h_pg h)\<lparr>pg_starts_blocked := True\<rparr>\<rparr>);
     publish_snapshot
   }"

definition watchdog_after_shutdown :: "shutdown_outcome \<Rightarrow> unit eng" where
  "watchdog_after_shutdown outcome =
    (case outcome of
       KeepRunning \<Rightarrow> reconcile_watchdog
     | StandbyLeftRunning \<Rightarrow> watchdog_disarm
     | _ \<Rightarrow> reconcile_watchdog)"

definition checkpoint_and_stop :: "unit eng" where
  "checkpoint_and_stop = do {
     leader \<leftarrow> gets_ha h_is_leader;
     (if leader then do { _ \<leftarrow> unit_call Ev_Checkpoint (\<lambda>w. w); ret () } else ret ());
     _ \<leftarrow> stop_postgres_for_shutdown;
     ret ()
   }"

definition stop_postgres_within_lease :: "bool eng" where
  "stop_postgres_within_lease = do {
     finished \<leftarrow> race_lease checkpoint_and_stop;
     case finished of
       Some _ \<Rightarrow> ret True
     | None \<Rightarrow> do {
         _ \<leftarrow> fence_for_lost_lease;
         ret False
       }
   }"

definition finish_shutdown :: "shutdown_outcome eng" where
  "finish_shutdown = do {
     process_commands;
     up \<leftarrow> is_running;
     if up then do {
       keep \<leftarrow> gets_ha (\<lambda>h. h_stop_pending h \<or> h_is_leader h);
       if keep then do {
         set_stop_pending True;
         ret KeepRunning
       } else ret StandbyLeftRunning
     } else do {
       released \<leftarrow> release_leader_lock_if_stopped;
       ret (if released then Released else StoppedLockKept)
     }
   }"

definition outcome_after_fence :: "shutdown_outcome eng" where
  "outcome_after_fence = do {
     process_commands;
     up \<leftarrow> is_running;
     ret (if up then KeepRunning else Fenced)
   }"

text \<open>The number of drain rounds is an argument, as in \<open>drain_rounds\<close>.\<close>

definition graceful_shutdown :: "nat \<Rightarrow> nat \<Rightarrow> shutdown_outcome option eng" where
  "graceful_shutdown rounds drain = do {
     begin_shutdown;
     fenced \<leftarrow> shutdown_fence_if_lease_expired;
     drained \<leftarrow> (if fenced then ret (Some True) else drain_renewing_leader_lock rounds drain);
     case drained of
       None \<Rightarrow> ret None
     | Some fenced' \<Rightarrow> do {
         outcome \<leftarrow>
           (if fenced' then outcome_after_fence
            else do {
              stopped \<leftarrow> stop_postgres_within_lease;
              if stopped then finish_shutdown else outcome_after_fence
            });
         watchdog_after_shutdown outcome;
         ret (Some outcome)
       }
   }"

definition continue_shutdown :: "shutdown_outcome eng" where
  "continue_shutdown = do {
     outcome \<leftarrow> finish_shutdown;
     watchdog_after_shutdown outcome;
     ret outcome
   }"

section \<open>The process\<close>

text \<open>\<open>ha_cycle\<close>: a bounded cycle, then the REST state. The tick and the proxy's member list are left out.\<close>

definition ha_cycle :: "cycle_result eng" where
  "ha_cycle = do {
     r \<leftarrow> run_cycle_bounded;
     publish_snapshot;
     ret r
   }"

text \<open>
  \<open>keep_running_until_stopped\<close>, at most the given number of cycles: \<open>None\<close> when it would still go on.
\<close>

fun keep_running_until_stopped :: "nat \<Rightarrow> shutdown_outcome option eng" where
  "keep_running_until_stopped 0 = ret None"
| "keep_running_until_stopped (Suc k) = do {
     _ \<leftarrow> ha_cycle;
     outcome \<leftarrow> continue_shutdown;
     if outcome \<noteq> KeepRunning then ret (Some outcome) else keep_running_until_stopped k
   }"

fun ha_loop :: "nat \<Rightarrow> unit eng" where
  "ha_loop 0 = ret ()"
| "ha_loop (Suc k) = do {
     _ \<leftarrow> ha_cycle;
     ha_loop k
   }"

text \<open>
  The signal drops the loop wherever it waits: at the given call if that is an \<open>await\<close>, else when the
  run is over.
\<close>

definition until_signal :: "nat \<Rightarrow> 'a eng \<Rightarrow> unit eng" where
  "until_signal i m = State (\<lambda>s. case run_state m s of (_, s') \<Rightarrow>
     (let n = length (sy_trace s) + i
      in if n < length (sy_trace s') \<and> tc_await (sy_trace s' ! n) then ((), dropped_at n s') else ((), s')))"

text \<open>\<open>main\<close>: the loop until the signal, the shutdown, and the loop again while it could not finish.\<close>

definition shutdown_sequence :: "nat \<Rightarrow> nat \<Rightarrow> nat \<Rightarrow> shutdown_outcome option eng" where
  "shutdown_sequence rounds drain again = do {
     outcome \<leftarrow> graceful_shutdown rounds drain;
     if outcome = Some KeepRunning then keep_running_until_stopped again else ret outcome
   }"

definition ha_main :: "nat \<Rightarrow> nat \<Rightarrow> nat \<Rightarrow> nat \<Rightarrow> nat \<Rightarrow> shutdown_outcome option eng" where
  "ha_main cycles signal rounds drain again = do {
     until_signal signal (ha_loop cycles);
     shutdown_sequence rounds drain again
   }"

end
