(* ===== verification/Ha_Logic.thy ===== *)
theory Ha_Logic
  imports Ha_Shutdown
begin

text \<open>
  A small program logic for engine functions. \<open>wp m Q s\<close> says that \<open>m\<close>, run from \<open>s\<close>, ends with \<open>Q\<close>; every
  engine function ends, so there is no partial-correctness reading. \<open>within R m\<close> says that \<open>m\<close> only moves
  along the relation \<open>R\<close>; the locale \<open>run_relation\<close> proves once, for every reflexive and transitive \<open>R\<close>,
  how such a statement follows from the parts of a function.
\<close>

named_theorems wp_intros \<open>rules that run an engine function\<close>
named_theorems within_intros \<open>rules that decompose an engine function\<close>

definition wp :: "'a eng \<Rightarrow> ('a \<Rightarrow> sys \<Rightarrow> bool) \<Rightarrow> sys \<Rightarrow> bool" where
  "wp m Q s = (case run_state m s of (r, s') \<Rightarrow> Q r s')"

lemma wpD: "wp m Q s \<Longrightarrow> run_state m s = (r, s') \<Longrightarrow> Q r s'"
  by (simp add: wp_def)

lemma wp_conseq: "wp m Q s \<Longrightarrow> (\<And>r s'. Q r s' \<Longrightarrow> Q' r s') \<Longrightarrow> wp m Q' s"
  by (simp add: wp_def split: prod.splits)

section \<open>Primitives\<close>

lemma run_ret [simp]: "run_state (ret x) s = (x, s)"
  by (simp add: ret_def)

lemma run_gets_ha [simp]: "run_state (gets_ha f) s = (f (sy_ha s), s)"
  by (simp add: gets_ha_def)

lemma run_gets_world [simp]: "run_state (gets_world f) s = (f (sy_world s), s)"
  by (simp add: gets_world_def)

lemma run_gets_both [simp]: "run_state (gets_both f) s = (f (sy_ha s) (sy_world s), s)"
  by (simp add: gets_both_def)

lemma run_gets_env [simp]: "run_state (gets_env f) s = (f (sy_env s) (sy_step s), s)"
  by (simp add: gets_env_def)

lemma run_mod_ha [simp]: "run_state (mod_ha f) s = ((), s\<lparr>sy_ha := f (sy_ha s)\<rparr>)"
  by (simp add: mod_ha_def)

lemma run_mod_world [simp]: "run_state (mod_world f) s = ((), s\<lparr>sy_world := f (sy_world s)\<rparr>)"
  by (simp add: mod_world_def)

lemma run_is_running [simp]: "run_state is_running s = (w_running (sy_world s), s)"
  by (simp add: is_running_def)

text \<open>The call recorded by \<open>do_call\<close>, and the state after it.\<close>

definition issued :: "sys \<Rightarrow> call \<Rightarrow> bool" where
  "issued s c \<longleftrightarrow> tc_ha c = sy_ha s \<and> tc_world c = sy_world s \<and> tc_step c = sy_step s"

definition after_call :: "sys \<Rightarrow> call \<Rightarrow> sys" where
  "after_call s c = s\<lparr>sy_world := tc_resume c, sy_step := Suc (sy_step s), sy_trace := sy_trace s @ [c]\<rparr>"

lemma after_call_simps [simp]:
  "sy_ha (after_call s c) = sy_ha s" "sy_env (after_call s c) = sy_env s"
  "sy_trace (after_call s c) = sy_trace s @ [c]" "sy_world (after_call s c) = tc_resume c"
  "sy_step (after_call s c) = Suc (sy_step s)"
  by (simp_all add: after_call_def)

lemma run_do_call:
  "run_state (do_call aw ev answer ok effect) s =
    (let r = answer (sy_env s) (sy_step s);
         w = effect r (en_move (sy_env s) (sy_step s) (sy_world s))
     in (r, after_call s \<lparr>tc_event = ev, tc_ha = sy_ha s, tc_world = sy_world s, tc_await = aw,
                         tc_step = sy_step s, tc_resume = w, tc_ok = ok r\<rparr>))"
  by (simp add: do_call_def Let_def after_call_def)

section \<open>Running a function\<close>

lemma wp_call:
  assumes "\<And>r c. issued s c \<Longrightarrow> tc_event c = ev \<Longrightarrow> tc_await c = aw \<Longrightarrow> tc_ok c = ok r \<Longrightarrow>
    tc_resume c = effect r (en_move (sy_env s) (sy_step s) (sy_world s)) \<Longrightarrow> r = answer (sy_env s) (sy_step s) \<Longrightarrow>
    Q r (after_call s c)"
  shows "wp (do_call aw ev answer ok effect) Q s"
  unfolding wp_def run_do_call Let_def prod.case by (rule assms) (simp_all add: issued_def)

lemma wp_sleep:
  assumes "\<And>c. issued s c \<Longrightarrow> tc_event c = Ev_Sleep d \<Longrightarrow> w_mono (sy_world s) + d \<le> w_mono (tc_resume c) \<Longrightarrow> Q () (after_call s c)"
  shows "wp (sleep_ms d) Q s"
  unfolding wp_def sleep_ms_def state.sel run_do_call Let_def prod.case
  by (rule assms) (simp_all add: issued_def)

lemma wp_bind [wp_intros]: "wp m (\<lambda>r. wp (f r) Q) s \<Longrightarrow> wp (State_Monad.bind m f) Q s"
  by (simp add: wp_def split: prod.splits)

lemma wp_ret [wp_intros]: "Q x s \<Longrightarrow> wp (ret x) Q s"
  by (simp add: wp_def)

lemma wp_gets [wp_intros]:
  "Q (f (sy_ha s)) s \<Longrightarrow> wp (gets_ha f) Q s" "Q (g (sy_world s)) s \<Longrightarrow> wp (gets_world g) Q s"
  "Q (k (sy_ha s) (sy_world s)) s \<Longrightarrow> wp (gets_both k) Q s" "Q (l (sy_env s) (sy_step s)) s \<Longrightarrow> wp (gets_env l) Q s"
  "Q' (w_running (sy_world s)) s \<Longrightarrow> wp is_running Q' s"
  by (simp_all add: wp_def)

lemma wp_mod:
  "Q () (s\<lparr>sy_ha := f (sy_ha s)\<rparr>) \<Longrightarrow> wp (mod_ha f) Q s"
  "Q () (s\<lparr>sy_world := g (sy_world s)\<rparr>) \<Longrightarrow> wp (mod_world g) Q s"
  by (simp_all add: wp_def)

lemma wp_assigned:
  assumes "\<And>s'. sy_ha s' = f (sy_ha s) \<Longrightarrow> sy_trace s' = sy_trace s \<Longrightarrow> sy_world s' = sy_world s \<Longrightarrow> sy_env s' = sy_env s \<Longrightarrow>
    sy_step s' = sy_step s \<Longrightarrow> Q () s'"
  shows "wp (mod_ha f) Q s"
  by (rule wp_mod, rule assms) simp_all

lemma wp_answered:
  assumes "\<And>r c s'. sy_ha s' = sy_ha s \<Longrightarrow> sy_trace s' = sy_trace s @ [c] \<Longrightarrow> sy_env s' = sy_env s \<Longrightarrow> tc_event c = ev \<Longrightarrow>
    tc_ok c = ok r \<Longrightarrow> tc_ha c = sy_ha s \<Longrightarrow> tc_world c = sy_world s \<Longrightarrow> r = answer (sy_env s) (sy_step s) \<Longrightarrow> sy_step s' = Suc (sy_step s) \<Longrightarrow>
    sy_world s' = effect r (en_move (sy_env s) (sy_step s) (sy_world s)) \<Longrightarrow> Q r s'"
  shows "wp (do_call aw ev answer ok effect) Q s"
proof (rule wp_call)
  fix r c
  assume "issued s c" "tc_event c = ev" "tc_ok c = ok r" "r = answer (sy_env s) (sy_step s)"
    "tc_resume c = effect r (en_move (sy_env s) (sy_step s) (sy_world s))"
  then show "Q r (after_call s c)" by (intro assms [of "after_call s c" c r]) (auto simp: issued_def)
qed

lemma wp_called:
  assumes "\<And>r c s'. sy_ha s' = sy_ha s \<Longrightarrow> sy_trace s' = sy_trace s @ [c] \<Longrightarrow> sy_env s' = sy_env s \<Longrightarrow> tc_event c = ev \<Longrightarrow>
    tc_ok c = ok r \<Longrightarrow> tc_world c = sy_world s \<Longrightarrow> sy_world s' = effect r (en_move (sy_env s) (sy_step s) (sy_world s)) \<Longrightarrow> Q r s'"
  shows "wp (do_call aw ev answer ok effect) Q s"
  by (rule wp_answered, rule assms)

lemma wp_if [wp_intros]: "(b \<Longrightarrow> wp m Q s) \<Longrightarrow> (\<not> b \<Longrightarrow> wp n Q s) \<Longrightarrow> wp (if b then m else n) Q s"
  by simp

lemma wp_let [wp_intros]: "wp (f x) Q s \<Longrightarrow> wp (Let x f) Q s"
  by simp

lemma wp_case_option [wp_intros]:
  "(x = None \<Longrightarrow> wp m Q s) \<Longrightarrow> (\<And>a. x = Some a \<Longrightarrow> wp (f a) Q s) \<Longrightarrow> wp (case_option m f x) Q s"
  by (cases x) simp_all

lemma wp_case_sum [wp_intros]:
  "(\<And>e. x = Inl e \<Longrightarrow> wp (g e) Q s) \<Longrightarrow> (\<And>a. x = Inr a \<Longrightarrow> wp (f a) Q s) \<Longrightarrow> wp (case_sum g f x) Q s"
  by (cases x) simp_all

lemma wp_case_bool [wp_intros]:
  "(b \<Longrightarrow> wp m Q s) \<Longrightarrow> (\<not> b \<Longrightarrow> wp n Q s) \<Longrightarrow> wp (case_bool m n b) Q s"
  by (cases b) simp_all

lemma wp_case_prod [wp_intros]:
  "(\<And>a b. x = (a, b) \<Longrightarrow> wp (f a b) Q s) \<Longrightarrow> wp (case_prod f x) Q s"
  by (cases x) simp

lemma wp_case_cmd [wp_intros]:
  "(x = Cmd_Ok \<Longrightarrow> wp m Q s) \<Longrightarrow> (\<And>e. x = Cmd_Failed e \<Longrightarrow> wp (f e) Q s) \<Longrightarrow>
   (\<And>e. x = Cmd_NotRun e \<Longrightarrow> wp (g e) Q s) \<Longrightarrow> wp (case_cmd_outcome m f g x) Q s"
  by (cases x) simp_all

section \<open>Functions that move along a relation\<close>

definition within :: "(sys \<Rightarrow> sys \<Rightarrow> bool) \<Rightarrow> 'a eng \<Rightarrow> bool" where
  "within R m \<longleftrightarrow> (\<forall>s. wp m (\<lambda>_. R s) s)"

lemma withinI: "(\<And>s. wp m (\<lambda>_. R s) s) \<Longrightarrow> within R m"
  by (simp add: within_def)

lemma wp_within: "within R m \<Longrightarrow> (\<And>r s'. R s s' \<Longrightarrow> Q r s') \<Longrightarrow> wp m Q s"
  unfolding within_def by (blast intro: wp_conseq)

lemma within_mono: "within R m \<Longrightarrow> (\<And>s s'. R s s' \<Longrightarrow> R' s s') \<Longrightarrow> within R' m"
  unfolding within_def by (blast intro: wp_conseq)

lemma within_call:
  "(\<And>s c. issued s c \<Longrightarrow> tc_event c = ev \<Longrightarrow> R s (after_call s c)) \<Longrightarrow> within R (do_call aw ev answer ok effect)"
  by (rule withinI, rule wp_call)

lemma within_sleep:
  "(\<And>s c. issued s c \<Longrightarrow> tc_event c = Ev_Sleep d \<Longrightarrow> R s (after_call s c)) \<Longrightarrow> within R (sleep_ms d)"
  by (rule withinI, rule wp_sleep)

lemma within_mod_ha: "(\<And>s. R s (s\<lparr>sy_ha := f (sy_ha s)\<rparr>)) \<Longrightarrow> within R (mod_ha f)"
  by (rule withinI, rule wp_mod)

lemma within_if [within_intros]: "(b \<Longrightarrow> within R m) \<Longrightarrow> (\<not> b \<Longrightarrow> within R n) \<Longrightarrow> within R (if b then m else n)"
  by simp

lemma within_let [within_intros]: "within R (f x) \<Longrightarrow> within R (Let x f)"
  by simp

lemma within_case_option [within_intros]:
  "(x = None \<Longrightarrow> within R m) \<Longrightarrow> (\<And>a. x = Some a \<Longrightarrow> within R (f a)) \<Longrightarrow> within R (case_option m f x)"
  by (cases x) simp_all

lemma within_case_sum [within_intros]:
  "(\<And>e. x = Inl e \<Longrightarrow> within R (g e)) \<Longrightarrow> (\<And>a. x = Inr a \<Longrightarrow> within R (f a)) \<Longrightarrow> within R (case_sum g f x)"
  by (cases x) simp_all

lemma within_case_bool [within_intros]:
  "(b \<Longrightarrow> within R m) \<Longrightarrow> (\<not> b \<Longrightarrow> within R n) \<Longrightarrow> within R (case_bool m n b)"
  by (cases b) simp_all

lemma within_case_prod [within_intros]:
  "(\<And>a b. x = (a, b) \<Longrightarrow> within R (f a b)) \<Longrightarrow> within R (case_prod f x)"
  by (cases x) simp

locale run_relation =
  fixes R :: "sys \<Rightarrow> sys \<Rightarrow> bool"
  assumes R_refl: "R s s"
    and R_trans: "R s t \<Longrightarrow> R t u \<Longrightarrow> R s u"
begin

lemma within_bind [within_intros]:
  assumes "within R m" "\<And>r. within R (f r)"
  shows "within R (State_Monad.bind m f)"
proof (rule withinI, rule wp_bind, rule wp_within [OF assms(1)])
  fix s r t assume "R s t"
  then show "wp (f r) (\<lambda>_. R s) t"
    using assms(2) by (auto intro: wp_within R_trans)
qed

lemma within_ret [within_intros]: "within R (ret x)"
  by (rule withinI, rule wp_ret, rule R_refl)

lemma within_gets [within_intros]:
  "within R (gets_ha f)" "within R (gets_world g)" "within R (gets_both k)" "within R (gets_env l)" "within R is_running"
  by (rule withinI, rule wp_gets, rule R_refl)+

end

end
