(* ===== verification/Ha_Contract.thy ===== *)
theory Ha_Contract
  imports Ha_Logic
begin

text \<open>
  The contract of the engine with the outside: the guard under which each call that can do harm is
  issued, and the proof that every engine function respects it. The locale \<open>engine_invariant\<close> states
  what a predicate on states must satisfy to survive guarded calls, assignments, lease grants and the
  dropping of a cycle; the engine functions then keep it, whatever the environment answers.
\<close>

section \<open>Guards\<close>

definition holds_lock :: "ha \<Rightarrow> bool" where
  "holds_lock h \<longleftrightarrow> h_is_leader h \<and> is_lock_owner h"

fun is_publish :: "event \<Rightarrow> bool" where
  "is_publish (Ev_Publish _) = True"
| "is_publish _ = False"

fun writes_signal :: "event \<Rightarrow> bool" where
  "writes_signal (Ev_Standby_Config _) = True"
| "writes_signal Ev_Standby_Signal = True"
| "writes_signal _ = False"

text \<open>Calls after which \<open>standby.signal\<close> may be gone although it was written before.\<close>

fun loses_signal :: "event \<Rightarrow> bool" where
  "loses_signal Ev_Start = True"
| "loses_signal (Ev_Promote _) = True"
| "loses_signal (Ev_Rewind _) = True"
| "loses_signal (Ev_Basebackup _) = True"
| "loses_signal Ev_Bootstrap = True"
| "loses_signal Ev_Remove_Data = True"
| "loses_signal _ = False"

definition standby_prepared :: "call list \<Rightarrow> bool" where
  "standby_prepared tr = foldl (\<lambda>b c. if writes_signal (tc_event c) \<and> tc_ok c then True
     else if loses_signal (tc_event c) then False else b) False tr"

text \<open>The last call but publishing was an attempt to write \<open>standby.signal\<close>.\<close>

definition signal_attempted :: "call list \<Rightarrow> bool" where
  "signal_attempted tr = (case dropWhile (\<lambda>c. is_publish (tc_event c)) (rev tr) of
     [] \<Rightarrow> False | c # _ \<Rightarrow> writes_signal (tc_event c))"

fun not_primary_snapshot :: "event \<Rightarrow> bool" where
  "not_primary_snapshot (Ev_Publish snap) \<longleftrightarrow> \<not> as_is_leader snap \<and> as_role snap \<noteq> Primary"
| "not_primary_snapshot _ = False"

definition told_not_primary :: "call list \<Rightarrow> bool" where
  "told_not_primary tr \<longleftrightarrow> tr \<noteq> [] \<and> not_primary_snapshot (tc_event (last tr))"

text \<open>The last call but the write of the configuration files created the cluster.\<close>

definition bootstrapped :: "call list \<Rightarrow> bool" where
  "bootstrapped tr = (case dropWhile (\<lambda>c. tc_event c = Ev_Write_Pg_Config) (rev tr) of
     [] \<Rightarrow> False | c # _ \<Rightarrow> tc_event c = Ev_Bootstrap \<and> tc_ok c)"

text \<open>The command taken last from the queue, and not yet answered, is a restart.\<close>

definition serving_restart :: "call list \<Rightarrow> bool" where
  "serving_restart tr = foldl (\<lambda>b c. case tc_event c of Ev_Command cmd \<Rightarrow> cmd = Restart | Ev_Reply _ \<Rightarrow> False | _ \<Rightarrow> b) False tr"

text \<open>The lock holder restarts its own server on command, outside a shutdown.\<close>

definition restarting :: "call list \<Rightarrow> ha \<Rightarrow> bool" where
  "restarting tr h \<longleftrightarrow> serving_restart tr \<and> holds_lock h \<and> \<not> h_shutting_down h"

definition lease_held :: "ha \<Rightarrow> world \<Rightarrow> bool" where
  "lease_held h w \<longleftrightarrow> (\<exists>l. h_leader_lease h = Some l \<and> (h_is_paused h \<or> \<not> lease_expired l w))"

definition watchdog_armed :: "ha \<Rightarrow> bool" where
  "watchdog_armed h \<longleftrightarrow> (hc_watchdog_mode (h_config h) = Watchdog_Required \<longrightarrow> wd_active (h_watchdog h))"

definition guarded :: "call list \<Rightarrow> call \<Rightarrow> bool" where
  "guarded pre c =
    (let h = tc_ha c; w = tc_world c
     in case tc_event c of
          Ev_Start \<Rightarrow> \<not> pg_starts_blocked (h_pg h) \<and> (standby_prepared pre \<or> holds_lock h \<or> bootstrapped pre)
        | Ev_Stop _ obs \<Rightarrow>
            obs = Some False \<and> w_running w \<longrightarrow>
              told_not_primary pre \<and> (signal_attempted pre \<or> h_stop_pending h \<or> restarting pre h)
        | Ev_Promote obs \<Rightarrow>
            obs = Some True \<and> h_is_leader h \<and> h_promote_pending h \<noteq> None \<and> lease_held h w \<and> watchdog_armed h
        | Ev_Release \<Rightarrow> \<not> w_running w \<or> pg_in_recovery (h_pg h) = Some True
        | Ev_Renew \<Rightarrow> is_lock_owner h
        | Ev_Acquire \<Rightarrow>
            is_unlocked (h_cluster h) \<and> \<not> h_is_paused h \<and>
            (election_stance_of (pg_identity_of h w) (h_stop_pending h) = Es_Participate \<and> should_attempt (ha_view_of h w) \<or>
             cl_initialize (h_cluster h) = None)
        | Ev_Write_Timeline _ _ \<Rightarrow> h_is_leader h
        | Ev_Set_Sync _ \<Rightarrow> h_is_leader h
        | Ev_Alter_Sync _ \<Rightarrow> h_is_leader h
        | Ev_Write_History _ _ \<Rightarrow> h_is_leader h
        | Ev_Publish snap \<Rightarrow> as_is_leader snap \<longrightarrow> snap = api_snapshot_of h w
        | _ \<Rightarrow> True)"

fun harmless :: "event \<Rightarrow> bool" where
  "harmless Ev_Start = False"
| "harmless (Ev_Stop _ _) = False"
| "harmless (Ev_Promote _) = False"
| "harmless Ev_Release = False"
| "harmless Ev_Renew = False"
| "harmless Ev_Acquire = False"
| "harmless (Ev_Write_Timeline _ _) = False"
| "harmless (Ev_Set_Sync _) = False"
| "harmless (Ev_Alter_Sync _) = False"
| "harmless (Ev_Write_History _ _) = False"
| "harmless (Ev_Rewind _) = False"
| "harmless (Ev_Basebackup _) = False"
| "harmless Ev_Bootstrap = False"
| "harmless Ev_Remove_Data = False"
| "harmless (Ev_Standby_Config _) = False"
| "harmless Ev_Standby_Signal = False"
| "harmless (Ev_Command _) = False"
| "harmless (Ev_Reply _) = False"
| "harmless (Ev_Publish snap) = (\<not> as_is_leader snap)"
| "harmless _ = True"

lemma harmless_guarded: "harmless (tc_event c) \<Longrightarrow> guarded pre c"
  by (cases "tc_event c") (simp_all add: guarded_def)

lemma harmless_not_signal: "harmless e \<Longrightarrow> \<not> writes_signal e \<and> \<not> loses_signal e"
  by (cases e) simp_all

lemma standby_prepared_snoc:
  "standby_prepared (tr @ [c]) = (if writes_signal (tc_event c) \<and> tc_ok c then True
     else if loses_signal (tc_event c) then False else standby_prepared tr)"
  by (simp add: standby_prepared_def)

lemma signal_attempted_snoc:
  "signal_attempted (tr @ [c]) = (if is_publish (tc_event c) then signal_attempted tr else writes_signal (tc_event c))"
  by (simp add: signal_attempted_def)

lemma serving_restart_snoc:
  "serving_restart (tr @ [c]) = (case tc_event c of Ev_Command cmd \<Rightarrow> cmd = Restart | Ev_Reply _ \<Rightarrow> False | _ \<Rightarrow> serving_restart tr)"
  unfolding serving_restart_def by simp

section \<open>Background work\<close>

text \<open>What housekeeping leaves alone: everything but caches, samples, the handle and the watchdog.\<close>

definition front :: "ha \<Rightarrow> ha_config \<times> u64 \<times> cluster \<times> bool \<times> bool \<times> dynamic_config_state \<times> bool \<times> leader_lease option \<times> bool \<times> bool" where
  "front h = (h_config h, h_dcs_ttl h, h_cluster h, h_is_leader h, h_is_paused h, h_dynamic h, h_stop_pending h,
     h_leader_lease h, h_shutting_down h, pg_starts_blocked (h_pg h))"

lemma frontD:
  assumes "front a = front b"
  shows "h_config a = h_config b" "h_dcs_ttl a = h_dcs_ttl b" "h_cluster a = h_cluster b"
    "h_is_leader a = h_is_leader b" "h_is_paused a = h_is_paused b" "h_dynamic a = h_dynamic b"
    "h_stop_pending a = h_stop_pending b" "h_leader_lease a = h_leader_lease b"
    "h_shutting_down a = h_shutting_down b" "pg_starts_blocked (h_pg a) = pg_starts_blocked (h_pg b)"
    "is_lock_owner a = is_lock_owner b" "holds_lock a = holds_lock b" "my_name a = my_name b"
  using assms by (simp_all add: front_def holds_lock_def is_lock_owner_def my_name_def)

text \<open>The front with another \<open>stop_pending\<close>.\<close>

fun with_stop where
  "with_stop b (c, ttl, cl, ld, p, dy, _, l, sd, bl) = (c, ttl, cl, ld, p, dy, b, l, sd, bl)"

lemma front_stop_pending [simp]: "front (h\<lparr>h_stop_pending := b\<rparr>) = with_stop b (front h)"
  by (simp add: front_def)

lemma with_stopD: "front a = with_stop b (front c) \<Longrightarrow> h_stop_pending a = b"
  by (auto simp: front_def)

lemma with_stop_holds: "front a = with_stop b (front c) \<Longrightarrow> holds_lock a = holds_lock c"
  by (auto simp: front_def holds_lock_def is_lock_owner_def my_name_def)

fun leader_only :: "event \<Rightarrow> bool" where
  "leader_only (Ev_Write_Timeline _ _) = True"
| "leader_only (Ev_Set_Sync _) = True"
| "leader_only (Ev_Alter_Sync _) = True"
| "leader_only (Ev_Write_History _ _) = True"
| "leader_only _ = False"

text \<open>
  \<open>quiet s s'\<close>: from \<open>s\<close> to \<open>s'\<close> by harmless calls, writes reserved to the leader while this node is the
  leader, and assignments that leave the front alone.
\<close>

inductive quiet :: "sys \<Rightarrow> sys \<Rightarrow> bool" for s where
  quiet_refl: "quiet s s"
| quiet_call: "quiet s s' \<Longrightarrow> issued s' c \<Longrightarrow>
    harmless (tc_event c) \<or> leader_only (tc_event c) \<and> h_is_leader (sy_ha s') \<Longrightarrow> quiet s (after_call s' c)"
| quiet_ha: "quiet s s' \<Longrightarrow> front h = front (sy_ha s') \<Longrightarrow>
    h_promote_pending h = h_promote_pending (sy_ha s') \<or> h_promote_pending h = None \<Longrightarrow> quiet s (s'\<lparr>sy_ha := h\<rparr>)"

lemma quiet_trans: "quiet t u \<Longrightarrow> quiet s t \<Longrightarrow> quiet s u"
  by (induction rule: quiet.induct) (auto intro: quiet.intros)

lemma quiet_front: "quiet s s' \<Longrightarrow> front (sy_ha s') = front (sy_ha s)"
  by (induction rule: quiet.induct) auto

lemmas quietD = quiet_front [THEN frontD(1)] quiet_front [THEN frontD(2)] quiet_front [THEN frontD(3)]
  quiet_front [THEN frontD(4)] quiet_front [THEN frontD(5)] quiet_front [THEN frontD(6)]
  quiet_front [THEN frontD(7)] quiet_front [THEN frontD(8)] quiet_front [THEN frontD(9)]
  quiet_front [THEN frontD(10)] quiet_front [THEN frontD(11)] quiet_front [THEN frontD(12)]
  quiet_front [THEN frontD(13)]

lemma not_signal: "harmless e \<or> leader_only e \<and> b \<Longrightarrow> \<not> writes_signal e \<and> \<not> loses_signal e"
  by (cases e) simp_all

lemma quiet_prepared: "quiet s s' \<Longrightarrow> standby_prepared (sy_trace s') = standby_prepared (sy_trace s)"
proof (induction rule: quiet.induct)
  case (quiet_call s' c)
  then show ?case using not_signal [OF quiet_call.hyps(3)] by (simp add: standby_prepared_snoc)
qed simp_all

lemma not_command: "harmless e \<or> leader_only e \<and> b \<Longrightarrow>
    (case e of Ev_Command cmd \<Rightarrow> cmd = Restart | Ev_Reply _ \<Rightarrow> False | _ \<Rightarrow> x) = x"
  by (cases e) simp_all

lemma quiet_serving: "quiet s s' \<Longrightarrow> serving_restart (sy_trace s') = serving_restart (sy_trace s)"
proof (induction rule: quiet.induct)
  case (quiet_call s' c)
  then show ?case using not_command [OF quiet_call.hyps(3)] by (simp add: serving_restart_snoc)
qed simp_all

interpretation quiet: run_relation quiet
  by unfold_locales (auto intro: quiet_refl quiet_trans)

text \<open>Work of the leader: quiet when this node is the leader.\<close>

definition led :: "sys \<Rightarrow> sys \<Rightarrow> bool" where
  "led s s' \<longleftrightarrow> (h_is_leader (sy_ha s) \<longrightarrow> quiet s s')"

interpretation led: run_relation led
proof unfold_locales
  fix s t u assume "led s t" "led t u"
  then show "led s u"
    using quietD(4) [of s t] quiet_trans [of t u s] by (auto simp: led_def)
qed (simp add: led_def quiet_refl)

lemma quietly_led: "within quiet m \<Longrightarrow> within led m"
  by (erule within_mono) (simp add: led_def)

lemma quietly_call [within_intros]: "harmless ev \<Longrightarrow> within quiet (do_call aw ev answer ok effect)"
  by (rule within_call) (auto intro: quiet_call quiet_refl)

lemma led_call [within_intros]: "leader_only ev \<Longrightarrow> within led (do_call aw ev answer ok effect)"
  by (rule within_call) (auto simp: led_def intro: quiet_call quiet_refl)

lemma quietly_mod_ha:
  "(\<And>h. front (f h) = front h) \<Longrightarrow> (\<And>h. h_promote_pending (f h) = h_promote_pending h \<or> h_promote_pending (f h) = None) \<Longrightarrow>
    within quiet (mod_ha f)"
  by (rule within_mod_ha, rule quiet_ha [OF quiet_refl]) blast+

lemma quietly_sleep [within_intros]: "within quiet (sleep_ms d)"
  by (rule within_sleep) (auto intro: quiet_call quiet_refl)

lemma quietly_set_pg [within_intros]: "(\<And>p. pg_starts_blocked (f p) = pg_starts_blocked p) \<Longrightarrow> within quiet (set_pg f)"
  unfolding set_pg_def by (rule quietly_mod_ha) (simp_all add: front_def)

lemma quietly_set_role [within_intros]: "within quiet (set_role r)"
  unfolding set_role_def by (rule quietly_set_pg) simp

lemma quietly_calls [within_intros]:
  "harmless ev \<Longrightarrow> within quiet (bool_call ev)" "harmless ev \<Longrightarrow> within quiet (unit_call ev f)"
  "harmless ev \<Longrightarrow> within quiet (unit_call_sync ev f)"
  unfolding bool_call_def unit_call_def unit_call_sync_def by (rule quietly_call; assumption)+

lemma led_calls [within_intros]:
  "leader_only ev \<Longrightarrow> within led (bool_call ev)" "leader_only ev \<Longrightarrow> within led (unit_call ev f)"
  unfolding bool_call_def unit_call_def by (rule led_call; assumption)+

lemma quietly_reset_sync_cache [within_intros]: "within quiet reset_sync_cache"
  unfolding reset_sync_cache_def by (rule quietly_mod_ha) (simp_all add: front_def)

lemma quietly_observe [within_intros]: "within quiet observe_recovery"
  unfolding observe_recovery_def by (intro within_intros; simp)

lemma quietly_sample_wal [within_intros]: "within quiet sample_wal"
  unfolding sample_wal_def by (intro within_intros quietly_mod_ha) (simp_all add: front_def)

lemma quietly_touch [within_intros]: "within quiet touch_member"
  unfolding touch_member_def by (intro within_intros; simp)

lemma quietly_touch_bounded [within_intros]: "within quiet touch_member_bounded"
  unfolding touch_member_bounded_def by (intro within_intros; simp)

lemma quietly_publish [within_intros]: "\<not> as_is_leader snap \<Longrightarrow> within quiet (publish snap)"
  unfolding publish_def by (intro within_intros; simp)

lemma quietly_publish_not_primary [within_intros]: "within quiet publish_not_primary"
  unfolding publish_not_primary_def by (intro within_intros; simp)

lemma within_case_watchdog_action [within_intros]:
  "within R a \<Longrightarrow> within R b \<Longrightarrow> within R c \<Longrightarrow> within R (case_watchdog_action a b c x)"
  by (cases x) simp_all

lemma quietly_watchdog [within_intros]:
  "within quiet watchdog_keepalive" "within quiet watchdog_disarm" "within quiet (watchdog_activate t)" "within quiet arm_watchdog"
proof -
  show a: "within quiet (watchdog_activate t)" for t
    unfolding watchdog_activate_def by (intro within_intros quietly_mod_ha) (simp_all add: front_def)
  show "within quiet watchdog_keepalive"
    unfolding watchdog_keepalive_def by (intro within_intros; simp)
  show "within quiet watchdog_disarm"
    unfolding watchdog_disarm_def by (intro within_intros quietly_mod_ha) (simp_all add: front_def)
  show "within quiet arm_watchdog"
    unfolding arm_watchdog_def by (intro within_intros a)
qed

lemma quietly_reconcile_watchdog [within_intros]: "within quiet reconcile_watchdog"
  unfolding reconcile_watchdog_def by (intro within_intros; simp)

lemma quietly_files [within_intros]:
  "within quiet (create_rewind_check_marker reason)" "within quiet write_rewind_hold"
  "within quiet remove_node_state_files" "within quiet (write_generation g)" "within quiet finish_override"
  unfolding create_rewind_check_marker_def write_rewind_hold_def remove_node_state_files_def write_generation_def
    finish_override_def by (intro within_intros; simp)+

lemma quietly_poll_started [within_intros]: "within quiet (poll_started k)"
  by (induction k) (auto intro!: within_intros)

lemma quietly_rewind_hold [within_intros]: "within quiet clear_rewind_hold" "within quiet refresh_rewind_hold"
proof -
  show "within quiet clear_rewind_hold"
    unfolding clear_rewind_hold_def by (rule quietly_mod_ha) (simp_all add: front_def)
  then show "within quiet refresh_rewind_hold"
    unfolding refresh_rewind_hold_def by (intro within_intros; simp)
qed

lemma quietly_probe_source [within_intros]: "within quiet (probe_source url)"
  unfolding probe_source_def by (intro within_intros; simp)

lemma quietly_primary_timeline_id [within_intros]: "within quiet primary_timeline_id"
  unfolding primary_timeline_id_def by (intro within_intros; simp)

lemma quietly_history_timeline [within_intros]: "within quiet history_timeline"
  unfolding history_timeline_def by (intro within_intros; simp)

lemma quietly_note_pending_history [within_intros]: "within quiet note_pending_history"
  unfolding note_pending_history_def by (intro within_intros quietly_mod_ha) (simp_all add: front_def)

lemma quietly_desired_sync_list [within_intros]: "within quiet (desired_sync_list e)"
  unfolding desired_sync_list_def by (intro within_intros; simp)

lemma quietly_start_as_replica [within_intros]: "within quiet (start_as_replica how)"
  unfolding start_as_replica_def by (intro within_intros; simp)

lemma quietly_report_rewind_hold [within_intros]: "within quiet report_rewind_hold"
  unfolding report_rewind_hold_def by (intro within_intros; simp)

section \<open>Work of the leader\<close>

lemma within_case_hold_action [within_intros]:
  "within R a \<Longrightarrow> (\<And>r. within R (f r)) \<Longrightarrow> (\<And>e. within R (g e)) \<Longrightarrow> within R (case_hold_action a f g x)"
  by (cases x) simp_all

lemma within_case_history_append [within_intros]:
  "within R a \<Longrightarrow> within R b \<Longrightarrow> within R c \<Longrightarrow> within R (case_history_append a b c x)"
  by (cases x) simp_all

lemma led_record_own_timeline [within_intros]: "within led (record_own_timeline own)"
  unfolding record_own_timeline_def dcs_write_timeline_def
  by (intro within_intros quietly_led [OF quietly_files(5)]) simp_all

lemma led_record_timeline [within_intros]: "within led record_cluster_timeline" "within led record_standby_leader_timeline"
  unfolding record_cluster_timeline_def record_standby_leader_timeline_def
  by (intro within_intros quietly_led [OF quietly_primary_timeline_id])+

lemma led_confirm_promote [within_intros]: "within led (confirm_promote p)"
  unfolding confirm_promote_def dcs_write_timeline_def
  by (intro within_intros quietly_led [OF quietly_primary_timeline_id] quietly_led [OF quietly_files(5)]
      quietly_led [OF quietly_files(4)] quietly_led [OF quietly_call] quietly_led [OF quietly_mod_ha])
    (simp_all add: front_def)

lemma led_write_sync_state [within_intros]: "within led (write_sync_state names e n)"
  unfolding write_sync_state_def by (intro within_intros; simp)

lemma led_enforce_synchronous_replication [within_intros]: "within led enforce_synchronous_replication"
  unfolding enforce_synchronous_replication_def sync_phase_remove_def sync_phase_alter_def sync_phase_add_def
    set_synchronous_standby_names_def
  by (intro within_intros quietly_led [OF quietly_desired_sync_list] quietly_led [OF quietly_mod_ha])
    (simp_all add: front_def)

lemma led_append_attempts [within_intros]: "within led (append_attempts k entry)"
  by (induction k) (auto intro!: within_intros quietly_led [OF quietly_call])

lemma led_append_pending_history [within_intros]: "within led append_pending_history"
  unfolding append_pending_history_def try_append_history_def
  by (intro within_intros quietly_led [OF quietly_history_timeline] quietly_led [OF quietly_mod_ha])
    (simp_all add: front_def)

end
