(* ===== verification/Ha_Invariant.thy ===== *)
theory Ha_Invariant
  imports Ha_Contract
begin

text \<open>
  Every engine function respects the contract. The locale \<open>engine_invariant\<close> says what a predicate on
  states must satisfy: it survives plain assignments (they grant no lease, record no pending promote
  and unblock no start), guarded calls, the lease
  that a granted lock write gives, the pending promote a granted write of \<open>/timeline\<close> recorded, and the
  dropping of a run at a pending call. Its lemmas carry such a predicate through every function of the
  engine, whatever the environment answers. Four predicates interpret it: every call made so far was
  guarded, every lease is backed by a grant, every pending promote by a granted write, and a shutdown is
  never undone.
\<close>

named_theorems engine_wp \<open>how engine functions carry an invariant\<close>

section \<open>The interface\<close>

definition lock_granted :: "call \<Rightarrow> bool" where
  "lock_granted c \<longleftrightarrow> (tc_event c = Ev_Renew \<or> tc_event c = Ev_Acquire) \<and> tc_ok c"

text \<open>The lease a lock write gives: it starts when the write was sent.\<close>

definition lease_of_call :: "call \<Rightarrow> leader_lease" where
  "lease_of_call c = lease_new \<lparr>la_mono = w_mono (tc_world c), la_wall = w_wall (tc_world c)\<rparr>
     (h_dcs_ttl (tc_ha c)) (hc_safety_margin (h_config (tc_ha c)))"

definition blocked :: "ha \<Rightarrow> bool" where
  "blocked h = pg_starts_blocked (h_pg h)"

text \<open>A write of \<open>/timeline\<close> that the DCS granted and that announces the promote.\<close>

definition recorded_promote :: "call \<Rightarrow> pending_promote \<Rightarrow> bool" where
  "recorded_promote c p \<longleftrightarrow> (\<exists>r v. tc_event c = Ev_Write_Timeline r v \<and> tr_pending r = Some p) \<and> tc_ok c"

definition plain_assignment :: "sys \<Rightarrow> ha \<Rightarrow> bool" where
  "plain_assignment s h \<longleftrightarrow>
    (h_leader_lease h = h_leader_lease (sy_ha s) \<or> h_leader_lease h = None) \<and>
    (h_promote_pending h = h_promote_pending (sy_ha s) \<or> h_promote_pending h = None) \<and>
    (blocked (sy_ha s) \<longrightarrow> blocked h)"

definition start_allowed :: "call list \<Rightarrow> ha \<Rightarrow> bool" where
  "start_allowed tr h \<longleftrightarrow> standby_prepared tr \<or> holds_lock h \<or> bootstrapped tr"

definition stop_allowed :: "sys \<Rightarrow> bool" where
  "stop_allowed s \<longleftrightarrow> (pg_in_recovery (h_pg (sy_ha s)) = Some False \<and> w_running (sy_world s) \<longrightarrow>
     told_not_primary (sy_trace s) \<and>
     (signal_attempted (sy_trace s) \<or> h_stop_pending (sy_ha s) \<or> restarting (sy_trace s) (sy_ha s)))"

locale engine_invariant =
  fixes I :: "sys \<Rightarrow> bool"
  assumes I_ha: "I s \<Longrightarrow> plain_assignment s h \<Longrightarrow> I (s\<lparr>sy_ha := h\<rparr>)"
    and I_world: "I s \<Longrightarrow> I (s\<lparr>sy_world := w\<rparr>)"
    and I_call: "I s \<Longrightarrow> issued s c \<Longrightarrow> guarded (sy_trace s) c \<Longrightarrow> I (after_call s c)"
    and I_grant: "I s \<Longrightarrow> sy_trace s = tr @ [c] \<Longrightarrow> lock_granted c \<Longrightarrow> h_leader_lease h = Some (lease_of_call c) \<Longrightarrow>
      plain_assignment s (h\<lparr>h_leader_lease := None\<rparr>) \<Longrightarrow> I (s\<lparr>sy_ha := h\<rparr>)"
    and I_recorded: "I s \<Longrightarrow> sy_trace s = tr @ [c] \<Longrightarrow> recorded_promote c p \<Longrightarrow>
      I (s\<lparr>sy_ha := (sy_ha s)\<lparr>h_promote_pending := Some p\<rparr>\<rparr>)"
    and I_drop: "I s \<Longrightarrow> n < length (sy_trace s) \<Longrightarrow>
      I (s\<lparr>sy_ha := tc_ha (sy_trace s ! n), sy_world := w, sy_trace := take (Suc n) (sy_trace s)\<rparr>)"

sublocale engine_invariant \<subseteq> kept: run_relation "\<lambda>s s'. I s \<longrightarrow> I s'"
  by unfold_locales auto

section \<open>Housekeeping, files and stops\<close>

context engine_invariant
begin

lemma I_quiet: "quiet s s' \<Longrightarrow> I s \<Longrightarrow> I s'"
proof (induction rule: quiet.induct)
  case (quiet_call s' c)
  then have "guarded (sy_trace s') c"
    using harmless_guarded [of c] by (cases "tc_event c") (auto simp: guarded_def issued_def)
  then show ?case using quiet_call I_call by blast
next
  case (quiet_ha s' h)
  then show ?case using frontD(7,8,10) [OF quiet_ha.hyps(2)] by (auto intro!: I_ha simp: plain_assignment_def blocked_def)
qed simp

lemma kept_quiet: "within quiet m \<Longrightarrow> within (\<lambda>s s'. I s \<longrightarrow> I s') m"
  by (erule within_mono) (blast intro: I_quiet)

lemma wp_quiet:
  assumes "within quiet m" "I s" "\<And>r s'. I s' \<Longrightarrow> front (sy_ha s') = front (sy_ha s) \<Longrightarrow>
   standby_prepared (sy_trace s') = standby_prepared (sy_trace s) \<Longrightarrow>
   serving_restart (sy_trace s') = serving_restart (sy_trace s) \<Longrightarrow> Q r s'"
  shows "wp m Q s"
  by (rule wp_within [OF assms(1)], rule assms(3)) (auto intro: assms(2) I_quiet quiet_front simp: quiet_prepared quiet_serving)

lemmas quiet_wp = quietly_calls [THEN wp_quiet] quietly_set_role [THEN wp_quiet] quietly_reset_sync_cache [THEN wp_quiet]
  quietly_observe [THEN wp_quiet] quietly_touch [THEN wp_quiet] quietly_touch_bounded [THEN wp_quiet]
  quietly_publish [THEN wp_quiet] quietly_publish_not_primary [THEN wp_quiet] quietly_watchdog [THEN wp_quiet]
  quietly_reconcile_watchdog [THEN wp_quiet] quietly_files [THEN wp_quiet] quietly_poll_started [THEN wp_quiet]
  quietly_rewind_hold [THEN wp_quiet] quietly_probe_source [THEN wp_quiet] quietly_sleep [THEN wp_quiet]
  quietly_note_pending_history [THEN wp_quiet] quietly_start_as_replica [THEN wp_quiet]
  quietly_report_rewind_hold [THEN wp_quiet]

lemma wp_led:
  assumes "within led m" "I s" "h_is_leader (sy_ha s)" "\<And>r s'. I s' \<Longrightarrow> front (sy_ha s') = front (sy_ha s) \<Longrightarrow> Q r s'"
  shows "wp m Q s"
  by (rule wp_within [OF assms(1)], rule assms(4)) (use assms(2,3) in \<open>auto simp: led_def intro: I_quiet quiet_front\<close>)

lemma wp_kept: "within (\<lambda>s s'. I s \<longrightarrow> I s') m \<Longrightarrow> I s \<Longrightarrow> (\<And>r s'. I s' \<Longrightarrow> Q r s') \<Longrightarrow> wp m Q s"
  by (erule wp_within) blast

lemma keptI: "(\<And>s. I s \<Longrightarrow> wp m (\<lambda>_. I) s) \<Longrightarrow> within (\<lambda>s s'. I s \<longrightarrow> I s') m"
  unfolding within_def by (auto simp: wp_def split_beta)

lemma kept_call [within_intros]:
  "(\<And>pre c. tc_event c = ev \<Longrightarrow> guarded pre c) \<Longrightarrow> within (\<lambda>s s'. I s \<longrightarrow> I s') (do_call aw ev answer ok effect)"
  by (rule within_call) (blast intro: I_call)

lemma kept_calls [within_intros]:
  "(\<And>pre c. tc_event c = ev \<Longrightarrow> guarded pre c) \<Longrightarrow> within (\<lambda>s s'. I s \<longrightarrow> I s') (unit_call ev f)"
  "(\<And>pre c. tc_event c = ev \<Longrightarrow> guarded pre c) \<Longrightarrow> within (\<lambda>s s'. I s \<longrightarrow> I s') (unit_call_sync ev f)"
  "(\<And>pre c. tc_event c = ev \<Longrightarrow> guarded pre c) \<Longrightarrow> within (\<lambda>s s'. I s \<longrightarrow> I s') (bool_call ev)"
  unfolding unit_call_def unit_call_sync_def bool_call_def by (rule kept_call; assumption)+

lemma kept_mod_ha:
  "(\<And>s. plain_assignment s (f (sy_ha s))) \<Longrightarrow> within (\<lambda>s s'. I s \<longrightarrow> I s') (mod_ha f)"
  by (rule within_mod_ha) (blast intro: I_ha)

lemma kept_setters [within_intros]:
  "within (\<lambda>s s'. I s \<longrightarrow> I s') (set_is_leader b)" "within (\<lambda>s s'. I s \<longrightarrow> I s') (set_stop_pending b)"
  "within (\<lambda>s s'. I s \<longrightarrow> I s') publish_fence_deadline" "within (\<lambda>s s'. I s \<longrightarrow> I s') (set_leader_lease None)"
proof -
  show d: "within (\<lambda>s s'. I s \<longrightarrow> I s') publish_fence_deadline"
    unfolding publish_fence_deadline_def by (rule kept_mod_ha) (simp add: plain_assignment_def blocked_def)
  show "within (\<lambda>s s'. I s \<longrightarrow> I s') (set_is_leader b)"
    unfolding set_is_leader_def by (rule kept_mod_ha) (simp add: plain_assignment_def blocked_def)
  show "within (\<lambda>s s'. I s \<longrightarrow> I s') (set_stop_pending b)"
    unfolding set_stop_pending_def by (rule kept_mod_ha) (simp add: plain_assignment_def blocked_def)
  show "within (\<lambda>s s'. I s \<longrightarrow> I s') (set_leader_lease None)"
    unfolding set_leader_lease_def by (intro within_intros d kept_mod_ha) (simp add: plain_assignment_def blocked_def)
qed

lemma wp_assign:
  assumes "I s" "plain_assignment s (f (sy_ha s))"
    "\<And>s'. I s' \<Longrightarrow> sy_ha s' = f (sy_ha s) \<Longrightarrow> sy_trace s' = sy_trace s \<Longrightarrow> sy_world s' = sy_world s \<Longrightarrow> Q () s'"
  shows "wp (mod_ha f) Q s"
  by (rule wp_mod, rule assms(3)) (use assms(1,2) in \<open>auto intro!: I_ha\<close>)

lemma wp_set_pg:
  assumes "I s" "\<And>p. pg_starts_blocked (f p) = pg_starts_blocked p"
    "\<And>s'. I s' \<Longrightarrow> front (sy_ha s') = front (sy_ha s) \<Longrightarrow> sy_ha s' = (sy_ha s)\<lparr>h_pg := f (h_pg (sy_ha s))\<rparr> \<Longrightarrow>
       h_is_leader (sy_ha s') = h_is_leader (sy_ha s) \<Longrightarrow> holds_lock (sy_ha s') = holds_lock (sy_ha s) \<Longrightarrow>
       h_stop_pending (sy_ha s') = h_stop_pending (sy_ha s) \<Longrightarrow>
       sy_trace s' = sy_trace s \<Longrightarrow> sy_world s' = sy_world s \<Longrightarrow> Q () s'"
  shows "wp (set_pg f) Q s"
  unfolding set_pg_def
  by (rule wp_assign [OF assms(1)])
    (auto simp: assms(2) plain_assignment_def front_def blocked_def holds_lock_def is_lock_owner_def my_name_def intro!: assms(3))

lemma wp_set_stop_pending:
  assumes "I s" "\<And>s'. I s' \<Longrightarrow> sy_ha s' = (sy_ha s)\<lparr>h_stop_pending := b\<rparr> \<Longrightarrow> sy_trace s' = sy_trace s \<Longrightarrow>
    sy_world s' = sy_world s \<Longrightarrow> Q () s'"
  shows "wp (set_stop_pending b) Q s"
  unfolding set_stop_pending_def by (rule wp_assign) (auto simp: assms(1) plain_assignment_def blocked_def intro!: assms(2))

lemma wp_guarded_call:
  assumes "I s" "\<And>c. issued s c \<Longrightarrow> tc_event c = ev \<Longrightarrow> guarded (sy_trace s) c"
    "\<And>r c s'. I s' \<Longrightarrow> sy_ha s' = sy_ha s \<Longrightarrow> sy_trace s' = sy_trace s @ [c] \<Longrightarrow> tc_event c = ev \<Longrightarrow> tc_ok c = ok r \<Longrightarrow>
      issued s c \<Longrightarrow> sy_world s' = effect r (en_move (sy_env s) (sy_step s) (sy_world s)) \<Longrightarrow> Q r s'"
  shows "wp (do_call aw ev answer ok effect) Q s"
  by (rule wp_call, rule assms(3)) (use assms(1,2) in \<open>auto intro!: I_call\<close>)

lemma wp_write_standby_config [engine_wp]:
  assumes "I s" "\<And>r s'. I s' \<Longrightarrow> front (sy_ha s') = front (sy_ha s) \<Longrightarrow> h_pg (sy_ha s') = h_pg (sy_ha s) \<Longrightarrow>
    signal_attempted (sy_trace s') \<Longrightarrow> (is_ok r \<Longrightarrow> standby_prepared (sy_trace s')) \<Longrightarrow> Q r s'"
  shows "wp (write_standby_config url) Q s"
  unfolding write_standby_config_def write_standby_files_def unit_call_def reset_sync_cache_def
  by (intro wp_intros wp_assign [OF assms(1)] wp_guarded_call)
    (auto simp: plain_assignment_def front_def blocked_def guarded_def signal_attempted_snoc standby_prepared_snoc intro!: assms(2))

lemma wp_ensure_standby_signal [engine_wp]:
  assumes "I s" "\<And>r s'. I s' \<Longrightarrow> front (sy_ha s') = front (sy_ha s) \<Longrightarrow> signal_attempted (sy_trace s') \<Longrightarrow>
    (is_ok r \<Longrightarrow> standby_prepared (sy_trace s')) \<Longrightarrow> Q r s'"
  shows "wp ensure_standby_signal Q s"
  unfolding ensure_standby_signal_def write_standby_signal_def unit_call_def reset_sync_cache_def
  by (intro wp_intros wp_assign [OF assms(1)] wp_guarded_call)
    (auto simp: plain_assignment_def front_def blocked_def guarded_def signal_attempted_snoc standby_prepared_snoc intro!: assms(2))

lemma wp_prepare_standby_start [engine_wp]:
  assumes "I s" "\<And>r s'. I s' \<Longrightarrow> front (sy_ha s') = front (sy_ha s) \<Longrightarrow>
    (is_ok r \<Longrightarrow> signal_attempted (sy_trace s')) \<Longrightarrow> (is_ok r \<Longrightarrow> standby_prepared (sy_trace s')) \<Longrightarrow> Q r s'"
  shows "wp prepare_standby_start Q s"
  unfolding prepare_standby_start_def
  by (intro wp_intros wp_quiet [OF quietly_call] quiet_wp engine_wp; (rule assms(2))?; simp add: assms(1))

lemma wp_prepare_demotion [engine_wp]:
  assumes "I s" "\<And>r s'. I s' \<Longrightarrow> front (sy_ha s') = front (sy_ha s) \<Longrightarrow> signal_attempted (sy_trace s') \<Longrightarrow> Q r s'"
  shows "wp (prepare_demotion url reason) Q s"
proof -
  have q: "within quiet (case reason of Some x \<Rightarrow> create_rewind_check_marker x | None \<Rightarrow> ret (Ok ()))"
    by (intro within_intros)
  show ?thesis
    unfolding prepare_demotion_def
    by (intro wp_bind wp_ret wp_quiet [OF q] wp_write_standby_config; (rule assms(2))?; simp add: assms(1))
qed

lemma wp_pg_start [engine_wp]:
  assumes "I s" "start_allowed (sy_trace s) (sy_ha s)"
    "\<And>r s'. I s' \<Longrightarrow> front (sy_ha s') = front (sy_ha s) \<Longrightarrow> Q r s'"
  shows "wp pg_start Q s"
proof -
  have q: "within quiet (if b then ret True else poll_started 10)" for b by (intro within_intros)
  show ?thesis
    unfolding pg_start_def
    by (intro wp_bind wp_gets wp_ret wp_if [where m = "ret (Err _)"] wp_case_cmd wp_if [where n = "State_Monad.bind _ _"]
        wp_set_pg wp_guarded_call wp_quiet [OF q]; (rule assms(3))?)
      (use assms(1,2) in \<open>simp_all add: guarded_def issued_def start_allowed_def\<close>)
qed

lemma wp_pg_stop [engine_wp]:
  assumes "I s" "stop_allowed s"
    "\<And>r s'. I s' \<Longrightarrow> front (sy_ha s') = front (sy_ha s) \<Longrightarrow> pg_in_recovery (h_pg (sy_ha s')) = None \<Longrightarrow>
       standby_prepared (sy_trace s') = standby_prepared (sy_trace s) \<Longrightarrow> (is_ok r \<Longrightarrow> \<not> w_running (sy_world s')) \<Longrightarrow> Q r s'"
  shows "wp (pg_stop mode) Q s"
  unfolding pg_stop_def
  by (intro wp_intros wp_set_pg wp_guarded_call; (rule assms(3))?)
    (use assms(1,2) in \<open>simp_all add: guarded_def issued_def stop_allowed_def standby_prepared_snoc restarting_def
      holds_lock_def is_lock_owner_def my_name_def\<close>)

lemma wp_publish_not_primary:
  assumes "I s" "\<And>r s'. I s' \<Longrightarrow> sy_ha s' = sy_ha s \<Longrightarrow> told_not_primary (sy_trace s') \<Longrightarrow>
    signal_attempted (sy_trace s') = signal_attempted (sy_trace s) \<Longrightarrow>
    standby_prepared (sy_trace s') = standby_prepared (sy_trace s) \<Longrightarrow>
    serving_restart (sy_trace s') = serving_restart (sy_trace s) \<Longrightarrow> Q r s'"
  shows "wp publish_not_primary Q s"
  unfolding publish_not_primary_def publish_def
  by (intro wp_intros wp_guarded_call; (rule assms(2))?)
    (simp_all add: assms(1) guarded_def told_not_primary_def signal_attempted_snoc standby_prepared_snoc serving_restart_snoc)

lemma wp_stop_publishing_not_primary:
  assumes "I s" "pg_in_recovery (h_pg (sy_ha s)) = Some False \<Longrightarrow>
      signal_attempted (sy_trace s) \<or> h_stop_pending (sy_ha s)"
    "\<And>r s'. I s' \<Longrightarrow> front (sy_ha s') = with_stop (\<not> is_ok r) (front (sy_ha s)) \<Longrightarrow>
       standby_prepared (sy_trace s') = standby_prepared (sy_trace s) \<Longrightarrow> Q r s'"
  shows "wp (stop_publishing_not_primary mode) Q s"
  unfolding stop_publishing_not_primary_def
  by (intro wp_intros wp_publish_not_primary wp_pg_stop wp_set_stop_pending quiet_wp; (rule assms(3))?)
    (use assms(1,2) in \<open>auto simp: stop_allowed_def\<close>)

lemma wp_stop_after_demotion [engine_wp]:
  assumes "I s" "pg_in_recovery (h_pg (sy_ha s)) = Some False \<Longrightarrow>
      signal_attempted (sy_trace s) \<or> h_stop_pending (sy_ha s)"
    "\<And>r s'. I s' \<Longrightarrow> front (sy_ha s') = with_stop (\<not> is_ok r) (front (sy_ha s)) \<Longrightarrow>
       standby_prepared (sy_trace s') = standby_prepared (sy_trace s) \<Longrightarrow> Q r s'"
  shows "wp (stop_after_demotion_write mode) Q s" "wp (stop_preserving_recovery_intent mode) Q s"
    "wp (retry_pending_stop mode) Q s"
  unfolding retry_pending_stop_def stop_after_demotion_write_def stop_preserving_recovery_intent_def
  by (intro wp_intros wp_stop_publishing_not_primary assms; assumption)+

lemma wp_fence_primary [engine_wp]:
  assumes "I s" "\<And>r s'. I s' \<Longrightarrow> front (sy_ha s') = with_stop (\<not> is_ok r) (front (sy_ha s)) \<Longrightarrow> Q r s'"
  shows "wp (fence_primary mode reason url) Q s"
  unfolding fence_primary_def
  by (intro wp_intros quiet_wp engine_wp; (rule assms(2))?; simp add: assms(1))

section \<open>The lock of this node\<close>

lemma kept_release_lock_as_standby:
  assumes "I s" "pg_in_recovery (h_pg (sy_ha s)) = Some True" "\<And>r s'. I s' \<Longrightarrow> Q r s'"
  shows "wp release_lock_as_standby Q s"
  unfolding release_lock_as_standby_def bool_call_def
  by (intro wp_intros wp_guarded_call wp_kept [OF kept_setters(1)] wp_kept [OF kept_setters(4)] quiet_wp)
    (use assms in \<open>auto simp: guarded_def issued_def\<close>)

lemma kept_fence_primary [within_intros]: "within (\<lambda>s s'. I s \<longrightarrow> I s') (fence_primary mode reason url)"
  by (rule keptI, rule wp_fence_primary)

lemma kept_fence_for_lost_lease [within_intros]: "within (\<lambda>s s'. I s \<longrightarrow> I s') fence_for_lost_lease"
  unfolding fence_for_lost_lease_def
  by (intro within_intros quietly_set_role [THEN kept_quiet] quietly_reconcile_watchdog [THEN kept_quiet])

lemma kept_fence_at_lease_check [within_intros]: "within (\<lambda>s s'. I s \<longrightarrow> I s') (fence_at_lease_check b)"
  unfolding fence_at_lease_check_def by (intro within_intros)

lemma kept_shutdown_fence [within_intros]: "within (\<lambda>s s'. I s \<longrightarrow> I s') shutdown_fence_if_lease_expired"
  unfolding shutdown_fence_if_lease_expired_def by (intro within_intros)

text \<open>A granted lock write, and the lease it gives.\<close>

lemma wp_lock_write:
  assumes "I s" "\<And>c. issued s c \<Longrightarrow> tc_event c = ev \<Longrightarrow> guarded (sy_trace s) c" "ev = Ev_Renew \<or> ev = Ev_Acquire"
    "\<And>r s'. I s' \<Longrightarrow> sy_ha s' = sy_ha s \<Longrightarrow> (granted r \<Longrightarrow>
       (\<exists>tr c. sy_trace s' = tr @ [c] \<and> lock_granted c \<and>
         lease_new \<lparr>la_mono = w_mono (sy_world s), la_wall = w_wall (sy_world s)\<rparr> (h_dcs_ttl (sy_ha s'))
           (hc_safety_margin (h_config (sy_ha s'))) = lease_of_call c)) \<Longrightarrow> Q r s'"
  shows "wp (bool_call ev) Q s"
  unfolding bool_call_def
  by (rule wp_guarded_call [OF assms(1,2)])
    (use assms(3) in \<open>auto simp: lock_granted_def lease_of_call_def issued_def intro!: assms(4)\<close>)

lemma wp_extend_leader_lease:
  assumes "I s" "sy_trace s = tr @ [c]" "lock_granted c"
    "lease_new anchor (h_dcs_ttl (sy_ha s)) (hc_safety_margin (h_config (sy_ha s))) = lease_of_call c"
    "\<And>s'. I s' \<Longrightarrow> h_is_leader (sy_ha s') = h_is_leader (sy_ha s) \<Longrightarrow> h_pg (sy_ha s') = h_pg (sy_ha s) \<Longrightarrow>
      h_stop_pending (sy_ha s') = h_stop_pending (sy_ha s) \<Longrightarrow> h_leader_lease (sy_ha s') \<noteq> None \<Longrightarrow> Q () s'"
  shows "wp (extend_leader_lease anchor) Q s"
  unfolding extend_leader_lease_def set_leader_lease_def publish_fence_deadline_def
  by (intro wp_intros wp_mod assms(5))
    (auto simp: assms plain_assignment_def blocked_def intro!: I_grant [OF assms(1-3)])

lemma wp_set_is_leader:
  assumes "I s" "\<And>s'. I s' \<Longrightarrow> sy_ha s' = (sy_ha s)\<lparr>h_is_leader := b\<rparr> \<Longrightarrow> sy_trace s' = sy_trace s \<Longrightarrow>
    sy_world s' = sy_world s \<Longrightarrow> Q () s'"
  shows "wp (set_is_leader b) Q s"
  unfolding set_is_leader_def by (rule wp_assign) (auto simp: assms(1) plain_assignment_def blocked_def intro!: assms(2))

lemma wp_renewed:
  assumes "I s" "is_lock_owner (sy_ha s)"
    "\<And>s'. I s' \<Longrightarrow> h_is_leader (sy_ha s') \<Longrightarrow> h_leader_lease (sy_ha s') \<noteq> None \<Longrightarrow> h_pg (sy_ha s') = h_pg (sy_ha s) \<Longrightarrow> wp m Q s'"
    "\<And>s'. I s' \<Longrightarrow> wp n Q s'"
  shows "wp (bool_call Ev_Renew) (\<lambda>r. wp (if granted r
     then State_Monad.bind (set_is_leader True) (\<lambda>_. State_Monad.bind
       (extend_leader_lease \<lparr>la_mono = w_mono (sy_world s), la_wall = w_wall (sy_world s)\<rparr>) (\<lambda>_. m)) else n) Q) s"
proof (intro wp_lock_write wp_if wp_bind wp_set_is_leader assms(4))
  fix r s' s''
  assume r: "granted r \<Longrightarrow> \<exists>tr c. sy_trace s' = tr @ [c] \<and> lock_granted c \<and>
         lease_new \<lparr>la_mono = w_mono (sy_world s), la_wall = w_wall (sy_world s)\<rparr> (h_dcs_ttl (sy_ha s'))
           (hc_safety_margin (h_config (sy_ha s'))) = lease_of_call c" "granted r"
    and s: "sy_ha s' = sy_ha s" "I s''" "sy_ha s'' = (sy_ha s')\<lparr>h_is_leader := True\<rparr>" "sy_trace s'' = sy_trace s'"
  from r obtain tr c where "sy_trace s' = tr @ [c]" "lock_granted c"
    "lease_new \<lparr>la_mono = w_mono (sy_world s), la_wall = w_wall (sy_world s)\<rparr> (h_dcs_ttl (sy_ha s'))
       (hc_safety_margin (h_config (sy_ha s'))) = lease_of_call c" by blast
  then show "wp (extend_leader_lease \<lparr>la_mono = w_mono (sy_world s), la_wall = w_wall (sy_world s)\<rparr>) (\<lambda>_. wp m Q) s''"
    using s by (intro wp_extend_leader_lease) (auto intro: assms(3))
qed (use assms(1,2) in \<open>auto simp: guarded_def issued_def\<close>)

lemma kept_renew_held_lock [within_intros]: "within (\<lambda>s s'. I s \<longrightarrow> I s') renew_held_lock"
  unfolding renew_held_lock_def lease_anchor_now_def
  by (rule keptI, intro wp_bind wp_gets wp_if wp_renewed wp_ret wp_kept [OF kept_setters(4)]) simp_all

lemma kept_quietly [within_intros]:
  "within (\<lambda>s s'. I s \<longrightarrow> I s') touch_member" "within (\<lambda>s s'. I s \<longrightarrow> I s') reset_sync_cache"
  "within (\<lambda>s s'. I s \<longrightarrow> I s') reconcile_watchdog" "within (\<lambda>s s'. I s \<longrightarrow> I s') (set_role role)"
  "within (\<lambda>s s'. I s \<longrightarrow> I s') observe_recovery" "within (\<lambda>s s'. I s \<longrightarrow> I s') (sleep_ms d)"
  "within (\<lambda>s s'. I s \<longrightarrow> I s') watchdog_disarm"
  "within (\<lambda>s s'. I s \<longrightarrow> I s') clear_rewind_hold" "within (\<lambda>s s'. I s \<longrightarrow> I s') refresh_rewind_hold"
  "within (\<lambda>s s'. I s \<longrightarrow> I s') (start_as_replica how)" "within (\<lambda>s s'. I s \<longrightarrow> I s') report_rewind_hold"
  "within (\<lambda>s s'. I s \<longrightarrow> I s') (probe_source url)" "within (\<lambda>s s'. I s \<longrightarrow> I s') remove_node_state_files"
  "within (\<lambda>s s'. I s \<longrightarrow> I s') write_rewind_hold"
  by (rule kept_quiet, intro within_intros)+

lemma kept_publish_snapshot [within_intros]: "within (\<lambda>s s'. I s \<longrightarrow> I s') publish_snapshot"
  unfolding publish_snapshot_def publish_def
  by (rule keptI, intro wp_bind wp_gets wp_guarded_call) (auto simp: guarded_def issued_def)

lemma kept_drain [within_intros]:
  "within (\<lambda>s s'. I s \<longrightarrow> I s') (drain_rounds k deadline)"
  "within (\<lambda>s s'. I s \<longrightarrow> I s') (drain_renewing_leader_lock k d)"
proof -
  show r: "within (\<lambda>s s'. I s \<longrightarrow> I s') (drain_rounds k deadline)" for k deadline
    by (induction k) (auto intro!: within_intros)
  show "within (\<lambda>s s'. I s \<longrightarrow> I s') (drain_renewing_leader_lock k d)"
    unfolding drain_renewing_leader_lock_def by (intro within_intros r)
qed

lemma wp_release:
  assumes "I s" "\<not> w_running (sy_world s)" "\<And>r s'. I s' \<Longrightarrow> Q r s'"
  shows "wp (bool_call Ev_Release) Q s"
  unfolding bool_call_def
  by (rule wp_guarded_call [OF assms(1)]; (rule assms(3))?) (use assms(2) in \<open>simp_all add: guarded_def issued_def\<close>)

lemma kept_release_leader_lock_if_stopped [within_intros]:
  "within (\<lambda>s s'. I s \<longrightarrow> I s') release_leader_lock_if_stopped"
  unfolding release_leader_lock_if_stopped_def
  by (rule keptI, intro wp_intros wp_release wp_kept [OF kept_setters(1)] quiet_wp) assumption+

section \<open>Stopping for a shutdown\<close>

lemma identity_not_primary: "pg_identity_of h w \<noteq> Id_Primary \<Longrightarrow> pg_in_recovery (h_pg h) \<noteq> Some False"
  by (auto simp: pg_identity_of_def classify_def)

lemma stop_allowed_not_primary:
  "\<not> w_running (sy_world s) \<or> pg_identity_of (sy_ha s) (sy_world s) \<noteq> Id_Primary \<Longrightarrow> stop_allowed s"
  using identity_not_primary by (auto simp: stop_allowed_def)

lemma stop_allowed_unobserved: "pg_in_recovery (h_pg (sy_ha s)) = None \<Longrightarrow> stop_allowed s"
  by (simp add: stop_allowed_def)

lemma stop_allowed_no_fence: "\<not> shutdown_needs_fence (pg_identity_of (sy_ha s) (sy_world s)) \<Longrightarrow> stop_allowed s"
  by (rule stop_allowed_not_primary) (auto simp: shutdown_needs_fence_def)

lemma kept_stop_for_shutdown [within_intros]:
  "within (\<lambda>s s'. I s \<longrightarrow> I s') stop_observed_postgres_for_shutdown"
  "within (\<lambda>s s'. I s \<longrightarrow> I s') stop_postgres_for_shutdown"
proof -
  show o: "within (\<lambda>s s'. I s \<longrightarrow> I s') stop_observed_postgres_for_shutdown"
    unfolding stop_observed_postgres_for_shutdown_def
    by (rule keptI, intro wp_intros engine_wp wp_kept [OF kept_setters(2)])
      (auto simp: stop_allowed_no_fence stop_allowed_unobserved dest: with_stopD)
  show "within (\<lambda>s s'. I s \<longrightarrow> I s') stop_postgres_for_shutdown"
    unfolding stop_postgres_for_shutdown_def by (intro within_intros o)
qed

end

end
