(* ===== verification/Ha_Keeps.thy ===== *)
theory Ha_Keeps
  imports Ha_Invariant
begin

text \<open>
  The engine's decisions keep every engine invariant: following and rejoining, the role of the lock
  holder, elections, commands, the cycle and the shutdown. Where a function needs more than the
  invariant (a promote, a start), its precondition is stated and its callers establish it.
\<close>

lemma wp_case_after_rewind [wp_intros]:
  "(x = Rewind_Started \<Longrightarrow> wp a Q s) \<Longrightarrow> (x = Rewind_StillStarting \<Longrightarrow> wp b Q s) \<Longrightarrow> (x = Rewind_Failed \<Longrightarrow> wp c Q s) \<Longrightarrow>
   wp (case_after_rewind_start a b c x) Q s"
  by (cases x) simp_all

lemma wp_case_follower_action [wp_intros]:
  "(x = Fa_Rejoin \<Longrightarrow> wp a Q s) \<Longrightarrow> (x = Fa_Follow \<Longrightarrow> wp b Q s) \<Longrightarrow> (x = Fa_RewindCheck \<Longrightarrow> wp c Q s) \<Longrightarrow>
   (x = Fa_HandOff \<Longrightarrow> wp d Q s) \<Longrightarrow> (x = Fa_Fence \<Longrightarrow> wp e Q s) \<Longrightarrow> (x = Fa_Wait \<Longrightarrow> wp f Q s) \<Longrightarrow>
   wp (case_follower_action a b c d e f x) Q s"
  by (cases x) simp_all

lemma wp_case_held_node_action [wp_intros]:
  "(x = Held_NotHeld \<Longrightarrow> wp a Q s) \<Longrightarrow> (x = Held_Hold \<Longrightarrow> wp b Q s) \<Longrightarrow> (x = Held_Rebuild \<Longrightarrow> wp c Q s) \<Longrightarrow>
   (x = Held_WaitForLeader \<Longrightarrow> wp d Q s) \<Longrightarrow> wp (case_held_node_action a b c d x) Q s"
  by (cases x) simp_all

lemma wp_case_leader_action [wp_intros]:
  "(x = La_Hold \<Longrightarrow> wp a Q s) \<Longrightarrow> (x = La_Promote \<Longrightarrow> wp b Q s) \<Longrightarrow> (x = La_Relinquish \<Longrightarrow> wp c Q s) \<Longrightarrow>
   (x = La_Wait \<Longrightarrow> wp d Q s) \<Longrightarrow> wp (case_leader_action a b c d x) Q s"
  by (cases x) simp_all

lemma wp_case_election_stance [wp_intros]:
  "(x = Es_Participate \<Longrightarrow> wp a Q s) \<Longrightarrow> (x = Es_StandAside \<Longrightarrow> wp b Q s) \<Longrightarrow> (x = Es_Wait \<Longrightarrow> wp c Q s) \<Longrightarrow>
   (x = Es_Fence \<Longrightarrow> wp d Q s) \<Longrightarrow> wp (case_election_stance a b c d x) Q s"
  by (cases x) simp_all

lemma within_case_after_rewind:
  "within R a \<Longrightarrow> within R b \<Longrightarrow> within R c \<Longrightarrow> within R (case_after_rewind_start a b c x)"
  by (cases x) simp_all

lemma wp_case_bootstrap_result:
  "(x = InitializedAsPrimary \<Longrightarrow> wp a Q s) \<Longrightarrow> (x = ClonedAsReplica \<Longrightarrow> wp b Q s) \<Longrightarrow> (x = LostRace \<Longrightarrow> wp c Q s) \<Longrightarrow>
   (x = Bootstrap_Failed \<Longrightarrow> wp d Q s) \<Longrightarrow> wp (case_bootstrap_result a b c d x) Q s"
  by (cases x) simp_all

lemma within_case_bootstrap_result [within_intros]:
  "within R a \<Longrightarrow> within R b \<Longrightarrow> within R c \<Longrightarrow> within R d \<Longrightarrow> within R (case_bootstrap_result a b c d x)"
  by (cases x) simp_all

lemma wp_case_management_command:
  "(\<And>l c t. x = Switchover l c t \<Longrightarrow> wp (a l c t) Q s) \<Longrightarrow> (\<And>c. x = Failover_Command c \<Longrightarrow> wp (b c) Q s) \<Longrightarrow>
   (x = CancelSwitchover \<Longrightarrow> wp d Q s) \<Longrightarrow> (x = Restart \<Longrightarrow> wp e Q s) \<Longrightarrow> (x = Reinitialize \<Longrightarrow> wp f Q s) \<Longrightarrow>
   wp (case_management_command a b d e f x) Q s"
  by (cases x) simp_all

lemma within_case_shutdown_outcome [within_intros]:
  "within R a \<Longrightarrow> within R b \<Longrightarrow> within R c \<Longrightarrow> within R d \<Longrightarrow> within R e \<Longrightarrow> within R (case_shutdown_outcome a b c d e x)"
  by (cases x) simp_all

definition may_acquire :: "ha \<Rightarrow> world \<Rightarrow> bool" where
  "may_acquire h w \<longleftrightarrow> is_unlocked (h_cluster h) \<and> \<not> h_is_paused h \<and>
     (election_stance_of (pg_identity_of h w) (h_stop_pending h) = Es_Participate \<and> should_attempt (ha_view_of h w) \<or>
      cl_initialize (h_cluster h) = None)"

section \<open>Following and rejoining\<close>

context engine_invariant
begin

lemma kept_stop_held_postgres [within_intros]: "within (\<lambda>s s'. I s \<longrightarrow> I s') (stop_held_postgres reason)"
  unfolding stop_held_postgres_def
  by (rule keptI, intro wp_intros engine_wp) (auto simp: stop_allowed_not_primary)

lemma kept_holds [within_intros]:
  "within (\<lambda>s s'. I s \<longrightarrow> I s') enter_rewind_hold" "within (\<lambda>s s'. I s \<longrightarrow> I s') hold_stop_and_report"
  "within (\<lambda>s s'. I s \<longrightarrow> I s') enforce_generation"
  unfolding enter_rewind_hold_def hold_stop_and_report_def enforce_generation_def
  by (intro within_intros kept_mod_ha; simp add: plain_assignment_def blocked_def)+

lemma kept_start_prepared:
  "within (\<lambda>s s'. I s \<longrightarrow> I s') (State_Monad.bind (write_standby_config url)
     (\<lambda>w. if \<not> is_ok w then ret x else State_Monad.bind pg_start f))"
  if "\<And>r. within (\<lambda>s s'. I s \<longrightarrow> I s') (f r)"
  by (rule keptI, intro wp_intros engine_wp wp_kept [OF that]) (auto simp: start_allowed_def)

lemma kept_rebuild_from_leader [within_intros]: "within (\<lambda>s s'. I s \<longrightarrow> I s') (rebuild_from_leader url)"
  unfolding rebuild_from_leader_def remove_data_directory_def
  by (intro within_intros kept_start_prepared; simp add: guarded_def)

lemma kept_rewind_and_restart [within_intros]: "within (\<lambda>s s'. I s \<longrightarrow> I s') (rewind_and_restart url)"
proof -
  have "within (\<lambda>s s'. I s \<longrightarrow> I s') (set_pg (\<lambda>p. p\<lparr>pg_state_field := Pg_Starting\<rparr>))"
    by (intro kept_quiet within_intros) simp
  then show ?thesis
    unfolding rewind_and_restart_def
    by (intro within_intros kept_start_prepared within_case_after_rewind; simp add: guarded_def)
qed

lemma kept_rejoin_ready [within_intros]: "within (\<lambda>s s'. I s \<longrightarrow> I s') (rejoin_ready n url)"
  unfolding rejoin_ready_def
  by (rule keptI, intro wp_intros engine_wp quiet_wp wp_kept [OF kept_rewind_and_restart])
    (auto simp: stop_allowed_not_primary)

lemma kept_rejoin [within_intros]:
  "within (\<lambda>s s'. I s \<longrightarrow> I s') (rejoin_not_ready n)" "within (\<lambda>s s'. I s \<longrightarrow> I s') (rejoin_as_replica n)"
  unfolding rejoin_not_ready_def rejoin_as_replica_def by (intro within_intros)+

text \<open>The two rules that keep a node stopped leave the front alone when they let it through.\<close>

lemma wp_enforce_generation:
  assumes "I s" "\<And>r s'. I s' \<Longrightarrow> (r = None \<Longrightarrow> front (sy_ha s') = front (sy_ha s)) \<Longrightarrow> Q r s'"
  shows "wp enforce_generation Q s"
  unfolding enforce_generation_def
  by (intro wp_intros wp_kept [OF kept_stop_held_postgres] quiet_wp; (rule assms(2))?) (simp_all add: assms(1))

lemma wp_enforce_rewind_hold:
  assumes "I s" "\<And>r s'. I s' \<Longrightarrow> (r = None \<Longrightarrow> front (sy_ha s') = front (sy_ha s)) \<Longrightarrow> Q r s'"
  shows "wp enforce_rewind_hold Q s"
  unfolding enforce_rewind_hold_def
  by (intro wp_intros wp_kept [OF kept_holds(2)] wp_kept [OF kept_rejoin(2)]
      wp_kept [OF kept_stop_held_postgres] quiet_wp; (rule assms(2))?) (simp_all add: assms(1))

lemma kept_reconfigure_replica:
  assumes "I s" "pg_in_recovery (h_pg (sy_ha s)) = Some True" "\<And>r s'. I s' \<Longrightarrow> Q r s'"
  shows "wp (reconfigure_replica url) Q s"
  unfolding reconfigure_replica_def
  by (intro wp_intros wp_write_standby_config wp_guarded_call wp_pg_stop wp_pg_start; (rule assms(3))?)
    (use assms(1,2) in \<open>auto simp: stop_allowed_def start_allowed_def guarded_def standby_prepared_snoc\<close>)

lemma kept_follow_managed_standby:
  assumes "I s" "pg_in_recovery (h_pg (sy_ha s)) = Some True" "\<And>r s'. I s' \<Longrightarrow> Q r s'"
  shows "wp (follow_managed_standby u) Q s"
  unfolding follow_managed_standby_def set_role_def
  by (intro wp_intros wp_set_pg kept_reconfigure_replica quiet_wp; (rule assms(3))?) (simp_all add: assms(1,2))

lemma kept_follower_fence [within_intros]: "within (\<lambda>s s'. I s \<longrightarrow> I s') (follower_fence n)"
  unfolding follower_fence_def by (rule keptI, intro wp_intros engine_wp) simp_all

lemma follow_observed: "follower_action_of (pg_identity_of h w) p m = Fa_Follow \<Longrightarrow> pg_in_recovery (h_pg h) = Some True"
  by (auto simp: pg_identity_of_def classify_def follower_action_of_def split: option.splits bool.splits if_splits)

lemma kept_follow_upstream [within_intros]: "within (\<lambda>s s'. I s \<longrightarrow> I s') (follow_upstream n)"
  unfolding follow_upstream_def
  by (rule keptI, intro wp_intros wp_enforce_generation wp_enforce_rewind_hold kept_follow_managed_standby
      wp_kept [OF kept_rejoin(2)] wp_kept [OF kept_follower_fence] quiet_wp) (auto dest: follow_observed)

section \<open>The lock holder\<close>

lemma wp_arm_watchdog:
  assumes "I s" "\<And>r s'. I s' \<Longrightarrow> front (sy_ha s') = front (sy_ha s) \<Longrightarrow> h_pg (sy_ha s') = h_pg (sy_ha s) \<Longrightarrow>
    (is_ok r \<Longrightarrow> watchdog_armed (sy_ha s')) \<Longrightarrow> Q r s'"
  shows "wp arm_watchdog Q s"
  unfolding arm_watchdog_def watchdog_activate_def
  by (intro wp_intros wp_assign wp_guarded_call; (rule assms(2))?)
    (auto simp: assms(1) plain_assignment_def front_def blocked_def guarded_def watchdog_armed_def)

lemma wp_set_promote_pending:
  assumes "I s" "sy_trace s = tr @ [c]" "recorded_promote c p"
    "\<And>s'. I s' \<Longrightarrow> sy_ha s' = (sy_ha s)\<lparr>h_promote_pending := Some p\<rparr> \<Longrightarrow> Q () s'"
  shows "wp (mod_ha (\<lambda>h. h\<lparr>h_promote_pending := Some p\<rparr>)) Q s"
  by (rule wp_mod, rule assms(4)) (auto intro!: I_recorded [OF assms(1-3)])

lemma wp_write_pending:
  assumes "I s" "h_is_leader (sy_ha s)" "\<And>r s'. I s' \<Longrightarrow> sy_ha s' = sy_ha s \<Longrightarrow>
    (granted r \<Longrightarrow> \<exists>tr c. sy_trace s' = tr @ [c] \<and> recorded_promote c p) \<Longrightarrow> Q r s'"
  shows "wp (dcs_write_timeline (pending_record t p) v) Q s"
  unfolding dcs_write_timeline_def bool_call_def
  by (rule wp_guarded_call [OF assms(1)]; (rule assms(3))?)
    (use assms(2) in \<open>auto simp: guarded_def issued_def recorded_promote_def pending_record_def split: option.splits\<close>)

lemma wp_record_pending_promote:
  assumes "I s" "h_is_leader (sy_ha s)" "\<And>r s'. I s' \<Longrightarrow> front (sy_ha s') = front (sy_ha s) \<Longrightarrow>
    h_pg (sy_ha s') = h_pg (sy_ha s) \<Longrightarrow> h_watchdog (sy_ha s') = h_watchdog (sy_ha s) \<Longrightarrow>
    (is_ok r \<Longrightarrow> h_promote_pending (sy_ha s') \<noteq> None) \<Longrightarrow> Q r s'"
  shows "wp record_pending_promote Q s"
proof -
  have w: "wp (State_Monad.bind (dcs_write_timeline (pending_record t p) v) (\<lambda>written. if granted written
       then State_Monad.bind (mod_ha (\<lambda>h. h\<lparr>h_promote_pending := Some p\<rparr>)) (\<lambda>_. ret (Ok p)) else ret (Err e))) Q s'"
    if "I s'" "sy_ha s' = sy_ha s" for t p v e s'
  proof (intro wp_bind wp_write_pending wp_if)
    fix r s'' assume i: "I s''" "sy_ha s'' = sy_ha s'" "granted r"
      and "granted r \<Longrightarrow> \<exists>tr c. sy_trace s'' = tr @ [c] \<and> recorded_promote c p"
    then obtain tr c where "sy_trace s'' = tr @ [c]" "recorded_promote c p" by blast
    then show "wp (mod_ha (\<lambda>h. h\<lparr>h_promote_pending := Some p\<rparr>)) (\<lambda>_. wp (ret (Ok p)) Q) s''"
      using i that by (intro wp_set_promote_pending wp_ret assms(3)) (auto simp: front_def)
  qed (use that assms(2) in \<open>auto intro!: wp_ret assms(3)\<close>)
  show ?thesis
    unfolding record_pending_promote_def
    by (intro wp_bind wp_gets wp_case_option wp_case_sum wp_ret w) (use assms(1) in \<open>auto intro!: assms(3)\<close>)
qed

lemma wp_pg_promote:
  assumes "I s" "pg_in_recovery (h_pg (sy_ha s)) = Some True" "h_is_leader (sy_ha s)" "h_promote_pending (sy_ha s) \<noteq> None"
    "h_leader_lease (sy_ha s) \<noteq> None" "\<not> lease_lost (sy_ha s) (sy_world s)" "watchdog_armed (sy_ha s)"
    "\<And>r s'. I s' \<Longrightarrow> front (sy_ha s') = front (sy_ha s) \<Longrightarrow> Q r s'"
  shows "wp pg_promote Q s"
  unfolding pg_promote_def
  by (intro wp_intros wp_set_pg wp_guarded_call; (rule assms(8))?)
    (use assms(1-7) in \<open>auto simp: guarded_def issued_def lease_lost_def lease_held_def watchdog_armed_def\<close>)

text \<open>Reading the front.\<close>

lemma via_front:
  "h_config h = fst (front h)" "h_is_leader h = fst (snd (snd (snd (front h))))"
  "h_cluster h = fst (snd (snd (front h)))" "h_is_paused h = fst (snd (snd (snd (snd (front h)))))"
  "h_leader_lease h = fst (snd (snd (snd (snd (snd (snd (snd (front h))))))))"
  by (simp_all add: front_def)

lemma kept_promote_and_confirm:
  assumes "I s" "h_is_leader (sy_ha s)" "pg_in_recovery (h_pg (sy_ha s)) = Some True" "\<And>r s'. I s' \<Longrightarrow> Q r s'"
    "h_leader_lease (sy_ha s) \<noteq> None"
  shows "wp promote_and_confirm Q s"
  unfolding promote_and_confirm_def
  by (intro wp_intros wp_arm_watchdog wp_record_pending_promote wp_pg_promote kept_release_lock_as_standby
      wp_kept [OF kept_fence_at_lease_check] quiet_wp wp_led [OF led_confirm_promote]
      wp_led [OF led_enforce_synchronous_replication]; (rule assms(4))?)
    (use assms(1-3,5) in \<open>simp_all add: watchdog_armed_def via_front\<close>)

lemma kept_relinquish:
  assumes "I s" "pg_in_recovery (h_pg (sy_ha s)) \<noteq> Some False" "\<And>r s'. I s' \<Longrightarrow> Q r s'"
  shows "wp relinquish_unmanaged_recovery Q s"
  unfolding relinquish_unmanaged_recovery_def
  by (intro wp_intros engine_wp quiet_wp wp_kept [OF kept_release_leader_lock_if_stopped]; (rule assms(3))?)
    (use assms(1,2) in auto)

lemma kept_enforce_standby_leader_role:
  assumes "I s" "h_is_leader (sy_ha s)" "\<And>r s'. I s' \<Longrightarrow> Q r s'"
  shows "wp enforce_standby_leader_role Q s"
  unfolding enforce_standby_leader_role_def
  by (intro wp_intros quiet_wp wp_led [OF led_record_timeline(2)]; (rule assms(3))?)
    (use assms(1,2) in \<open>simp_all add: via_front\<close>)

lemma kept_hold_as_primary:
  assumes "I s" "h_is_leader (sy_ha s)" "\<And>r s'. I s' \<Longrightarrow> Q r s'"
  shows "wp hold_as_primary Q s"
  unfolding hold_as_primary_def
  by (intro wp_intros wp_arm_watchdog wp_kept [OF kept_fence_at_lease_check] wp_kept [OF kept_setters(4)] quiet_wp
      wp_led [OF led_record_timeline(1)] wp_led [OF led_enforce_synchronous_replication]
      wp_led [OF led_append_pending_history]; (rule assms(3))?)
    (use assms(1,2) in \<open>simp_all add: via_front\<close>)

lemma leader_action_observed:
  "leader_action_of (pg_identity_of h w) = La_Promote \<Longrightarrow> pg_in_recovery (h_pg h) = Some True"
  "leader_action_of (pg_identity_of h w) = La_Relinquish \<Longrightarrow> pg_in_recovery (h_pg h) \<noteq> Some False"
  by (auto simp: pg_identity_of_def classify_def split: option.splits bool.splits if_splits)

lemma kept_enforce_primary_role:
  assumes "I s" "h_is_leader (sy_ha s)" "h_leader_lease (sy_ha s) \<noteq> None" "\<And>r s'. I s' \<Longrightarrow> Q r s'"
  shows "wp enforce_primary_role Q s"
  unfolding enforce_primary_role_def
  by (intro wp_intros kept_enforce_standby_leader_role kept_hold_as_primary kept_promote_and_confirm kept_relinquish
      quiet_wp; (rule assms(4))?)
    (use assms(1-3) leader_action_observed in auto)

lemma kept_demote [within_intros]: "within (\<lambda>s s'. I s \<longrightarrow> I s') demote"
  unfolding demote_def by (rule keptI, intro wp_intros engine_wp quiet_wp) simp_all

lemma kept_process_healthy_cluster [within_intros]: "within (\<lambda>s s'. I s \<longrightarrow> I s') process_healthy_cluster"
  unfolding process_healthy_cluster_def lease_anchor_now_def
  by (rule keptI, intro wp_bind wp_gets wp_if wp_ret wp_renewed kept_enforce_primary_role wp_stop_after_demotion
      wp_kept [OF kept_setters(1)] wp_kept [OF kept_setters(4)] wp_kept [OF kept_demote] wp_kept [OF kept_follow_upstream])
    simp_all

section \<open>Elections\<close>

lemma wp_granted_lock:
  assumes "I s" "\<exists>tr c. sy_trace s = tr @ [c] \<and> lock_granted c \<and>
         lease_new anchor (h_dcs_ttl (sy_ha s)) (hc_safety_margin (h_config (sy_ha s))) = lease_of_call c"
    "\<And>s'. I s' \<Longrightarrow> h_is_leader (sy_ha s') \<Longrightarrow> h_leader_lease (sy_ha s') \<noteq> None \<Longrightarrow> wp m Q s'"
  shows "wp (State_Monad.bind (set_is_leader True) (\<lambda>_. State_Monad.bind (extend_leader_lease anchor) (\<lambda>_. m))) Q s"
proof -
  from assms(2) obtain tr c where c: "sy_trace s = tr @ [c]" "lock_granted c"
    "lease_new anchor (h_dcs_ttl (sy_ha s)) (hc_safety_margin (h_config (sy_ha s))) = lease_of_call c" by blast
  show ?thesis
    by (intro wp_bind wp_set_is_leader wp_extend_leader_lease [of _ tr c] assms(3)) (use assms(1) c in simp_all)
qed

lemma kept_attempt_lock:
  assumes "I s" "may_acquire (sy_ha s) (sy_world s)" "\<And>r s'. I s' \<Longrightarrow> Q r s'"
  shows "wp attempt_lock Q s"
  unfolding attempt_lock_def lease_anchor_now_def
  by (intro wp_bind wp_gets wp_ret wp_lock_write wp_case_sum wp_case_bool wp_granted_lock kept_enforce_primary_role
      wp_kept [OF kept_setters(1)] quiet_wp; (rule assms(3))?)
    (use assms(1,2) in \<open>simp_all add: via_front guarded_def issued_def may_acquire_def granted_def\<close>)

lemma kept_campaign:
  assumes "I s" "is_unlocked (h_cluster (sy_ha s))" "\<not> h_is_paused (sy_ha s)"
    "election_stance_of (pg_identity_of (sy_ha s) (sy_world s)) (h_stop_pending (sy_ha s)) = Es_Participate"
    "\<And>r s'. I s' \<Longrightarrow> Q r s'"
  shows "wp campaign Q s"
  unfolding campaign_def stand_aside_def stop_stale_primary_def
  by (intro wp_intros kept_attempt_lock wp_fence_primary wp_kept [OF kept_setters(1)] quiet_wp; (rule assms(5))?)
    (use assms(1-4) in \<open>simp_all add: may_acquire_def\<close>)

lemma kept_process_unhealthy_cluster:
  assumes "I s" "is_unlocked (h_cluster (sy_ha s))" "\<And>r s'. I s' \<Longrightarrow> Q r s'"
  shows "wp process_unhealthy_cluster Q s"
  unfolding process_unhealthy_cluster_def election_fence_def
  by (intro wp_intros kept_campaign wp_enforce_generation wp_enforce_rewind_hold wp_fence_primary quiet_wp;
      (rule assms(3))?)
    (use assms(1,2) in \<open>simp_all add: via_front(3,4)\<close>)

section \<open>Commands\<close>

lemma kept_switchover [within_intros]:
  "within (\<lambda>s s'. I s \<longrightarrow> I s') (execute_switchover c)" "within (\<lambda>s s'. I s \<longrightarrow> I s') (handle_switchover_command l c t)"
proof -
  show x: "within (\<lambda>s s'. I s \<longrightarrow> I s') (execute_switchover c)" for c
    unfolding execute_switchover_def
    by (rule keptI, intro wp_intros wp_quiet [OF quietly_call] engine_wp quiet_wp wp_kept [OF kept_renew_held_lock]
        wp_kept [OF kept_fence_for_lost_lease] wp_kept [OF kept_release_leader_lock_if_stopped]) simp_all
  show "within (\<lambda>s s'. I s \<longrightarrow> I s') (handle_switchover_command l c t)"
    unfolding handle_switchover_command_def by (intro within_intros x)
qed

lemma kept_failover [within_intros]: "within (\<lambda>s s'. I s \<longrightarrow> I s') (handle_failover_command c)"
  unfolding handle_failover_command_def by (intro within_intros; simp add: guarded_def)

lemma wp_stop_for_restart:
  assumes "I s" "holding = holds_lock (sy_ha s)" "\<not> holding \<Longrightarrow> signal_attempted (sy_trace s)"
    "holding \<Longrightarrow> serving_restart (sy_trace s)" "\<not> h_shutting_down (sy_ha s)"
    "\<And>r s'. I s' \<Longrightarrow> holds_lock (sy_ha s') = holds_lock (sy_ha s) \<Longrightarrow>
      standby_prepared (sy_trace s') = standby_prepared (sy_trace s) \<Longrightarrow> Q r s'"
  shows "wp (stop_for_restart holding) Q s"
  unfolding stop_for_restart_def
  by (intro wp_intros wp_publish_not_primary wp_pg_stop wp_set_stop_pending wp_stop_after_demotion; (rule assms(6))?)
    (use assms(1-5) in \<open>auto simp: stop_allowed_def restarting_def holds_lock_def is_lock_owner_def my_name_def with_stop_holds
      dest: with_stop_holds frontD(12)\<close>)

lemma wp_restart:
  assumes "I s" "serving_restart (sy_trace s)" "\<not> h_shutting_down (sy_ha s)" "\<And>r s'. I s' \<Longrightarrow> Q r s'"
  shows "wp handle_restart_command Q s"
  unfolding handle_restart_command_def
  by (intro wp_intros quiet_wp wp_prepare_standby_start wp_pg_start wp_stop_for_restart wp_assign; (rule assms(4))?)
    (use assms(1-3) in \<open>auto simp: holds_lock_def [symmetric] start_allowed_def plain_assignment_def blocked_def
      dest: frontD(9,12)\<close>)

lemma kept_remove_data_directory [within_intros]: "within (\<lambda>s s'. I s \<longrightarrow> I s') remove_data_directory"
  unfolding remove_data_directory_def by (intro within_intros) (simp add: guarded_def)

lemma kept_reinitialize [within_intros]: "within (\<lambda>s s'. I s \<longrightarrow> I s') handle_reinitialize_command"
  unfolding handle_reinitialize_command_def
  by (rule keptI, intro wp_intros engine_wp quiet_wp wp_kept [OF kept_remove_data_directory])
    (auto intro!: stop_allowed_not_primary)

lemma wp_handle_command:
  assumes "I s" "cmd = Restart \<Longrightarrow> serving_restart (sy_trace s)" "\<And>r s'. I s' \<Longrightarrow> Q r s'"
  shows "wp (handle_command cmd) Q s"
  unfolding handle_command_def
  by (intro wp_intros wp_case_management_command wp_restart wp_kept [OF kept_switchover(2)] wp_kept [OF kept_failover]
      wp_kept [OF kept_reinitialize]; (rule assms(3))?) (use assms(1,2) in auto)

lemma kept_commands [within_intros]:
  "within (\<lambda>s s'. I s \<longrightarrow> I s') (handle_commands cmds)" "within (\<lambda>s s'. I s \<longrightarrow> I s') process_commands"
proof -
  show cs: "within (\<lambda>s s'. I s \<longrightarrow> I s') (handle_commands cmds)" for cmds
  proof (induction cmds)
    case (Cons cmd cmds)
    show ?case
      by (rule keptI, simp, intro wp_intros wp_guarded_call wp_handle_command wp_kept [OF Cons])
        (simp_all add: guarded_def serving_restart_snoc)
  qed (simp, intro within_intros)
  have "within (\<lambda>s s'. I s \<longrightarrow> I s') (mod_world f)" for f
    by (rule withinI, rule wp_mod) (blast intro: I_world)
  then show "within (\<lambda>s s'. I s \<longrightarrow> I s') process_commands"
    unfolding process_commands_def by (intro within_intros cs)
qed

section \<open>The cycle\<close>

lemma wp_bootstrap_new_cluster:
  assumes "I s" "\<And>r s'. I s' \<Longrightarrow> front (sy_ha s') = front (sy_ha s) \<Longrightarrow> Q r s'"
  shows "wp bootstrap_new_cluster Q s"
  unfolding bootstrap_new_cluster_def cleanup_on_failure_def remove_data_directory_def unit_call_def unit_call_sync_def
  by (intro wp_intros quiet_wp wp_guarded_call wp_pg_start; (rule assms(2))?)
    (simp_all add: assms(1) guarded_def start_allowed_def bootstrapped_def)

lemma kept_after_bootstrap:
  assumes "I s" "is_unlocked (h_cluster (sy_ha s))" "\<not> h_is_paused (sy_ha s)" "cl_initialize (h_cluster (sy_ha s)) = None"
    "\<And>r s'. I s' \<Longrightarrow> Q r s'"
  shows "wp after_bootstrap Q s"
  unfolding after_bootstrap_def lease_anchor_now_def
  by (intro wp_bind wp_gets wp_ret wp_if wp_lock_write wp_granted_lock
      wp_kept [OF kept_setters(1)] quiet_wp; (rule assms(5))?)
    (use assms(1-4) in \<open>simp_all add: via_front guarded_def issued_def\<close>)

lemma wp_clone_from_member:
  assumes "I s" "\<And>r s'. I s' \<Longrightarrow> (r = ClonedAsReplica \<Longrightarrow> standby_prepared (sy_trace s')) \<Longrightarrow> Q r s'"
  shows "wp clone_from_member Q s"
  unfolding clone_from_member_def cleanup_on_failure_def remove_data_directory_def unit_call_def unit_call_sync_def
  by (intro wp_intros wp_guarded_call; (rule assms(2))?)
    (simp_all add: assms(1) guarded_def standby_prepared_def)

lemma kept_clone_and_start [within_intros]: "within (\<lambda>s s'. I s \<longrightarrow> I s') clone_and_start"
  unfolding clone_and_start_def
  by (rule keptI, intro wp_intros wp_case_bootstrap_result wp_clone_from_member wp_pg_start quiet_wp)
    (simp_all add: start_allowed_def)

lemma kept_handle_empty_data_dir [within_intros]: "within (\<lambda>s s'. I s \<longrightarrow> I s') handle_empty_data_dir"
  unfolding handle_empty_data_dir_def
  by (rule keptI, intro wp_intros wp_case_bootstrap_result wp_bootstrap_new_cluster kept_after_bootstrap quiet_wp
      wp_kept [OF kept_clone_and_start])
    (simp_all add: via_front(3,4))

lemma kept_start_or_rejoin [within_intros]:
  "within (\<lambda>s s'. I s \<longrightarrow> I s') start_as_standby" "within (\<lambda>s s'. I s \<longrightarrow> I s') start_or_rejoin"
proof -
  show a: "within (\<lambda>s s'. I s \<longrightarrow> I s') start_as_standby"
    unfolding start_as_standby_def
    by (rule keptI, intro wp_intros engine_wp wp_assign) (simp_all add: start_allowed_def plain_assignment_def blocked_def)
  show "within (\<lambda>s s'. I s \<longrightarrow> I s') start_or_rejoin"
    unfolding start_or_rejoin_def by (intro within_intros a kept_mod_ha; simp add: plain_assignment_def blocked_def)
qed

lemma kept_handle_postgres_not_running:
  assumes "I s" "\<not> w_running (sy_world s)" "\<And>r s'. I s' \<Longrightarrow> Q r s'"
  shows "wp handle_postgres_not_running Q s"
  unfolding handle_postgres_not_running_def release_lock_of_stopped_server_def
  by (intro wp_intros wp_release wp_enforce_generation wp_enforce_rewind_hold wp_kept [OF kept_setters(1)] quiet_wp
      wp_kept [OF kept_start_or_rejoin(2)]; (rule assms(3))?) (simp_all add: assms(1,2))

lemma kept_handle_dcs_error [within_intros]: "within (\<lambda>s s'. I s \<longrightarrow> I s') handle_dcs_error"
  unfolding handle_dcs_error_def
  by (rule keptI, intro wp_intros engine_wp quiet_wp wp_kept [OF kept_setters(1)]) simp_all

lemma kept_process_dynamic_config [within_intros]: "within (\<lambda>s s'. I s \<longrightarrow> I s') process_dynamic_config"
  unfolding process_dynamic_config_def
  by (intro within_intros kept_mod_ha; simp add: guarded_def plain_assignment_def blocked_def apply_ha_params_def Let_def)

lemma kept_load_cluster [within_intros]: "within (\<lambda>s s'. I s \<longrightarrow> I s') (load_cluster cl)"
  unfolding load_cluster_def by (intro within_intros kept_mod_ha; simp add: plain_assignment_def blocked_def)

lemma kept_decide [within_intros]: "within (\<lambda>s s'. I s \<longrightarrow> I s') decide"
  unfolding decide_def
  by (rule keptI, intro wp_intros kept_process_unhealthy_cluster wp_kept [OF kept_process_healthy_cluster]) simp_all

lemma kept_cycle_running [within_intros]: "within (\<lambda>s s'. I s \<longrightarrow> I s') cycle_running"
  unfolding cycle_running_def
  by (rule keptI, intro wp_intros engine_wp quiet_wp wp_kept [OF kept_decide]) simp_all

lemma kept_cycle_stopped:
  assumes "I s" "\<not> w_running (sy_world s)" "\<And>r s'. I s' \<Longrightarrow> Q r s'"
  shows "wp cycle_stopped Q s"
  unfolding cycle_stopped_def
  by (intro wp_intros wp_set_stop_pending kept_handle_postgres_not_running; (rule assms(3))?) (simp_all add: assms(1,2))

lemma kept_run_cycle [within_intros]: "within (\<lambda>s s'. I s \<longrightarrow> I s') run_cycle"
  unfolding run_cycle_def
  by (rule keptI, intro wp_intros wp_kept [OF kept_commands(2)] wp_quiet [OF quietly_call] wp_kept [OF kept_handle_dcs_error]
      wp_kept [OF kept_load_cluster] wp_kept [OF kept_process_dynamic_config] wp_kept [OF kept_setters(3)] quiet_wp
      wp_kept [OF kept_handle_empty_data_dir] wp_kept [OF kept_cycle_running] kept_cycle_stopped) simp_all

lemma I_dropped_at: "I s \<Longrightarrow> n < length (sy_trace s) \<Longrightarrow> I (dropped_at n s)"
  unfolding dropped_at_def by (rule I_drop)

lemma kept_race_lease:
  assumes "within (\<lambda>s s'. I s \<longrightarrow> I s') m"
  shows "within (\<lambda>s s'. I s \<longrightarrow> I s') (race_lease m)"
proof -
  have "wp (State (\<lambda>s. case run_state m s of (r, s') \<Rightarrow>
       (case first_expiry (length (sy_trace s)) s' of
          None \<Rightarrow> (Some r, s')
        | Some i \<Rightarrow> (None, dropped_at i s')))) (\<lambda>_. I) s" if "I s" for s
  proof -
    have "wp m (\<lambda>_. I) s" using assms that by (rule wp_kept)
    then show ?thesis
      by (auto simp: wp_def first_expiry_def find_Some_iff split: prod.splits option.splits intro!: I_dropped_at)
  qed
  then show ?thesis
    unfolding race_lease_def by (intro within_intros keptI)
qed

lemma kept_run_cycle_bounded [within_intros]: "within (\<lambda>s s'. I s \<longrightarrow> I s') run_cycle_bounded"
  unfolding run_cycle_bounded_def by (intro within_intros kept_race_lease)

section \<open>The process\<close>

lemma kept_begin_shutdown [within_intros]: "within (\<lambda>s s'. I s \<longrightarrow> I s') begin_shutdown"
  unfolding begin_shutdown_def by (intro within_intros kept_mod_ha; simp add: plain_assignment_def blocked_def)

lemma kept_checkpoint_and_stop [within_intros]: "within (\<lambda>s s'. I s \<longrightarrow> I s') checkpoint_and_stop"
  unfolding checkpoint_and_stop_def by (intro within_intros; simp add: guarded_def)

lemma kept_shutdown_steps [within_intros]:
  "within (\<lambda>s s'. I s \<longrightarrow> I s') stop_postgres_within_lease" "within (\<lambda>s s'. I s \<longrightarrow> I s') finish_shutdown"
  "within (\<lambda>s s'. I s \<longrightarrow> I s') outcome_after_fence" "within (\<lambda>s s'. I s \<longrightarrow> I s') (watchdog_after_shutdown out)"
  unfolding stop_postgres_within_lease_def finish_shutdown_def outcome_after_fence_def watchdog_after_shutdown_def
  by (intro within_intros kept_race_lease)+

lemma kept_shutdown [within_intros]:
  "within (\<lambda>s s'. I s \<longrightarrow> I s') (graceful_shutdown rounds drain)" "within (\<lambda>s s'. I s \<longrightarrow> I s') continue_shutdown"
  unfolding graceful_shutdown_def continue_shutdown_def by (intro within_intros)+

lemma kept_ha_cycle [within_intros]: "within (\<lambda>s s'. I s \<longrightarrow> I s') ha_cycle"
  unfolding ha_cycle_def by (intro within_intros)

lemma kept_loops [within_intros]:
  "within (\<lambda>s s'. I s \<longrightarrow> I s') (keep_running_until_stopped k)" "within (\<lambda>s s'. I s \<longrightarrow> I s') (ha_loop k)"
  by (induction k) (auto intro!: within_intros)

lemma kept_until_signal:
  assumes "within (\<lambda>s s'. I s \<longrightarrow> I s') m"
  shows "within (\<lambda>s s'. I s \<longrightarrow> I s') (until_signal i m)"
proof (rule keptI)
  fix s assume "I s"
  with assms have "wp m (\<lambda>_. I) s" by (rule wp_kept)
  then show "wp (until_signal i m) (\<lambda>_. I) s"
    by (auto simp: wp_def until_signal_def Let_def split: prod.splits intro!: I_dropped_at)
qed

lemma kept_shutdown_sequence [within_intros]: "within (\<lambda>s s'. I s \<longrightarrow> I s') (shutdown_sequence rounds drain again)"
  unfolding shutdown_sequence_def by (intro within_intros)

lemma kept_ha_main: "within (\<lambda>s s'. I s \<longrightarrow> I s') (ha_main cycles i rounds drain again)"
  unfolding ha_main_def by (intro within_intros kept_until_signal)

end

end
