(* ===== verification/Ha_Safety.thy ===== *)
theory Ha_Safety
  imports Ha_Keeps
begin

text \<open>
  What the engine never does. Four engine invariants (every call was guarded, every lease is backed by
  a grant, every pending promote by a granted write of \<open>/timeline\<close>, a shutdown is never undone) hold of the whole process \<open>ha_main\<close>: any number of cycles, dropped
  by the signal at any pending call, then the shutdown and the cycles it may still need, for every
  environment. The properties read them off the trace.
\<close>

section \<open>Guarded calls\<close>

definition guarded_trace :: "call list \<Rightarrow> bool" where
  "guarded_trace tr \<longleftrightarrow> (\<forall>n < length tr. guarded (take n tr) (tr ! n))"

lemma guarded_trace_snoc: "guarded_trace (tr @ [c]) \<longleftrightarrow> guarded_trace tr \<and> guarded tr c"
  by (auto simp: guarded_trace_def nth_append less_Suc_eq)

lemma guarded_trace_take: "guarded_trace tr \<Longrightarrow> guarded_trace (take n tr)"
  by (simp add: guarded_trace_def take_take min_def)

interpretation calls: engine_invariant "\<lambda>s. guarded_trace (sy_trace s)"
  by unfold_locales (simp_all add: guarded_trace_snoc guarded_trace_take)

section \<open>Leases backed by grants\<close>

definition lease_backed :: "call list \<Rightarrow> ha \<Rightarrow> bool" where
  "lease_backed tr h \<longleftrightarrow> (\<forall>l. h_leader_lease h = Some l \<longrightarrow> (\<exists>c \<in> set tr. lock_granted c \<and> l = lease_of_call c))"

definition leases_backed :: "sys \<Rightarrow> bool" where
  "leases_backed s \<longleftrightarrow> lease_backed (sy_trace s) (sy_ha s) \<and>
     (\<forall>n < length (sy_trace s). lease_backed (take n (sy_trace s)) (tc_ha (sy_trace s ! n)))"

lemma lease_backed_mono: "lease_backed tr h \<Longrightarrow> set tr \<subseteq> set tr' \<Longrightarrow> h_leader_lease h' = h_leader_lease h \<or> h_leader_lease h' = None \<Longrightarrow>
   lease_backed tr' h'"
  by (fastforce simp: lease_backed_def)

interpretation leases: engine_invariant leases_backed
proof unfold_locales
  fix s :: sys and h :: ha
  assume "leases_backed s" "plain_assignment s h"
  then show "leases_backed (s\<lparr>sy_ha := h\<rparr>)"
    by (auto simp: leases_backed_def plain_assignment_def intro: lease_backed_mono)
next
  fix s c
  assume "leases_backed s" "issued s c"
  then show "leases_backed (after_call s c)"
    by (auto simp: leases_backed_def issued_def nth_append less_Suc_eq intro: lease_backed_mono)
next
  fix s :: sys and tr c and h :: ha
  assume "leases_backed s" "sy_trace s = tr @ [c]" "lock_granted c" "h_leader_lease h = Some (lease_of_call c)"
  then show "leases_backed (s\<lparr>sy_ha := h\<rparr>)"
    by (simp add: leases_backed_def lease_backed_def)
next
  fix s n w
  assume s: "leases_backed s" "n < length (sy_trace s)"
  have "lease_backed (take (Suc n) (sy_trace s)) (tc_ha (sy_trace s ! n))"
    by (rule lease_backed_mono [of "take n (sy_trace s)" "tc_ha (sy_trace s ! n)"])
      (use s in \<open>auto simp: leases_backed_def set_take_subset_set_take\<close>)
  with s show "leases_backed (s\<lparr>sy_ha := tc_ha (sy_trace s ! n), sy_world := w, sy_trace := take (Suc n) (sy_trace s)\<rparr>)"
    by (auto simp: leases_backed_def take_take min_def)
qed (simp_all add: leases_backed_def lease_backed_def)

section \<open>Pending promotes backed by the record\<close>

definition promote_backed :: "call list \<Rightarrow> ha \<Rightarrow> bool" where
  "promote_backed tr h \<longleftrightarrow> (\<forall>p. h_promote_pending h = Some p \<longrightarrow> (\<exists>c \<in> set tr. recorded_promote c p))"

definition promotes_backed :: "sys \<Rightarrow> bool" where
  "promotes_backed s \<longleftrightarrow> promote_backed (sy_trace s) (sy_ha s) \<and>
     (\<forall>n < length (sy_trace s). promote_backed (take n (sy_trace s)) (tc_ha (sy_trace s ! n)))"

lemma promote_backed_mono:
  "promote_backed tr h \<Longrightarrow> set tr \<subseteq> set tr' \<Longrightarrow> h_promote_pending h' = h_promote_pending h \<or> h_promote_pending h' = None \<Longrightarrow>
    promote_backed tr' h'"
  by (fastforce simp: promote_backed_def)

interpretation promotes: engine_invariant promotes_backed
proof unfold_locales
  fix s :: sys and h :: ha
  assume "promotes_backed s" "plain_assignment s h"
  then show "promotes_backed (s\<lparr>sy_ha := h\<rparr>)"
    by (auto simp: promotes_backed_def plain_assignment_def intro: promote_backed_mono)
next
  fix s c
  assume "promotes_backed s" "issued s c"
  then show "promotes_backed (after_call s c)"
    by (auto simp: promotes_backed_def issued_def nth_append less_Suc_eq intro: promote_backed_mono)
next
  fix s :: sys and tr c and h :: ha
  assume "promotes_backed s" "plain_assignment s (h\<lparr>h_leader_lease := None\<rparr>)"
  then show "promotes_backed (s\<lparr>sy_ha := h\<rparr>)"
    by (auto simp: promotes_backed_def plain_assignment_def intro: promote_backed_mono)
next
  fix s n w
  assume s: "promotes_backed s" "n < length (sy_trace s)"
  have "promote_backed (take (Suc n) (sy_trace s)) (tc_ha (sy_trace s ! n))"
    by (rule promote_backed_mono [of "take n (sy_trace s)" "tc_ha (sy_trace s ! n)"])
      (use s in \<open>auto simp: promotes_backed_def set_take_subset_set_take\<close>)
  with s show "promotes_backed (s\<lparr>sy_ha := tc_ha (sy_trace s ! n), sy_world := w, sy_trace := take (Suc n) (sy_trace s)\<rparr>)"
    by (auto simp: promotes_backed_def take_take min_def)
qed (simp_all add: promotes_backed_def promote_backed_def)

section \<open>Starts refused\<close>

definition all_blocked :: "sys \<Rightarrow> bool" where
  "all_blocked s \<longleftrightarrow> blocked (sy_ha s) \<and> (\<forall>c \<in> set (sy_trace s). blocked (tc_ha c))"

interpretation starts: engine_invariant all_blocked
proof unfold_locales
  fix s n w
  assume "all_blocked s" "n < length (sy_trace s)"
  then show "all_blocked (s\<lparr>sy_ha := tc_ha (sy_trace s ! n), sy_world := w, sy_trace := take (Suc n) (sy_trace s)\<rparr>)"
    by (auto simp: all_blocked_def dest: in_set_takeD)
qed (auto simp: all_blocked_def issued_def plain_assignment_def blocked_def)

section \<open>What the process never does\<close>

definition calls_of :: "'a eng \<Rightarrow> sys \<Rightarrow> call list" where
  "calls_of m s = sy_trace (snd (run_state m (s\<lparr>sy_trace := []\<rparr>)))"

lemma kept_run: "within (\<lambda>s s'. I s \<longrightarrow> I s') m \<Longrightarrow> I s \<Longrightarrow> I (snd (run_state m s))"
  by (simp add: within_def wp_def split_beta)

lemma process_guarded:
  assumes "calls_of (ha_main cycles i rounds drain again) s = pre @ c # post"
  shows "guarded pre c"
proof -
  have "guarded_trace (calls_of (ha_main cycles i rounds drain again) s)"
    unfolding calls_of_def
    using kept_run [OF calls.kept_ha_main, of "s\<lparr>sy_trace := []\<rparr>"] by (simp add: guarded_trace_def)
  then show ?thesis unfolding assms guarded_trace_def by (auto dest: spec [of _ "length pre"])
qed

lemma guardedD:
  assumes "guarded pre c"
  shows "tc_event c = Ev_Start \<Longrightarrow> \<not> blocked (tc_ha c) \<and> start_allowed pre (tc_ha c)"
    "tc_event c = Ev_Stop mode (Some False) \<Longrightarrow> w_running (tc_world c) \<Longrightarrow>
       told_not_primary pre \<and> (signal_attempted pre \<or> h_stop_pending (tc_ha c) \<or> restarting pre (tc_ha c))"
    "tc_event c = Ev_Promote obs \<Longrightarrow> obs = Some True \<and> h_is_leader (tc_ha c) \<and> h_promote_pending (tc_ha c) \<noteq> None \<and>
       lease_held (tc_ha c) (tc_world c) \<and> watchdog_armed (tc_ha c)"
    "tc_event c = Ev_Release \<Longrightarrow> \<not> w_running (tc_world c) \<or> pg_in_recovery (h_pg (tc_ha c)) = Some True"
    "tc_event c = Ev_Acquire \<Longrightarrow> may_acquire (tc_ha c) (tc_world c)"
    "tc_event c = Ev_Renew \<Longrightarrow> is_lock_owner (tc_ha c)"
    "leader_only (tc_event c) \<Longrightarrow> h_is_leader (tc_ha c)"
proof -
  show "leader_only (tc_event c) \<Longrightarrow> h_is_leader (tc_ha c)"
    using assms by (cases "tc_event c") (simp_all add: guarded_def)
qed (use assms in \<open>simp_all add: guarded_def blocked_def start_allowed_def may_acquire_def Let_def\<close>)

text \<open>
  C3. PostgreSQL is started only under a rule that keeps two writable servers apart (D1): after a
  successful write of \<open>standby.signal\<close> that nothing has undone, while this node holds the leader lock, or
  right after it created the cluster. Whatever the environment answers and wherever the signal falls.
\<close>

theorem start_is_standby_or_leader:
  "\<nexists>pre c post. calls_of (ha_main cycles i rounds drain again) s = pre @ c # post \<and> tc_event c = Ev_Start \<and>
     \<not> standby_prepared pre \<and> \<not> holds_lock (tc_ha c) \<and> \<not> bootstrapped pre"
  using process_guarded guardedD(1) start_allowed_def by blast

text \<open>
  C5. A server that was last observed writable and is running is stopped only after the REST state has
  said that this node is not the primary (H1), and after an attempt to write \<open>standby.signal\<close> (D2),
  with two exceptions: a stop is already pending, so the stop is being repeated; or the node holds the
  lock, is not shutting down, and is serving a restart command taken from the queue and not yet answered.
\<close>

theorem writable_stop_is_announced:
  "\<nexists>pre c post mode. calls_of (ha_main cycles i rounds drain again) s = pre @ c # post \<and>
     tc_event c = Ev_Stop mode (Some False) \<and> w_running (tc_world c) \<and>
     \<not> (told_not_primary pre \<and> (signal_attempted pre \<or> h_stop_pending (tc_ha c) \<or> restarting pre (tc_ha c)))"
  using process_guarded guardedD(2) by blast

text \<open>
  C6. The leader lock is released only while PostgreSQL is not running or was last observed in recovery
  (L5: nobody else promotes over a writable server).
\<close>

theorem lock_released_only_when_harmless:
  "\<nexists>pre c post. calls_of (ha_main cycles i rounds drain again) s = pre @ c # post \<and> tc_event c = Ev_Release \<and>
     w_running (tc_world c) \<and> pg_in_recovery (h_pg (tc_ha c)) \<noteq> Some True"
  using process_guarded guardedD(4) by blast

text \<open>
  The node tries to acquire the lock only in a view without a leader and not paused, and only when
  the election rules let it attempt (\<open>should_attempt\<close> with an election stance of taking part) or no
  cluster was initialised yet; it renews only a lock that is its own in the view; and \<open>/timeline\<close>, \<open>/sync\<close>,
  \<open>/history\<close> and \<open>synchronous_standby_names\<close> are written only while it is the leader.
\<close>

theorem lock_and_shared_keys_guarded:
  "\<nexists>pre c post. calls_of (ha_main cycles i rounds drain again) s = pre @ c # post \<and>
     (tc_event c = Ev_Acquire \<and> \<not> may_acquire (tc_ha c) (tc_world c) \<or>
      tc_event c = Ev_Renew \<and> \<not> is_lock_owner (tc_ha c) \<or>
      leader_only (tc_event c) \<and> \<not> h_is_leader (tc_ha c))"
  using process_guarded guardedD(5,6,7) by blast

text \<open>
  C22. Once the graceful shutdown has begun, PostgreSQL is never started again, neither by the shutdown
  nor by the cycles that follow while a server could not be stopped, nor by a command still in the queue.
\<close>

theorem shutdown_never_starts:
  "\<nexists>c. c \<in> set (calls_of (shutdown_sequence rounds drain again) s) \<and> tc_event c = Ev_Start"
proof -
  let ?t = "snd (run_state (shutdown_sequence rounds drain again) (s\<lparr>sy_trace := []\<rparr>))"
  have g: "guarded_trace (sy_trace ?t)"
    using kept_run [OF calls.kept_shutdown_sequence, of "s\<lparr>sy_trace := []\<rparr>"] by (simp add: guarded_trace_def)
  have "wp (shutdown_sequence rounds drain again) (\<lambda>_. all_blocked) (s\<lparr>sy_trace := []\<rparr>)"
    unfolding shutdown_sequence_def graceful_shutdown_def begin_shutdown_def
    by (intro wp_intros wp_mod starts.wp_kept [OF starts.kept_publish_snapshot] starts.wp_kept [OF starts.kept_shutdown_fence]
        starts.wp_kept [OF starts.kept_drain(2)] starts.wp_kept [OF starts.kept_shutdown_steps(1)]
        starts.wp_kept [OF starts.kept_shutdown_steps(2)] starts.wp_kept [OF starts.kept_shutdown_steps(3)]
        starts.wp_kept [OF starts.kept_shutdown_steps(4)] starts.wp_kept [OF starts.kept_loops(1)])
      (simp_all add: all_blocked_def blocked_def)
  then have "all_blocked ?t" by (simp add: wp_def split_beta)
  then have "blocked (tc_ha c)" if "c \<in> set (sy_trace ?t)" for c using that by (simp add: all_blocked_def)
  then show ?thesis
    using g guardedD(1) unfolding calls_of_def guarded_trace_def in_set_conv_nth by metis
qed

text \<open>A process that starts with a fresh engine: what is known at each of its calls.\<close>

lemma fresh_backed:
  assumes "calls_of (ha_main cycles i rounds drain again) (s\<lparr>sy_ha := new_ha cfg\<rparr>) = pre @ c # post"
  shows "lease_backed pre (tc_ha c)" "promote_backed pre (tc_ha c)"
proof -
  let ?s = "s\<lparr>sy_ha := new_ha cfg, sy_trace := []\<rparr>"
  let ?t = "snd (run_state (ha_main cycles i rounds drain again) ?s)"
  have tr: "sy_trace ?t = pre @ c # post" using assms by (simp add: calls_of_def)
  have at: "length pre < length (sy_trace ?t)" "take (length pre) (sy_trace ?t) = pre" "sy_trace ?t ! length pre = c"
    unfolding tr by simp_all
  have "leases_backed ?t"
    by (rule kept_run [OF leases.kept_ha_main]) (simp add: leases_backed_def lease_backed_def new_ha_def)
  then show "lease_backed pre (tc_ha c)" using at unfolding leases_backed_def by metis
  have "promotes_backed ?t"
    by (rule kept_run [OF promotes.kept_ha_main]) (simp add: promotes_backed_def promote_backed_def new_ha_def)
  then show "promote_backed pre (tc_ha c)" using at unfolding promotes_backed_def by metis
qed

text \<open>
  C2. PostgreSQL is promoted only by the leader, only when it was last observed in recovery, with the
  watchdog armed where it is required (W2), with the pending promote recorded in \<open>/timeline\<close> (I2): it was
  in a record that an earlier write of this process put there and the DCS granted; and with a lease
  (L5) that a granted lock write of this process gave and that has not run out. The last condition is
  not checked while the cluster is paused: there the lease, still one that was granted, may have run out.
\<close>

theorem promote_is_covered:
  "\<nexists>pre c post obs. calls_of (ha_main cycles i rounds drain again) (s\<lparr>sy_ha := new_ha cfg\<rparr>) = pre @ c # post \<and>
     tc_event c = Ev_Promote obs \<and>
     \<not> (obs = Some True \<and> h_is_leader (tc_ha c) \<and> watchdog_armed (tc_ha c) \<and>
        (\<exists>p. h_promote_pending (tc_ha c) = Some p \<and>
           (\<exists>g \<in> set pre. tc_ok g \<and> (\<exists>r v. tc_event g = Ev_Write_Timeline r v \<and> tr_pending r = Some p))) \<and>
        (\<exists>l. h_leader_lease (tc_ha c) = Some l \<and> (\<exists>g \<in> set pre. lock_granted g \<and> l = lease_of_call g) \<and>
           \<not> (lease_expired l (tc_world c) \<and> \<not> h_is_paused (tc_ha c))))"
proof (rule notI, elim exE conjE)
  fix pre c post obs
  assume p: "calls_of (ha_main cycles i rounds drain again) (s\<lparr>sy_ha := new_ha cfg\<rparr>) = pre @ c # post" "tc_event c = Ev_Promote obs"
    and n: "\<not> (obs = Some True \<and> h_is_leader (tc_ha c) \<and> watchdog_armed (tc_ha c) \<and>
        (\<exists>p. h_promote_pending (tc_ha c) = Some p \<and>
           (\<exists>g \<in> set pre. tc_ok g \<and> (\<exists>r v. tc_event g = Ev_Write_Timeline r v \<and> tr_pending r = Some p))) \<and>
        (\<exists>l. h_leader_lease (tc_ha c) = Some l \<and> (\<exists>g \<in> set pre. lock_granted g \<and> l = lease_of_call g) \<and>
           \<not> (lease_expired l (tc_world c) \<and> \<not> h_is_paused (tc_ha c))))"
  have g: "obs = Some True \<and> h_is_leader (tc_ha c) \<and> h_promote_pending (tc_ha c) \<noteq> None \<and>
      lease_held (tc_ha c) (tc_world c) \<and> watchdog_armed (tc_ha c)"
    by (rule guardedD(3) [OF process_guarded [OF p(1)] p(2)])
  then obtain q l where q: "h_promote_pending (tc_ha c) = Some q" and l: "h_leader_lease (tc_ha c) = Some l"
      "h_is_paused (tc_ha c) \<or> \<not> lease_expired l (tc_world c)"
    by (auto simp: lease_held_def)
  from fresh_backed(2) [OF p(1)] q obtain d where "d \<in> set pre" "recorded_promote d q" by (auto simp: promote_backed_def)
  moreover from fresh_backed(1) [OF p(1)] l obtain d' where "d' \<in> set pre" "lock_granted d'" "l = lease_of_call d'"
    by (auto simp: lease_backed_def)
  ultimately show False using n g q l unfolding recorded_promote_def by blast
qed

text \<open>
  C7. Every lease the engine holds, at every moment of the process, was given by a lock write that the DCS
  granted, and runs from before that write was sent, for the lock's TTL less the safety margin. This is
  the premise under which the lock protocol shows that no two nodes hold valid leases (\<open>Lock_Protocol\<close>).
\<close>

theorem leases_are_granted:
  "\<nexists>pre c post l. calls_of (ha_main cycles i rounds drain again) (s\<lparr>sy_ha := new_ha cfg\<rparr>) = pre @ c # post \<and>
     h_leader_lease (tc_ha c) = Some l \<and> \<not> (\<exists>g \<in> set pre. lock_granted g \<and> l = lease_of_call g)"
  using fresh_backed(1) unfolding lease_backed_def by blast

end
