(* ===== verification/Ha_Behaviour.thy ===== *)
theory Ha_Behaviour
  imports Ha_Safety
begin

text \<open>
  What the engine does when it must act: the fence of an expired lease, the return of the graceful
  shutdown, and a reinitialize that removes the data directory of a server it could not stop.
\<close>

section \<open>Fencing\<close>

lemma quiet_extends: "quiet s s' \<Longrightarrow> \<exists>cs. sy_trace s' = sy_trace s @ cs"
  by (induction rule: quiet.induct) auto

lemma wp_extends:
  "within quiet m \<Longrightarrow> (\<And>r s' cs. front (sy_ha s') = front (sy_ha s) \<Longrightarrow> sy_trace s' = sy_trace s @ cs \<Longrightarrow> Q r s') \<Longrightarrow> wp m Q s"
  by (erule wp_within) (metis quiet_front quiet_extends)

lemmas extends = quietly_reconcile_watchdog [THEN wp_extends] quietly_touch_bounded [THEN wp_extends]

text \<open>
  The calls a fence begins with: marker, standby configuration, REST state, stop; and the stop is
  pending afterwards exactly if it failed.
\<close>

definition fence_calls :: "bool \<Rightarrow> call list \<Rightarrow> bool" where
  "fence_calls pending cs = (case cs of
     marker # conf # pub # stop # _ \<Rightarrow>
       (\<exists>reason. tc_event marker = Ev_Marker reason) \<and> tc_event conf = Ev_Standby_Config None \<and>
       not_primary_snapshot (tc_event pub) \<and> (\<exists>obs. tc_event stop = Ev_Stop ''immediate'' obs) \<and>
       pending = (\<not> tc_ok stop)
   | _ \<Rightarrow> False)"

lemma wp_prepare_demotion_calls:
  assumes "\<And>r s'. front (sy_ha s') = front (sy_ha s) \<Longrightarrow> \<exists>m c. sy_trace s' = sy_trace s @ [m, c] \<and> tc_event m = Ev_Marker reason \<and>
     tc_event c = Ev_Standby_Config None \<Longrightarrow> Q r s'"
  shows "wp (prepare_demotion None (Some reason)) Q s"
  unfolding prepare_demotion_def write_standby_config_def create_rewind_check_marker_def write_standby_files_def unit_call_def
    reset_sync_cache_def option.case
  by (intro wp_intros wp_assigned wp_called; rule assms) (simp_all add: front_def)

lemma wp_set_pg_front:
  assumes "\<And>p. pg_starts_blocked (f p) = pg_starts_blocked p"
    "\<And>s'. front (sy_ha s') = front (sy_ha s) \<Longrightarrow> sy_trace s' = sy_trace s \<Longrightarrow> Q () s'"
  shows "wp (set_pg f) Q s"
  unfolding set_pg_def by (rule wp_assigned, rule assms(2)) (simp_all add: front_def assms(1))

lemma wp_stop_calls:
  assumes "\<And>r s'. front (sy_ha s') = with_stop (\<not> is_ok r) (front (sy_ha s)) \<Longrightarrow>
     \<exists>p q cs. sy_trace s' = sy_trace s @ p # q # cs \<and> not_primary_snapshot (tc_event p) \<and> (\<exists>obs. tc_event q = Ev_Stop mode obs) \<and>
       tc_ok q = is_ok r \<Longrightarrow> Q r s'"
  shows "wp (stop_after_demotion_write mode) Q s"
  unfolding stop_after_demotion_write_def stop_publishing_not_primary_def publish_not_primary_def publish_def pg_stop_def
    set_stop_pending_def
  by (intro wp_intros wp_set_pg_front wp_assigned wp_called extends; (rule assms)?) simp_all

lemma with_stop_rest:
  "front a = with_stop b (front c) \<Longrightarrow> h_stop_pending a = b \<and> h_is_leader a = h_is_leader c \<and> h_leader_lease a = h_leader_lease c"
  by (auto simp: front_def)

lemma wp_fence_for_lost_lease:
  assumes "\<And>r s'. \<not> h_is_leader (sy_ha s') \<Longrightarrow> h_leader_lease (sy_ha s') = None \<Longrightarrow> 
     \<exists>cs. sy_trace s' = sy_trace s @ cs \<and> fence_calls (h_stop_pending (sy_ha s')) cs \<Longrightarrow> Q r s'"
  shows "wp fence_for_lost_lease Q s"
proof -
  have q: "wp reset_sync_cache Q' s" if "\<And>s'. front (sy_ha s') = front (sy_ha s) \<Longrightarrow> sy_trace s' = sy_trace s \<Longrightarrow> Q' () s'" for Q' s
    unfolding reset_sync_cache_def by (rule wp_assigned, rule that) (simp_all add: front_def)
  show ?thesis
    unfolding fence_for_lost_lease_def fence_primary_def set_is_leader_def set_leader_lease_def
      publish_fence_deadline_def set_role_def
    by (intro wp_intros wp_assigned q wp_prepare_demotion_calls wp_stop_calls wp_set_pg_front extends; (rule assms)?)
      (auto simp: fence_calls_def dest!: with_stop_rest)
qed

text \<open>A concrete node, for the examples.\<close>

definition node_config :: ha_config where
  "node_config = \<lparr>hc_name = ''a'', hc_ttl = 30, hc_loop_wait = 10, hc_retry_timeout = 10, hc_safety_margin = 5,
     hc_watchdog_mode = Watchdog_Off, hc_nofailover = False, hc_failover_priority = 1, hc_replicatefrom = None,
     hc_replication_user = ''r'', hc_replication_password = None, hc_rebuild_on_rewind_failure = False,
     hc_self_addr = ''h:1'', hc_pg_port = 5432, hc_dbname = ''p'', hc_superuser = ''p'', hc_restapi_tls = False,
     hc_restapi_port = 8008, hc_bootstrap_config = None, hc_post_bootstrap_sql = []\<rparr>"

definition node_world :: "bool \<Rightarrow> world" where
  "node_world running = \<lparr>w_running = running, w_data_dir_empty = Ok False, w_standby_signal = False, w_recovery_signal = False,
     w_rewind_marker = False, w_hold_file = False, w_accept_loss = False, w_generation = Ok 0,
     w_newest_history = Err [], w_timeline_begin = (\<lambda>_. Ok None), w_server_run = Ok None, w_auto_conf = None,
     w_auto_conf_age = None, w_watchdog_writable = False, w_watchdog_opens = False, w_mono = 10, w_wall = 10, w_commands = []\<rparr>"

text \<open>An environment in which the commands fail, and nothing happens by itself.\<close>

definition failing_env :: env where
  "failing_env = \<lparr>en_move = (\<lambda>_ w. w), en_cmd = (\<lambda>_. Cmd_Failed []), en_unit = (\<lambda>_. Ok ()), en_bool = (\<lambda>_. Err []),
     en_recovery = (\<lambda>_. None), en_wal = (\<lambda>_. Err []), en_number = (\<lambda>_. Err []), en_text = (\<lambda>_. Err []),
     en_cluster = (\<lambda>_. Err []), en_config = (\<lambda>_. Err []), en_replication = (\<lambda>_. Err []), en_history = (\<lambda>_. Err []),
     en_fires = (\<lambda>_. False), en_dropped = (\<lambda>_ w. w)\<rparr>"

definition node :: sys where
  "node = \<lparr>sy_env = failing_env, sy_ha = new_ha node_config, sy_world = node_world True, sy_step = 0, sy_trace = []\<rparr>"

definition expired_leader :: sys where
  "expired_leader = node\<lparr>sy_ha := (new_ha node_config)\<lparr>h_is_leader := True,
     h_leader_lease := Some \<lparr>ls_mono_deadline = 5, ls_wall_deadline = 5\<rparr>\<rparr>\<rparr>"



section \<open>The drain ends\<close>

definition monotone_clock :: "env \<Rightarrow> bool" where
  "monotone_clock e \<longleftrightarrow> (\<forall>n w. w_mono w \<le> w_mono (en_move e n w))"

definition later :: "sys \<Rightarrow> sys \<Rightarrow> bool" where
  "later s s' \<longleftrightarrow> sy_env s' = sy_env s \<and> (monotone_clock (sy_env s) \<longrightarrow> w_mono (sy_world s) \<le> w_mono (sy_world s'))"

interpretation later: run_relation later
  by unfold_locales (auto simp: later_def)

lemma later_call [within_intros]: "within later (do_call aw ev answer ok no_effect)"
  by (rule withinI, rule wp_called) (auto simp: later_def no_effect_def monotone_clock_def)

lemma later_mod_ha [within_intros]: "within later (mod_ha f)"
  by (rule withinI, rule wp_assigned) (simp add: later_def)

lemma later_round: "within later renew_held_lock" "within later reconcile_watchdog"
  unfolding renew_held_lock_def lease_anchor_now_def bool_call_def set_is_leader_def extend_leader_lease_def set_leader_lease_def
    publish_fence_deadline_def reconcile_watchdog_def watchdog_keepalive_def watchdog_disarm_def observe_recovery_def set_pg_def
  by (intro within_intros)+

lemma loop_wait_ms_ge: "1000 \<le> loop_wait_ms h"
proof -
  have "1 \<le> unat (max (hc_loop_wait (h_config h)) 1)"
    by (metis max.cobounded2 unat_1 word_le_nat_alt)
  then show ?thesis by (simp add: loop_wait_ms_def)
qed

lemma drain_rounds_end:
  assumes "monotone_clock (sy_env s)" "deadline \<le> w_mono (sy_world s) + 1000 * k"
  shows "wp (drain_rounds (Suc k) deadline) (\<lambda>r _. r \<noteq> None) s"
  using assms
proof (induction k arbitrary: s)
  case 0
  then show ?case
    unfolding drain_rounds.simps
    by (intro wp_intros wp_within [OF later_round(1)] wp_within [OF later_round(2)] wp_fence_for_lost_lease wp_sleep)
      (auto simp: later_def)
next
  case (Suc k)
  show ?case
    unfolding drain_rounds.simps(2) [of "Suc k"]
  proof (intro wp_intros wp_within [OF later_round(1)] wp_within [OF later_round(2)] wp_fence_for_lost_lease wp_sleep Suc.IH)
    fix t u :: sys and c :: call
    assume l: "later s t" "later t u" "\<not> deadline \<le> w_mono (sy_world u)"
      "w_mono (sy_world u) + min (deadline - w_mono (sy_world u)) (loop_wait_ms (sy_ha u)) \<le> w_mono (tc_resume c)"
    then show "monotone_clock (sy_env (after_call u c))" using Suc.prems(1) by (simp add: later_def)
    have "w_mono (sy_world s) \<le> w_mono (sy_world u)" using l(1,2) Suc.prems(1) by (auto simp: later_def)
    then show "deadline \<le> w_mono (sy_world (after_call u c)) + 1000 * k"
      using l(3,4) Suc.prems(2) loop_wait_ms_ge [of "sy_ha u"] by simp
  qed simp_all
qed

text \<open>
  C23. The graceful shutdown returns: on a monotone clock the drain ends after at most one round per second
  of the drain time and one more, and every step after it is a bounded sequence of calls.
\<close>

theorem graceful_shutdown_returns:
  assumes "monotone_clock (sy_env s)" "drain \<le> 1000 * k"
  shows "\<exists>outcome. fst (run_state (graceful_shutdown (Suc k) drain) s) = Some outcome"
proof -
  have drain: "wp (drain_renewing_leader_lock (Suc k) drain) (\<lambda>r _. r \<noteq> None) t" if "monotone_clock (sy_env t)" for t
    unfolding drain_renewing_leader_lock_def
    by (intro wp_intros wp_sleep drain_rounds_end) (use that assms(2) in simp_all)
  have any: "wp m Q t" if "\<And>r t'. Q r t'" for m :: "'a eng" and Q t
    using that by (simp add: wp_def split_beta)
  have b: "within later begin_shutdown"
    unfolding begin_shutdown_def publish_snapshot_def publish_def by (intro within_intros)
  have "wp (graceful_shutdown (Suc k) drain) (\<lambda>r _. r \<noteq> None) s"
    unfolding graceful_shutdown_def shutdown_fence_if_lease_expired_def
    by (intro wp_bind wp_within [OF b] wp_gets wp_if wp_fence_for_lost_lease wp_ret wp_case_option wp_conseq [OF drain] any)
      (use assms(1) in \<open>auto simp: later_def intro!: wp_ret\<close>)
  then show ?thesis by (auto simp: wp_def split_beta)
qed

theorem graceful_shutdown_returns_witness:
  "\<exists>outcome. fst (run_state (graceful_shutdown 11 10000) expired_leader) = Some outcome"
  using graceful_shutdown_returns [of expired_leader 10000 10]
  by (simp add: expired_leader_def node_def failing_env_def monotone_clock_def)

section \<open>Reinitialize\<close>

text \<open>
  C40. A reinitialize of a running server that is not known to be a primary (its role not observed, or in
  recovery) ignores a failed stop: the data directory is removed while the server is running.
\<close>

theorem reinitialize_ignores_failed_stop:
  assumes "\<not> h_is_leader (sy_ha s)" "pg_identity_of (sy_ha s) (sy_world s) \<noteq> Id_Primary"
    "w_running (en_move (sy_env s) (sy_step s) (sy_world s))" "en_cmd (sy_env s) (sy_step s) \<noteq> Cmd_Ok"
  shows "\<exists>c \<in> set (calls_of handle_reinitialize_command s). tc_event c = Ev_Remove_Data \<and> w_running (tc_world c)"
proof -
  have "wp handle_reinitialize_command (\<lambda>_ s'. \<exists>c \<in> set (sy_trace s'). tc_event c = Ev_Remove_Data \<and> w_running (tc_world c))
    (s\<lparr>sy_trace := []\<rparr>)"
    unfolding handle_reinitialize_command_def pg_stop_def set_pg_def remove_data_directory_def unit_call_sync_def clear_rewind_hold_def
    by (intro wp_intros wp_assigned wp_answered) (use assms in auto)
  then show ?thesis by (simp add: calls_of_def wp_def split_beta)
qed

theorem reinitialize_ignores_failed_stop_witness:
  "\<exists>c \<in> set (calls_of handle_reinitialize_command node). tc_event c = Ev_Remove_Data \<and> w_running (tc_world c)"
  by (rule reinitialize_ignores_failed_stop)
    (simp_all add: node_def new_ha_def failing_env_def node_world_def pg_identity_of_def classify_def)

end
