(* ===== verification/Ha_Sync.thy ===== *)
theory Ha_Sync
  imports Ha_Behaviour
begin

text \<open>
  Synchronous replication of the lock holder (\<open>enforce_synchronous_replication\<close> of \<open>ha/mod.rs\<close>): two lists
  name the synchronous standbys, the \<open>synchronous_standby_names\<close> of PostgreSQL and the \<open>/sync\<close> key from
  which a successor is elected. The lemmas show that \<open>/sync\<close> stays within PostgreSQL's list at every moment of
  a change, interrupted or not, as long as this node wrote the current \<open>/sync\<close> or there is none; that it
  grows by standbys that caught up only; and that a node which did not write the current \<open>/sync\<close> never
  empties it, so that the voters of its predecessor may stand outside its list.
\<close>

section \<open>Names read and written\<close>

lemma extracted_clean: "n \<in> set (extracted_names v) \<Longrightarrow> clean_name n"
  unfolding extracted_names_def extract_names_from_sync_value_def
  by (auto simp: Let_def name_set_of_def intro: parse_sync_name_clean split: if_splits option.splits)

lemma published_names:
  assumes "\<forall>n \<in> set names. clean_name n"
  shows "set (sync_name_set (sync_standby_names (sync_state_for h names enabled k))) = set names"
proof (cases "names = []")
  case True
  then show ?thesis by (simp add: sync_state_for_def sync_standby_names_def sync_name_set_def name_set_of_def)
next
  case False
  have "str_split (CHR '','') (join_names names) = names"
    using False assms by (intro split_joined_names) (auto simp: clean_name_def)
  moreover have "map str_trim names = names" "map (map ascii_lower) names = names" "filter (\<lambda>n. n \<noteq> []) names = names"
    using assms by (auto simp: clean_name_def intro: map_idI)
  ultimately show ?thesis using False
    by (simp add: sync_state_for_def sync_standby_names_def sync_name_set_def name_set_of_def)
qed


section \<open>The two lists\<close>

type_synonym sync_pair = "string set \<times> string"

definition sync_next :: "call \<Rightarrow> sync_pair set \<Rightarrow> sync_pair set" where
  "sync_next c A =
    (case tc_event c of
       Ev_Set_Sync st \<Rightarrow> (\<lambda>(v, l). (set (sync_name_set (sync_standby_names st)), l)) ` A \<union> (if tc_ok c then {} else A)
     | Ev_Alter_Sync x \<Rightarrow> (\<lambda>(v, l). (v, x)) ` A \<union> (if tc_ok c then {} else A)
     | _ \<Rightarrow> A)"

definition covered :: "sync_pair set \<Rightarrow> bool" where
  "covered A \<longleftrightarrow> (\<forall>(v, l) \<in> A. v \<subseteq> set (extracted_names l))"

fun always_covered :: "call list \<Rightarrow> sync_pair set \<Rightarrow> bool" where
  "always_covered [] A = covered A"
| "always_covered (c # cs) A = (covered A \<and> always_covered cs (sync_next c A))"

fun sync_reach :: "call list \<Rightarrow> sync_pair set \<Rightarrow> sync_pair set" where
  "sync_reach [] A = A"
| "sync_reach (c # cs) A = sync_reach cs (sync_next c A)"

lemma sync_reach_append [simp]: "sync_reach (cs @ ds) A = sync_reach ds (sync_reach cs A)"
  by (induction cs arbitrary: A) simp_all

lemma always_covered_snoc: "always_covered (cs @ [c]) A \<longleftrightarrow> always_covered cs A \<and> covered (sync_next c (sync_reach cs A))"
  by (induction cs arbitrary: A) auto

lemma always_covered_reach: "always_covered cs A \<Longrightarrow> covered (sync_reach cs A)"
  by (induction cs arbitrary: A) auto

lemma wp_write_sync_state:
  assumes "always_covered (sy_trace s) A" "\<forall>n \<in> set names. clean_name n" "\<forall>(v, l) \<in> sync_reach (sy_trace s) A. set names \<subseteq> set (extracted_names l)"
    "\<And>r s'. sy_ha s' = sy_ha s \<Longrightarrow> always_covered (sy_trace s') A \<Longrightarrow> 
      \<forall>(v, l) \<in> sync_reach (sy_trace s') A. (r \<longrightarrow> v = set names) \<and> (\<exists>v'. (v', l) \<in> sync_reach (sy_trace s) A) \<Longrightarrow> Q r s'"
  shows "wp (write_sync_state names enabled k) Q s"
  unfolding write_sync_state_def
proof (intro wp_intros wp_called)
  fix r :: "(string, bool) res" and c :: call and s' :: sys
  assume t: "sy_ha s' = sy_ha s" "sy_trace s' = sy_trace s @ [c]" "tc_event c = Ev_Set_Sync (sync_state_for (sy_ha s) names enabled k)"
    "tc_ok c = is_ok r"
  note n = published_names [OF assms(2), of "sy_ha s" enabled k]
  have "covered (sync_next c (sync_reach (sy_trace s) A))"
    using assms(3) always_covered_reach [OF assms(1)] n by (fastforce simp: sync_next_def t(3) covered_def)
  then have "always_covered (sy_trace s') A" using assms(1) by (simp add: t(2) always_covered_snoc)
  then show "Q (is_ok r) s'"
    by (intro assms(4) t(1)) (auto simp: t sync_next_def n)
qed


lemma wp_desired_sync_list:
  assumes "covered A" "sy_trace s = []"
    "\<And>r s'. sy_ha s' = sy_ha s \<Longrightarrow> always_covered (sy_trace s') A \<Longrightarrow> sync_reach (sy_trace s') A = A \<Longrightarrow> Q r s'"
  shows "wp (desired_sync_list enabled) Q s"
  unfolding desired_sync_list_def
  by (intro wp_intros wp_called; rule assms(3)) (simp_all add: assms(1,2) sync_next_def)

lemma wp_sync_phase_remove:
  assumes "always_covered (sy_trace s) A" "sync_reach (sy_trace s) A = {(set current, l)}" "\<forall>n \<in> set desired. clean_name n"
    "\<And>r s'. sy_ha s' = sy_ha s \<Longrightarrow> always_covered (sy_trace s') A \<Longrightarrow>
      (r \<longrightarrow> (\<forall>(v, l') \<in> sync_reach (sy_trace s') A. v \<subseteq> set desired \<and> l' = l)) \<Longrightarrow> Q r s'"
  shows "wp (sync_phase_remove current desired enabled k) Q s"
  unfolding sync_phase_remove_def
proof (intro wp_intros wp_write_sync_state)
  show "Q True s" if "set current \<subseteq> set desired"
    by (rule assms(4)) (use assms(1,2) that in auto)
  have "set current \<subseteq> set (extracted_names l)" using always_covered_reach [OF assms(1)] assms(2) by (simp add: covered_def)
  then show "\<forall>(v, l) \<in> sync_reach (sy_trace s) A. set (filter (\<lambda>n. n \<in> set desired) current) \<subseteq> set (extracted_names l)"
    using assms(2) by auto
next
  fix r and s' :: sys
  assume t: "sy_ha s' = sy_ha s" "always_covered (sy_trace s') A"
    "\<forall>(v, l) \<in> sync_reach (sy_trace s') A. (r \<longrightarrow> v = set (filter (\<lambda>n. n \<in> set desired) current)) \<and> (\<exists>v'. (v', l) \<in> sync_reach (sy_trace s) A)"
  show "Q r s'" by (rule assms(4) [OF t(1,2)]) (use t(3) assms(2) in fastforce)
qed (use assms in auto)

lemma wp_sync_phase_alter:
  assumes "always_covered (sy_trace s) A" "\<forall>(v, l') \<in> sync_reach (sy_trace s) A. v \<subseteq> set (extracted_names desired) \<and> l' = l"
    "h_applied_sync (sy_ha s) = None \<or> h_applied_sync (sy_ha s) = Some l"
    "\<And>r s'. always_covered (sy_trace s') A \<Longrightarrow> (r \<longrightarrow> (\<forall>(v, l') \<in> sync_reach (sy_trace s') A. extracted_names l' = extracted_names desired)) \<Longrightarrow> Q r s'"
  shows "wp (sync_phase_alter desired flush) Q s"
  unfolding sync_phase_alter_def set_synchronous_standby_names_def unit_call_def
proof (intro wp_intros wp_called wp_assigned)
  show "Q True s" if "h_applied_sync (sy_ha s) = Some desired"
    by (rule assms(4)) (use assms(1,2,3) that in auto)
next
  fix r :: "(string, unit) res" and c :: call and s' s'' :: sys
  assume t: "sy_ha s' = sy_ha s" "sy_trace s' = sy_trace s @ [c]" "tc_event c = Ev_Alter_Sync desired" "tc_ok c = is_ok r"
  have "covered (sync_next c (sync_reach (sy_trace s) A))"
    using assms(2) always_covered_reach [OF assms(1)] by (fastforce simp: sync_next_def t(3) covered_def)
  then have k: "always_covered (sy_trace s') A" using assms(1) by (simp add: t(2) always_covered_snoc)
  show "Q False s'" by (rule assms(4) [OF k]) simp
  assume r: "\<not> \<not> is_ok r" "sy_trace s'' = sy_trace s'"
  show "Q True s''" by (rule assms(4)) (use k r t in \<open>auto simp: sync_next_def\<close>)
qed

lemma wp_sync_phase_add:
  assumes "always_covered (sy_trace s) A" "\<forall>(v, l') \<in> sync_reach (sy_trace s) A. extracted_names l' = desired"
    "\<forall>n \<in> set desired. clean_name n" "\<And>r s'. always_covered (sy_trace s') A \<Longrightarrow> Q r s'"
  shows "wp (sync_phase_add current desired snapshot enabled k) Q s"
  unfolding sync_phase_add_def
  by (intro wp_intros wp_write_sync_state assms(4)) (use assms(1-3) in auto)

text \<open>A lock holder that has published one voter, after synchronous mode was turned off.\<close>

definition sync_leader :: sys where
  "sync_leader = node\<lparr>sy_ha := (new_ha node_config)\<lparr>h_is_leader := True,
     h_cluster := empty_cluster\<lparr>cl_sync_state := Some \<lparr>sy_leader = ''A'', sy_sync_standby = Some ''b'', sy_quorum = 1\<rparr>\<rparr>,
     h_applied_sync := Some (standby_list ''FIRST'' 1 [''b''])\<rparr>\<rparr>"

text \<open>What \<open>/sync\<close> names, as read in this cycle, and whether this node is its recorded writer.\<close>

definition recorded_voters :: "ha \<Rightarrow> string set" where
  "recorded_voters h = set (sync_name_set (case cl_sync_state (h_cluster h) of Some st \<Rightarrow> sync_standby_names st | None \<Rightarrow> []))"

definition wrote_sync :: "ha \<Rightarrow> bool" where
  "wrote_sync h \<longleftrightarrow> (\<forall>st. cl_sync_state (h_cluster h) = Some st \<longrightarrow> eq_ignore_ascii_case (sy_leader st) (my_name h))"

lemma own_voters_recorded: "wrote_sync h \<Longrightarrow> set (sync_name_set (own_voters h)) = recorded_voters h"
  by (auto simp: wrote_sync_def recorded_voters_def own_voters_def split: option.splits)

text \<open>
  C9. The order of the two writes keeps \<open>/sync\<close> within PostgreSQL's list (S5), for a lock holder that is
  the recorded writer of the current \<open>/sync\<close>, or finds none: if all the names in \<open>/sync\<close> are in PostgreSQL's
  list before, and the engine's copy of that list is right or absent, it is so before, between and after
  the calls of \<open>enforce_synchronous_replication\<close>, whichever of them fails, and whether a failed write took
  effect or not. A new primary whose \<open>/sync\<close> is still the one of its predecessor is left out: it
  takes the recorded names for unpublished and may shrink its list below them (\<open>successor_leaves_voters\<close>).
\<close>

theorem sync_list_covers_voters:
  assumes "wrote_sync (sy_ha s)"
    and "h_applied_sync (sy_ha s) = None \<or> h_applied_sync (sy_ha s) = Some l"
    and "recorded_voters (sy_ha s) \<subseteq> set (extracted_names l)"
  shows "always_covered (calls_of enforce_synchronous_replication s) {(recorded_voters (sy_ha s), l)}"
proof -
  let ?A = "{(recorded_voters (sy_ha s), l)}"
  have v: "set (sync_name_set (own_voters (sy_ha s))) = recorded_voters (sy_ha s)" by (rule own_voters_recorded [OF assms(1)])
  have a: "covered ?A" using assms(3) by (simp add: covered_def)
  have "wp enforce_synchronous_replication (\<lambda>_ s'. always_covered (sy_trace s') ?A) (s\<lparr>sy_trace := []\<rparr>)"
    unfolding enforce_synchronous_replication_def
    by (intro wp_intros wp_desired_sync_list [OF a] wp_sync_phase_remove [where l = l and A = ?A]
          wp_sync_phase_alter [where l = l and A = ?A] wp_sync_phase_add [where A = ?A])
      (simp_all add: assms(2) extracted_clean v)
  then show ?thesis by (simp add: calls_of_def wp_def split_beta)
qed

theorem sync_list_covers_voters_witness:
  "recorded_voters (sy_ha sync_leader) = {''b''} \<and> h_applied_sync (sy_ha sync_leader) = Some (standby_list ''FIRST'' 1 [''b'']) \<and>
   always_covered (calls_of enforce_synchronous_replication sync_leader) {({''b''}, standby_list ''FIRST'' 1 [''b''])}"
proof -
  have "ascii_lower (CHR ''A'') = ascii_lower (CHR ''a'')" by code_simp
  then have w: "wrote_sync (sy_ha sync_leader)"
    by (simp add: wrote_sync_def sync_leader_def node_def new_ha_def node_config_def my_name_def eq_ignore_ascii_case_def empty_cluster_def)
  have n: "sync_name_set [''b''] = [''b'']" by code_simp
  have v: "recorded_voters (sy_ha sync_leader) = {''b''}"
    using n by (simp add: recorded_voters_def sync_leader_def sync_standby_names_def str_trim_def is_ascii_space_def empty_cluster_def)
  have a: "h_applied_sync (sy_ha sync_leader) = Some (standby_list ''FIRST'' 1 [''b''])" by (simp add: sync_leader_def)
  have l: "extracted_names (standby_list ''FIRST'' 1 [''b'']) = [''b'']" by code_simp
  show ?thesis using sync_list_covers_voters [OF w disjI2, OF a, unfolded v] a v by (simp add: l del: One_nat_def)
qed

section \<open>What is written\<close>

text \<open>What a write of \<open>/sync\<close> holds: voters this node has published, and standbys that caught up.\<close>

definition caught_up_for :: "ha \<Rightarrow> replication_snapshot option \<Rightarrow> string \<Rightarrow> bool" where
  "caught_up_for h snap n = sync_standby_caught_up (h_sync_flush_mark h) n snap (gc_maximum_lag_on_syncnode (last_config h))"

definition sync_write :: "name_set \<Rightarrow> replication_snapshot option \<Rightarrow> call \<Rightarrow> bool" where
  "sync_write current snap c \<longleftrightarrow> (\<forall>st. tc_event c = Ev_Set_Sync st \<longrightarrow>
     (\<exists>names enabled k. st = sync_state_for (tc_ha c) names enabled k \<and> (\<forall>n \<in> set names. clean_name n) \<and>
        (current = [] \<longrightarrow> names \<noteq> []) \<and> (\<forall>n \<in> set names. n \<in> set current \<or> caught_up_for (tc_ha c) snap n)))"

lemma sync_write_other: "(\<And>st. tc_event c \<noteq> Ev_Set_Sync st) \<Longrightarrow> sync_write current snap c"
  by (simp add: sync_write_def)

lemma wp_write_sync:
  assumes "list_all (sync_write current snap) (sy_trace s)" "\<forall>n \<in> set names. clean_name n" "current = [] \<Longrightarrow> names \<noteq> []"
    "\<forall>n \<in> set names. n \<in> set current \<or> caught_up_for (sy_ha s) snap n"
    "\<And>r s'. list_all (sync_write current snap) (sy_trace s') \<Longrightarrow> Q r s'"
  shows "wp (write_sync_state names enabled k) Q s"
  unfolding write_sync_state_def
  by (intro wp_intros wp_answered; rule assms(5)) (use assms(1-4) in \<open>auto simp: sync_write_def\<close>)

definition ok_value :: "('e, 'a) res \<Rightarrow> 'a option" where
  "ok_value r = (case r of Inr x \<Rightarrow> Some x | Inl _ \<Rightarrow> None)"

lemma wp_sync_writes:
  fixes s :: sys
  defines "current \<equiv> sync_name_set (own_voters (sy_ha s))"
    and "snap \<equiv> ok_value (en_replication (sy_env s) (sy_step s))"
  assumes "sy_trace s = []"
  shows "wp enforce_synchronous_replication (\<lambda>_ s'. list_all (sync_write current snap) (sy_trace s')) s"
proof -
  have desired: "wp (desired_sync_list enabled) Q s"
    if "\<And>r s'. sy_ha s' = sy_ha s \<Longrightarrow> list_all (sync_write current snap) (sy_trace s') \<Longrightarrow>
      \<forall>v snap'. r = Some (v, snap') \<longrightarrow> snap' = None \<or> snap' = snap \<Longrightarrow> Q r s'" for enabled Q
    unfolding desired_sync_list_def
    by (intro wp_intros wp_answered; rule that) (auto simp: assms(3) sync_write_other snap_def ok_value_def split: sum.splits)
  have remove: "wp (sync_phase_remove cur names enabled k) Q t"
    if "cur = current" "list_all (sync_write current snap) (sy_trace t)" "\<forall>n \<in> set names. clean_name n"
      "\<And>r t'. list_all (sync_write current snap) (sy_trace t') \<Longrightarrow> Q r t'" for cur names enabled k Q t
    unfolding sync_phase_remove_def
    by (intro wp_intros wp_write_sync that(4)) (use that(1-3) in auto)
  have alter: "wp (sync_phase_alter v flush) Q t"
    if "list_all (sync_write current snap) (sy_trace t)" 
      "\<And>r t'. list_all (sync_write current snap) (sy_trace t') \<Longrightarrow> Q r t'" for v flush Q t
    unfolding sync_phase_alter_def set_synchronous_standby_names_def unit_call_def
    by (intro wp_intros wp_answered wp_assigned that(2)) (use that(1) in \<open>auto simp: sync_write_other\<close>)
  have add: "wp (sync_phase_add cur names snap' enabled k) Q t"
    if "cur = current" "list_all (sync_write current snap) (sy_trace t)" "\<forall>n \<in> set names. clean_name n" "snap' = None \<or> snap' = snap"
      "\<And>r t'. list_all (sync_write current snap) (sy_trace t') \<Longrightarrow> Q r t'" for cur names snap' enabled k Q t
    unfolding sync_phase_add_def
    by (intro wp_intros wp_write_sync that(5))
      (use that(1-4) in \<open>auto simp: caught_up_for_def sync_standby_caught_up_def\<close>)
  show ?thesis
    unfolding enforce_synchronous_replication_def
    by (intro wp_bind wp_gets desired wp_case_option wp_case_prod wp_let wp_if wp_ret remove alter add)
      (simp_all add: current_def extracted_clean)
qed

lemma sync_write_calls:
  "c \<in> set (calls_of enforce_synchronous_replication s) \<Longrightarrow>
   sync_write (sync_name_set (own_voters (sy_ha s))) (ok_value (en_replication (sy_env s) (sy_step s))) c"
  using wp_sync_writes [of "s\<lparr>sy_trace := []\<rparr>"] by (auto simp: calls_of_def wp_def split_beta list_all_iff)

lemma caught_upE:
  assumes "caught_up_for h (ok_value r) n"
  obtains snap mark row where "r = Ok snap" "h_sync_flush_mark h = Some mark" "find_replica (rs_replicas snap) n = Some row"
    "saturating_sub mark (rr_flush_lsn row) \<le> unwrap_or (gc_maximum_lag_on_syncnode (last_config h)) 0"
  using assms by (auto simp: caught_up_for_def sync_standby_caught_up_def ok_value_def split: sum.splits option.splits)

text \<open>
  \<open>/sync\<close> grows only by standbys that caught up (S5): a name that this node had not published before is
  written only if the replication status just read shows the standby streaming, with a flush position
  that reaches the one recorded when PostgreSQL's list changed, up to the lag ceiling.
\<close>

theorem sync_grows_by_caught_up_standbys:
  "\<nexists>c st n. c \<in> set (calls_of enforce_synchronous_replication s) \<and> tc_event c = Ev_Set_Sync st \<and>
     n \<in> set (sync_name_set (sync_standby_names st)) \<and> n \<notin> set (sync_name_set (own_voters (sy_ha s))) \<and>
     \<not> (\<exists>snap mark row. en_replication (sy_env s) (sy_step s) = Ok snap \<and> h_sync_flush_mark (tc_ha c) = Some mark \<and>
          find_replica (rs_replicas snap) n = Some row \<and>
          saturating_sub mark (rr_flush_lsn row) \<le> unwrap_or (gc_maximum_lag_on_syncnode (last_config (tc_ha c))) 0)"
proof (intro notI, elim exE conjE)
  fix c st n
  assume c: "c \<in> set (calls_of enforce_synchronous_replication s)" "tc_event c = Ev_Set_Sync st"
    "n \<in> set (sync_name_set (sync_standby_names st))" "n \<notin> set (sync_name_set (own_voters (sy_ha s)))"
    and none: "\<nexists>snap mark row. en_replication (sy_env s) (sy_step s) = Ok snap \<and> h_sync_flush_mark (tc_ha c) = Some mark \<and>
          find_replica (rs_replicas snap) n = Some row \<and>
          saturating_sub mark (rr_flush_lsn row) \<le> unwrap_or (gc_maximum_lag_on_syncnode (last_config (tc_ha c))) 0"
  obtain names enabled k where "st = sync_state_for (tc_ha c) names enabled k" "\<forall>n \<in> set names. clean_name n"
    "\<forall>n \<in> set names. n \<in> set (sync_name_set (own_voters (sy_ha s))) \<or>
       caught_up_for (tc_ha c) (ok_value (en_replication (sy_env s) (sy_step s))) n"
    using sync_write_calls [OF c(1)] c(2) by (auto simp: sync_write_def)
  then have "caught_up_for (tc_ha c) (ok_value (en_replication (sy_env s) (sy_step s))) n"
    using c(3,4) published_names [of names "tc_ha c" enabled k] by auto
  then show False using none by (elim caught_upE) blast
qed

text \<open>
  A primary that did not write the current \<open>/sync\<close> never empties it: it treats the recorded voters as
  unpublished, so there is nothing to remove, and writes only a list that is not empty. While no standby streams,
  it writes nothing, and the voters of the former leader stay in \<open>/sync\<close>.
\<close>

theorem stale_sync_left_standing:
  assumes "cl_sync_state (h_cluster (sy_ha s)) = Some st" "\<not> eq_ignore_ascii_case (sy_leader st) (my_name (sy_ha s))"
  shows "\<nexists>c st'. c \<in> set (calls_of enforce_synchronous_replication s) \<and> tc_event c = Ev_Set_Sync st' \<and>
    \<not> (sync_standby_names st' \<noteq> [] \<and>
        (\<exists>snap. en_replication (sy_env s) (sy_step s) = Ok snap \<and> rs_replicas snap \<noteq> []))"
proof (intro notI, elim exE conjE, erule notE)
  fix c st'
  assume c: "c \<in> set (calls_of enforce_synchronous_replication s)" "tc_event c = Ev_Set_Sync st'"
  have v: "sync_name_set (own_voters (sy_ha s)) = []"
    using assms by (simp add: own_voters_def sync_name_set_def name_set_of_def)
  obtain names enabled k where n: "st' = sync_state_for (tc_ha c) names enabled k" "\<forall>n \<in> set names. clean_name n" "names \<noteq> []"
    "\<forall>n \<in> set names. caught_up_for (tc_ha c) (ok_value (en_replication (sy_env s) (sy_step s))) n"
    using sync_write_calls [OF c(1)] c(2) v by (auto simp: sync_write_def)
  have "set (sync_name_set (sync_standby_names st')) \<noteq> {}"
    using published_names [OF n(2), of "tc_ha c" enabled k] n(1,3) by simp
  then have "sync_standby_names st' \<noteq> []" by (auto simp: sync_name_set_def name_set_of_def)
  moreover have "caught_up_for (tc_ha c) (ok_value (en_replication (sy_env s) (sy_step s))) (hd names)" using n(3,4) by simp
  then have "\<exists>snap. en_replication (sy_env s) (sy_step s) = Ok snap \<and> rs_replicas snap \<noteq> []"
    by (rule caught_upE) (auto simp: find_replica_def)
  ultimately show "sync_standby_names st' \<noteq> [] \<and> (\<exists>snap. en_replication (sy_env s) (sy_step s) = Ok snap \<and> rs_replicas snap \<noteq> [])"
    by blast
qed

text \<open>A promoted primary that reads the \<open>/sync\<close> of its predecessor, while nobody streams from it.\<close>

definition sync_successor :: sys where
  "sync_successor = node\<lparr>sy_env := failing_env\<lparr>en_replication := (\<lambda>_. Ok \<lparr>rs_primary_flush_lsn = 7, rs_replicas = []\<rparr>)\<rparr>,
     sy_ha := (new_ha node_config)\<lparr>h_is_leader := True,
     h_cluster := empty_cluster\<lparr>cl_sync_state := Some \<lparr>sy_leader = ''z'', sy_sync_standby = Some ''a,b'', sy_quorum = 1\<rparr>\<rparr>\<rparr>\<rparr>"

text \<open>
  With synchronous mode off, such a primary sets an empty list at once: the voters of its predecessor are
  left in \<open>/sync\<close> outside it.
\<close>

lemma successor_leaves_voters:
  "recorded_voters (sy_ha sync_successor) = {''a'', ''b''} \<and>
   covered {({''a'', ''b''}, standby_list ''FIRST'' 2 [''a'', ''b''])} \<and>
   \<not> always_covered (calls_of enforce_synchronous_replication sync_successor) {({''a'', ''b''}, standby_list ''FIRST'' 2 [''a'', ''b''])}"
proof -
  let ?h = "sy_ha sync_successor"
  have "ascii_lower (CHR ''z'') \<noteq> ascii_lower (CHR ''a'')" by code_simp
  then have v: "sync_name_set (own_voters ?h) = []"
    by (simp add: own_voters_def sync_successor_def new_ha_def node_config_def my_name_def eq_ignore_ascii_case_def
        empty_cluster_def sync_name_set_def name_set_of_def)
  have m: "gc_synchronous_mode (last_config ?h) = None" "h_applied_sync ?h = None"
    by (simp_all add: sync_successor_def new_ha_def last_config_def new_dynamic_config_state_def default_config_def)
  have e: "extracted_names [] = []" by code_simp
  have o: "is_ok (en_unit (sy_env sync_successor) (sy_step sync_successor))"
    by (simp add: sync_successor_def node_def failing_env_def)
  have "wp enforce_synchronous_replication (\<lambda>_ s'. \<exists>c. sy_trace s' = [c] \<and> tc_event c = Ev_Alter_Sync [] \<and> tc_ok c)
      (sync_successor\<lparr>sy_trace := []\<rparr>)"
    using v m e o
    by (simp add: enforce_synchronous_replication_def desired_sync_list_def sync_phase_remove_def sync_phase_alter_def
        sync_phase_add_def set_synchronous_standby_names_def unit_call_def do_call_def gets_ha_def mod_ha_def ret_def wp_def
        State_Monad.bind_def State_Monad.return_def Let_def)
  then obtain c where c: "calls_of enforce_synchronous_replication sync_successor = [c]" "tc_event c = Ev_Alter_Sync []" "tc_ok c"
    by (auto simp: calls_of_def wp_def split_beta)
  have n: "sync_name_set [''a'', ''b''] = [''a'', ''b'']" "extracted_names (standby_list ''FIRST'' 2 [''a'', ''b'']) = [''a'', ''b'']"
    "sync_standby_names \<lparr>sy_leader = ''z'', sy_sync_standby = Some ''a,b'', sy_quorum = 1\<rparr> = [''a'', ''b'']"
    by code_simp+
  have "recorded_voters ?h = {''a'', ''b''}"
    using n by (simp add: recorded_voters_def sync_successor_def)
  then show ?thesis using c n e by (simp add: covered_def sync_next_def)
qed

theorem stale_sync_left_standing_witness:
  "\<nexists>c st'. c \<in> set (calls_of enforce_synchronous_replication sync_successor) \<and> tc_event c = Ev_Set_Sync st'"
proof -
  have "ascii_lower (CHR ''z'') \<noteq> ascii_lower (CHR ''a'')" by code_simp
  then have "\<not> eq_ignore_ascii_case ''z'' (my_name (sy_ha sync_successor))"
    by (simp add: sync_successor_def new_ha_def node_config_def my_name_def eq_ignore_ascii_case_def)
  then show ?thesis
    using stale_sync_left_standing [of sync_successor "\<lparr>sy_leader = ''z'', sy_sync_standby = Some ''a,b'', sy_quorum = 1\<rparr>"]
    by (simp add: sync_successor_def)
qed

end
