(* ===== verification/Pg_Probe.thy ===== *)
theory Pg_Probe
  imports Dynamic_Config Sync_Replication
begin

text \<open>
  What pg-ha reads from PostgreSQL (\<open>crates/pg-ha-core/src/postgresql.rs\<close>): the pid file, the output of
  \<open>pg_controldata\<close> and \<open>psql\<close>, WAL positions and timelines from SQL rows, and the connection strings it
  builds, with those of a standby cluster (\<open>standby_cluster.rs\<close>). The answers of the server, of the
  operating system and of the programs are arguments; a value of type \<open>u64\<close> keeps its width. A row
  of a query is a tuple with one entry per column of its SELECT list, \<^const>\<open>None\<close> for NULL.

  The lemmas show that a WAL position printed the way the code prints it is parsed back exactly, that
  positions whose halves exceed 32 bits are not told apart, and that the timeline a replica
  publishes never exceeds the timeline of its WAL over any sequence of observations.
\<close>

unbundle bit_operations_syntax

section \<open>Hexadecimal numbers\<close>

definition hex_digit :: "char \<Rightarrow> nat option" where
  "hex_digit c =
    (let n = (of_char c :: nat)
     in if 48 \<le> n \<and> n \<le> 57 then Some (n - 48)
        else if 65 \<le> n \<and> n \<le> 70 then Some (n - 55)
        else if 97 \<le> n \<and> n \<le> 102 then Some (n - 87)
        else None)"

definition is_ascii_hexdigit :: "char \<Rightarrow> bool" where
  "is_ascii_hexdigit c \<longleftrightarrow> hex_digit c \<noteq> None"

definition hex_value :: "string \<Rightarrow> nat" where
  "hex_value ds = foldl (\<lambda>n c. 16 * n + unwrap_or (hex_digit c) 0) 0 ds"

text \<open>\<open>u64::from_str_radix(s, 16)\<close>: an optional plus sign, at least one digit, no overflow.\<close>

definition from_str_radix_16 :: "string \<Rightarrow> u64 option" where
  "from_str_radix_16 s =
    (let ds = (case s of c # cs \<Rightarrow> (if c = CHR 0x2B then cs else s) | [] \<Rightarrow> [])
     in if ds = [] \<or> \<not> list_all is_ascii_hexdigit ds \<or> 2 ^ 64 \<le> hex_value ds then None
        else Some (word_of_nat (hex_value ds)))"

definition upper_hex_digit :: "nat \<Rightarrow> char" where
  "upper_hex_digit d = (if d < 10 then char_of (48 + d) else char_of (55 + d))"

fun hex_of_nat :: "nat \<Rightarrow> string" where
  "hex_of_nat n = (if n < 16 then [upper_hex_digit n] else hex_of_nat (n div 16) @ [upper_hex_digit (n mod 16)])"

declare hex_of_nat.simps [simp del]

text \<open>The formats \<open>{:X}/{:X}\<close> of an LSN and \<open>{:08X}\<close> of a timeline.\<close>

definition lsn_text :: "u64 \<Rightarrow> string" where
  "lsn_text lsn = hex_of_nat (unat (drop_bit 32 lsn)) @ ''/'' @ hex_of_nat (unat (lsn AND 0xFFFFFFFF))"

definition timeline_id_text :: "timeline_id \<Rightarrow> string" where
  "timeline_id_text i = ''timeline '' @ dec_of_nat (unat (tl_timeline i)) @ '' (begins at '' @ lsn_text (tl_begin i) @ '')''"

definition hex08 :: "nat \<Rightarrow> string" where
  "hex08 n = (let h = hex_of_nat n in replicate (8 - length h) (CHR ''0'') @ h)"

section \<open>WAL positions and timelines\<close>

definition parse_lsn :: "string \<Rightarrow> u64 option" where
  "parse_lsn lsn =
    (case str_split (CHR ''/'') lsn of
       [a, b] \<Rightarrow> Option.bind (from_str_radix_16 a) (\<lambda>hi. map_option (\<lambda>lo. push_bit 32 hi OR lo) (from_str_radix_16 b))
     | _ \<Rightarrow> None)"

definition parse_walfile_timeline :: "string \<Rightarrow> u64 option" where
  "parse_walfile_timeline walfile =
    (let w = str_trim walfile
     in if length w \<noteq> 24 \<or> \<not> list_all is_ascii_hexdigit w then None else from_str_radix_16 (take 8 w))"

definition parse_recovery_probe :: "bool \<Rightarrow> string \<Rightarrow> bool option" where
  "parse_recovery_probe success stdout =
    (if \<not> success then None
     else if str_trim stdout = ''f'' then Some True
     else if str_trim stdout = ''t'' then Some False
     else None)"

record received_wal =
  rw_postmaster_start :: string
  rw_flushed_lsn :: u64
  rw_timeline :: u64

record replica_wal_sample =
  sa_receive_lsn :: "u64 option"
  sa_replay_lsn :: "u64 option"
  sa_checkpoint_timeline :: "u64 option"
  sa_receiver :: "(u64 \<times> u64) option"
  sa_postmaster_start :: "string option"

definition default_sample :: replica_wal_sample where
  "default_sample = \<lparr>sa_receive_lsn = None, sa_replay_lsn = None, sa_checkpoint_timeline = None,
     sa_receiver = None, sa_postmaster_start = None\<rparr>"

datatype replica_timeline_source = Source_Receiver | Source_LowerBound

record replica_wal_resolution =
  re_wal_position :: u64
  re_timeline :: "u64 option"
  re_source :: replica_timeline_source
  re_remember :: "received_wal option"

text \<open>\<open>max\<close> on \<open>Option<u64>\<close>: \<^const>\<open>None\<close> is below every value.\<close>

fun option_max :: "u64 option \<Rightarrow> u64 option \<Rightarrow> u64 option" where
  "option_max None y = y"
| "option_max x None = x"
| "option_max (Some a) (Some b) = Some (max a b)"

definition remembered_pair :: "replica_wal_sample \<Rightarrow> received_wal option" where
  "remembered_pair s =
    (case (sa_receiver s, sa_postmaster_start s) of
       (Some (flushed_lsn, timeline), Some start) \<Rightarrow>
         Some \<lparr>rw_postmaster_start = start, rw_flushed_lsn = flushed_lsn, rw_timeline = timeline\<rparr>
     | _ \<Rightarrow> None)"

definition lower_bound_resolution :: "replica_wal_sample \<Rightarrow> received_wal option \<Rightarrow> replica_wal_resolution" where
  "lower_bound_resolution s prev =
    (let receive = (case sa_receiver s of Some (flushed, _) \<Rightarrow> flushed | None \<Rightarrow> unwrap_or (sa_receive_lsn s) 0);
         wal_position = max receive (unwrap_or (sa_replay_lsn s) 0);
         t1 = (case sa_receiver s of Some (_, receiver_tl) \<Rightarrow> option_max (sa_checkpoint_timeline s) (Some receiver_tl)
               | None \<Rightarrow> sa_checkpoint_timeline s);
         t2 = (case prev of
                 Some l \<Rightarrow> (if sa_postmaster_start s = Some (rw_postmaster_start l) \<and> rw_flushed_lsn l \<le> wal_position
                            then option_max t1 (Some (rw_timeline l)) else t1)
               | None \<Rightarrow> t1)
     in \<lparr>re_wal_position = wal_position, re_timeline = t2, re_source = Source_LowerBound, re_remember = remembered_pair s\<rparr>)"

definition resolve_replica_wal :: "replica_wal_sample \<Rightarrow> received_wal option \<Rightarrow> replica_wal_resolution" where
  "resolve_replica_wal s prev =
    (case sa_receiver s of
       Some (flushed, timeline) \<Rightarrow>
         (if unwrap_or (sa_replay_lsn s) 0 \<le> flushed
          then \<lparr>re_wal_position = flushed, re_timeline = Some timeline, re_source = Source_Receiver,
                re_remember = remembered_pair s\<rparr>
          else lower_bound_resolution s prev)
     | None \<Rightarrow> lower_bound_resolution s prev)"

section \<open>Queries\<close>

text \<open>
  A \<open>SimpleQueryMessage\<close> is a row or something the code skips. \<open>connect\<close> and every query fail with the
  driver's message.
\<close>

datatype 'r query_message = Msg_Row 'r | Msg_Other

type_synonym 'r answer = "(string, 'r query_message list) res"

fun rows :: "'r query_message list \<Rightarrow> 'r list" where
  "rows [] = []"
| "rows (Msg_Row r # ms) = r # rows ms"
| "rows (Msg_Other # ms) = rows ms"

definition run_query :: "(string, unit) res \<Rightarrow> string \<Rightarrow> 'r answer \<Rightarrow> ('r list \<Rightarrow> (string, 'b) res) \<Rightarrow> (string, 'b) res" where
  "run_query connect what answer k =
    (case connect of
       Inl e \<Rightarrow> Err (''Connection failed: '' @ e)
     | Inr _ \<Rightarrow> (case answer of Inl e \<Rightarrow> Err (what @ '' failed: '' @ e) | Inr ms \<Rightarrow> k (rows ms)))"

definition pg_health_check :: "(string, unit) res \<Rightarrow> string option answer \<Rightarrow> (string, unit) res" where
  "pg_health_check connect answer = run_query connect ''Health check query'' answer (\<lambda>_. Ok ())"

fun first_value :: "'a option list \<Rightarrow> 'a option" where
  "first_value [] = None"
| "first_value (Some v # _) = Some v"
| "first_value (None # vs) = first_value vs"

definition is_in_recovery :: "(string, unit) res \<Rightarrow> string option answer \<Rightarrow> (string, bool) res" where
  "is_in_recovery connect answer = run_query connect ''Query'' answer (\<lambda>rs.
     case first_value rs of Some v \<Rightarrow> Ok (v = ''t'') | None \<Rightarrow> Err ''Could not determine recovery state'')"

definition primary_timeline :: "(string, unit) res \<Rightarrow> string option answer \<Rightarrow> (string, u64) res" where
  "primary_timeline connect answer = run_query connect ''Query'' answer (\<lambda>rs.
     case first_value rs of
       Some v \<Rightarrow> (case parse_walfile_timeline v of
                    Some t \<Rightarrow> Ok t
                  | None \<Rightarrow> Err (''Unexpected WAL file name '' @ [SQUOTE] @ v @ [SQUOTE]))
     | None \<Rightarrow> Err (''Could not determine the primary'' @ [SQUOTE] @ ''s timeline''))"

record wal_status =
  ws_timeline :: "u64 option"
  ws_wal_position :: u64
  ws_in_recovery :: bool

text \<open>The six columns of the replica query and the two of the primary query.\<close>

type_synonym replica_columns =
  "string option \<times> string option \<times> string option \<times> string option \<times> string option \<times> string option"

definition sample_of_row :: "replica_columns \<Rightarrow> replica_wal_sample" where
  "sample_of_row r =
    (let (receive, replay, checkpoint, flushed, tli, start) = r;
         num = (\<lambda>v. Option.bind v parse_u64)
     in \<lparr>sa_receive_lsn = num receive, sa_replay_lsn = num replay, sa_checkpoint_timeline = num checkpoint,
         sa_receiver = (case (num flushed, num tli) of (Some f, Some t) \<Rightarrow> Some (f, t) | _ \<Rightarrow> None),
         sa_postmaster_start = start\<rparr>)"

definition sample_of_rows :: "replica_columns list \<Rightarrow> replica_wal_sample" where
  "sample_of_rows rs = (if rs = [] then default_sample else sample_of_row (last rs))"

definition remember :: "received_wal option \<Rightarrow> replica_wal_resolution \<Rightarrow> received_wal option" where
  "remember prev r = (case re_remember r of Some p \<Rightarrow> Some p | None \<Rightarrow> prev)"

definition replica_wal_status :: "received_wal option \<Rightarrow> replica_wal_sample \<Rightarrow> wal_status \<times> received_wal option" where
  "replica_wal_status prev s =
    (let r = resolve_replica_wal s prev
     in (\<lparr>ws_timeline = re_timeline r, ws_wal_position = re_wal_position r, ws_in_recovery = True\<rparr>, remember prev r))"

fun fold_primary_row :: "u64 \<times> u64 option \<Rightarrow> string option \<times> string option \<Rightarrow> u64 \<times> u64 option" where
  "fold_primary_row (lsn, tli) (c0, c1) =
    ((case c0 of Some v \<Rightarrow> unwrap_or (parse_u64 v) 0 | None \<Rightarrow> lsn),
     (case c1 of Some v \<Rightarrow> parse_walfile_timeline v | None \<Rightarrow> tli))"

definition primary_wal_status :: "(string option \<times> string option) list \<Rightarrow> wal_status" where
  "primary_wal_status rs =
    (let (lsn, tli) = foldl fold_primary_row (0, None) rs
     in \<lparr>ws_timeline = tli, ws_wal_position = lsn, ws_in_recovery = False\<rparr>)"

definition last_value :: "string option list \<Rightarrow> string option" where
  "last_value rs = first_value (rev rs)"

definition query_wal_status ::
  "(string, unit) res \<Rightarrow> string option answer \<Rightarrow> replica_columns answer \<Rightarrow> (string option \<times> string option) answer \<Rightarrow>
   received_wal option \<Rightarrow> (string, wal_status) res \<times> received_wal option" where
  "query_wal_status connect recovery replica primary prev =
    (case run_query connect ''Query'' recovery (\<lambda>rs. Ok (last_value rs = Some ''t'')) of
       Inl e \<Rightarrow> (Err e, prev)
     | Inr True \<Rightarrow>
         (case replica of
            Inl e \<Rightarrow> (Err (''WAL status query failed: '' @ e), prev)
          | Inr ms \<Rightarrow> (let (s, l) = replica_wal_status prev (sample_of_rows (rows ms)) in (Ok s, l)))
     | Inr False \<Rightarrow>
         (case primary of
            Inl e \<Rightarrow> (Err (''WAL status query failed: '' @ e), prev)
          | Inr ms \<Rightarrow> (Ok (primary_wal_status (rows ms)), prev)))"

definition query_timeline :: "(string, wal_status) res \<Rightarrow> (string, u64) res" where
  "query_timeline r =
    (case r of
       Inl e \<Rightarrow> Err e
     | Inr s \<Rightarrow> (case ws_timeline s of Some t \<Rightarrow> Ok t | None \<Rightarrow> Err ''Could not determine timeline''))"

definition replica_row_of :: "string option \<times> string option \<Rightarrow> replica_row option" where
  "replica_row_of r =
    (case r of
       (Some name, Some v) \<Rightarrow> map_option (\<lambda>f. \<lparr>rr_application_name = name, rr_flush_lsn = f\<rparr>) (parse_u64 v)
     | _ \<Rightarrow> None)"

definition replication_status ::
  "(string, unit) res \<Rightarrow> (string option \<times> string option) answer \<Rightarrow> string option answer \<Rightarrow> (string, replication_snapshot) res" where
  "replication_status connect standbys flush =
    run_query connect ''Replication status query'' standbys (\<lambda>rs.
      run_query (Ok ()) ''Primary flush LSN query'' flush (\<lambda>fs.
        Ok \<lparr>rs_primary_flush_lsn = (case last_value fs of Some v \<Rightarrow> unwrap_or (parse_u64 v) 0 | None \<Rightarrow> 0),
            rs_replicas = List.map_filter replica_row_of rs\<rparr>))"

section \<open>Programs and files\<close>

definition contains :: "string \<Rightarrow> string \<Rightarrow> bool" where
  "contains s t \<longleftrightarrow> sublist t s"

text \<open>The value behind the first colon of the first line holding \<open>key\<close> that \<open>parse\<close> accepts.\<close>

fun controldata_value :: "string \<Rightarrow> (string \<Rightarrow> 'a option) \<Rightarrow> string list \<Rightarrow> 'a option" where
  "controldata_value key parse [] = None"
| "controldata_value key parse (l # ls) =
     (if contains l key
      then (case str_split (CHR '':'') l of
              _ # v # _ \<Rightarrow> (case parse (str_trim v) of Some a \<Rightarrow> Some a | None \<Rightarrow> controldata_value key parse ls)
            | _ \<Rightarrow> controldata_value key parse ls)
      else controldata_value key parse ls)"

record cmd_output =
  co_success :: bool
  co_stdout :: string
  co_stderr :: string

definition controldata :: "string \<Rightarrow> (string \<Rightarrow> 'a option) \<Rightarrow> string \<Rightarrow> (string, cmd_output) res \<Rightarrow> (string, 'a) res" where
  "controldata key parse missing out =
    (case out of
       Inl e \<Rightarrow> Err e
     | Inr c \<Rightarrow>
         (if \<not> co_success c then Err (''pg_controldata failed: '' @ co_stderr c)
          else (case controldata_value key parse (str_lines (co_stdout c)) of
                  Some a \<Rightarrow> Ok a
                | None \<Rightarrow> Err (''Could not find '' @ missing @ '' in pg_controldata output''))))"

definition sysid :: "(string, cmd_output) res \<Rightarrow> (string, string) res" where
  "sysid = controldata ''Database system identifier'' Some ''system identifier''"

definition controldata_state :: "(string, cmd_output) res \<Rightarrow> (string, string) res" where
  "controldata_state = controldata ''Database cluster state'' Some ''cluster state''"

definition controldata_timeline :: "(string, cmd_output) res \<Rightarrow> (string, u64) res" where
  "controldata_timeline = controldata (''Latest checkpoint'' @ [SQUOTE] @ ''s TimeLineID'') parse_u64 ''TimeLineID''"

definition parse_i32 :: "string \<Rightarrow> int option" where
  "parse_i32 s =
    (let neg = (case s of c # _ \<Rightarrow> c = CHR ''-'' | [] \<Rightarrow> False);
         ds = (case s of c # cs \<Rightarrow> (if c = CHR 0x2B \<or> c = CHR ''-'' then cs else s) | [] \<Rightarrow> []);
         v = (if neg then - int (digits_value ds) else int (digits_value ds))
     in if ds = [] \<or> \<not> list_all is_digit ds \<or> v < - (2 ^ 31) \<or> 2 ^ 31 \<le> v then None else Some v)"

definition postmaster_pid :: "(string, string) res \<Rightarrow> int option" where
  "postmaster_pid pid_file =
    (case pid_file of
       Inl _ \<Rightarrow> None
     | Inr content \<Rightarrow> (case str_lines content of l # _ \<Rightarrow> parse_i32 (str_trim l) | [] \<Rightarrow> None))"

text \<open>\<open>cmdline pid\<close> is the content of \<open>/proc/<pid>/cmdline\<close>, \<open>alive pid\<close> whether \<open>kill(pid, 0)\<close> succeeds.\<close>

definition is_postgres_process :: "(int \<Rightarrow> string option) \<Rightarrow> int \<Rightarrow> bool" where
  "is_postgres_process cmdline pid =
    (case cmdline pid of Some data \<Rightarrow> contains (hd (str_split (CHR 0x00) data)) ''postgres'' | None \<Rightarrow> False)"

definition running_by_pid_file :: "(int \<Rightarrow> bool) \<Rightarrow> (int \<Rightarrow> string option) \<Rightarrow> (string, string) res \<Rightarrow> bool" where
  "running_by_pid_file alive cmdline pid_file =
    (case postmaster_pid pid_file of Some pid \<Rightarrow> alive pid \<and> is_postgres_process cmdline pid | None \<Rightarrow> False)"

text \<open>The data directory as \<open>data_directory_empty\<close> sees it: missing, no directory, unreadable, or its entries.\<close>

datatype dir_state = Dir_Missing | Dir_No_Directory | Dir_Error string | Dir_Entries "string list"

fun data_directory_empty :: "string \<Rightarrow> dir_state \<Rightarrow> (string, bool) res" where
  "data_directory_empty path Dir_Missing = Ok True"
| "data_directory_empty path Dir_No_Directory = Err (''data_dir '' @ [SQUOTE] @ path @ [SQUOTE] @ '' exists but is not a directory'')"
| "data_directory_empty path (Dir_Error e) = Err e"
| "data_directory_empty path (Dir_Entries es) = Ok (es = [])"

section \<open>Connection strings\<close>

record connection_params =
  cp_username :: string
  cp_password :: "string option"
  cp_dbname :: string

record postgresql_config =
  pc_listen :: string
  pc_port :: nat
  pc_superuser :: connection_params
  pc_replication :: connection_params

definition with_password :: "string \<Rightarrow> string option \<Rightarrow> string" where
  "with_password parts password = parts @ (case password of Some p \<Rightarrow> '' password='' @ p | None \<Rightarrow> [])"

definition connection_string :: "postgresql_config \<Rightarrow> string" where
  "connection_string c = with_password
    (''host='' @ pc_listen c @ '' port='' @ dec_of_nat (pc_port c) @ '' dbname='' @ cp_dbname (pc_superuser c) @
     '' user='' @ cp_username (pc_superuser c)) (cp_password (pc_superuser c))"

definition replication_connection_string :: "postgresql_config \<Rightarrow> string \<Rightarrow> nat \<Rightarrow> string" where
  "replication_connection_string c host port = with_password
    (''host='' @ host @ '' port='' @ dec_of_nat port @ '' dbname='' @ cp_dbname (pc_replication c) @
     '' user='' @ cp_username (pc_replication c)) (cp_password (pc_replication c))"

definition standby_primary_conninfo :: "standby_cluster_config \<Rightarrow> string \<Rightarrow> string option \<Rightarrow> string" where
  "standby_primary_conninfo c user password = with_password
    (''host='' @ sb_host c @ '' port='' @ dec_of_nat (sb_port c) @ '' user='' @ user @
     '' application_name=standby_cluster'') password"

definition basebackup_connstr :: "standby_cluster_config \<Rightarrow> string \<Rightarrow> string option \<Rightarrow> string" where
  "basebackup_connstr c user password = with_password
    (''host='' @ sb_host c @ '' port='' @ dec_of_nat (sb_port c) @ '' user='' @ user @ '' dbname=postgres'') password"

text \<open>\<open>redact_connstr\<close>: scans for the key \<open>password=\<close> and drops its value up to the next space.\<close>

definition PASSWORD_KEY :: string where "PASSWORD_KEY = ''password=''"

function redact_connstr :: "string \<Rightarrow> string" where
  "redact_connstr [] = []"
| "redact_connstr (c # cs) =
     (if prefix PASSWORD_KEY (c # cs)
      then ''password=***'' @ redact_connstr (dropWhile (\<lambda>d. d \<noteq> CHR '' '') (drop (length PASSWORD_KEY) (c # cs)))
      else c # redact_connstr cs)"
  by pat_completeness auto
termination
proof (relation "measure length")
  fix c cs
  have "length (dropWhile (\<lambda>d. d \<noteq> CHR '' '') (drop (length PASSWORD_KEY) (c # cs))) \<le> length (drop (length PASSWORD_KEY) (c # cs))"
    by (rule length_dropWhile_le)
  then show "(dropWhile (\<lambda>d. d \<noteq> CHR '' '') (drop (length PASSWORD_KEY) (c # cs)), c # cs) \<in> measure length"
    by (simp add: PASSWORD_KEY_def)
qed auto

definition sql_literal :: "string \<Rightarrow> string" where
  "sql_literal v = [SQUOTE] @ str_replace SQUOTE [SQUOTE, SQUOTE] v @ [SQUOTE]"

definition alter_sync_names_sql :: "string \<Rightarrow> string" where
  "alter_sync_names_sql v = ''ALTER SYSTEM SET synchronous_standby_names TO '' @ sql_literal v"

section \<open>Numbers as text\<close>

lemma parse_u64_dec_of_nat:
  assumes "n < 2 ^ 64"
  shows "parse_u64 (dec_of_nat n) = Some (word_of_nat n)"
proof -
  obtain c cs where c: "dec_of_nat n = c # cs" by (metis dec_of_nat.simps append_is_Nil_conv neq_Nil_conv)
  then have "is_digit c" using dec_of_nat_digits [of n] by simp
  then have "c \<noteq> CHR 0x2B" by (auto simp: is_digit_def)
  then show ?thesis using assms c dec_of_nat_digits [of n] digits_value_dec_of_nat [of n] by (simp add: parse_u64_def)
qed

lemma hex_digit_upper: "d < 16 \<Longrightarrow> hex_digit (upper_hex_digit d) = Some d"
  by (auto simp: hex_digit_def upper_hex_digit_def Let_def)

lemma hex_value_snoc: "hex_value (ds @ [c]) = 16 * hex_value ds + unwrap_or (hex_digit c) 0"
  by (simp add: hex_value_def)

lemma hex_value_hex_of_nat [simp]: "hex_value (hex_of_nat n) = n"
proof (induction n rule: hex_of_nat.induct)
  case (1 n)
  show ?case
    using 1 hex_digit_upper [of n] by (subst hex_of_nat.simps) (simp add: hex_value_snoc hex_digit_upper hex_value_def [of "[_]"])
qed

lemma hex_of_nat_digits: "list_all is_ascii_hexdigit (hex_of_nat n)"
proof (induction n rule: hex_of_nat.induct)
  case (1 n)
  show ?case using 1 by (subst hex_of_nat.simps) (simp add: is_ascii_hexdigit_def hex_digit_upper list_all_iff)
qed

lemma hex_of_nat_Nil [simp]: "hex_of_nat n \<noteq> []"
  by (subst hex_of_nat.simps) simp

lemma hexdigit_no_sign: "is_ascii_hexdigit c \<Longrightarrow> c \<noteq> CHR 0x2B \<and> c \<noteq> CHR ''/'' \<and> \<not> is_ascii_space c \<and> c \<noteq> CHR ''#''"
  by (auto simp: is_ascii_hexdigit_def hex_digit_def is_ascii_space_def)

lemma from_str_radix_16_digits:
  assumes "ds \<noteq> []" "list_all is_ascii_hexdigit ds"
  shows "from_str_radix_16 ds = (if 2 ^ 64 \<le> hex_value ds then None else Some (word_of_nat (hex_value ds)))"
proof -
  obtain c cs where "ds = c # cs" using assms(1) by (cases ds) simp
  then show ?thesis using assms hexdigit_no_sign [of c] by (simp add: from_str_radix_16_def)
qed

lemma from_str_radix_16_hex [simp]: "n < 2 ^ 64 \<Longrightarrow> from_str_radix_16 (hex_of_nat n) = Some (word_of_nat n)"
  by (simp add: from_str_radix_16_digits hex_of_nat_digits)

lemma hex_of_nat_no_slash: "CHR ''/'' \<notin> set (hex_of_nat n)"
  using hex_of_nat_digits [of n] hexdigit_no_sign by (auto simp: list_all_iff)

lemma parse_lsn_halves:
  assumes "hi < 2 ^ 64" "lo < 2 ^ 64"
  shows "parse_lsn (hex_of_nat hi @ ''/'' @ hex_of_nat lo) = Some (push_bit 32 (word_of_nat hi) OR word_of_nat lo)"
  using assms hex_of_nat_no_slash
  by (simp add: parse_lsn_def str_split_append str_split_no_delim)

lemma lsn_halves: "push_bit 32 (drop_bit 32 x) OR (x AND 0xFFFFFFFF) = (x :: u64)"
proof -
  have "x AND 0xFFFFFFFF = take_bit 32 x" by (simp add: take_bit_eq_mask mask_eq_exp_minus_1)
  then show ?thesis by (auto intro!: bit_word_eqI simp: bit_simps)
qed

lemma unat_lsn:
  assumes "lo < 2 ^ 32"
  shows "unat (push_bit 32 (word_of_nat hi) OR word_of_nat lo :: u64) = (hi mod 2 ^ 32) * 2 ^ 32 + lo"
proof -
  have lo: "(word_of_nat lo :: u64) = take_bit 32 (word_of_nat lo)"
    using assms by (simp add: take_bit_of_nat take_bit_nat_eq_self)
  have "(push_bit 32 (word_of_nat hi) :: u64) AND take_bit 32 (word_of_nat lo) = 0"
    by (auto intro!: bit_word_eqI simp: bit_simps)
  then have "(push_bit 32 (word_of_nat hi) OR word_of_nat lo :: u64) = push_bit 32 (word_of_nat hi) + word_of_nat lo"
    using lo disjunctive_add_eq_or by metis
  moreover have "unat (push_bit 32 (word_of_nat hi) :: u64) = (hi mod 2 ^ 32) * 2 ^ 32"
    using mult_mod_right [of "2 ^ 32" hi "2 ^ 32 :: nat"]
    by (simp add: push_bit_eq_mult unat_word_ariths unsigned_of_nat take_bit_eq_mod mod_mult_right_eq mult.commute)
  moreover have "unat (word_of_nat lo :: u64) = lo" using assms by (simp add: unsigned_of_nat take_bit_nat_eq_self)
  moreover have "(hi mod 2 ^ 32) * 2 ^ 32 + lo < 2 ^ 64"
  proof -
    have "hi mod 2 ^ 32 \<le> 2 ^ 32 - 1" by (simp add: less_Suc_eq_le [symmetric])
    then have "(hi mod 2 ^ 32) * 2 ^ 32 \<le> (2 ^ 32 - 1) * 2 ^ 32" by (rule mult_right_mono) simp
    then show ?thesis using assms by simp
  qed
  ultimately show ?thesis by (metis word_add_no_overflow)
qed

lemma lsn_text_parses: "parse_lsn (lsn_text x) = Some x"
proof -
  have "parse_lsn (lsn_text x) = Some (push_bit 32 (word_of_nat (unat (drop_bit 32 x))) OR word_of_nat (unat (x AND 0xFFFFFFFF)))"
    unfolding lsn_text_def by (rule parse_lsn_halves) (rule unat_u64_lt)+
  then show ?thesis by (simp add: lsn_halves)
qed

text \<open>What printing and parsing of a value owe each other, and that distinct values then print differently.\<close>

locale text_codec =
  fixes print :: "'a \<Rightarrow> string" and parse :: "string \<Rightarrow> 'a option"
  assumes parse_print: "parse (print x) = Some x"
begin

lemma print_inject: "print x = print y \<longleftrightarrow> x = y"
  by (metis option.inject parse_print)

end

interpretation lsn: text_codec lsn_text parse_lsn
  by unfold_locales (rule lsn_text_parses)

interpretation dec_u64: text_codec "\<lambda>n. dec_of_nat (unat n)" parse_u64
  by unfold_locales (use parse_u64_dec_of_nat [OF unat_u64_lt] in simp)

text \<open>
  \<open>parse_lsn\<close> accepts an upper half of up to 64 bits, whose bits past the 32nd are shifted out. The value is the position the text denotes exactly when the upper half fits
  32 bits; otherwise a smaller position is returned, without an error.
\<close>

theorem parse_lsn_bounds:
  assumes "hi < 2 ^ 64" "lo < 2 ^ 32"
  shows "map_option unat (parse_lsn (hex_of_nat hi @ ''/'' @ hex_of_nat lo)) = Some ((hi mod 2 ^ 32) * 2 ^ 32 + lo) \<and>
     (map_option unat (parse_lsn (hex_of_nat hi @ ''/'' @ hex_of_nat lo)) = Some (hi * 2 ^ 32 + lo) \<longleftrightarrow> hi < 2 ^ 32)"
proof -
  have "parse_lsn (hex_of_nat hi @ ''/'' @ hex_of_nat lo) = Some (push_bit 32 (word_of_nat hi) OR word_of_nat lo)"
    using assms by (intro parse_lsn_halves) auto
  moreover have "hi mod 2 ^ 32 = hi \<longleftrightarrow> hi < 2 ^ 32" by (metis mod_less mod_less_divisor zero_less_numeral zero_less_power)
  ultimately show ?thesis using unat_lsn [OF assms(2), of hi] by simp
qed

theorem parse_lsn_bounds_witness:
  "map_option unat (parse_lsn ''100000002/3'') = Some (2 * 2 ^ 32 + 3)"
proof -
  have "hex_of_nat 0x100000002 = ''100000002''" "hex_of_nat 3 = ''3''"
    by (simp_all add: hex_of_nat.simps upper_hex_digit_def char_of_def bit_0)
  then show ?thesis using parse_lsn_bounds [of "0x100000002" 3] by simp
qed

section \<open>The timeline a replica publishes\<close>

text \<open>
  The history of the WAL: \<open>history run lsn\<close> is the timeline of the WAL at \<open>lsn\<close> on the server run that
  started at \<open>run\<close>. What PostgreSQL documents about a row of the query: the receiver's timeline is
  that of its flushed position, and the control file names the timeline of a restartpoint, which
  is at or below the replayed position.
\<close>

definition sample_of_run :: "(string \<Rightarrow> u64 \<Rightarrow> u64) \<Rightarrow> string \<Rightarrow> replica_wal_sample \<Rightarrow> bool" where
  "sample_of_run history run s \<longleftrightarrow>
    (sa_postmaster_start s = None \<or> sa_postmaster_start s = Some run) \<and>
    (\<forall>f t. sa_receiver s = Some (f, t) \<longrightarrow> history run f = t) \<and>
    (\<forall>c. sa_checkpoint_timeline s = Some c \<longrightarrow> (\<exists>x \<le> unwrap_or (sa_replay_lsn s) 0. history run x = c))"

fun wal_statuses :: "received_wal option \<Rightarrow> replica_wal_sample list \<Rightarrow> wal_status list" where
  "wal_statuses prev [] = []"
| "wal_statuses prev (s # ss) = (let (w, prev') = replica_wal_status prev s in w # wal_statuses prev' ss)"

definition pair_of_history :: "(string \<Rightarrow> u64 \<Rightarrow> u64) \<Rightarrow> received_wal option \<Rightarrow> bool" where
  "pair_of_history history prev \<longleftrightarrow>
    (\<forall>l. prev = Some l \<longrightarrow> history (rw_postmaster_start l) (rw_flushed_lsn l) = rw_timeline l)"

lemma remember_pair_of_history:
  assumes "sample_of_run history run s" "pair_of_history history prev"
  shows "pair_of_history history (snd (replica_wal_status prev s))"
  using assms
  by (auto simp: replica_wal_status_def Let_def remember_def resolve_replica_wal_def lower_bound_resolution_def
      remembered_pair_def pair_of_history_def sample_of_run_def split: option.splits)

lemma option_max_Some: "option_max x (Some b) = Some t \<longleftrightarrow> t = (case x of None \<Rightarrow> b | Some a \<Rightarrow> max a b)"
  by (cases x) auto

lemma lower_bound_of_history:
  assumes mono: "mono (history run)" and s: "sample_of_run history run s" and p: "pair_of_history history prev"
    and t: "re_timeline (lower_bound_resolution s prev) = Some t"
  shows "t \<le> history run (re_wal_position (lower_bound_resolution s prev))"
proof -
  let ?pos = "re_wal_position (lower_bound_resolution s prev)"
  have c: "c \<le> history run ?pos" if "sa_checkpoint_timeline s = Some c" for c
  proof -
    obtain x where "x \<le> unwrap_or (sa_replay_lsn s) 0" "history run x = c"
      using s \<open>sa_checkpoint_timeline s = Some c\<close> by (auto simp: sample_of_run_def)
    moreover have "unwrap_or (sa_replay_lsn s) 0 \<le> ?pos" by (simp add: lower_bound_resolution_def Let_def)
    ultimately show ?thesis using monoD [OF mono, of x ?pos] by auto
  qed
  have r: "tr \<le> history run ?pos" if "sa_receiver s = Some (f, tr)" for f tr
  proof -
    have "f \<le> ?pos" using that by (simp add: lower_bound_resolution_def Let_def)
    then show ?thesis using s that monoD [OF mono, of f ?pos] by (auto simp: sample_of_run_def)
  qed
  have l: "rw_timeline l \<le> history run ?pos"
    if "prev = Some l" "sa_postmaster_start s = Some (rw_postmaster_start l)" "rw_flushed_lsn l \<le> ?pos" for l
    using s p that monoD [OF mono, of "rw_flushed_lsn l" ?pos] by (auto simp: sample_of_run_def pair_of_history_def)
  have "t \<in> set_option (sa_checkpoint_timeline s) \<or> (\<exists>f. sa_receiver s = Some (f, t)) \<or>
      (\<exists>l. prev = Some l \<and> sa_postmaster_start s = Some (rw_postmaster_start l) \<and> rw_flushed_lsn l \<le> ?pos \<and> t = rw_timeline l)"
    using t by (auto simp: lower_bound_resolution_def Let_def option_max_Some max_def split: option.splits if_splits)
  then show ?thesis using c r l by auto
qed

lemma published_of_history:
  assumes "mono (history run)" "sample_of_run history run s" "pair_of_history history prev"
    and w: "w = fst (replica_wal_status prev s)"
  shows "(\<forall>t. ws_timeline w = Some t \<longrightarrow> t \<le> history run (ws_wal_position w)) \<and>
    (\<forall>f t. sa_receiver s = Some (f, t) \<longrightarrow> unwrap_or (sa_replay_lsn s) 0 \<le> f \<longrightarrow>
       ws_wal_position w = f \<and> ws_timeline w = Some (history run f))"
  using assms lower_bound_of_history [OF assms(1,2,3)]
  by (auto simp: replica_wal_status_def Let_def resolve_replica_wal_def sample_of_run_def split: option.splits)

text \<open>
  C14. A replica may under-report its timeline, never over-report it. Over any sequence of
  observations, across restarts of the server and with the receiver pair remembered from earlier
  ones, the published timeline is at most the timeline of the WAL at the published position, and it is
  exactly that timeline while the receiver is at or past the replay.
\<close>

theorem published_timeline_not_overstated:
  assumes "\<And>run. mono (history run)" and "list_all2 (sample_of_run history) runs samples"
    and "i < length samples"
  shows "(\<forall>t. ws_timeline (wal_statuses None samples ! i) = Some t \<longrightarrow>
             t \<le> history (runs ! i) (ws_wal_position (wal_statuses None samples ! i))) \<and>
    (\<forall>f t. sa_receiver (samples ! i) = Some (f, t) \<longrightarrow> unwrap_or (sa_replay_lsn (samples ! i)) 0 \<le> f \<longrightarrow>
       ws_wal_position (wal_statuses None samples ! i) = f \<and>
       ws_timeline (wal_statuses None samples ! i) = Some (history (runs ! i) f))"
proof -
  have "list_all2 (\<lambda>(run, s) w. (\<forall>t. ws_timeline w = Some t \<longrightarrow> t \<le> history run (ws_wal_position w)) \<and>
      (\<forall>f t. sa_receiver s = Some (f, t) \<longrightarrow> unwrap_or (sa_replay_lsn s) 0 \<le> f \<longrightarrow>
         ws_wal_position w = f \<and> ws_timeline w = Some (history run f)))
    (zip runs samples) (wal_statuses prev samples)" if "pair_of_history history prev" for prev
    using assms(2) that
  proof (induction arbitrary: prev rule: list_all2_induct)
    case (Cons run runs s ss)
    show ?case
      using published_of_history [OF assms(1) Cons(1,4) refl] Cons(3) [OF remember_pair_of_history [OF Cons(1,4)]]
      by (simp add: case_prod_beta)
  qed simp
  from this [of None] show ?thesis
    using assms(2,3) by (auto simp: pair_of_history_def list_all2_conv_all_nth)
qed

definition demo_history :: "string \<Rightarrow> u64 \<Rightarrow> u64" where
  "demo_history run lsn = (if lsn < 100 then 1 else 2)"

definition demo_samples :: "replica_wal_sample list" where
  "demo_samples =
    [\<lparr>sa_receive_lsn = Some 120, sa_replay_lsn = Some 90, sa_checkpoint_timeline = Some 1,
      sa_receiver = Some (120, 2), sa_postmaster_start = Some ''t0''\<rparr>,
     \<lparr>sa_receive_lsn = Some 130, sa_replay_lsn = Some 125, sa_checkpoint_timeline = Some 1,
      sa_receiver = None, sa_postmaster_start = Some ''t0''\<rparr>]"

theorem published_timeline_not_overstated_witness:
  "ws_timeline (wal_statuses None demo_samples ! 1) = Some 2 \<and>
   2 \<le> demo_history ''t0'' (ws_wal_position (wal_statuses None demo_samples ! 1))"
proof -
  have m: "mono (demo_history run)" for run by (auto simp: mono_def demo_history_def)
  have s: "list_all2 (sample_of_run demo_history) [''t0'', ''t0''] demo_samples"
    by (auto simp: demo_samples_def sample_of_run_def demo_history_def intro!: exI [of _ "0 :: u64"])
  have "ws_timeline (wal_statuses None demo_samples ! 1) = Some 2" by code_simp
  then show ?thesis using published_timeline_not_overstated [of demo_history "[''t0'', ''t0'']" demo_samples 1, OF m s]
    by (simp add: demo_samples_def)
qed

section \<open>Redacted connection strings\<close>

lemma redact_append:
  assumes "u \<noteq> []" "last u = CHR '' ''" "\<not> sublist PASSWORD_KEY u"
  shows "redact_connstr (u @ v) = u @ redact_connstr v"
  using assms
proof (induction u)
  case (Cons c u)
  have no: "\<not> prefix PASSWORD_KEY (c # u @ v)"
  proof
    assume p: "prefix PASSWORD_KEY (c # u @ v)"
    have "prefix PASSWORD_KEY (c # u) \<or> prefix (c # u) PASSWORD_KEY"
      using p prefix_same_cases [of PASSWORD_KEY "c # u @ v" "c # u"] by auto
    then show False
    proof
      assume "prefix PASSWORD_KEY (c # u)"
      then show False using Cons.prems(3) by (simp add: prefix_imp_sublist)
    next
      assume "prefix (c # u) PASSWORD_KEY"
      then have "CHR '' '' \<in> set PASSWORD_KEY"
        using Cons.prems(1,2) last_in_set [of "c # u"] set_mono_prefix by (metis subsetD)
      then show False by (simp add: PASSWORD_KEY_def)
    qed
  qed
  show ?case
  proof (cases u)
    case Nil
    then show ?thesis using no by simp
  next
    case (Cons d ds)
    then have "redact_connstr (u @ v) = u @ redact_connstr v"
      using Cons.prems sublist_Cons_right [of PASSWORD_KEY c u] by (intro Cons.IH) auto
    then show ?thesis using no by simp
  qed
qed simp

lemma redact_password: "redact_connstr (PASSWORD_KEY @ v) = ''password=***'' @ redact_connstr (dropWhile (\<lambda>d. d \<noteq> CHR '' '') v)"
  by (simp add: PASSWORD_KEY_def)

text \<open>
  A connection string logged through \<open>redact_connstr\<close> does not depend on a password without spaces. Of a
  password with a space, everything behind the first space is logged.
\<close>

theorem redact_hides_first_word:
  assumes "\<not> sublist PASSWORD_KEY (parts @ '' '')" and "CHR '' '' \<notin> set word"
  shows "redact_connstr (with_password parts (Some word)) = parts @ '' password=***'' \<and>
    redact_connstr (with_password parts (Some (word @ '' '' @ rest))) = parts @ '' password=***'' @ redact_connstr ('' '' @ rest)"
proof -
  have "redact_connstr ((parts @ '' '') @ PASSWORD_KEY @ w) =
      (parts @ '' '') @ ''password=***'' @ redact_connstr (dropWhile (\<lambda>d. d \<noteq> CHR '' '') w)" for w
    using assms(1) by (subst redact_append) (simp_all only: redact_password last_snoc append_is_Nil_conv, simp_all)
  moreover have "redact_connstr (dropWhile (\<lambda>d. d \<noteq> CHR '' '') word) = []"
    using assms(2) dropWhile_eq_Nil_conv [of "\<lambda>d. d \<noteq> CHR '' ''" word] by (metis redact_connstr.simps(1))
  ultimately show ?thesis using assms(2) by (simp add: with_password_def PASSWORD_KEY_def dropWhile_append)
qed

end
