(* ===== verification/Static_Config.thy ===== *)
theory Static_Config
  imports Dynamic_Config
begin

text \<open>
  The static configuration of a node (\<open>crates/pg-ha-core/src/config.rs\<close>): what \<open>validate\<close> checks, the overrides
  from the environment, and how \<open>src/main.rs\<close> loads it. The fields are those that are validated or
  overridden, and the record is extended by the others in theory \<open>Startup\<close>; the YAML parser, the file and the environment are arguments.

  The lemmas show that a loaded configuration has a lease timing in which a lease outlasts a loop wait and a retry
  timeout, for its own values and for the dynamic configuration it bootstraps a cluster with.
\<close>

section \<open>Values\<close>

record static_config =
  sc_name :: string
  sc_scope :: string
  sc_loop_wait :: u64
  sc_ttl :: u64
  sc_retry_timeout :: u64
  sc_safety_margin :: u64
  sc_pg_listen :: string
  sc_pg_port :: nat
  sc_api_port :: nat
  sc_self_addr :: string
  sc_partner_addrs :: "string list"
  sc_bootstrap_dcs :: "(string \<times> json_value) list option"

definition static_lease_timing :: "'a static_config_scheme \<Rightarrow> lease_timing" where
  "static_lease_timing c = \<lparr>lt_ttl = sc_ttl c, lt_loop_wait = sc_loop_wait c, lt_retry_timeout = sc_retry_timeout c,
     lt_safety_margin = sc_safety_margin c\<rparr>"

definition bootstrap_timing :: "'a static_config_scheme \<Rightarrow> (string \<times> json_value) list \<Rightarrow> lease_timing" where
  "bootstrap_timing c dcs =
    (let dcs_value = (\<lambda>key. Option.bind (map_of dcs key) as_u64)
     in \<lparr>lt_ttl = unwrap_or (dcs_value ''ttl'') (sc_ttl c), lt_loop_wait = unwrap_or (dcs_value ''loop_wait'') (sc_loop_wait c),
         lt_retry_timeout = unwrap_or (dcs_value ''retry_timeout'') (sc_retry_timeout c), lt_safety_margin = sc_safety_margin c\<rparr>)"

datatype config_error =
    Unreadable_File string
  | Invalid_Yaml string
  | Name_Empty
  | Scope_Empty
  | Ttl_Not_Above_Loop_Wait u64 u64
  | Lease_Timing timing_problem
  | Bootstrap_Timing timing_problem
  | Self_Addr_Empty
  | No_Partners

definition validate :: "'a static_config_scheme \<Rightarrow> (config_error, unit) res" where
  "validate c =
    (if sc_name c = [] then Err Name_Empty
     else if sc_scope c = [] then Err Scope_Empty
     else if sc_ttl c \<le> sc_loop_wait c then Err (Ttl_Not_Above_Loop_Wait (sc_ttl c) (sc_loop_wait c))
     else case timing_violation (static_lease_timing c) of
       Some problem \<Rightarrow> Err (Lease_Timing problem)
     | None \<Rightarrow>
         (case Option.bind (sc_bootstrap_dcs c) (\<lambda>dcs. timing_violation (bootstrap_timing c dcs)) of
            Some problem \<Rightarrow> Err (Bootstrap_Timing problem)
          | None \<Rightarrow>
              (if sc_self_addr c = [] then Err Self_Addr_Empty
               else if sc_partner_addrs c = [] then Err No_Partners
               else Ok ())))"

section \<open>Loading\<close>

definition ENV_PREFIX :: string where "ENV_PREFIX = ''PG_HA_''"

definition parse_u16 :: "string \<Rightarrow> nat option" where
  "parse_u16 s = Option.bind (parse_u64 s) (\<lambda>n. if unat n < 2 ^ 16 then Some (unat n) else None)"

definition override :: "(string \<Rightarrow> string option) \<Rightarrow> string \<Rightarrow> (string \<Rightarrow> 'a option) \<Rightarrow> 'a \<Rightarrow> 'a" where
  "override env key parse old = unwrap_or (Option.bind (env (ENV_PREFIX @ key)) parse) old"

definition apply_env_overrides :: "(string \<Rightarrow> string option) \<Rightarrow> 'a static_config_scheme \<Rightarrow> 'a static_config_scheme" where
  "apply_env_overrides env c =
    c\<lparr>sc_name := override env ''NAME'' Some (sc_name c),
      sc_scope := override env ''SCOPE'' Some (sc_scope c),
      sc_loop_wait := override env ''LOOP_WAIT'' parse_u64 (sc_loop_wait c),
      sc_ttl := override env ''TTL'' parse_u64 (sc_ttl c),
      sc_retry_timeout := override env ''RETRY_TIMEOUT'' parse_u64 (sc_retry_timeout c),
      sc_pg_port := override env ''POSTGRESQL__PORT'' parse_u16 (sc_pg_port c),
      sc_pg_listen := override env ''POSTGRESQL__LISTEN'' Some (sc_pg_listen c),
      sc_api_port := override env ''RESTAPI__PORT'' parse_u16 (sc_api_port c),
      sc_self_addr := override env ''RAFT__SELF_ADDR'' Some (sc_self_addr c)\<rparr>"

definition from_yaml :: "(string \<Rightarrow> (string, 'a static_config_scheme) res) \<Rightarrow> string \<Rightarrow> (config_error, 'a static_config_scheme) res" where
  "from_yaml yaml_parse yaml =
    (case yaml_parse yaml of
       Inl e \<Rightarrow> Err (Invalid_Yaml e)
     | Inr c \<Rightarrow> (case validate c of Inl e \<Rightarrow> Err e | Inr _ \<Rightarrow> Ok c))"

definition from_file ::
  "(string \<Rightarrow> (string, 'a static_config_scheme) res) \<Rightarrow> (string, string) res \<Rightarrow> (config_error, 'a static_config_scheme) res" where
  "from_file yaml_parse content =
    (case content of Inl e \<Rightarrow> Err (Unreadable_File e) | Inr yaml \<Rightarrow> from_yaml yaml_parse yaml)"

definition load_config ::
  "(string \<Rightarrow> (string, 'a static_config_scheme) res) \<Rightarrow> (string, string) res \<Rightarrow> (string \<Rightarrow> string option) \<Rightarrow> (config_error, 'a static_config_scheme) res" where
  "load_config yaml_parse content env =
    (case from_file yaml_parse content of
       Inl e \<Rightarrow> Err e
     | Inr c0 \<Rightarrow> (let c = apply_env_overrides env c0 in case validate c of Inl e \<Rightarrow> Err e | Inr _ \<Rightarrow> Ok c))"

section \<open>What a loaded configuration satisfies\<close>

definition usable_config :: "'a static_config_scheme \<Rightarrow> bool" where
  "usable_config c \<longleftrightarrow> sc_name c \<noteq> [] \<and> sc_scope c \<noteq> [] \<and> sc_self_addr c \<noteq> [] \<and> sc_partner_addrs c \<noteq> [] \<and>
     sc_loop_wait c < sc_ttl c \<and> timing_fits (static_lease_timing c) \<and>
     (\<forall>dcs. sc_bootstrap_dcs c = Some dcs \<longrightarrow> timing_fits (bootstrap_timing c dcs))"

lemma validate_usable: "validate c = Ok () \<Longrightarrow> usable_config c"
  by (auto simp: validate_def usable_config_def not_le accepted_timing_fits split: if_splits option.splits bind_splits)

lemma loaded_usable: "load_config yaml_parse content env = Ok c \<Longrightarrow> usable_config c"
  by (auto simp: load_config_def Let_def intro: validate_usable split: sum.splits)

text \<open>
  The configuration a node runs with was validated after the environment was applied: names and addresses are
  there, and its lease timing, as well as the one it writes when it bootstraps a cluster, leaves room for one loop
  wait and one retry timeout inside the lease.
\<close>

theorem loaded_config_is_usable:
  assumes "load_config yaml_parse content env = Ok c"
  shows "sc_name c \<noteq> [] \<and> sc_scope c \<noteq> [] \<and> sc_self_addr c \<noteq> [] \<and> sc_partner_addrs c \<noteq> [] \<and> sc_loop_wait c < sc_ttl c \<and>
    timing_fits (static_lease_timing c) \<and> (\<forall>dcs. sc_bootstrap_dcs c = Some dcs \<longrightarrow> timing_fits (bootstrap_timing c dcs))"
  using loaded_usable [OF assms] unfolding usable_config_def .

text \<open>The dynamic configuration made of the bootstrap section keeps fitting when it is read back as an override.\<close>

theorem bootstrap_config_fits:
  assumes "load_config yaml_parse content env = Ok c" and "sc_bootstrap_dcs c = Some dcs"
    and "gc_ttl g = Option.bind (map_of dcs ''ttl'') as_u64" "gc_loop_wait g = Option.bind (map_of dcs ''loop_wait'') as_u64"
      "gc_retry_timeout g = Option.bind (map_of dcs ''retry_timeout'') as_u64"
  shows "timing_fits (config_lease_timing g (static_lease_timing c))"
proof -
  have "config_lease_timing g (static_lease_timing c) = bootstrap_timing c dcs"
    using assms(3-5) by (simp add: config_lease_timing_def bootstrap_timing_def static_lease_timing_def)
  then show ?thesis using assms(2) loaded_usable [OF assms(1)] by (simp add: usable_config_def)
qed

end
