(* ===== verification/Standby_Promote.thy ===== *)
theory Standby_Promote
  imports Ha_Logic Pg_Probe Static_Config
begin

text \<open>
  The end of a standby cluster: \<open>cascade_promote\<close> of \<open>crates/pg-ha-core/src/ha/mod.rs\<close> and
  \<open>standby_cluster.rs\<close>, and the connection strings of a cascading replica (\<open>cascading.rs\<close>). \<open>cascade_promote\<close> is
  a public operation of the engine that its own loop never calls; it is written with the same calls.

  The lemmas show in which order it acts and that a node counts as a primary only when it was observed
  as one.
\<close>

section \<open>Cascade promote\<close>

definition NOT_OUT_OF_RECOVERY :: string where
  "NOT_OUT_OF_RECOVERY = ''pg_ctl promote reported success but PostgreSQL was not observed out of recovery''"

definition standby_cascade_promote :: "(string, unit) res eng" where
  "standby_cascade_promote = do {
     written \<leftarrow> bool_call Ev_Set_Config;
     case written of
       Inl e \<Rightarrow> ret (Err e)
     | Inr _ \<Rightarrow> do {
         promoted \<leftarrow> pg_promote;
         case promoted of
           Inl e \<Rightarrow> ret (Err e)
         | Inr _ \<Rightarrow> do {
             r \<leftarrow> observe_recovery;
             if r \<noteq> Some False then ret (Err NOT_OUT_OF_RECOVERY)
             else do {
               set_role Primary;
               ret (Ok ())
             }
           }
       }
   }"

definition cascade_promote :: "(string, unit) res eng" where
  "cascade_promote = do {
     leader \<leftarrow> gets_ha h_is_leader;
     standby \<leftarrow> gets_ha (\<lambda>h. is_standby_cluster (last_config h));
     if \<not> leader then ret (Err ''Cannot cascade promote: not the leader'')
     else if \<not> standby then ret (Err ''Cannot cascade promote: not in standby cluster mode'')
     else do {
       current \<leftarrow> gets_ha last_config;
       result \<leftarrow> standby_cascade_promote;
       case result of
         Inl e \<Rightarrow> ret (Err (''Cascade promote failed: '' @ e))
       | Inr _ \<Rightarrow> do {
           mod_ha (\<lambda>h. h\<lparr>h_dynamic := fst (apply_new_config (h_dynamic h) (current\<lparr>gc_standby_cluster := None\<rparr>))\<rparr>);
           ret (Ok ())
         }
     }
   }"

text \<open>Which node a member of a standby cluster is cloned from; also without a caller.\<close>

definition clone_source_connstr :: "standby_cluster_config \<Rightarrow> string \<Rightarrow> string option \<Rightarrow> string" where
  "clone_source_connstr c user password = basebackup_connstr c user password"

section \<open>Connection string of a cascading replica\<close>

fun host_port_of_parts :: "string list \<Rightarrow> string \<Rightarrow> nat \<Rightarrow> string \<times> nat" where
  "host_port_of_parts [] host port = (host, port)"
| "host_port_of_parts (part # parts) host port =
     (case strip_prefix_opt ''host='' part of
        Some v \<Rightarrow> host_port_of_parts parts v port
      | None \<Rightarrow>
          (case strip_prefix_opt ''port='' part of
             Some v \<Rightarrow> host_port_of_parts parts host (unwrap_or (parse_u16 v) 5432)
           | None \<Rightarrow> host_port_of_parts parts host port))"

definition parse_host_port_from_conn_url :: "string \<Rightarrow> string \<times> nat" where
  "parse_host_port_from_conn_url conn_url = host_port_of_parts (split_whitespace conn_url) ''127.0.0.1'' 5432"

definition cascade_primary_conninfo :: "string \<Rightarrow> string \<Rightarrow> string option \<Rightarrow> string \<Rightarrow> string" where
  "cascade_primary_conninfo conn_url user password application_name =
    (case parse_host_port_from_conn_url conn_url of (host, port) \<Rightarrow>
       ''host='' @ host @ '' port='' @ dec_of_nat port @ '' user='' @ user @ '' application_name='' @ application_name @
       (case password of Some p \<Rightarrow> '' password='' @ p | None \<Rightarrow> []))"

section \<open>Lemmas\<close>

definition promotes :: "event \<Rightarrow> bool" where
  "promotes ev = (case ev of Ev_Promote _ \<Rightarrow> True | _ \<Rightarrow> False)"

definition promote_calls :: "event list \<Rightarrow> bool" where
  "promote_calls evs \<longleftrightarrow> length evs \<le> 3 \<and> (0 < length evs \<longrightarrow> evs ! 0 = Ev_Set_Config) \<and>
     (1 < length evs \<longrightarrow> promotes (evs ! 1)) \<and> (2 < length evs \<longrightarrow> evs ! 2 = Ev_Observe)"

definition new_calls :: "sys \<Rightarrow> sys \<Rightarrow> call list" where
  "new_calls s s' = drop (length (sy_trace s)) (sy_trace s')"

lemma promotes_Promote [simp]: "promotes (Ev_Promote x)"
  by (simp add: promotes_def)

lemma last_config_applied: "dy_last_config (fst (apply_new_config st c)) = c"
  by (simp add: apply_new_config_def Let_def)

lemma new_calls_appended: "sy_trace s' = sy_trace s @ cs \<Longrightarrow> new_calls s s' = cs"
  by (simp add: new_calls_def)

lemma promote_calls_prefix [simp]:
  "promote_calls []"
  "promote_calls [Ev_Set_Config]"
  "promotes p \<Longrightarrow> promote_calls [Ev_Set_Config, p]"
  "promotes p \<Longrightarrow> promote_calls [Ev_Set_Config, p, Ev_Observe]"
  by (simp_all add: promote_calls_def numeral_2_eq_2)

lemma wp_standby_cascade_promote:
  assumes "\<And>r cs s'. sy_trace s' = sy_trace s @ cs \<Longrightarrow> promote_calls (map tc_event cs) \<Longrightarrow>
    is_ok r \<Longrightarrow> pg_role (h_pg (sy_ha s')) = Primary \<Longrightarrow> pg_in_recovery (h_pg (sy_ha s')) = Some False \<Longrightarrow> Q r s'"
    and "\<And>r cs s'. sy_trace s' = sy_trace s @ cs \<Longrightarrow> promote_calls (map tc_event cs) \<Longrightarrow> \<not> is_ok r \<Longrightarrow> Q r s'"
  shows "wp standby_cascade_promote Q s"
  unfolding standby_cascade_promote_def bool_call_def pg_promote_def observe_recovery_def set_role_def set_pg_def
  apply (intro wp_intros wp_assigned wp_called)
  subgoal by (rule assms(2) [of _ "[_]"], assumption) simp_all
  subgoal by (rule assms(2) [of _ "[_, _]"], simp) simp_all
  subgoal by (rule assms(2) [of _ "[_, _, _]"], simp) simp_all
  subgoal by (rule assms(1) [of _ "[_, _, _]"], simp) simp_all
  subgoal by (rule assms(2) [of _ "[_, _]"], simp) simp_all
  subgoal by simp
  done

lemma cascade_promote_runs:
  "wp cascade_promote (\<lambda>r s'. sy_trace s' = sy_trace s @ new_calls s s' \<and> promote_calls (map tc_event (new_calls s s')) \<and>
      (\<not> (h_is_leader (sy_ha s) \<and> is_standby_cluster (last_config (sy_ha s))) \<longrightarrow> \<not> is_ok r \<and> new_calls s s' = []) \<and>
      (is_ok r \<longrightarrow> pg_role (h_pg (sy_ha s')) = Primary \<and> pg_in_recovery (h_pg (sy_ha s')) = Some False \<and>
         \<not> is_standby_cluster (last_config (sy_ha s')))) s"
  unfolding cascade_promote_def
  by (intro wp_intros wp_standby_cascade_promote wp_assigned)
    (simp_all add: new_calls_appended last_config_def last_config_applied is_standby_cluster_def)

text \<open>
  A cascade promote acts only on the leader of a standby cluster, and in one order: the standby section
  is removed from the shared configuration first, PostgreSQL is promoted only after that call, and it is
  observed afterwards; success means that it was observed out of recovery, that the role says so and
  that the node no longer takes itself for part of a standby cluster. Any other node is refused without
  a call.
\<close>

theorem cascade_promote_order:
  assumes "run_state cascade_promote s = (r, s')"
  shows "sy_trace s' = sy_trace s @ new_calls s s' \<and> promote_calls (map tc_event (new_calls s s')) \<and>
    (\<not> (h_is_leader (sy_ha s) \<and> is_standby_cluster (last_config (sy_ha s))) \<longrightarrow> \<not> is_ok r \<and> new_calls s s' = []) \<and>
    (is_ok r \<longrightarrow> pg_role (h_pg (sy_ha s')) = Primary \<and> pg_in_recovery (h_pg (sy_ha s')) = Some False \<and>
       \<not> is_standby_cluster (last_config (sy_ha s')))"
  using wpD [OF cascade_promote_runs assms] .

text \<open>
  Without a host in the member's address the cascading connection string points at the node itself, where
  the connection string of a standby is refused.
\<close>

theorem cascade_conninfo_falls_back_to_localhost:
  "cascade_primary_conninfo ''dbname=postgres'' user password name =
     ''host=127.0.0.1 port='' @ dec_of_nat 5432 @ '' user='' @ user @ '' application_name='' @ name @
       (case password of Some p \<Rightarrow> '' password='' @ p | None \<Rightarrow> []) \<and>
   build_primary_conninfo ''dbname=postgres'' user password name = None"
proof -
  have "split_whitespace ''dbname=postgres'' = [''dbname=postgres'']" by (simp add: split_whitespace_def is_ascii_space_def)
  then show ?thesis
    by (simp add: cascade_primary_conninfo_def parse_host_port_from_conn_url_def strip_prefix_opt_def build_primary_conninfo_def
        conn_url_has_host_def conn_url_host_port_def del: dec_of_nat.simps)
qed

end
