(* ===== verification/Timeline_Files.thy ===== *)
theory Timeline_Files
  imports Pg_Probe
begin

text \<open>
  The local timeline evidence read from the data directory (\<open>crates/pg-ha-core/src/timeline_files.rs\<close>):
  timeline history files, the names of WAL segments, the generation file and the identity of a server
  run. The directory is a record: what a read through a name finds, relative to it, what kind of
  entry the name itself is, and the listing of \<open>pg_wal\<close>. A file that cannot be read carries the
  error. Opening a name for writing follows a symbolic link and fails on a directory; renaming and
  removing act on the entry itself; what a link leads to lies outside the directory.

  The lemmas show that a history file is accepted exactly when it is ordered and is read back as
  written, that the newest history on disk is found, and that the generation is replaced atomically.
\<close>

section \<open>The data directory\<close>

datatype file_entry = Readable string | Unreadable string

text \<open>What \<open>symlink_metadata\<close> says of a name; \<open>Regular\<close> also where there is no entry.\<close>

datatype file_kind = Regular | Symlink | Directory

datatype read_error = Not_Found | Io_Error string

record data_dir =
  dd_files :: "string \<Rightarrow> file_entry option"
  dd_kind :: "string \<Rightarrow> file_kind"
  dd_wal_dir :: "(string, (string, string option) res list) res"

definition IS_A_DIRECTORY :: string where "IS_A_DIRECTORY = ''Is a directory (os error 21)''"

definition is_file :: "data_dir \<Rightarrow> string \<Rightarrow> bool" where
  "is_file d name \<longleftrightarrow> dd_files d name \<noteq> None \<and> dd_kind d name = Regular"

definition path_exists :: "data_dir \<Rightarrow> string \<Rightarrow> bool" where
  "path_exists d name \<longleftrightarrow> dd_files d name \<noteq> None \<or> dd_kind d name = Directory"

definition entry_there :: "data_dir \<Rightarrow> string \<Rightarrow> bool" where
  "entry_there d name \<longleftrightarrow> dd_files d name \<noteq> None \<or> dd_kind d name \<noteq> Regular"

definition read_to_string :: "data_dir \<Rightarrow> string \<Rightarrow> (read_error, string) res" where
  "read_to_string d name =
    (if dd_kind d name = Directory then Err (Io_Error IS_A_DIRECTORY)
     else case dd_files d name of
       None \<Rightarrow> Err Not_Found
     | Some (Unreadable e) \<Rightarrow> Err (Io_Error e)
     | Some (Readable s) \<Rightarrow> Ok s)"

text \<open>Writing a file opened by its name, removing an entry, renaming one (not a directory) over another.\<close>

definition set_file :: "string \<Rightarrow> file_entry option \<Rightarrow> data_dir \<Rightarrow> data_dir" where
  "set_file name e d = d\<lparr>dd_files := (dd_files d)(name := e)\<rparr>"

definition unlink_file :: "string \<Rightarrow> data_dir \<Rightarrow> data_dir" where
  "unlink_file name d =
    (if dd_kind d name = Directory then d
     else d\<lparr>dd_files := (dd_files d)(name := None), dd_kind := (dd_kind d)(name := Regular)\<rparr>)"

definition rename_file :: "string \<Rightarrow> string \<Rightarrow> data_dir \<Rightarrow> data_dir" where
  "rename_file a b d =
    d\<lparr>dd_files := (dd_files d)(b := dd_files d a, a := None), dd_kind := (dd_kind d)(b := dd_kind d a, a := Regular)\<rparr>"

definition GENERATION_FILE :: string where "GENERATION_FILE = ''pg-ha.generation''"

definition ACCEPT_TIMELINE_LOSS_FILE :: string where "ACCEPT_TIMELINE_LOSS_FILE = ''pg-ha.accept_timeline_loss''"

section \<open>History files\<close>

record history_line =
  hl_parent :: u64
  hl_switchpoint :: u64

definition line_error :: "nat \<Rightarrow> string \<Rightarrow> string" where
  "line_error n what = ''line '' @ dec_of_nat (n + 1) @ '': '' @ what"

definition quoted :: "string \<Rightarrow> string" where
  "quoted s = [SQUOTE] @ s @ [SQUOTE]"

definition out_of_order :: "history_line list \<Rightarrow> history_line \<Rightarrow> bool" where
  "out_of_order lines l \<longleftrightarrow>
    lines \<noteq> [] \<and> (hl_parent l \<le> hl_parent (last lines) \<or> hl_switchpoint l < hl_switchpoint (last lines))"

definition parse_history_line :: "nat \<Rightarrow> string \<Rightarrow> (string, history_line) res" where
  "parse_history_line n line =
    (case split_whitespace line of
       tli # lsn # _ \<Rightarrow>
         (case parse_u64 tli of
            None \<Rightarrow> Err (line_error n (''bad timeline '' @ quoted tli))
          | Some parent \<Rightarrow>
              (case parse_lsn lsn of
                 None \<Rightarrow> Err (line_error n (''bad LSN '' @ quoted lsn))
               | Some switchpoint \<Rightarrow> Ok \<lparr>hl_parent = parent, hl_switchpoint = switchpoint\<rparr>))
     | _ \<Rightarrow> Err (line_error n (''expected '' @ quoted ''<timeline> <lsn>'')))"

fun parse_history_lines :: "history_line list \<Rightarrow> nat \<Rightarrow> string list \<Rightarrow> (string, history_line list) res" where
  "parse_history_lines acc n [] = Ok acc"
| "parse_history_lines acc n (raw # raws) =
     (let line = str_trim raw
      in if line = [] \<or> hd line = CHR ''#'' then parse_history_lines acc (n + 1) raws
         else (case parse_history_line n line of
                 Inl e \<Rightarrow> Err e
               | Inr l \<Rightarrow> (if out_of_order acc l then Err (line_error n ''timelines out of order'')
                          else parse_history_lines (acc @ [l]) (n + 1) raws)))"

definition parse_history :: "string \<Rightarrow> (string, history_line list) res" where
  "parse_history content = parse_history_lines [] 0 (str_lines content)"

definition HISTORY_SUFFIX :: string where "HISTORY_SUFFIX = ''.history''"

definition strip_suffix_opt :: "string \<Rightarrow> string \<Rightarrow> string option" where
  "strip_suffix_opt suf s = (if suffix suf s then Some (take (length s - length suf) s) else None)"

definition history_file_timeline :: "string \<Rightarrow> u64 option" where
  "history_file_timeline name =
    (case strip_suffix_opt HISTORY_SUFFIX name of
       None \<Rightarrow> None
     | Some hex \<Rightarrow> (if length hex = 8 \<and> list_all is_ascii_hexdigit hex then from_str_radix_16 hex else None))"

definition segment_timeline :: "string \<Rightarrow> u64 option" where
  "segment_timeline name =
    (if length name = 24 \<and> list_all is_ascii_hexdigit name then from_str_radix_16 (take 8 name) else None)"

definition history_file_path :: "u64 \<Rightarrow> string" where
  "history_file_path timeline = ''pg_wal/'' @ hex08 (unat timeline) @ HISTORY_SUFFIX"

definition timeline_begin :: "data_dir \<Rightarrow> u64 \<Rightarrow> (string, u64 option) res" where
  "timeline_begin d timeline =
    (if timeline \<le> 1 then Ok (Some 0)
     else
       let path = history_file_path timeline
       in case read_to_string d path of
            Inl Not_Found \<Rightarrow> Ok None
          | Inl (Io_Error e) \<Rightarrow> Err (path @ '': '' @ e)
          | Inr content \<Rightarrow>
              (case parse_history content of
                 Inl e \<Rightarrow> Err (path @ '': '' @ e)
               | Inr lines \<Rightarrow>
                   (if lines = [] then Err (path @ '': no entries'')
                    else if hl_parent (last lines) < timeline then Ok (Some (hl_switchpoint (last lines)))
                    else Err (path @ '': parent timeline not below '' @ dec_of_nat (unat timeline)))))"

fun scan_wal_dir :: "u64 \<Rightarrow> u64 list \<Rightarrow> (string, string option) res list \<Rightarrow> (string, u64 \<times> u64 list) res" where
  "scan_wal_dir newest segments [] = Ok (newest, segments)"
| "scan_wal_dir newest segments (Inl e # es) = Err (''pg_wal: '' @ e)"
| "scan_wal_dir newest segments (Inr None # es) = scan_wal_dir newest segments es"
| "scan_wal_dir newest segments (Inr (Some name) # es) =
     (case history_file_timeline name of
        Some tli \<Rightarrow> scan_wal_dir (max newest tli) segments es
      | None \<Rightarrow>
          (case segment_timeline name of
             Some tli \<Rightarrow> scan_wal_dir newest (segments @ [tli]) es
           | None \<Rightarrow> scan_wal_dir newest segments es))"

definition newest_history :: "data_dir \<Rightarrow> (string, history_evidence) res" where
  "newest_history d =
    (case dd_wal_dir d of
       Inl e \<Rightarrow> Err (''pg_wal: '' @ e)
     | Inr entries \<Rightarrow>
         (case scan_wal_dir 1 [] entries of
            Inl e \<Rightarrow> Err e
          | Inr (newest, segments) \<Rightarrow>
              (case timeline_begin d newest of
                 Inl e \<Rightarrow> Err e
               | Inr None \<Rightarrow> Err (''history file of timeline '' @ dec_of_nat (unat newest) @ '' vanished'')
               | Inr (Some b) \<Rightarrow> Ok \<lparr>he_timeline = newest, he_begin = b, he_wal = (newest \<in> set segments)\<rparr>)))"

section \<open>Generation, server run, override\<close>

definition read_generation_file :: "data_dir \<Rightarrow> (string, u64) res" where
  "read_generation_file d =
    (case read_to_string d GENERATION_FILE of
       Inl Not_Found \<Rightarrow> Ok 0
     | Inl (Io_Error e) \<Rightarrow> Err (GENERATION_FILE @ '': '' @ e)
     | Inr s \<Rightarrow> (case parse_u64 (str_trim s) of Some g \<Rightarrow> Ok g | None \<Rightarrow> Err (GENERATION_FILE @ '': not a number'')))"

text \<open>
  \<open>write_generation\<close> runs five calls and stops at the first that fails: create the temporary file, write
  it, sync it, rename it, sync the directory; on any error the temporary file is removed. Which call
  fails is the argument; a failing write leaves a prefix of the text. A directory of one of the two
  names makes the creation or the renaming fail in any case.
\<close>

datatype write_step = Create_Tmp | Write_Tmp | Sync_Tmp | Rename_Tmp | Sync_Dir

definition GENERATION_TMP :: string where "GENERATION_TMP = GENERATION_FILE @ ''.tmp''"

definition write_generation_steps :: "write_step option \<Rightarrow> nat \<Rightarrow> u64 \<Rightarrow> data_dir \<Rightarrow> bool \<times> data_dir" where
  "write_generation_steps fails written g d =
    (let txt = dec_of_nat (unat g) @ [LF] in
     if fails = Some Create_Tmp \<or> dd_kind d GENERATION_TMP = Directory then (False, d)
     else let d1 = set_file GENERATION_TMP (Some (Readable [])) d in
     if fails = Some Write_Tmp then (False, set_file GENERATION_TMP (Some (Readable (take written txt))) d1)
     else let d2 = set_file GENERATION_TMP (Some (Readable txt)) d1 in
     if fails = Some Sync_Tmp then (False, d2)
     else if fails = Some Rename_Tmp \<or> dd_kind d2 GENERATION_FILE = Directory then (False, d2)
     else let d3 = rename_file GENERATION_TMP GENERATION_FILE d2 in
     if fails = Some Sync_Dir then (False, d3) else (True, d3))"

definition write_generation_file :: "write_step option \<Rightarrow> nat \<Rightarrow> u64 \<Rightarrow> data_dir \<Rightarrow> bool \<times> data_dir" where
  "write_generation_file fails written g d =
    (let (ok, d') = write_generation_steps fails written g d
     in (ok, if ok then d' else unlink_file GENERATION_TMP d'))"

definition server_run :: "data_dir \<Rightarrow> (string, string option) res" where
  "server_run d =
    (case read_to_string d ''postmaster.pid'' of
       Inl Not_Found \<Rightarrow> Ok None
     | Inl (Io_Error e) \<Rightarrow> Err (''postmaster.pid: '' @ e)
     | Inr content \<Rightarrow>
         (let ls = map str_trim (str_lines content);
              pid = (if 0 < length ls then ls ! 0 else []);
              start = (if 2 < length ls then ls ! 2 else [])
          in if parse_u64 pid = None \<or> parse_u64 start = None then Err ''postmaster.pid: unexpected content''
             else Ok (Some (''pid='' @ pid @ '' start='' @ start))))"

definition has_accept_timeline_loss :: "data_dir \<Rightarrow> bool" where
  "has_accept_timeline_loss d \<longleftrightarrow> is_file d ACCEPT_TIMELINE_LOSS_FILE"

definition remove_accept_timeline_loss :: "string option \<Rightarrow> data_dir \<Rightarrow> (string, unit) res \<times> data_dir" where
  "remove_accept_timeline_loss fails d =
    (if \<not> entry_there d ACCEPT_TIMELINE_LOSS_FILE then (Ok (), d)
     else if dd_kind d ACCEPT_TIMELINE_LOSS_FILE = Directory then (Err IS_A_DIRECTORY, d)
     else case fails of Some e \<Rightarrow> (Err e, d) | None \<Rightarrow> (Ok (), unlink_file ACCEPT_TIMELINE_LOSS_FILE d))"

section \<open>Words of a line\<close>

lemma split_whitespace_space: "is_ascii_space c \<Longrightarrow> split_whitespace (c # s) = split_whitespace s"
  by (simp add: split_whitespace_def)

lemma split_on_snoc: "p c \<Longrightarrow> split_on p (s @ [c]) = split_on p s @ [[]]"
  by (induction s) (auto split: list.splits simp: split_on_Nil)

lemma split_whitespace_snoc: "is_ascii_space c \<Longrightarrow> split_whitespace (s @ [c]) = split_whitespace s"
  by (simp add: split_whitespace_def split_on_snoc)

lemma split_whitespace_dropWhile: "split_whitespace (dropWhile is_ascii_space s) = split_whitespace s"
  by (induction s) (simp_all add: split_whitespace_space)

lemma split_whitespace_dropWhile_rev: "split_whitespace (rev (dropWhile is_ascii_space (rev s))) = split_whitespace s"
  by (induction s rule: rev_induct) (simp_all add: split_whitespace_snoc)

lemma split_whitespace_trim [simp]: "split_whitespace (str_trim s) = split_whitespace s"
  by (simp add: str_trim_def split_whitespace_dropWhile_rev split_whitespace_dropWhile)

lemma split_whitespace_word:
  assumes "w \<noteq> []" "\<not> list_ex is_ascii_space w" "is_ascii_space c"
  shows "split_whitespace (w @ c # rest) = w # split_whitespace rest"
  using assms by (simp add: split_whitespace_def split_on_append)

lemma str_trim_Cons:
  assumes "\<not> is_ascii_space c"
  shows "\<exists>t. str_trim (c # s) = c # t"
proof -
  have "str_trim (c # s) = c # rev (dropWhile is_ascii_space (rev s)) \<or> str_trim (c # s) = [c]"
    using assms by (simp add: str_trim_def dropWhile_append)
  then show ?thesis by blast
qed

section \<open>History files\<close>

definition history_ordered :: "history_line list \<Rightarrow> bool" where
  "history_ordered = sorted_wrt (\<lambda>a b. hl_parent a < hl_parent b \<and> hl_switchpoint a \<le> hl_switchpoint b)"

lemma history_ordered_snoc:
  assumes "history_ordered acc"
  shows "history_ordered (acc @ [l]) \<longleftrightarrow> \<not> out_of_order acc l"
proof
  assume "history_ordered (acc @ [l])"
  then show "\<not> out_of_order acc l" by (auto simp: history_ordered_def out_of_order_def sorted_wrt_append not_le not_less)
next
  assume n: "\<not> out_of_order acc l"
  show "history_ordered (acc @ [l])"
  proof (cases acc rule: rev_cases)
    case (snoc xs x)
    then show ?thesis using assms n by (fastforce simp: history_ordered_def out_of_order_def sorted_wrt_append not_le not_less)
  qed (simp add: history_ordered_def)
qed

lemma parse_history_lines_ordered:
  "parse_history_lines acc n raws = Ok ls \<Longrightarrow> history_ordered acc \<Longrightarrow> history_ordered ls"
  by (induction acc n raws rule: parse_history_lines.induct)
    (auto simp: Let_def history_ordered_snoc split: if_splits sum.splits)

text \<open>The line PostgreSQL writes: parent, position and reason, separated by tabs.\<close>

definition TAB :: char where "TAB = CHR 0x09"

definition history_line_text :: "history_line \<Rightarrow> string \<Rightarrow> string" where
  "history_line_text l reason = dec_of_nat (unat (hl_parent l)) @ [TAB] @ lsn_text (hl_switchpoint l) @ [TAB] @ reason"

definition history_text :: "(history_line \<times> string) list \<Rightarrow> string" where
  "history_text ls = concat (map (\<lambda>(l, reason). history_line_text l reason @ [LF]) ls)"

lemma TAB_space [simp]: "is_ascii_space TAB"
  by (simp add: TAB_def is_ascii_space_def)

lemma digit_no_space: "is_digit c \<Longrightarrow> \<not> is_ascii_space c \<and> c \<noteq> CHR ''#''"
  by (auto simp: is_digit_def is_ascii_space_def)

lemma dec_of_nat_Cons: obtains c cs where "dec_of_nat n = c # cs" "is_digit c"
proof -
  obtain c cs where "dec_of_nat n = c # cs" by (metis dec_of_nat.simps append_is_Nil_conv neq_Nil_conv)
  then show ?thesis using that dec_of_nat_digits [of n] by simp
qed

lemma dec_of_nat_no_space: "\<not> list_ex is_ascii_space (dec_of_nat n)"
  using dec_of_nat_digits [of n] digit_no_space by (auto simp: list_all_iff list_ex_iff)

lemma lsn_text_no_space: "\<not> list_ex is_ascii_space (lsn_text x)"
  using hex_of_nat_digits hexdigit_no_sign by (auto simp: lsn_text_def list_all_iff list_ex_iff is_ascii_space_def)

lemma split_history_line:
  "split_whitespace (history_line_text l reason) =
    dec_of_nat (unat (hl_parent l)) # lsn_text (hl_switchpoint l) # split_whitespace reason"
proof -
  have "dec_of_nat (unat (hl_parent l)) \<noteq> []" by (metis dec_of_nat_Cons list.distinct(1))
  moreover have "lsn_text (hl_switchpoint l) \<noteq> []" by (simp add: lsn_text_def)
  ultimately show ?thesis
    by (simp add: history_line_text_def split_whitespace_word dec_of_nat_no_space lsn_text_no_space)
qed

lemma parse_history_line_text:
  "parse_history_line n (str_trim (history_line_text l reason)) = Ok l"
  by (simp add: parse_history_line_def split_history_line dec_u64.parse_print lsn.parse_print)

lemma history_line_not_skipped:
  "str_trim (history_line_text l reason) \<noteq> [] \<and> hd (str_trim (history_line_text l reason)) \<noteq> CHR ''#''"
proof -
  obtain c cs where c: "dec_of_nat (unat (hl_parent l)) = c # cs" "is_digit c" by (rule dec_of_nat_Cons)
  obtain t where "str_trim (history_line_text l reason) = c # t"
    using str_trim_Cons [of c] digit_no_space [OF c(2)] c(1) by (auto simp: history_line_text_def)
  then show ?thesis using digit_no_space [OF c(2)] by simp
qed

lemma parse_history_lines_text:
  "history_ordered (acc @ map fst ls) \<Longrightarrow>
    parse_history_lines acc n (map (\<lambda>(l, reason). history_line_text l reason) ls) = Ok (acc @ map fst ls)"
proof (induction ls arbitrary: acc n)
  case (Cons x ls)
  obtain l reason where x: "x = (l, reason)" by fastforce
  have o: "history_ordered acc" "history_ordered (acc @ [l])"
    using Cons.prems by (auto simp: history_ordered_def sorted_wrt_append x)
  then have "\<not> out_of_order acc l" by (simp add: history_ordered_snoc)
  then show ?case
    using Cons.IH [of "acc @ [l]" "n + 1"] Cons.prems history_line_not_skipped [of l reason]
    by (simp add: x parse_history_line_text Let_def)
qed simp


lemma history_text_lines:
  assumes "\<forall>(l, reason) \<in> set ls. LF \<notin> set reason \<and> CR \<notin> set reason"
  shows "str_lines (history_text ls) = map (\<lambda>(l, reason). history_line_text l reason) ls"
proof -
  have "LF \<notin> set (history_line_text l reason) \<and> CR \<notin> set (history_line_text l reason)" if "(l, reason) \<in> set ls" for l reason
    using assms that dec_of_nat_no_space [of "unat (hl_parent l)"] lsn_text_no_space [of "hl_switchpoint l"]
    by (auto simp: history_line_text_def list_ex_iff TAB_def LF_def CR_def is_ascii_space_def)
  then have "str_lines (concat (map (\<lambda>l. l @ [LF]) (map (\<lambda>(l, reason). history_line_text l reason) ls))) =
      map (\<lambda>(l, reason). history_line_text l reason) ls"
    by (intro str_lines_concat) auto
  moreover have "history_text ls = concat (map (\<lambda>l. l @ [LF]) (map (\<lambda>(l, reason). history_line_text l reason) ls))"
    by (auto simp: history_text_def comp_def intro!: arg_cong [of _ _ concat])
  ultimately show ?thesis by simp
qed



section \<open>The newest history\<close>

lemma hex_value_pad: "hex_value (replicate k (CHR ''0'') @ h) = hex_value h"
proof (induction k)
  case (Suc k)
  have "hex_digit (CHR ''0'') = Some 0" by (simp add: hex_digit_def)
  then show ?case using Suc by (simp add: hex_value_def)
qed simp

lemma length_hex_of_nat: "n < 16 ^ Suc k \<Longrightarrow> length (hex_of_nat n) \<le> Suc k"
proof (induction k arbitrary: n)
  case 0
  then show ?case by (subst hex_of_nat.simps) simp
next
  case (Suc k)
  show ?case
  proof (cases "n < 16")
    case False
    have "n div 16 < 16 ^ Suc k" using Suc.prems by (simp add: less_mult_imp_div_less)
    then show ?thesis using Suc.IH [of "n div 16"] False by (subst hex_of_nat.simps) simp
  qed (subst hex_of_nat.simps, simp)
qed

text \<open>The name the code builds for a timeline below 2^32 is recognised as that timeline's history file.\<close>

lemma history_file_timeline_name:
  assumes "n < 2 ^ 32"
  shows "history_file_timeline (hex08 n @ HISTORY_SUFFIX) = Some (word_of_nat n)"
proof -
  have "length (hex_of_nat n) \<le> 8" using length_hex_of_nat [of n 7] assms by simp
  moreover have "is_ascii_hexdigit (CHR ''0'')" by (simp add: is_ascii_hexdigit_def hex_digit_def)
  ultimately have h: "length (hex08 n) = 8" "list_all is_ascii_hexdigit (hex08 n)"
    using hex_of_nat_digits [of n] by (auto simp: hex08_def Let_def list_all_iff)
  have "hex_value (hex08 n) = n" by (simp add: hex08_def Let_def hex_value_pad)
  then have "from_str_radix_16 (hex08 n) = Some (word_of_nat n)"
    using h assms by (subst from_str_radix_16_digits) auto
  then show ?thesis using h by (simp add: history_file_timeline_def strip_suffix_opt_def suffix_def)
qed

lemma segment_is_no_history: "segment_timeline name = Some t \<Longrightarrow> history_file_timeline name = None"
proof -
  assume "segment_timeline name = Some t"
  then have "CHR ''.'' \<notin> set name"
    by (auto simp: segment_timeline_def list_all_iff is_ascii_hexdigit_def hex_digit_def split: if_splits)
  then have "\<not> suffix HISTORY_SUFFIX name" by (auto simp: suffix_def HISTORY_SUFFIX_def)
  then show ?thesis by (simp add: history_file_timeline_def strip_suffix_opt_def)
qed

definition listed :: "(string, string option) res list \<Rightarrow> (string \<Rightarrow> u64 option) \<Rightarrow> u64 set" where
  "listed es f = {t. \<exists>name. Inr (Some name) \<in> set es \<and> f name = Some t}"

lemma listed_simps [simp]:
  "listed [] f = {}"
  "listed (Inl e # es) f = listed es f"
  "listed (Inr None # es) f = listed es f"
  "listed (Inr (Some name) # es) f = set_option (f name) \<union> listed es f"
  by (auto simp: listed_def)

lemma scan_wal_dir_result:
  "scan_wal_dir newest segments es = Ok (m, ss) \<Longrightarrow>
    newest \<le> m \<and> (\<forall>t \<in> listed es history_file_timeline. t \<le> m) \<and> m \<in> insert newest (listed es history_file_timeline) \<and>
    set ss = set segments \<union> listed es segment_timeline"
proof (induction newest segments es rule: scan_wal_dir.induct)
  case (4 newest segments name es)
  show ?case
  proof (cases "history_file_timeline name")
    case None
    then show ?thesis using 4 by (cases "segment_timeline name") auto
  next
    case (Some t)
    then have "segment_timeline name = None" using segment_is_no_history [of name] by (cases "segment_timeline name") auto
    then show ?thesis using 4 Some by (auto simp: max_def split: if_splits)
  qed
qed auto

text \<open>
  The evidence taken from the data directory is the newest there is: its timeline is at least
  that of every listed history file, it is 1 or that of a listed file, its begin is what that
  timeline's history file says, and the WAL flag is set exactly when a listed segment is named with it.
\<close>

theorem newest_history_found:
  assumes "newest_history d = Ok ev" and "dd_wal_dir d = Ok entries"
  shows "(\<forall>t \<in> listed entries history_file_timeline. t \<le> he_timeline ev) \<and>
    he_timeline ev \<in> insert 1 (listed entries history_file_timeline) \<and>
    timeline_begin d (he_timeline ev) = Ok (Some (he_begin ev)) \<and>
    (he_wal ev \<longleftrightarrow> he_timeline ev \<in> listed entries segment_timeline)"
proof -
  obtain m ss where s: "scan_wal_dir 1 [] entries = Ok (m, ss)"
    and e: "he_timeline ev = m" "he_wal ev = (m \<in> set ss)" "timeline_begin d m = Ok (Some (he_begin ev))"
    using assms by (auto simp: newest_history_def split: sum.splits option.splits)
  then show ?thesis using scan_wal_dir_result [OF s] by auto
qed

definition demo_entries :: "(string, string option) res list" where
  "demo_entries = [Ok (Some ''00000002.history''), Ok (Some ''000000020000000000000001''), Ok None]"

definition demo_dir :: data_dir where
  "demo_dir = \<lparr>dd_files = (\<lambda>name. if name = ''pg_wal/00000002.history''
       then Some (Readable (history_text [(\<lparr>hl_parent = 1, hl_switchpoint = 80\<rparr>, [])])) else None),
     dd_kind = (\<lambda>_. Regular), dd_wal_dir = Ok demo_entries\<rparr>"

lemma demo_newest: "newest_history demo_dir = Ok \<lparr>he_timeline = 2, he_begin = 80, he_wal = True\<rparr>"
proof -
  have s: "scan_wal_dir 1 [] demo_entries = Ok (2, [2])"
    by (simp add: demo_entries_def history_file_timeline_def segment_timeline_def strip_suffix_opt_def HISTORY_SUFFIX_def
        suffix_def is_ascii_hexdigit_def hex_digit_def from_str_radix_16_def hex_value_def)
  have "hex_of_nat 2 = ''2''" by (simp add: hex_of_nat.simps upper_hex_digit_def char_of_def bit_0)
  then have "hex08 2 = ''00000002''" by (simp add: hex08_def eval_nat_numeral)
  then have p: "history_file_path 2 = ''pg_wal/00000002.history''" by (simp add: history_file_path_def HISTORY_SUFFIX_def)
  have "parse_history (history_text [(\<lparr>hl_parent = 1, hl_switchpoint = 80\<rparr>, [])]) = Ok [\<lparr>hl_parent = 1, hl_switchpoint = 80\<rparr>]"
    using parse_history_lines_text [of "[]" "[(\<lparr>hl_parent = 1, hl_switchpoint = 80\<rparr>, [])]" 0]
    by (simp add: parse_history_def history_text_lines history_ordered_def)
  then have "timeline_begin demo_dir 2 = Ok (Some 80)"
    by (simp add: timeline_begin_def p read_to_string_def demo_dir_def Let_def word_le_nat_alt)
  then show ?thesis using s by (simp add: newest_history_def demo_dir_def)
qed

theorem newest_history_found_witness:
  "newest_history demo_dir = Ok \<lparr>he_timeline = 2, he_begin = 80, he_wal = True\<rparr> \<and>
   2 \<in> listed demo_entries segment_timeline"
  using demo_newest newest_history_found [OF demo_newest, of demo_entries] by (simp add: demo_dir_def)

section \<open>The generation file\<close>

lemma str_trim_dec_LF: "str_trim (dec_of_nat n @ [LF]) = dec_of_nat n"
proof -
  obtain c cs where c: "dec_of_nat n = c # cs" "is_digit c" by (rule dec_of_nat_Cons)
  have "dropWhile is_ascii_space (rev (dec_of_nat n)) = rev (dec_of_nat n)"
  proof (cases "dec_of_nat n" rule: rev_cases)
    case (snoc ds d)
    then show ?thesis using dec_of_nat_no_space [of n] by simp
  qed simp
  moreover have "is_ascii_space LF" by (simp add: LF_def is_ascii_space_def)
  ultimately show ?thesis using c digit_no_space [OF c(2)] by (simp add: str_trim_def)
qed

lemma GENERATION_TMP_neq [simp]: "GENERATION_TMP \<noteq> GENERATION_FILE" "GENERATION_FILE \<noteq> GENERATION_TMP"
  by (simp_all add: GENERATION_TMP_def GENERATION_FILE_def)

text \<open>
  The generation is replaced atomically. Whichever call of the write fails, the generation read
  afterwards is the new one or what was read before, and nothing but the generation file and its
  temporary copy changes; a reported success means that the new generation is read back. Without a
  failing call, and with no directory in the way, it succeeds.
\<close>

theorem generation_write_atomic:
  assumes "write_generation_file fails written g d = (ok, d')"
  shows "(ok \<longrightarrow> read_generation_file d' = Ok g) \<and>
    (read_generation_file d' = Ok g \<or> read_generation_file d' = read_generation_file d) \<and>
    (fails = None \<and> dd_kind d GENERATION_FILE \<noteq> Directory \<and> dd_kind d GENERATION_TMP \<noteq> Directory \<longrightarrow> ok) \<and>
    (dd_kind d GENERATION_TMP \<noteq> Directory \<longrightarrow> \<not> entry_there d' GENERATION_TMP) \<and>
    (\<forall>name. name \<noteq> GENERATION_FILE \<and> name \<noteq> GENERATION_TMP \<longrightarrow> dd_files d' name = dd_files d name)"
  using assms
  by (auto simp: write_generation_file_def write_generation_steps_def Let_def set_file_def unlink_file_def rename_file_def
      entry_there_def read_generation_file_def read_to_string_def str_trim_dec_LF dec_u64.parse_print split: if_splits)

theorem generation_write_atomic_witness:
  "read_generation_file (snd (write_generation_file None 0 7 demo_dir)) = Ok 7 \<and>
   \<not> entry_there (snd (write_generation_file None 0 7 demo_dir)) GENERATION_TMP"
  using generation_write_atomic [of None 0 7 demo_dir, OF surjective_pairing] by (simp add: demo_dir_def)

end
