(* ===== verification/Utc_Time.thy ===== *)
theory Utc_Time
  imports Timeline_Files
begin

text \<open>
  The time stamp of the marker files (\<open>format_utc\<close> of \<open>crates/pg-ha-core/src/standby_config.rs\<close>): Unix
  seconds as a civil date by H. Hinnant's arithmetic on eras of 400 years. The Rust integers are
  \<open>i64\<close> and \<open>u64\<close>; days are at most \<open>2 ^ 64 div 86400\<close>, so no operation wraps and the model
  computes in \<open>nat\<close>.

  The reference is a clock advanced one second at a time. The lemmas show that both agree on every
  second a \<open>u64\<close> can count.
\<close>

section \<open>The arithmetic of the code\<close>

definition yoe_of :: "nat \<Rightarrow> nat" where
  "yoe_of doe = (doe - doe div 1460 + doe div 36524 - doe div 146096) div 365"

definition month_start :: "nat \<Rightarrow> nat" where
  "month_start mp = (153 * mp + 2) div 5"

definition civil_of_days :: "nat \<Rightarrow> nat \<times> nat \<times> nat" where
  "civil_of_days days =
    (let z = days + 719468;
         era = z div 146097;
         doe = z mod 146097;
         yoe = yoe_of doe;
         doy = doe - (365 * yoe + yoe div 4 - yoe div 100);
         mp = (5 * doy + 2) div 153;
         day = doy - month_start mp + 1;
         month = (if mp < 10 then mp + 3 else mp - 9);
         year = yoe + era * 400 + (if month \<le> 2 then 1 else 0)
     in (year, month, day))"

definition dec_padded :: "nat \<Rightarrow> nat \<Rightarrow> string" where
  "dec_padded w n = (let s = dec_of_nat n in replicate (w - length s) (CHR ''0'') @ s)"

definition format_utc :: "u64 \<Rightarrow> string" where
  "format_utc unix_secs =
    (let s = unat unix_secs; rem = s mod 86400
     in case civil_of_days (s div 86400) of (year, month, day) \<Rightarrow>
       dec_padded 4 year @ ''-'' @ dec_padded 2 month @ ''-'' @ dec_padded 2 day @ ''T'' @
       dec_padded 2 (rem div 3600) @ '':'' @ dec_padded 2 (rem mod 3600 div 60) @ '':'' @ dec_padded 2 (rem mod 60) @ ''Z'')"

section \<open>A calendar advanced day by day\<close>

definition leap_year :: "nat \<Rightarrow> bool" where
  "leap_year y \<longleftrightarrow> y mod 4 = 0 \<and> (y mod 100 \<noteq> 0 \<or> y mod 400 = 0)"

definition month_length :: "nat \<Rightarrow> nat \<Rightarrow> nat" where
  "month_length y m =
    (if m = 2 then (if leap_year y then 29 else 28) else if m \<in> {4, 6, 9, 11} then 30 else 31)"

fun next_day :: "nat \<times> nat \<times> nat \<Rightarrow> nat \<times> nat \<times> nat" where
  "next_day (y, m, d) =
    (if d < month_length y m then (y, m, d + 1) else if m < 12 then (y, m + 1, 1) else (y + 1, 1, 1))"

fun tick :: "(nat \<times> nat \<times> nat) \<times> nat \<times> nat \<times> nat \<Rightarrow> (nat \<times> nat \<times> nat) \<times> nat \<times> nat \<times> nat" where
  "tick (date, h, m, s) =
    (if s < 59 then (date, h, m, s + 1)
     else if m < 59 then (date, h, m + 1, 0)
     else if h < 23 then (date, h + 1, 0, 0)
     else (next_day date, 0, 0, 0))"

definition clock :: "nat \<Rightarrow> (nat \<times> nat \<times> nat) \<times> nat \<times> nat \<times> nat" where
  "clock n = (tick ^^ n) ((1970, 1, 1), 0, 0, 0)"

fun utc_text :: "(nat \<times> nat \<times> nat) \<times> nat \<times> nat \<times> nat \<Rightarrow> string" where
  "utc_text ((year, month, day), h, m, s) =
    dec_padded 4 year @ ''-'' @ dec_padded 2 month @ ''-'' @ dec_padded 2 day @ ''T'' @
    dec_padded 2 h @ '':'' @ dec_padded 2 m @ '':'' @ dec_padded 2 s @ ''Z''"

definition calendar :: "nat \<Rightarrow> nat \<times> nat \<times> nat" where
  "calendar n = (next_day ^^ n) (1970, 1, 1)"

section \<open>Years of an era\<close>

text \<open>\<open>year_start k\<close> is the first day of year \<open>k\<close> of an era; years begin on the first of March.\<close>

definition year_start :: "nat \<Rightarrow> nat" where
  "year_start k = 365 * k + k div 4 - k div 100"

definition year_days :: "nat \<Rightarrow> nat" where
  "year_days k = (if leap_year (k + 1) then 366 else 365)"

definition date_in :: "nat \<Rightarrow> nat \<Rightarrow> nat \<times> nat \<times> nat" where
  "date_in y doy =
    (let mp = (5 * doy + 2) div 153; month = (if mp < 10 then mp + 3 else mp - 9)
     in (y + (if month \<le> 2 then 1 else 0), month, doy - month_start mp + 1))"

text \<open>A year of an era is \<open>100 * c + 4 * q + b\<close>: century, four-year cycle and year of the cycle.\<close>

lemma year_split:
  obtains c q b where "k = 100 * c + 4 * q + b" "q < 25" "b < 4" "k < 400 \<longleftrightarrow> c < (4 :: nat)"
proof
  have "4 * (k mod 100 div 4) + k mod 100 mod 4 = k mod 100" by (rule mult_div_mod_eq)
  then show "k = 100 * (k div 100) + 4 * (k mod 100 div 4) + k mod 100 mod 4"
    using mult_div_mod_eq [of 100 k] by linarith
  show "k mod 100 div 4 < 25" "k mod 100 mod 4 < 4" by (simp_all add: less_mult_imp_div_less)
  show "k < 400 \<longleftrightarrow> k div 100 < 4" by (simp add: div_less_iff_less_mult)
qed

lemma year_start_split:
  assumes "q < 25" "b < 4"
  shows "year_start (100 * c + 4 * q + b) = 36524 * c + 1461 * q + 365 * b"
proof -
  have "(100 * c + 4 * q + b) div 4 = 25 * c + q" "(100 * c + 4 * q + b) div 100 = c"
    using assms by (auto intro!: div_nat_eqI)
  then show ?thesis by (simp add: year_start_def)
qed

lemma leap_year_split:
  assumes "c < 4" "q < 25" "b < 4"
  shows "leap_year (100 * c + 4 * q + b + 1) \<longleftrightarrow> b = 3 \<and> (q \<noteq> 24 \<or> c = 3)"
proof -
  have "(4 * (25 * c + q) + (b + 1)) mod 4 = (b + 1) mod 4" by (rule mod_mult_self4)
  moreover have "(b + 1) mod 4 = 0 \<longleftrightarrow> b = 3" using assms(3) by (cases "b = 3") auto
  ultimately have m4: "(100 * c + 4 * q + b + 1) mod 4 = 0 \<longleftrightarrow> b = 3" by simp
  have m100: "(100 * c + (4 * q + 4)) mod 100 = 0 \<longleftrightarrow> q = 24"
    unfolding mod_mult_self4 using assms(2) by (cases "q = 24") auto
  have m400: "(100 * c + 100) mod 400 = 0 \<longleftrightarrow> c = 3" using assms(1) by (cases "c = 3") auto
  show ?thesis
  proof (cases "b = 3")
    case True
    have "100 * c + 4 * q + 3 + 1 = 100 * c + (4 * q + 4)" by simp
    with True show ?thesis
      using m4 m100 m400 unfolding leap_year_def True by (cases "q = 24") (simp_all only:, simp_all)
  next
    case False
    then show ?thesis using m4 by (simp add: leap_year_def)
  qed
qed

lemma yoe_of_split:
  assumes "c < 4" "q < 25" "b < 4" "d < 365 \<or> d = 365 \<and> b = 3 \<and> (q \<noteq> 24 \<or> c = 3)"
  shows "yoe_of (36524 * c + 1461 * q + 365 * b + d) = 100 * c + 4 * q + b"
proof (cases "c = 3 \<and> q = 24 \<and> b = 3 \<and> d = 365")
  case True
  then show ?thesis by (simp add: yoe_of_def)
next
  case False
  let ?n = "36524 * c + 1461 * q + 365 * b + d"
  define e where "e = (if 24 * c + q + 365 * b + d < 1460 then 0 else 1 :: nat)"
  have e: "?n div 1460 = 25 * c + q + e" using assms by (auto simp: e_def intro!: div_nat_eqI)
  have t: "1461 * q + 365 * b + d < 36524" using assms False by linarith
  then have f: "?n div 36524 = c" "?n div 146096 = 0" using assms(1) by (auto intro!: div_nat_eqI)
  have "e \<le> d" "d - e < 365" using assms by (auto simp: e_def split: if_splits)
  then have "?n - ?n div 1460 + ?n div 36524 - ?n div 146096 = 365 * (100 * c + 4 * q + b) + (d - e)"
    unfolding e f using le_Suc_ex [of e d] by auto
  then show ?thesis unfolding yoe_of_def using \<open>d - e < 365\<close> by simp
qed

lemma yoe_of_position:
  assumes "k < 400" "doy < year_days k"
  shows "yoe_of (year_start k + doy) = k"
proof -
  obtain c q b where k: "k = 100 * c + 4 * q + b" "q < 25" "b < 4" "c < 4" using year_split assms(1) by metis
  then show ?thesis
    using yoe_of_split [of c q b doy] assms(2) leap_year_split [of c q b]
    by (simp add: year_start_split year_days_def split: if_splits) fastforce
qed

lemma year_days_pos: "0 < year_days k"
  by (simp add: year_days_def)

lemma next_year:
  assumes "k < 400"
  shows "year_start k + year_days k = (if k < 399 then year_start (Suc k) else 146097)"
proof -
  obtain c q b where k: "k = 100 * c + 4 * q + b" "q < 25" "b < 4" "c < 4" using year_split assms by metis
  consider "b < 3" | "b = 3" "q < 24" | "b = 3" "q = 24" using k by linarith
  then show ?thesis
  proof cases
    case 1
    then show ?thesis using k leap_year_split [of c q b] year_start_split [of q b c] year_start_split [of q "Suc b" c]
      by (simp add: year_days_def)
  next
    case 2
    then show ?thesis using k leap_year_split [of c q b] year_start_split [of q b c] year_start_split [of "Suc q" 0 c]
      by (simp add: year_days_def add_ac)
  next
    case 3
    then show ?thesis using k leap_year_split [of c q b] year_start_split [of q b c] year_start_split [of 0 0 "Suc c"]
      by (simp add: year_days_def)
  qed
qed

lemma year_start_mono: "k < 400 \<Longrightarrow> year_start k + year_days k \<le> 146097"
  using next_year [of k] year_start_def [of "Suc k"] by (simp split: if_splits)

text \<open>A day is a position in an era: the code recovers the position, whatever the era.\<close>

lemma civil_of_position:
  assumes "k < 400" "doy < year_days k" "n + 719468 = era * 146097 + year_start k + doy"
  shows "civil_of_days n = date_in (k + era * 400) doy"
proof -
  have lt: "year_start k + doy < 146097" using year_start_mono [OF assms(1)] assms(2) by linarith
  have z: "(n + 719468) mod 146097 = year_start k + doy" "(n + 719468) div 146097 = era"
    unfolding assms(3) using lt by (simp_all add: add.assoc)
  have "year_start k + doy - (365 * k + k div 4 - k div 100) = doy"
    by (simp add: year_start_def)
  with z yoe_of_position [OF assms(1,2)] show ?thesis
    unfolding civil_of_days_def date_in_def Let_def by simp
qed

section \<open>Days of a year\<close>

lemma below_check:
  assumes "P 0" "P 1" "list_all P [2..<n]" "k < n"
  shows "P (k :: nat)"
proof (cases "2 \<le> k")
  case True
  then have "k \<in> set [2..<n]" using assms(4) by (simp only: set_upt atLeastLessThan_iff)
  then show ?thesis using assms(3) unfolding list_all_iff by (rule bspec [rotated])
next
  case False
  then have "k = 0 \<or> k = 1" by linarith
  then show ?thesis using assms(1,2) by (elim disjE) (simp_all only:)
qed

definition same_month :: "nat \<Rightarrow> bool" where
  "same_month doy \<longleftrightarrow> (case date_in 0 doy of (y, m, d) \<Rightarrow>
     (if d < month_length 1 m then date_in 0 (doy + 1) = (y, m, d + 1)
      else m \<noteq> 2 \<and> date_in 0 (doy + 1) = (if m < 12 then (y, m + 1, 1) else (y + 1, 1, 1))))"

lemma days_advance: "doy < 364 \<Longrightarrow> same_month doy"
  by (rule below_check [of same_month 364])
    (simp_all, simp_all add: same_month_def date_in_def month_start_def month_length_def leap_year_def)

lemma date_in_shift: "date_in y doy = (case date_in 0 doy of (y', m, d) \<Rightarrow> (y + y', m, d))"
  by (simp add: date_in_def Let_def)

lemma month_length_other: "m \<noteq> 2 \<Longrightarrow> month_length y m = month_length 1 m"
  by (simp add: month_length_def)

lemma month_length_ge: "month_length 1 m \<le> month_length y m"
  by (simp add: month_length_def leap_year_def)

lemma next_day_in_year:
  assumes "doy < 364"
  shows "next_day (date_in y doy) = date_in y (doy + 1)"
proof -
  obtain y' m d where e: "date_in 0 doy = (y', m, d)" by (metis prod_cases3)
  have s: "same_month doy" using days_advance assms .
  show ?thesis
  proof (cases "d < month_length 1 m")
    case True
    then have "d < month_length (y + y') m" using month_length_ge [of m "y + y'"] by linarith
    with True s e show ?thesis by (simp add: same_month_def date_in_shift [of y])
  next
    case False
    with s e have "m \<noteq> 2" by (simp add: same_month_def)
    with False s e show ?thesis
      by (simp add: same_month_def date_in_shift [of y] month_length_other [of m "y + y'"] split: if_splits)
  qed
qed

lemma year_end_dates: "date_in y 364 = (y + 1, 2, 28)" "date_in y 365 = (y + 1, 2, 29)" "date_in y 0 = (y, 3, 1)"
  by (simp_all add: date_in_def month_start_def)

lemma leap_year_era: "leap_year (k + era * 400) \<longleftrightarrow> leap_year k"
  using mod_mult_self1 [of k "era * 100" 4] mod_mult_self1 [of k "era * 4" 100] mod_mult_self1 [of k era 400]
  by (simp add: leap_year_def mult.assoc)

lemma next_day_date:
  assumes "doy < year_days k"
  shows "next_day (date_in (k + era * 400) doy) =
    (if doy + 1 < year_days k then date_in (k + era * 400) (doy + 1) else date_in (k + era * 400 + 1) 0)"
proof -
  have l: "leap_year (Suc (k + era * 400)) \<longleftrightarrow> leap_year (Suc k)" using leap_year_era [of "Suc k" era] by simp
  consider "doy < 364" | "doy = 364" | "doy = 365" using assms by (fastforce simp: year_days_def split: if_splits)
  then show ?thesis
  proof cases
    case 1
    then show ?thesis using next_day_in_year by (simp add: year_days_def)
  qed (use assms l in \<open>auto simp: year_days_def year_end_dates month_length_def split: if_splits\<close>)
qed

section \<open>Agreement with the calendar\<close>

lemma calendar_position:
  "\<exists>era k doy. k < 400 \<and> doy < year_days k \<and> n + 719468 = era * 146097 + year_start k + doy \<and>
     calendar n = date_in (k + era * 400) doy"
proof (induction n)
  case 0
  have "0 + 719468 = 4 * 146097 + year_start 369 + 306" "306 < year_days 369"
    "calendar 0 = date_in (369 + 4 * 400) 306"
    by (simp_all add: calendar_def year_start_def year_days_def date_in_def month_start_def)
  then show ?case by (intro exI [of _ 4] exI [of _ 369] exI [of _ 306]) simp
next
  case (Suc n)
  then obtain era k doy where h: "k < 400" "doy < year_days k" "n + 719468 = era * 146097 + year_start k + doy"
    "calendar n = date_in (k + era * 400) doy" by blast
  have c: "calendar (Suc n) = next_day (date_in (k + era * 400) doy)" using h(4) by (simp add: calendar_def)
  consider "doy + 1 < year_days k" | "doy + 1 = year_days k" "k < 399" | "doy + 1 = year_days k" "k = 399"
    using h(1,2) by linarith
  then show ?case
  proof cases
    case 1
    then show ?thesis using h c next_day_date [OF h(2)]
      by (intro exI [of _ era] exI [of _ k] exI [of _ "doy + 1"]) simp
  next
    case 2
    then show ?thesis using h c next_day_date [OF h(2)] next_year [OF h(1)] year_days_pos [of "Suc k"]
      by (intro exI [of _ era] exI [of _ "Suc k"] exI [of _ 0]) simp
  next
    case 3
    then show ?thesis using h c next_day_date [OF h(2)] next_year [OF h(1)] year_days_pos [of 0]
      by (intro exI [of _ "Suc era"] exI [of _ 0] exI [of _ 0]) (simp add: year_start_def)
  qed
qed

lemma civil_of_days_calendar: "civil_of_days n = calendar n"
  using calendar_position [of n] civil_of_position by metis

lemma clock_position:
  "\<exists>d h m s. n = 86400 * d + 3600 * h + 60 * m + s \<and> h < 24 \<and> m < 60 \<and> s < 60 \<and> clock n = (calendar d, h, m, s)"
proof (induction n)
  case 0
  show ?case by (intro exI [of _ 0]) (simp add: clock_def calendar_def)
next
  case (Suc n)
  then obtain d h m s where n: "n = 86400 * d + 3600 * h + 60 * m + s" and b: "h < 24" "m < 60" "s < 60"
    and c: "clock n = (calendar d, h, m, s)" by blast
  have t: "clock (Suc n) = tick (calendar d, h, m, s)" "calendar (Suc d) = next_day (calendar d)"
    using c by (simp_all add: clock_def calendar_def)
  consider "s < 59" | "s = 59" "m < 59" | "s = 59" "m = 59" "h < 23" | "s = 59" "m = 59" "h = 23" using b by linarith
  then show ?case
  proof cases
    case 1
    then show ?thesis using n b t by (intro exI [of _ d] exI [of _ h] exI [of _ m] exI [of _ "s + 1"]) simp
  next
    case 2
    then show ?thesis using n b t by (intro exI [of _ d] exI [of _ h] exI [of _ "m + 1"] exI [of _ 0]) simp
  next
    case 3
    then show ?thesis using n b t by (intro exI [of _ d] exI [of _ "h + 1"] exI [of _ 0]) simp
  next
    case 4
    then show ?thesis using n b t by (intro exI [of _ "d + 1"] exI [of _ 0]) simp
  qed
qed

lemma clock_fields:
  "clock n = (calendar (n div 86400), n mod 86400 div 3600, n mod 86400 mod 3600 div 60, n mod 86400 mod 60)"
proof -
  obtain d h m s where n: "n = 86400 * d + (3600 * h + (60 * m + s))" and b: "h < 24" "m < 60" "s < 60"
    and c: "clock n = (calendar d, h, m, s)" using clock_position [of n] by (auto simp: add.assoc)
  have l: "3600 * h + (60 * m + s) < 86400" "60 * m + s < 3600" using b by linarith+
  have r: "n div 86400 = d" "n mod 86400 = 3600 * h + (60 * m + s)" unfolding n using l(1) by simp_all
  have "(3600 * h + (60 * m + s)) div 3600 = h" "(3600 * h + (60 * m + s)) mod 3600 = 60 * m + s" using l(2) by simp_all
  moreover have "(3600 * h + (60 * m + s)) mod 60 = s"
    using mod_mult_self4 [of 60 "60 * h + m" s] b(3) by (simp add: algebra_simps)
  moreover have "(60 * m + s) div 60 = m" using b(3) by simp
  ultimately show ?thesis using c r by simp
qed

section \<open>The stamp is right\<close>

text \<open>
  C36. The time stamp pg-ha writes into its marker files is the Gregorian date and time of the moment:
  for every number of seconds since the epoch the arithmetic on 400-year eras gives the reading of a
  clock that is advanced second by second from 1970-01-01T00:00:00Z, and the sums the code forms in
  \<open>i64\<close> stay below \<open>2 ^ 63\<close>.
\<close>

theorem utc_stamp_is_clock_reading:
  "format_utc t = utc_text (clock (unat t)) \<and> unat t div 86400 + 719468 < 2 ^ 63"
proof
  show "format_utc t = utc_text (clock (unat t))"
    by (simp add: format_utc_def clock_fields civil_of_days_calendar Let_def split: prod.splits)
  have "unat t div 86400 < 2 ^ 64 div 86400 + 1"
    using div_le_mono [of "unat t" "2 ^ 64" 86400] unat_u64_lt [of t] by simp
  then show "unat t div 86400 + 719468 < 2 ^ 63" by simp
qed

end
