(* ===== verification/Standby_Files.thy ===== *)
theory Standby_Files
  imports Utc_Time
begin

text \<open>
  The files pg-ha writes into the data directory (\<open>crates/pg-ha-core/src/standby_config.rs\<close>): the
  standby signal and configuration, the rewind-check marker and the rewind hold, and the size of the
  directory shown to the operator. The directory is the record of theory \<open>Timeline_Files\<close>, with its
  symbolic links and directories; file modes are not part of it. Which system call fails is an argument of each operation, and so is the
  time of day.

  The lemmas show that a standby configuration is replaced atomically and never without its signal,
  that the recorded cause of a failed rewind is read back, and that the walk over the directory ends
  with the exact size or runs out of time.
\<close>

section \<open>Standby signal and configuration\<close>

definition STANDBY_SIGNAL :: string where "STANDBY_SIGNAL = ''standby.signal''"

definition AUTO_CONF :: string where "AUTO_CONF = ''postgresql.auto.conf''"

definition AUTO_CONF_TMP :: string where "AUTO_CONF_TMP = ''postgresql.auto.conf.pg-ha.tmp''"

datatype conf_step =
    Signal_Create | Signal_Sync | Signal_Dir_Sync
  | Conf_Metadata
  | Conf_Create | Conf_Write | Conf_Sync | Conf_Permissions | Conf_Rename
  | Conf_Dir_Sync

definition ensure_standby_signal_io :: "conf_step option \<Rightarrow> data_dir \<Rightarrow> bool \<times> data_dir" where
  "ensure_standby_signal_io fails d =
    (if fails = Some Signal_Create \<or> dd_kind d STANDBY_SIGNAL = Directory then (False, d)
     else let d1 = set_file STANDBY_SIGNAL (Some (Readable [])) d
          in (fails \<notin> {Some Signal_Sync, Some Signal_Dir_Sync}, d1))"

text \<open>The temporary file: created, written, synced, given the old file's mode, renamed over the configuration.\<close>

definition replace_auto_conf :: "conf_step option \<Rightarrow> nat \<Rightarrow> bool \<Rightarrow> string \<Rightarrow> data_dir \<Rightarrow> bool \<times> data_dir" where
  "replace_auto_conf fails written has_permissions content d =
    (if fails = Some Conf_Create \<or> dd_kind d AUTO_CONF_TMP = Directory then (False, d)
     else if fails = Some Conf_Write then (False, set_file AUTO_CONF_TMP (Some (Readable (take written content))) d)
     else
       let d1 = set_file AUTO_CONF_TMP (Some (Readable content)) d in
       if fails = Some Conf_Sync then (False, d1)
       else if has_permissions \<and> fails = Some Conf_Permissions then (False, d1)
       else if fails = Some Conf_Rename \<or> dd_kind d1 AUTO_CONF = Directory then (False, d1)
       else (True, rename_file AUTO_CONF_TMP AUTO_CONF d1))"

definition write_standby_config_io :: "conf_step option \<Rightarrow> nat \<Rightarrow> string option \<Rightarrow> data_dir \<Rightarrow> bool \<times> data_dir" where
  "write_standby_config_io fails written primary_conninfo d =
    (case ensure_standby_signal_io fails d of
       (False, d1) \<Rightarrow> (False, d1)
     | (True, d1) \<Rightarrow>
         (case (case read_to_string d1 AUTO_CONF of
                  Inr content \<Rightarrow> (if fails = Some Conf_Metadata then None else Some (content, True))
                | Inl Not_Found \<Rightarrow> Some ([], False)
                | Inl (Io_Error e) \<Rightarrow> None) of
            None \<Rightarrow> (False, d1)
          | Some (existing, has_permissions) \<Rightarrow>
              (case replace_auto_conf fails written has_permissions (rewrite_auto_conf existing primary_conninfo) d1 of
                 (False, d2) \<Rightarrow> (False, unlink_file AUTO_CONF_TMP d2)
               | (True, d2) \<Rightarrow> (fails \<noteq> Some Conf_Dir_Sync, d2))))"

section \<open>Marker files\<close>

definition REWIND_CHECK_MARKER :: string where "REWIND_CHECK_MARKER = ''pg-ha.rewind_check''"

definition REWIND_HOLD_FILE :: string where "REWIND_HOLD_FILE = ''pg-ha.rewind_failed''"

datatype marker_step = Marker_Create | Marker_Write | Marker_Sync | Marker_Dir_Sync

definition write_marker :: "marker_step option \<Rightarrow> nat \<Rightarrow> string \<Rightarrow> string \<Rightarrow> data_dir \<Rightarrow> bool \<times> data_dir" where
  "write_marker fails written name content d =
    (if fails = Some Marker_Create \<or> dd_kind d name = Directory then (False, d)
     else if fails = Some Marker_Write then (False, set_file name (Some (Readable (take written content))) d)
     else (fails \<notin> {Some Marker_Sync, Some Marker_Dir_Sync}, set_file name (Some (Readable content)) d))"

definition create_rewind_check_marker_io :: "marker_step option \<Rightarrow> nat \<Rightarrow> u64 \<Rightarrow> string \<Rightarrow> data_dir \<Rightarrow> bool \<times> data_dir" where
  "create_rewind_check_marker_io fails written now reason d =
    write_marker fails written REWIND_CHECK_MARKER
      (''reason: '' @ reason @ [LF] @ ''created: '' @ format_utc now @ [LF]) d"

definition has_rewind_check_marker :: "data_dir \<Rightarrow> bool" where
  "has_rewind_check_marker d \<longleftrightarrow> is_file d REWIND_CHECK_MARKER"

fun remove_files :: "(string \<Rightarrow> bool) \<Rightarrow> string list \<Rightarrow> data_dir \<Rightarrow> bool \<times> data_dir" where
  "remove_files fails [] d = (True, d)"
| "remove_files fails (name # names) d =
     (if entry_there d name \<and> (fails name \<or> dd_kind d name = Directory) then (False, d)
      else remove_files fails names (unlink_file name d))"

definition remove_node_state_files_io :: "(string \<Rightarrow> bool) \<Rightarrow> data_dir \<Rightarrow> bool \<times> data_dir" where
  "remove_node_state_files_io fails d = remove_files fails [REWIND_CHECK_MARKER, REWIND_HOLD_FILE] d"

definition write_rewind_hold_io :: "marker_step option \<Rightarrow> nat \<Rightarrow> u64 \<Rightarrow> string \<Rightarrow> string \<Rightarrow> data_dir \<Rightarrow> bool \<times> data_dir" where
  "write_rewind_hold_io fails written now what cause d =
    write_marker fails written REWIND_HOLD_FILE
      (what @ '' failed: '' @ cause @ [LF] @ ''created: '' @ format_utc now @ [LF]) d"

fun str_split_once :: "string \<Rightarrow> string \<Rightarrow> (string \<times> string) option" where
  "str_split_once pat [] = (if pat = [] then Some ([], []) else None)"
| "str_split_once pat (c # cs) =
     (if prefix pat (c # cs) then Some ([], drop (length pat) (c # cs))
      else map_option (\<lambda>(a, b). (c # a, b)) (str_split_once pat cs))"

definition read_rewind_hold :: "data_dir \<Rightarrow> (string \<times> string) option" where
  "read_rewind_hold d =
    (case read_to_string d REWIND_HOLD_FILE of
       Inl e \<Rightarrow> None
     | Inr content \<Rightarrow>
         (case str_lines content of
            [] \<Rightarrow> None
          | line # _ \<Rightarrow> map_option (\<lambda>(what, cause). (str_trim what, str_trim cause)) (str_split_once '' failed: '' line)))"

definition has_rewind_hold :: "data_dir \<Rightarrow> bool" where
  "has_rewind_hold d \<longleftrightarrow> is_file d REWIND_HOLD_FILE"

definition rewind_hold_message :: "string \<Rightarrow> string \<Rightarrow> string \<Rightarrow> string \<Rightarrow> string" where
  "rewind_hold_message what cause dir siz =
    what @ '' failed; PostgreSQL is stopped and its data directory is kept (pg-ha did not '' @
    ''delete or rebuild it). Cause: '' @ cause @ ''. Data directory: '' @ dir @ '' ('' @ siz @ ''). pg-ha will not '' @
    ''start, rewind or rebuild this node on its own. Operator action required: call POST '' @
    ''/reinitialize on this node to delete the local data and copy it again from the primary '' @
    ''with pg_basebackup (a full copy, about '' @ siz @ ''); or set '' @
    ''postgresql.remove_data_directory_on_rewind_failure: true and restart pg-ha to let it '' @
    ''rebuild automatically. If the cause was temporary, delete '' @ dir @ ''/'' @ REWIND_HOLD_FILE @ '' to '' @
    ''let pg-ha retry pg_rewind once (no pg-ha restart needed).''"

section \<open>Size of the data directory\<close>

text \<open>
  The tree as the walk sees it: a directory that cannot be listed has no entries; an entry is an
  unreadable one, one without metadata, a file with its length, a directory, or something else.
\<close>

datatype dir_tree = Dir "dir_entry list option"
  and dir_entry = Entry_Error | Metadata_Error | File_Entry u64 | Dir_Entry dir_tree | Other_Entry

record dir_size =
  ds_bytes :: u64
  ds_complete :: bool

fun scan_entries :: "dir_entry list \<Rightarrow> dir_size \<Rightarrow> dir_tree list \<Rightarrow> dir_size \<times> dir_tree list" where
  "scan_entries [] siz pending = (siz, pending)"
| "scan_entries (Entry_Error # es) siz pending = scan_entries es (siz\<lparr>ds_complete := False\<rparr>) pending"
| "scan_entries (Dir_Entry t # es) siz pending = scan_entries es siz (t # pending)"
| "scan_entries (File_Entry len # es) siz pending = scan_entries es (siz\<lparr>ds_bytes := ds_bytes siz + len\<rparr>) pending"
| "scan_entries (Other_Entry # es) siz pending = scan_entries es siz pending"
| "scan_entries (Metadata_Error # es) siz pending = scan_entries es (siz\<lparr>ds_complete := False\<rparr>) pending"

primrec dirs_in :: "dir_tree \<Rightarrow> nat" and dirs_in_entry :: "dir_entry \<Rightarrow> nat" where
  "dirs_in (Dir es) = Suc (case map_option (map dirs_in_entry) es of None \<Rightarrow> 0 | Some ns \<Rightarrow> sum_list ns)"
| "dirs_in_entry Entry_Error = 0"
| "dirs_in_entry Metadata_Error = 0"
| "dirs_in_entry (File_Entry len) = 0"
| "dirs_in_entry (Dir_Entry t) = dirs_in t"
| "dirs_in_entry Other_Entry = 0"

lemma scan_entries_dirs:
  "sum_list (map dirs_in (snd (scan_entries es siz pending))) =
     sum_list (map dirs_in pending) + sum_list (map dirs_in_entry es)"
  by (induction es siz pending rule: scan_entries.induct) auto

text \<open>\<open>late n\<close>: the time budget is used up when the \<open>n\<close>-th directory is taken from the worklist.\<close>

function size_walk :: "(nat \<Rightarrow> bool) \<Rightarrow> nat \<Rightarrow> dir_size \<Rightarrow> dir_tree list \<Rightarrow> dir_size option" where
  "size_walk late n siz [] = Some siz"
| "size_walk late n siz (Dir entries # pending) =
     (if late n then None
      else case entries of
             None \<Rightarrow> size_walk late (Suc n) (siz\<lparr>ds_complete := False\<rparr>) pending
           | Some es \<Rightarrow> (let (siz', pending') = scan_entries es siz pending in size_walk late (Suc n) siz' pending'))"
  by pat_completeness auto
termination
proof (relation "measure (\<lambda>(late, n, siz, pending). sum_list (map dirs_in pending))", goal_cases)
  case (3 late n siz entries pending es x siz' pending')
  then show ?case using scan_entries_dirs [of es siz pending] by (auto split: prod.splits)
qed auto

definition data_dir_size :: "(nat \<Rightarrow> bool) \<Rightarrow> dir_tree \<Rightarrow> dir_size option" where
  "data_dir_size late t = size_walk late 0 \<lparr>ds_bytes = 0, ds_complete = True\<rparr> [t]"

section \<open>The walk computes the size\<close>

primrec tree_bytes :: "dir_tree \<Rightarrow> nat" and entry_bytes :: "dir_entry \<Rightarrow> nat" where
  "tree_bytes (Dir es) = (case map_option (map entry_bytes) es of None \<Rightarrow> 0 | Some ns \<Rightarrow> sum_list ns)"
| "entry_bytes Entry_Error = 0"
| "entry_bytes Metadata_Error = 0"
| "entry_bytes (File_Entry len) = unat len"
| "entry_bytes (Dir_Entry t) = tree_bytes t"
| "entry_bytes Other_Entry = 0"

primrec tree_readable :: "dir_tree \<Rightarrow> bool" and entry_readable :: "dir_entry \<Rightarrow> bool" where
  "tree_readable (Dir es) = (case map_option (map entry_readable) es of None \<Rightarrow> False | Some bs \<Rightarrow> list_all id bs)"
| "entry_readable Entry_Error = False"
| "entry_readable Metadata_Error = False"
| "entry_readable (File_Entry len) = True"
| "entry_readable (Dir_Entry t) = tree_readable t"
| "entry_readable Other_Entry = True"

text \<open>What a worklist still contributes, on top of what was counted: the measure the scan keeps.\<close>

definition outcome :: "dir_size \<Rightarrow> dir_tree list \<Rightarrow> dir_size" where
  "outcome siz pending =
    \<lparr>ds_bytes = ds_bytes siz + word_of_nat (sum_list (map tree_bytes pending)),
     ds_complete = (ds_complete siz \<and> list_all tree_readable pending)\<rparr>"

lemma scan_entries_outcome:
  "scan_entries es siz pending = (siz', pending') \<Longrightarrow> outcome siz' pending' = outcome siz (Dir (Some es) # pending)"
  by (induction es siz pending rule: scan_entries.induct) (auto simp: outcome_def list_all_iff)

lemma unlisted_outcome: "outcome (siz\<lparr>ds_complete := False\<rparr>) pending = outcome siz (Dir None # pending)"
  by (simp add: outcome_def)

lemma ex_less_Suc_shift: "(\<exists>i < Suc m. P (n + i)) \<longleftrightarrow> P n \<or> (\<exists>i < m. P (Suc n + i))"
  by (auto simp: Ex_less_Suc2)

lemma size_walk_outcome:
  "size_walk late n siz pending =
    (if \<exists>i < sum_list (map dirs_in pending). late (n + i) then None else Some (outcome siz pending))"
proof (induction late n siz pending rule: size_walk.induct)
  case (1 late n siz)
  show ?case by (simp add: outcome_def)
next
  case (2 late n siz entries pending)
  show ?case
  proof (cases entries)
    case None
    then show ?thesis using 2 by (simp add: ex_less_Suc_shift unlisted_outcome)
  next
    case (Some es)
    obtain siz' pending' where e: "scan_entries es siz pending = (siz', pending')" by fastforce
    have d: "sum_list (map dirs_in pending') = sum_list (map dirs_in_entry es) + sum_list (map dirs_in pending)"
      using scan_entries_dirs [of es siz pending] e by simp
    show ?thesis
      using 2 Some e d scan_entries_outcome [OF e] by (simp add: ex_less_Suc_shift)
  qed
qed

text \<open>
  C35. The walk over the data directory always ends, and with the right answer: it gives nothing
  exactly when the time budget was used up at one of the directories, and otherwise the total size of
  the files below the directory, marked as a lower bound exactly when something in it could not be
  read. The sum does not wrap as long as the total fits in 64 bits.
\<close>

theorem data_dir_size_is_total:
  "data_dir_size late t =
      (if \<exists>i < dirs_in t. late i then None
       else Some \<lparr>ds_bytes = word_of_nat (tree_bytes t), ds_complete = tree_readable t\<rparr>) \<and>
    (\<forall>siz. data_dir_size late t = Some siz \<longrightarrow> tree_bytes t < 2 ^ 64 \<longrightarrow> unat (ds_bytes siz) = tree_bytes t)"
  by (auto simp: data_dir_size_def size_walk_outcome outcome_def unat_of_nat take_bit_nat_eq_self split: if_splits)

definition demo_tree :: dir_tree where
  "demo_tree = Dir (Some [File_Entry 3, Dir_Entry (Dir (Some [File_Entry 4, Other_Entry])), Dir_Entry (Dir None)])"

theorem data_dir_size_is_total_witness:
  "data_dir_size (\<lambda>_. False) demo_tree = Some \<lparr>ds_bytes = 7, ds_complete = False\<rparr> \<and>
   data_dir_size (\<lambda>n. n = 2) demo_tree = None \<and> unat (7 :: u64) = tree_bytes demo_tree"
  using data_dir_size_is_total [of "\<lambda>_. False" demo_tree] data_dir_size_is_total [of "\<lambda>n. n = 2" demo_tree]
  by (auto simp: demo_tree_def)

section \<open>The standby configuration is replaced atomically\<close>

lemmas file_names = STANDBY_SIGNAL_def AUTO_CONF_def AUTO_CONF_TMP_def REWIND_CHECK_MARKER_def REWIND_HOLD_FILE_def

lemma set_file_fields:
  "dd_files (set_file n e d) = (dd_files d)(n := e)" "dd_kind (set_file n e d) = dd_kind d"
  by (simp_all add: set_file_def)

lemma unlink_file_fields:
  "dd_files (unlink_file n d) = (if dd_kind d n = Directory then dd_files d else (dd_files d)(n := None))"
  "dd_kind (unlink_file n d) = (if dd_kind d n = Directory then dd_kind d else (dd_kind d)(n := Regular))"
  by (simp_all add: unlink_file_def)

lemma rename_file_fields:
  "dd_files (rename_file a b d) = (dd_files d)(b := dd_files d a, a := None)"
  "dd_kind (rename_file a b d) = (dd_kind d)(b := dd_kind d a, a := Regular)"
  by (simp_all add: rename_file_def)

lemmas file_op_fields = set_file_fields unlink_file_fields rename_file_fields

definition old_conf :: "data_dir \<Rightarrow> string option" where
  "old_conf d = (case read_to_string d AUTO_CONF of Inr content \<Rightarrow> Some content | Inl Not_Found \<Rightarrow> Some [] | Inl _ \<Rightarrow> None)"

lemma old_conf_signal: "old_conf (set_file STANDBY_SIGNAL e d) = old_conf d"
  by (simp add: old_conf_def read_to_string_def file_op_fields file_names)

lemma ensure_standby_signalE:
  assumes "ensure_standby_signal_io fails d = (ok, d1)"
  obtains "\<not> ok" "d1 = d" | "d1 = set_file STANDBY_SIGNAL (Some (Readable [])) d" "dd_kind d STANDBY_SIGNAL \<noteq> Directory"
  using assms by (auto simp: ensure_standby_signal_io_def Let_def split: if_splits)

lemma replace_auto_confE:
  assumes "replace_auto_conf fails written p content d = (ok, d')"
  obtains e where "\<not> ok" "d' = set_file AUTO_CONF_TMP e d"
  | "ok" "d' = rename_file AUTO_CONF_TMP AUTO_CONF (set_file AUTO_CONF_TMP (Some (Readable content)) d)"
    "dd_kind d AUTO_CONF_TMP \<noteq> Directory"
proof -
  have "set_file AUTO_CONF_TMP (dd_files d AUTO_CONF_TMP) d = d" by (simp add: set_file_def)
  then show thesis using assms that
    by (auto simp: replace_auto_conf_def Let_def split: if_splits) metis+
qed

lemma write_standby_config_cases:
  assumes "write_standby_config_io fails written conninfo d = (ok, d')"
  obtains (unchanged) "\<not> ok" "d' = d"
  | (signalled) e k where "\<not> ok" "dd_kind d STANDBY_SIGNAL \<noteq> Directory"
      "dd_files d' = (dd_files d)(STANDBY_SIGNAL := Some (Readable []), AUTO_CONF_TMP := e)"
      "dd_kind d' = (dd_kind d)(AUTO_CONF_TMP := k)"
  | (replaced) existing k where "old_conf d = Some existing" "dd_kind d STANDBY_SIGNAL \<noteq> Directory" "k \<noteq> Directory"
      "dd_files d' = (dd_files d)(STANDBY_SIGNAL := Some (Readable []), AUTO_CONF_TMP := None,
         AUTO_CONF := Some (Readable (rewrite_auto_conf existing conninfo)))"
      "dd_kind d' = (dd_kind d)(AUTO_CONF := k, AUTO_CONF_TMP := Regular)"
proof -
  obtain ok1 d1 where e1: "ensure_standby_signal_io fails d = (ok1, d1)" by fastforce
  have names: "STANDBY_SIGNAL \<noteq> AUTO_CONF_TMP" "AUTO_CONF \<noteq> AUTO_CONF_TMP" "STANDBY_SIGNAL \<noteq> AUTO_CONF" by (simp_all add: file_names)
  show thesis
  proof (cases "ok1 \<and> old_conf d1 \<noteq> None \<and> \<not> (fails = Some Conf_Metadata \<and> is_ok (read_to_string d1 AUTO_CONF))")
    case False
    have "\<not> ok" "d' = d1" using False assms e1
      by (auto simp: write_standby_config_io_def old_conf_def is_ok_def split: bool.splits sum.splits read_error.splits)
    from e1 show ?thesis
    proof (cases rule: ensure_standby_signalE)
      case 1
      then show ?thesis using \<open>\<not> ok\<close> \<open>d' = d1\<close> unchanged by simp
    next
      case 2
      then show ?thesis using \<open>\<not> ok\<close> \<open>d' = d1\<close> names
        by (intro signalled [of "dd_files d AUTO_CONF_TMP" "dd_kind d AUTO_CONF_TMP"]) (auto simp: file_op_fields fun_eq_iff)
    qed
  next
    case True
    then obtain existing where x: "old_conf d1 = Some existing" by blast
    obtain p where "write_standby_config_io fails written conninfo d =
        (case replace_auto_conf fails written p (rewrite_auto_conf existing conninfo) d1 of
           (False, d2) \<Rightarrow> (False, unlink_file AUTO_CONF_TMP d2) | (True, d2) \<Rightarrow> (fails \<noteq> Some Conf_Dir_Sync, d2))"
      using True e1 x by (auto simp: write_standby_config_io_def old_conf_def is_ok_def split: sum.splits read_error.splits)
    moreover obtain ok2 d2 where r: "replace_auto_conf fails written p (rewrite_auto_conf existing conninfo) d1 = (ok2, d2)"
      by fastforce
    ultimately have w: "(ok, d') = (if ok2 then (fails \<noteq> Some Conf_Dir_Sync, d2) else (False, unlink_file AUTO_CONF_TMP d2))"
      using assms by (auto split: bool.splits)
    have d1: "d1 = set_file STANDBY_SIGNAL (Some (Readable [])) d" "dd_kind d STANDBY_SIGNAL \<noteq> Directory"
      using e1 True by (auto elim: ensure_standby_signalE)
    then have o: "old_conf d = Some existing" using x by (simp add: old_conf_signal)
    from r show ?thesis
    proof (cases rule: replace_auto_confE)
      case (1 e)
      then show ?thesis using w d1 by (intro signalled [of "dd_files d' AUTO_CONF_TMP" "dd_kind d' AUTO_CONF_TMP"]) (auto simp: file_op_fields fun_eq_iff)
    next
      case 2
      then show ?thesis using w d1 o names
        by (intro replaced [of existing "dd_kind d AUTO_CONF_TMP"]) (auto simp: file_op_fields fun_eq_iff)
    qed
  qed
qed

text \<open>
  C21. Whichever system call fails, \<open>write_standby_config_io\<close> leaves the configuration file as it was or
  replaces it by the rewritten one as a whole; it never replaces it without the standby signal being in
  place, so the server cannot come up writable with the new settings; nothing else changes but the
  signal and the temporary file. A reported success means that the signal and the new configuration are
  there and no temporary file is left.
\<close>

theorem standby_config_atomic:
  assumes "write_standby_config_io fails written conninfo d = (ok, d')"
  shows "(dd_files d' AUTO_CONF = dd_files d AUTO_CONF \<or>
      dd_files d' STANDBY_SIGNAL = Some (Readable []) \<and>
      (\<exists>existing. old_conf d = Some existing \<and> dd_files d' AUTO_CONF = Some (Readable (rewrite_auto_conf existing conninfo)))) \<and>
    (\<forall>name. name \<notin> {AUTO_CONF, AUTO_CONF_TMP, STANDBY_SIGNAL} \<longrightarrow> dd_files d' name = dd_files d name) \<and>
    (ok \<longrightarrow> dd_files d' STANDBY_SIGNAL = Some (Readable []) \<and> dd_files d' AUTO_CONF_TMP = None \<and>
      (\<exists>existing. old_conf d = Some existing \<and> dd_files d' AUTO_CONF = Some (Readable (rewrite_auto_conf existing conninfo))))"
  using assms
proof (cases rule: write_standby_config_cases)
qed (auto simp: file_names)

definition demo_data :: data_dir where
  "demo_data = \<lparr>dd_files = [AUTO_CONF \<mapsto> Readable ''port = 1''], dd_kind = (\<lambda>_. Regular), dd_wal_dir = Ok []\<rparr>"

theorem standby_config_atomic_witness:
  "let (ok, d') = write_standby_config_io (Some Conf_Rename) 0 (Some ''host=h'') demo_data
   in dd_files d' AUTO_CONF = dd_files demo_data AUTO_CONF \<or> dd_files d' STANDBY_SIGNAL = Some (Readable [])"
  using standby_config_atomic [of "Some Conf_Rename" 0 "Some ''host=h''" demo_data]
  by (auto split: prod.splits)

text \<open>
  After a base backup none of the source's own state files is left when the removal reports success,
  and nothing else in the directory changes, whatever happens.
\<close>

theorem node_state_files_removed:
  "remove_node_state_files_io fails d = (ok, d') \<Longrightarrow>
    (ok \<longrightarrow> \<not> has_rewind_check_marker d' \<and> \<not> has_rewind_hold d') \<and>
    (\<forall>name. name \<notin> {REWIND_CHECK_MARKER, REWIND_HOLD_FILE} \<longrightarrow> dd_files d' name = dd_files d name)"
  by (auto simp: remove_node_state_files_io_def has_rewind_check_marker_def has_rewind_hold_def is_file_def file_op_fields file_names
      split: if_splits)

section \<open>The recorded cause is read back\<close>

lemma str_join_hd_last:
  assumes "xs \<noteq> []" "\<forall>x \<in> set xs. x \<noteq> []"
  shows "str_join sep xs \<noteq> [] \<and> hd (str_join sep xs) = hd (hd xs) \<and> last (str_join sep xs) = last (last xs)"
  using assms by (induction sep xs rule: str_join.induct) (auto simp: hd_append)

lemma set_str_join: "set (str_join sep xs) \<subseteq> set sep \<union> \<Union> (set ` set xs)"
  by (induction sep xs rule: str_join.induct) auto

lemma trimmed_lines:
  assumes "l \<in> set (filter (\<lambda>l. l \<noteq> []) (map str_trim (str_lines t)))"
  shows "l \<noteq> []" "\<not> is_ascii_space (hd l)" "\<not> is_ascii_space (last l)" "LF \<notin> set l"
proof -
  obtain w where w: "w \<in> set (str_lines t)" "l = str_trim w" "l \<noteq> []" using assms by auto
  then show "l \<noteq> []" "\<not> is_ascii_space (hd l)" "\<not> is_ascii_space (last l)" using str_trim_edge [of w] by auto
  show "LF \<notin> set l" using w str_lines_clean(1) [OF w(1)] set_str_trim [of w] by auto
qed

lemma failure_cause_line: "str_trim (failure_cause t) = failure_cause t \<and> LF \<notin> set (failure_cause t) \<and> failure_cause t \<noteq> []"
proof -
  define lines where "lines = filter (\<lambda>l. l \<noteq> [])
    (map str_trim (str_lines (case strip_prefix_opt ''pg_rewind failed: '' t of Some t' \<Rightarrow> t' | None \<Rightarrow> t)))"
  define errors where "errors = filter (\<lambda>l. sublist ''error:'' (map ascii_lower l) \<or> sublist ''fatal:'' (map ascii_lower l)) lines"
  define chosen where "chosen = (if errors = [] then lines else errors)"
  have c: "set chosen \<subseteq> set lines" by (simp add: chosen_def errors_def)
  have f: "failure_cause t = (if chosen = [] then ''no error output'' else str_join '' | '' chosen)"
    unfolding failure_cause_def Let_def chosen_def errors_def lines_def by (rule refl)
  have l: "x \<noteq> [] \<and> \<not> is_ascii_space (hd x) \<and> \<not> is_ascii_space (last x) \<and> LF \<notin> set x" if "x \<in> set chosen" for x
    using trimmed_lines that c unfolding lines_def by blast
  show ?thesis
  proof (cases "chosen = []")
    case True
    then show ?thesis using f by (simp add: str_trim_def is_ascii_space_def LF_def)
  next
    case False
    then have j: "str_join '' | '' chosen \<noteq> []" "\<not> is_ascii_space (hd (str_join '' | '' chosen))"
      "\<not> is_ascii_space (last (str_join '' | '' chosen))"
      using str_join_hd_last [of chosen "'' | ''"] l by (auto simp: hd_in_set last_in_set)
    moreover have "LF \<notin> set (str_join '' | '' chosen)"
      using set_str_join [of "'' | ''" chosen] l by (fastforce simp: LF_def)
    ultimately show ?thesis using f False by (simp add: str_trim_id)
  qed
qed

lemma first_line: "LF \<notin> set l \<Longrightarrow> l \<noteq> [] \<Longrightarrow> last l \<noteq> CR \<Longrightarrow> \<exists>ls. str_lines (l @ LF # rest) = l # ls"
  using split_on_Nil [of "\<lambda>c. c = LF" rest]
  by (auto simp: str_lines_def split_on_append list_ex_iff Let_def strip_cr_def)

lemma not_space_CR: "\<not> is_ascii_space c \<Longrightarrow> c \<noteq> CR"
  by (auto simp: is_ascii_space_def CR_def)

lemma str_trim_last: "str_trim s = s \<Longrightarrow> s \<noteq> [] \<Longrightarrow> \<not> is_ascii_space (last s)"
  using str_trim_edge [of s] by auto

lemma read_hold_line:
  assumes "str_split_once '' failed: '' (what @ '' failed: '' @ cause) = Some (what, cause)"
    and "LF \<notin> set what" "str_trim what = what" "LF \<notin> set cause" "str_trim cause = cause" "cause \<noteq> []"
    and "dd_kind d REWIND_HOLD_FILE \<noteq> Directory"
  shows "read_rewind_hold (snd (write_rewind_hold_io None n now what cause d)) = Some (what, cause)"
proof -
  let ?l = "what @ '' failed: '' @ cause"
  have "LF \<notin> set ?l" "?l \<noteq> []" "last ?l \<noteq> CR"
    using assms not_space_CR [OF str_trim_last [OF assms(5,6)]] by (auto simp: LF_def)
  then obtain ls where "str_lines (?l @ LF # (''created: '' @ format_utc now @ [LF])) = ?l # ls"
    using first_line by blast
  then show ?thesis using assms(1,3,5,7)
    by (simp add: read_rewind_hold_def write_rewind_hold_io_def write_marker_def read_to_string_def file_op_fields)
qed

lemma split_once_what:
  "str_split_once '' failed: '' (''pg_rewind'' @ '' failed: '' @ cause) = Some (''pg_rewind'', cause)"
  "str_split_once '' failed: '' (''Starting PostgreSQL after pg_rewind'' @ '' failed: '' @ cause) =
     Some (''Starting PostgreSQL after pg_rewind'', cause)"
  by simp_all

text \<open>
  A rewind hold tells the operator the cause: for every error text of \<open>pg_rewind\<close> or of the start
  after it, of any number of lines, the operation and the one-line cause read from the hold file are
  those that were recorded (unless a directory has the name). A hold whose file was created is seen
  even when the write, the sync of the file or the sync of the directory failed, so it lasts beyond a
  restart of pg-ha; written through a symbolic link it is not seen at all.
\<close>

theorem rewind_hold_reads_back:
  "(what \<in> {''pg_rewind'', ''Starting PostgreSQL after pg_rewind''} \<and> dd_kind d REWIND_HOLD_FILE \<noteq> Directory \<longrightarrow>
      read_rewind_hold (snd (write_rewind_hold_io None n now what (failure_cause stderr) d)) = Some (what, failure_cause stderr)) \<and>
    (fails \<noteq> Some Marker_Create \<longrightarrow>
      (has_rewind_hold (snd (write_rewind_hold_io fails n now what' cause d)) \<longleftrightarrow> dd_kind d REWIND_HOLD_FILE = Regular))"
proof
  show "what \<in> {''pg_rewind'', ''Starting PostgreSQL after pg_rewind''} \<and> dd_kind d REWIND_HOLD_FILE \<noteq> Directory \<longrightarrow>
      read_rewind_hold (snd (write_rewind_hold_io None n now what (failure_cause stderr) d)) = Some (what, failure_cause stderr)"
    using failure_cause_line [of stderr]
    by (auto intro!: read_hold_line split_once_what simp: LF_def str_trim_def is_ascii_space_def)
  show "fails \<noteq> Some Marker_Create \<longrightarrow>
      (has_rewind_hold (snd (write_rewind_hold_io fails n now what' cause d)) \<longleftrightarrow> dd_kind d REWIND_HOLD_FILE = Regular)"
    by (auto simp: has_rewind_hold_def is_file_def write_rewind_hold_io_def write_marker_def file_op_fields)
qed

theorem rewind_hold_reads_back_witness:
  "read_rewind_hold (snd (write_rewind_hold_io None 0 0 ''pg_rewind'' (failure_cause ''pg_rewind: error: x'') demo_data)) =
     Some (''pg_rewind'', failure_cause ''pg_rewind: error: x'') \<and>
   has_rewind_hold (snd (write_rewind_hold_io (Some Marker_Sync) 0 0 ''a'' ''b'' demo_data))"
  using rewind_hold_reads_back [where what = "''pg_rewind''" and n = 0 and now = 0 and stderr = "''pg_rewind: error: x''"
      and d = demo_data and fails = "Some Marker_Sync" and what' = "''a''" and cause = "''b''"]
  by (simp add: demo_data_def)

end
