(* ===== verification/Files_World.thy ===== *)
theory Files_World
  imports Standby_Files Ha_Behaviour
begin

text \<open>
  The data directory behind the engine's world. The engine (theory \<open>Ha_Calls\<close>) sees the files of the data
  directory as fields of the world and each file operation as one call with an effect on them; theories
  \<open>Timeline_Files\<close> and \<open>Standby_Files\<close> carry the operations out system call by system call. The
  abstraction \<open>world_files\<close> reads the fields off the directory, with the tests of the code (a marker
  counts only as a regular file). The lemmas show that every operation that reports success has exactly
  the effect of the engine's own call when that call is answered with success, and what a failed
  operation may leave.
\<close>

section \<open>Abstraction\<close>

definition conf_text :: "data_dir \<Rightarrow> string option" where
  "conf_text d = (case read_to_string d AUTO_CONF of Inr s \<Rightarrow> Some s | Inl _ \<Rightarrow> None)"

definition world_files :: "u64 option \<Rightarrow> data_dir \<Rightarrow> world \<Rightarrow> world" where
  "world_files age d w =
    w\<lparr>w_standby_signal := path_exists d STANDBY_SIGNAL,
      w_rewind_marker := has_rewind_check_marker d,
      w_hold_file := has_rewind_hold d,
      w_accept_loss := has_accept_timeline_loss d,
      w_generation := read_generation_file d,
      w_auto_conf := conf_text d,
      w_auto_conf_age := age\<rparr>"

text \<open>The abstraction sees of a directory these entries only.\<close>

lemmas all_file_names = file_names GENERATION_FILE_def GENERATION_TMP_def ACCEPT_TIMELINE_LOSS_FILE_def

lemmas world_defs = world_files_def path_exists_def conf_text_def has_rewind_check_marker_def has_rewind_hold_def
  has_accept_timeline_loss_def is_file_def read_generation_file_def read_to_string_def

text \<open>What the engine's call does to the world \<open>W\<close> it finds, when it is answered with success.\<close>

definition answered_ok :: "world \<Rightarrow> sys \<Rightarrow> bool" where
  "answered_ok W s \<longleftrightarrow> en_unit (sy_env s) (sy_step s) = Ok () \<and> en_move (sy_env s) (sy_step s) (sy_world s) = W"

definition world_after :: "'a eng \<Rightarrow> sys \<Rightarrow> world" where
  "world_after c s = sy_world (snd (run_state c s))"

lemma call_effect:
  assumes "answered_ok W s"
  shows "world_after (unit_call ev f) s = f W" "world_after (unit_call_sync ev f) s = f W"
  using assms by (simp_all add: answered_ok_def world_after_def unit_call_def unit_call_sync_def do_call_def on_ok_def Let_def)

lemma finish_override_effect:
  assumes "answered_ok W s" "w_accept_loss (sy_world s)"
  shows "world_after finish_override s = accept_loss_removed W"
  using call_effect(2) [OF assms(1), of Ev_Remove_Accept_Loss accept_loss_removed] assms(2)
  by (simp add: finish_override_def world_after_def gets_world_def ret_def State_Monad.bind_def State_Monad.return_def split_beta)

section \<open>Operations\<close>

lemma old_conf_text: "old_conf d = Some e \<Longrightarrow> e = unwrap_or (conf_text d) []"
  by (auto simp: old_conf_def conf_text_def unwrap_or_def split: sum.splits read_error.splits)

lemma standby_config_result:
  assumes "write_standby_config_io fails written conninfo d = (ok, d')"
  shows "ok \<Longrightarrow> world_files (Some 0) d' w = standby_config_written conninfo (world_files age d w)"
    and "world_files age d' w \<in> {world_files age d w, standby_signal_written (world_files age d w),
      (standby_config_written conninfo (world_files age d w))\<lparr>w_auto_conf_age := age\<rparr>}"
proof -
  have signalled: "world_files age d' w = standby_signal_written (world_files age d w)"
    if "dd_kind d STANDBY_SIGNAL \<noteq> Directory"
      "dd_files d' = (dd_files d)(STANDBY_SIGNAL := Some (Readable []), AUTO_CONF_TMP := e)"
      "dd_kind d' = (dd_kind d)(AUTO_CONF_TMP := k)" for e k
    using that(2,3) by (simp add: standby_signal_written_def world_defs all_file_names)
  have written: "world_files age' d' w = (standby_config_written conninfo (world_files age d w))\<lparr>w_auto_conf_age := age'\<rparr>"
    if "old_conf d = Some existing" "k \<noteq> Directory"
      "dd_files d' = (dd_files d)(STANDBY_SIGNAL := Some (Readable []), AUTO_CONF_TMP := None,
         AUTO_CONF := Some (Readable (rewrite_auto_conf existing conninfo)))"
      "dd_kind d' = (dd_kind d)(AUTO_CONF := k, AUTO_CONF_TMP := Regular)" for existing k age'
    using that(2-4) old_conf_text [OF that(1)]
    by (simp add: standby_config_written_def world_defs all_file_names)
  show "ok \<Longrightarrow> world_files (Some 0) d' w = standby_config_written conninfo (world_files age d w)"
    using assms
    by (cases rule: write_standby_config_cases) (auto dest: written simp: standby_config_written_def)
  show "world_files age d' w \<in> {world_files age d w, standby_signal_written (world_files age d w),
      (standby_config_written conninfo (world_files age d w))\<lparr>w_auto_conf_age := age\<rparr>}"
    using assms
    by (cases rule: write_standby_config_cases) (auto dest: written signalled)
qed

lemma marker_result:
  assumes "write_marker fails n name content d = (True, d')"
  shows "d' = set_file name (Some (Readable content)) d" "dd_kind d name = Regular \<or> dd_kind d name = Symlink"
  using assms by (cases "dd_kind d name"; auto simp: write_marker_def split: if_splits)+

lemma world_files_marker:
  "dd_kind d REWIND_CHECK_MARKER = Regular \<Longrightarrow>
    world_files age (set_file REWIND_CHECK_MARKER (Some (Readable e)) d) w = rewind_marker_written (world_files age d w)"
  "dd_kind d REWIND_CHECK_MARKER = Symlink \<Longrightarrow>
    world_files age (set_file REWIND_CHECK_MARKER (Some (Readable e)) d) w = world_files age d w"
  by (simp_all add: rewind_marker_written_def world_defs file_op_fields all_file_names)

lemma world_files_hold:
  "dd_kind d REWIND_HOLD_FILE = Regular \<Longrightarrow>
    world_files age (set_file REWIND_HOLD_FILE (Some (Readable e)) d) w = rewind_hold_written (world_files age d w)"
  "dd_kind d REWIND_HOLD_FILE = Symlink \<Longrightarrow>
    world_files age (set_file REWIND_HOLD_FILE (Some (Readable e)) d) w = world_files age d w"
  by (simp_all add: rewind_hold_written_def world_defs file_op_fields all_file_names)

lemma removed_result:
  assumes "remove_node_state_files_io fails d = (True, d')"
  shows "world_files age d' w = state_files_removed (world_files age d w)"
proof -
  have "d' = unlink_file REWIND_HOLD_FILE (unlink_file REWIND_CHECK_MARKER d)"
    "dd_kind d REWIND_CHECK_MARKER \<noteq> Directory" "dd_kind d REWIND_HOLD_FILE \<noteq> Directory"
    using assms by (auto simp: remove_node_state_files_io_def entry_there_def file_op_fields all_file_names split: if_splits)
  then show ?thesis by (simp add: state_files_removed_def world_defs file_op_fields all_file_names)
qed

lemma generation_result:
  assumes "write_generation_file fails n g d = (True, d')"
  shows "world_files age d' w = generation_written g (world_files age d w)"
proof -
  let ?t = "dec_of_nat (unat g) @ [LF]"
  have f: "dd_files d' = (dd_files d)(GENERATION_FILE := Some (Readable ?t), GENERATION_TMP := None)"
    and k: "dd_kind d' = (dd_kind d)(GENERATION_FILE := dd_kind d GENERATION_TMP, GENERATION_TMP := Regular)"
    and n: "dd_kind d GENERATION_TMP \<noteq> Directory"
    using assms
    by (auto simp: write_generation_file_def write_generation_steps_def file_op_fields Let_def fun_upd_twist split: if_splits)
  have "read_generation_file d' = Ok g"
    using n by (simp add: read_generation_file_def read_to_string_def f k str_trim_dec_LF dec_u64.parse_print)
  then show ?thesis
    using f k by (simp add: generation_written_def world_files_def path_exists_def conf_text_def has_rewind_check_marker_def
        has_rewind_hold_def has_accept_timeline_loss_def is_file_def read_to_string_def all_file_names)
qed

lemma override_result:
  assumes "remove_accept_timeline_loss fails d = (Ok (), d')"
  shows "world_files age d' w = accept_loss_removed (world_files age d w)"
proof (cases "entry_there d ACCEPT_TIMELINE_LOSS_FILE")
  case False
  then have "d' = d" "\<not> has_accept_timeline_loss d"
    using assms by (auto simp: remove_accept_timeline_loss_def has_accept_timeline_loss_def is_file_def entry_there_def)
  then show ?thesis by (simp add: accept_loss_removed_def world_files_def)
next
  case True
  then have "d' = unlink_file ACCEPT_TIMELINE_LOSS_FILE d" "dd_kind d ACCEPT_TIMELINE_LOSS_FILE \<noteq> Directory"
    using assms by (auto simp: remove_accept_timeline_loss_def split: option.splits if_splits)
  then show ?thesis by (simp add: accept_loss_removed_def world_defs file_op_fields all_file_names)
qed

text \<open>
  C20. The file operations carried out by system calls refine the calls of the engine: when the engine's
  call finds the world the directory shows and is answered with success, then after a successful write of
  the standby configuration, of the rewind-check marker, of the rewind hold, of the generation, and after
  a successful removal of the state files or of the operator's override, the directory shows the world
  the engine's call leaves. For the two marker files this asks that no symbolic link has the name: through
  a link the write succeeds and the directory shows no marker. A failed write of the standby configuration
  leaves the world as it was, with the standby signal added, or completely written.
\<close>

theorem file_operations_refine_world:
  assumes "answered_ok (world_files age d w) s"
  shows "(write_standby_config_io fails n conninfo d = (True, d') \<longrightarrow>
       world_files (Some 0) d' w = world_after (write_standby_files conninfo) s) \<and>
    (write_standby_config_io fails n conninfo d = (False, d') \<longrightarrow>
       world_files age d' w \<in> {world_files age d w, world_after write_standby_signal s,
         (world_after (write_standby_files conninfo) s)\<lparr>w_auto_conf_age := age\<rparr>}) \<and>
    (create_rewind_check_marker_io mfails n now reason d = (True, d') \<longrightarrow>
       world_files age d' w = (if dd_kind d REWIND_CHECK_MARKER = Regular
         then world_after (create_rewind_check_marker reason) s else world_files age d w)) \<and>
    (write_rewind_hold_io mfails n now what cause d = (True, d') \<longrightarrow>
       world_files age d' w = (if dd_kind d REWIND_HOLD_FILE = Regular
         then world_after write_rewind_hold s else world_files age d w)) \<and>
    (remove_node_state_files_io rfails d = (True, d') \<longrightarrow> world_files age d' w = world_after remove_node_state_files s) \<and>
    (write_generation_file gfails n g d = (True, d') \<longrightarrow> world_files age d' w = world_after (write_generation g) s) \<and>
    (remove_accept_timeline_loss ofails d = (Ok (), d') \<and> w_accept_loss (sy_world s) \<longrightarrow>
       world_files age d' w = world_after finish_override s)"
proof -
  note calls = call_effect [OF assms]
  have effects: "world_after (write_standby_files conninfo) s = standby_config_written conninfo (world_files age d w)"
    "world_after write_standby_signal s = standby_signal_written (world_files age d w)"
    "world_after (create_rewind_check_marker reason) s = rewind_marker_written (world_files age d w)"
    "world_after write_rewind_hold s = rewind_hold_written (world_files age d w)"
    "world_after remove_node_state_files s = state_files_removed (world_files age d w)"
    "world_after (write_generation g) s = generation_written g (world_files age d w)"
    by (simp_all add: write_standby_files_def write_standby_signal_def create_rewind_check_marker_def write_rewind_hold_def
        remove_node_state_files_def write_generation_def calls)
  have marker: "world_files age d' w = (if dd_kind d REWIND_CHECK_MARKER = Regular
        then rewind_marker_written (world_files age d w) else world_files age d w)"
    if "create_rewind_check_marker_io mfails n now reason d = (True, d')"
    using that [unfolded create_rewind_check_marker_io_def, THEN marker_result(1)]
      that [unfolded create_rewind_check_marker_io_def, THEN marker_result(2)]
    by (auto simp: world_files_marker)
  have hold: "world_files age d' w = (if dd_kind d REWIND_HOLD_FILE = Regular
        then rewind_hold_written (world_files age d w) else world_files age d w)"
    if "write_rewind_hold_io mfails n now what cause d = (True, d')"
    using that [unfolded write_rewind_hold_io_def, THEN marker_result(1)]
      that [unfolded write_rewind_hold_io_def, THEN marker_result(2)]
    by (auto simp: world_files_hold)
  show ?thesis
    unfolding effects
    using standby_config_result(1) [of fails n conninfo d True d' w age] standby_config_result(2) [of fails n conninfo d False d' age w]
      marker hold removed_result [of rfails d d' age w] generation_result [of gfails n g d d' age w]
      override_result [of ofails d d' age w] finish_override_effect [OF assms] by simp
qed

theorem file_operations_refine_world_witness:
  "let s = node\<lparr>sy_world := world_files None demo_data (node_world False)\<rparr> in
    world_files None (snd (write_rewind_hold_io None 0 0 ''a'' ''b'' demo_data)) (node_world False) = world_after write_rewind_hold s"
proof -
  let ?s = "node\<lparr>sy_world := world_files None demo_data (node_world False)\<rparr>"
  let ?d = "snd (write_rewind_hold_io None 0 0 ''a'' ''b'' demo_data)"
  have a: "answered_ok (world_files None demo_data (node_world False)) ?s"
    by (simp add: answered_ok_def node_def failing_env_def)
  have w: "write_rewind_hold_io None 0 0 ''a'' ''b'' demo_data = (True, ?d)"
    by (simp add: write_rewind_hold_io_def write_marker_def demo_data_def)
  have k: "dd_kind demo_data REWIND_HOLD_FILE = Regular" by (simp add: demo_data_def)
  have "world_files None ?d (node_world False) = (if dd_kind demo_data REWIND_HOLD_FILE = Regular
      then world_after write_rewind_hold ?s else world_files None demo_data (node_world False))"
    by (rule file_operations_refine_world [OF a, THEN conjunct2, THEN conjunct2, THEN conjunct2, THEN conjunct1, rule_format, OF w])
  then show ?thesis using k by (simp add: Let_def)
qed

end
