(* ===== verification/Bootstrap_Config.thy ===== *)
theory Bootstrap_Config
  imports Standby_Files
begin

text \<open>
  What bootstrap hands to PostgreSQL (\<open>crates/pg-ha-core/src/bootstrap.rs\<close>, \<open>initdb\<close> of
  \<open>postgresql.rs\<close>): the options of \<open>initdb\<close>, the custom command, the SQL statements run afterwards and
  the files \<open>postgresql.conf\<close> and \<open>pg_hba.conf\<close>. The order of the configured parameters is that of a hash
  map's iteration, so parameters are a list in any order; programs and connections are arguments.

  The lemmas show that writing the configuration twice gives the same file, that the settings in front
  of the managed block are kept, and which parameter values are written faithfully.
\<close>

section \<open>Options and commands\<close>

datatype initdb_option = InitdbKeyValue "(string \<times> string) list" | InitdbFlag string

definition parse_initdb_options :: "initdb_option list \<Rightarrow> string list" where
  "parse_initdb_options options =
    concat (map (\<lambda>opt. case opt of
       InitdbFlag f \<Rightarrow> [f]
     | InitdbKeyValue kv \<Rightarrow> map (\<lambda>(k, v). k @ ''='' @ v) kv) options)"

definition initdb_args :: "string \<Rightarrow> string list \<Rightarrow> string list" where
  "initdb_args data_dir options = [''-D'', data_dir] @ map (\<lambda>opt. ''--'' @ opt) options"

text \<open>A finished program: it could not be run, it succeeded, or it failed with a text.\<close>

datatype program_result = Not_Started string | Exit_Success | Exit_Failure string

definition run_initdb :: "(string list \<Rightarrow> program_result) \<Rightarrow> string \<Rightarrow> initdb_option list \<Rightarrow> (string, unit) res" where
  "run_initdb initdb data_dir options =
    (case initdb (initdb_args data_dir (parse_initdb_options options)) of
       Not_Started e \<Rightarrow> Err e
     | Exit_Success \<Rightarrow> Ok ()
     | Exit_Failure stderr \<Rightarrow> Err (''initdb failed: '' @ stderr))"

definition run_custom_bootstrap :: "program_result \<Rightarrow> bool \<Rightarrow> bool \<Rightarrow> (string, unit) res" where
  "run_custom_bootstrap result dir_exists dir_empty =
    (case result of
       Not_Started e \<Rightarrow> Err e
     | Exit_Success \<Rightarrow>
         (if \<not> dir_exists \<or> dir_empty then Err ''Custom bootstrap command succeeded but data directory is empty'' else Ok ())
     | Exit_Failure stderr \<Rightarrow> Err (''Custom bootstrap command failed: '' @ stderr))"

text \<open>The statements are run in order until one fails; the ones executed are returned too.\<close>

fun run_statements :: "(string \<Rightarrow> (string, unit) res) \<Rightarrow> string list \<Rightarrow> (string, unit) res \<times> string list" where
  "run_statements exec [] = (Ok (), [])"
| "run_statements exec (sql # rest) =
     (case exec sql of
        Inl e \<Rightarrow> (Err (''Post-bootstrap SQL failed on '' @ [SQUOTE] @ sql @ [SQUOTE] @ '': '' @ e), [sql])
      | Inr _ \<Rightarrow> (case run_statements exec rest of (r, done_) \<Rightarrow> (r, sql # done_)))"

definition run_post_bootstrap_sql ::
  "(string, unit) res \<Rightarrow> (string \<Rightarrow> (string, unit) res) \<Rightarrow> string list \<Rightarrow> (string, unit) res \<times> string list" where
  "run_post_bootstrap_sql connected exec statements =
    (case connected of
       Inl e \<Rightarrow> (Err (''Post-bootstrap SQL connect failed: '' @ e), [])
     | Inr _ \<Rightarrow> run_statements exec statements)"

section \<open>Numbers as the standard library reads them\<close>

text \<open>Which texts \<open>str::parse::<f64>\<close> accepts: an optional sign, then infinity, not-a-number or a decimal.\<close>

definition strip_sign :: "string \<Rightarrow> string" where
  "strip_sign s = (case s of [] \<Rightarrow> [] | c # cs \<Rightarrow> (if c = CHR ''+'' \<or> c = CHR ''-'' then cs else s))"

definition all_digits :: "string \<Rightarrow> bool" where
  "all_digits s \<longleftrightarrow> list_all is_digit s"

definition exponent_ok :: "string \<Rightarrow> bool" where
  "exponent_ok s \<longleftrightarrow>
    (case s of [] \<Rightarrow> True
     | c # cs \<Rightarrow> (c = CHR ''e'' \<or> c = CHR ''E'') \<and> strip_sign cs \<noteq> [] \<and> all_digits (strip_sign cs))"

definition number_ok :: "string \<Rightarrow> bool" where
  "number_ok s =
    (let whole = takeWhile is_digit s; rest = dropWhile is_digit s
     in case rest of
          [] \<Rightarrow> whole \<noteq> []
        | c # cs \<Rightarrow>
            (if c = CHR ''.'' then
               let frac = takeWhile is_digit cs
               in (whole \<noteq> [] \<or> frac \<noteq> []) \<and> exponent_ok (dropWhile is_digit cs)
             else whole \<noteq> [] \<and> exponent_ok rest))"

definition parses_as_f64 :: "string \<Rightarrow> bool" where
  "parses_as_f64 s =
    (let body = strip_sign s
     in map ascii_lower body \<in> {''inf'', ''infinity'', ''nan''} \<or> number_ok body)"

section \<open>The configuration files\<close>

definition MANAGED_SETTINGS :: string where "MANAGED_SETTINGS = ''# pg-ha managed settings''"

definition builtin_keys :: "string list" where
  "builtin_keys =
    [''listen_addresses'', ''port'', ''wal_level'', ''max_wal_senders'', ''max_replication_slots'', ''hot_standby'']"

definition trim_matches :: "char \<Rightarrow> string \<Rightarrow> string" where
  "trim_matches c s = rev (dropWhile (\<lambda>x. x = c) (rev (dropWhile (\<lambda>x. x = c) s)))"

definition clean_value :: "string \<Rightarrow> string" where
  "clean_value val = trim_matches (CHR 0x22) (trim_matches SQUOTE val)"

definition needs_quoting :: "string \<Rightarrow> bool" where
  "needs_quoting v \<longleftrightarrow> \<not> parses_as_f64 v \<and> v \<notin> {''on'', ''off'', ''true'', ''false'', ''yes'', ''no''}"

definition parameter_value :: "string \<Rightarrow> string" where
  "parameter_value val =
    (let v = clean_value val in if needs_quoting v then [SQUOTE] @ v @ [SQUOTE] else v)"

definition parameter_line :: "string \<times> string \<Rightarrow> string" where
  "parameter_line kv = fst kv @ '' = '' @ parameter_value (snd kv) @ [LF]"

definition managed_block :: "string \<Rightarrow> nat \<Rightarrow> (string \<times> string) list \<Rightarrow> string" where
  "managed_block listen port parameters =
    MANAGED_SETTINGS @ [LF] @
    ''listen_addresses = '' @ [SQUOTE] @ listen @ [SQUOTE] @ [LF] @
    ''port = '' @ dec_of_nat port @ [LF] @
    ''wal_level = replica'' @ [LF] @ ''max_wal_senders = 10'' @ [LF] @
    ''max_replication_slots = 10'' @ [LF] @ ''hot_standby = on'' @ [LF] @
    concat (map parameter_line (filter (\<lambda>kv. fst kv \<notin> set builtin_keys) parameters))"

definition trim_end :: "string \<Rightarrow> string" where
  "trim_end s = rev (dropWhile is_ascii_space (rev s))"

definition before_managed :: "string \<Rightarrow> string" where
  "before_managed existing = (case str_split_once MANAGED_SETTINGS existing of Some (a, _) \<Rightarrow> a | None \<Rightarrow> existing)"

definition pg_conf_content :: "string \<Rightarrow> nat \<Rightarrow> (string \<times> string) list \<Rightarrow> string \<Rightarrow> string" where
  "pg_conf_content listen port parameters existing =
    trim_end (before_managed existing) @ [LF] @ managed_block listen port parameters"

definition hba_content :: "string \<Rightarrow> string" where
  "hba_content repl_user =
    ''# pg-ha managed'' @ [LF] @
    ''local   all             all                                     trust'' @ [LF] @
    ''host    all             all             0.0.0.0/0               trust'' @ [LF] @
    ''host    all             all             ::/0                    trust'' @ [LF] @
    ''local   replication     all                                     trust'' @ [LF] @
    ''host    replication     '' @ repl_user @ ''     0.0.0.0/0               trust'' @ [LF] @
    ''host    replication     '' @ repl_user @ ''     ::/0                    trust'' @ [LF]"

text \<open>\<open>fs::write\<close> truncates and writes: it may fail before it or leave a part. Both failures are only logged.\<close>

datatype write_fault = No_Fault | Fault_Open | Fault_After nat

definition fs_write :: "write_fault \<Rightarrow> string \<Rightarrow> string \<Rightarrow> data_dir \<Rightarrow> data_dir" where
  "fs_write fault name content d =
    (if dd_kind d name = Directory then d
     else case fault of
       No_Fault \<Rightarrow> set_file name (Some (Readable content)) d
     | Fault_Open \<Rightarrow> d
     | Fault_After n \<Rightarrow> set_file name (Some (Readable (take n content))) d)"

definition write_pg_config ::
  "write_fault \<Rightarrow> write_fault \<Rightarrow> string \<Rightarrow> nat \<Rightarrow> (string \<times> string) list \<Rightarrow> string \<Rightarrow> data_dir \<Rightarrow> data_dir" where
  "write_pg_config conf_fault hba_fault listen port parameters repl_user d =
    (let existing = (case read_to_string d ''postgresql.conf'' of Inr s \<Rightarrow> s | Inl _ \<Rightarrow> [])
     in fs_write hba_fault ''pg_hba.conf'' (hba_content repl_user)
          (fs_write conf_fault ''postgresql.conf'' (pg_conf_content listen port parameters existing) d))"

section \<open>Finding the managed block\<close>

lemma split_once_prefix_None:
  assumes "str_split_once pat s = None" "prefix t s" "pat \<noteq> []"
  shows "str_split_once pat t = None"
  using assms(1,2)
proof (induction s arbitrary: t)
  case (Cons c s)
  then show ?case
  proof (cases t)
    case (Cons d t')
    then have "d = c" "prefix t' s" using Cons.prems(2) by auto
    moreover have "\<not> prefix pat (c # t')"
      using Cons.prems calculation by (metis Cons_prefix_Cons option.distinct(1) prefix_order.trans str_split_once.simps(2))
    ultimately show ?thesis using Cons.IH Cons.prems(1) Cons by (auto split: if_splits)
  qed (use assms(3) in simp)
qed (use assms(3) in auto)

lemma split_once_before:
  assumes "str_split_once pat s = Some (a, b)" "pat \<noteq> []"
  shows "s = a @ pat @ b \<and> str_split_once pat a = None"
  using assms(1)
proof (induction s arbitrary: a)
  case (Cons c s)
  show ?case
  proof (cases "prefix pat (c # s)")
    case True
    then show ?thesis using Cons.prems assms(2) by (auto elim!: prefixE)
  next
    case False
    then obtain a' where a: "a = c # a'" "str_split_once pat s = Some (a', b)" using Cons.prems by auto
    then have "s = a' @ pat @ b" "str_split_once pat a' = None" using Cons.IH by auto
    moreover have "\<not> prefix pat (c # a')"
      using False calculation(1) by (metis append_Cons prefixI prefix_order.trans)
    ultimately show ?thesis using a by simp
  qed
qed (use assms(2) in simp)

lemma split_once_at_line:
  assumes "str_split_once pat x = None" "LF \<notin> set pat" "pat \<noteq> []"
  shows "str_split_once pat (x @ LF # pat @ r) = Some (x @ [LF], r)"
  using assms(1)
proof (induction x)
  case Nil
  have "\<not> prefix pat (LF # pat @ r)" using assms(2,3) by (cases pat) auto
  moreover have "str_split_once pat (pat @ r) = Some ([], r)" using assms(3) by (cases pat) auto
  ultimately show ?case by simp
next
  case (Cons c x)
  have "\<not> prefix pat (c # x @ LF # pat @ r)"
  proof
    assume "prefix pat (c # x @ LF # pat @ r)"
    then have "prefix pat ((c # x) @ LF # pat @ r)" by simp
    then have "prefix pat (c # x)" using assms(2) by (fastforce simp: prefix_append prefix_Cons)
    then show False using Cons.prems by simp
  qed
  then show ?case using Cons by (auto split: if_splits)
qed

lemma trim_end_prefix: "prefix (trim_end s) s"
  unfolding trim_end_def by (metis rev_rev_ident suffix_dropWhile suffix_to_prefix)

lemma trim_end_line: "trim_end (trim_end s @ [LF]) = trim_end s"
proof -
  have "dropWhile is_ascii_space (rev (trim_end s)) = rev (trim_end s)"
    by (simp add: trim_end_def dropWhile_idem)
  then show ?thesis by (simp add: trim_end_def LF_def is_ascii_space_def)
qed

lemma managed_settings_line: "LF \<notin> set MANAGED_SETTINGS" "MANAGED_SETTINGS \<noteq> []"
  by (simp_all add: MANAGED_SETTINGS_def LF_def)

lemma before_managed_clean: "str_split_once MANAGED_SETTINGS (before_managed e) = None"
proof (cases "str_split_once MANAGED_SETTINGS e")
  case (Some ab)
  then show ?thesis
    using split_once_before [of MANAGED_SETTINGS e "fst ab" "snd ab"] managed_settings_line
    by (auto simp: before_managed_def split: prod.splits)
qed (simp add: before_managed_def)

lemma before_managed_written:
  "before_managed (trim_end (before_managed e) @ [LF] @ managed_block listen port ps) = trim_end (before_managed e) @ [LF]"
proof -
  have "str_split_once MANAGED_SETTINGS (trim_end (before_managed e)) = None"
    by (rule split_once_prefix_None [OF before_managed_clean trim_end_prefix managed_settings_line(2)])
  then have "\<exists>r. str_split_once MANAGED_SETTINGS (trim_end (before_managed e) @ LF # managed_block listen port ps) =
      Some (trim_end (before_managed e) @ [LF], r)"
    unfolding managed_block_def using split_once_at_line managed_settings_line by blast
  then show ?thesis by (auto simp: before_managed_def [of "_ @ _"])
qed

text \<open>
  Writing \<open>postgresql.conf\<close> replaces the managed block and nothing else: the outcome does not depend
  on how often and with which other settings the file was written before, repeating a write gives the
  same file, and a file without a managed block is kept as a whole in front of the new one.
\<close>

theorem pg_conf_rewrite_is_stable:
  "pg_conf_content listen port ps (pg_conf_content listen' port' ps' existing) = pg_conf_content listen port ps existing \<and>
   (\<not> sublist MANAGED_SETTINGS existing \<longrightarrow> before_managed existing = existing)"
proof (intro conjI impI)
  show "pg_conf_content listen port ps (pg_conf_content listen' port' ps' existing) = pg_conf_content listen port ps existing"
    using before_managed_written [of existing listen' port' ps'] trim_end_line [of "before_managed existing"]
    by (simp add: pg_conf_content_def)
next
  assume n: "\<not> sublist MANAGED_SETTINGS existing"
  have "str_split_once MANAGED_SETTINGS existing = None"
  proof (cases "str_split_once MANAGED_SETTINGS existing")
    case (Some ab)
    then have "existing = fst ab @ MANAGED_SETTINGS @ snd ab"
      using split_once_before [of MANAGED_SETTINGS existing "fst ab" "snd ab"] managed_settings_line by simp
    then show ?thesis using n by (metis sublist_appendI)
  qed simp
  then show "before_managed existing = existing" by (simp add: before_managed_def)
qed

theorem pg_conf_rewrite_is_stable_witness:
  "before_managed ''work_mem = 4MB'' = ''work_mem = 4MB'' \<and>
   pg_conf_content ''*'' 5432 [] (pg_conf_content ''h'' 1 [] ''work_mem = 4MB'') = pg_conf_content ''*'' 5432 [] ''work_mem = 4MB''"
proof -
  have "\<not> sublist MANAGED_SETTINGS ''work_mem = 4MB''" by (auto simp: MANAGED_SETTINGS_def dest: set_mono_sublist)
  then show ?thesis using pg_conf_rewrite_is_stable [of "''*''" 5432 "[]" "''h''" 1 "[]" "''work_mem = 4MB''"] by simp
qed

section \<open>Parameter values\<close>

lemma trim_matches_id: "c \<notin> set s \<Longrightarrow> trim_matches c s = s"
proof -
  assume "c \<notin> set s"
  then have "dropWhile (\<lambda>x. x = c) s = s" "dropWhile (\<lambda>x. x = c) (rev s) = rev s"
    by (auto simp: dropWhile_eq_self_iff hd_rev)
  then show ?thesis by (simp add: trim_matches_def)
qed

lemma conf_unescape_plain: "SQUOTE \<notin> set v \<Longrightarrow> BACKSLASH \<notin> set v \<Longrightarrow> conf_unescape (v @ [SQUOTE]) = Some v"
proof (induction v)
  case (Cons c v)
  then obtain d ds where "v @ [SQUOTE] = d # ds" by (cases "v @ [SQUOTE]") auto
  then show ?case using Cons by auto
qed simp

text \<open>
  A parameter without quotes and backslashes is read back by PostgreSQL as configured: it is written
  bare when it is a number or a boolean, and otherwise as a literal for that very text.
\<close>

theorem plain_parameter_is_read_back:
  assumes "SQUOTE \<notin> set v" "BACKSLASH \<notin> set v" "CHR 0x22 \<notin> set v"
  shows "(needs_quoting v \<longrightarrow> (\<exists>body. parameter_value v = SQUOTE # body \<and> conf_unescape body = Some v)) \<and>
    (\<not> needs_quoting v \<longrightarrow> parameter_value v = v)"
  using assms trim_matches_id [of SQUOTE v] trim_matches_id [of "CHR 0x22" v] conf_unescape_plain [of v]
  by (simp add: parameter_value_def clean_value_def Let_def)

text \<open>
  A parameter value with a quote in it is not written as configured: a quote at its end is dropped
  and one inside is written as it is, where the configuration file needs it doubled. The value of an
  \<open>archive_command\<close> that quotes its target becomes a literal PostgreSQL cannot read.
\<close>

theorem quoted_parameter_is_mangled:
  "parameter_line (''archive_command'', ''cp %p '' @ [SQUOTE] @ ''/a/%f'' @ [SQUOTE]) =
     ''archive_command = '' @ [SQUOTE] @ ''cp %p '' @ [SQUOTE] @ ''/a/%f'' @ [SQUOTE] @ [LF] \<and>
   conf_unescape (''cp %p '' @ [SQUOTE] @ ''/a/%f'' @ [SQUOTE]) = None"
  by (simp add: parameter_line_def parameter_value_def clean_value_def trim_matches_def needs_quoting_def parses_as_f64_def
      strip_sign_def number_ok_def is_digit_def SQUOTE_def BACKSLASH_def ascii_lower_def Let_def)

text \<open>Every client may connect without a password from any address, whatever passwords are configured.\<close>

theorem hba_trusts_every_address:
  "sublist (''host    all             all             0.0.0.0/0               trust'' @ [LF]) (hba_content repl_user)"
proof -
  have "hba_content repl_user =
      (''# pg-ha managed'' @ [LF] @ ''local   all             all                                     trust'' @ [LF]) @
      (''host    all             all             0.0.0.0/0               trust'' @ [LF]) @
      drop (length (''# pg-ha managed'' @ [LF] @ ''local   all             all                                     trust'' @ [LF]) +
        length (''host    all             all             0.0.0.0/0               trust'' @ [LF])) (hba_content repl_user)"
    by (simp add: hba_content_def)
  then show ?thesis by (metis sublist_appendI)
qed

text \<open>The SQL statements run are the first ones, in order, up to and including the first that fails.\<close>

theorem post_bootstrap_sql_stops_at_failure:
  "prefix (snd (run_statements exec stmts)) stmts \<and>
   (is_ok (fst (run_statements exec stmts)) \<longleftrightarrow> list_all (\<lambda>q. is_ok (exec q)) stmts) \<and>
   (is_ok (fst (run_statements exec stmts)) \<longrightarrow> snd (run_statements exec stmts) = stmts)"
  by (induction stmts) (auto split: sum.splits prod.splits)

end
