(* ===== verification/Pg_Commands.thy ===== *)
theory Pg_Commands
  imports Pg_Probe
begin

text \<open>
  The programs pg-ha runs: \<open>pg_ctl\<close>, \<open>pg_basebackup\<close>, \<open>pg_rewind\<close>, \<open>psql\<close> and \<open>pg_controldata\<close>
  (\<open>crates/pg-ha-core/src/postgresql.rs\<close>), the callback scripts (\<open>callbacks.rs\<close>) and the connection string of
  a cascading replica (\<open>cascading.rs\<close>). A command is its program, its arguments and what it adds to the
  environment; the outcome of running it is an argument.

  The lemmas show that no command line depends on the superuser's password and that a callback runs with
  the environment of its event.
\<close>

section \<open>Commands\<close>

record spawn =
  sp_program :: string
  sp_args :: "string list"
  sp_env :: "(string \<times> string) list"

record pg_home =
  ph_bin_dir :: string
  ph_data_dir :: string
  ph_superuser_password :: "string option"

definition path_join :: "string \<Rightarrow> string \<Rightarrow> string" where
  "path_join base name = (if base = [] \<or> last base = CHR ''/'' then base @ name else base @ ''/'' @ name)"

definition bin :: "pg_home \<Rightarrow> string \<Rightarrow> string" where
  "bin h name = path_join (ph_bin_dir h) name"

definition superuser_env :: "pg_home \<Rightarrow> (string \<times> string) list" where
  "superuser_env h = (case ph_superuser_password h of Some pw \<Rightarrow> [(''PGPASSWORD'', pw)] | None \<Rightarrow> [])"

definition pg_ctl_start :: "pg_home \<Rightarrow> spawn" where
  "pg_ctl_start h =
    \<lparr>sp_program = bin h ''pg_ctl'',
     sp_args = [''start'', ''-D'', ph_data_dir h, ''-l'', path_join (ph_data_dir h) ''pg_log.log'', ''-w''], sp_env = []\<rparr>"

definition pg_ctl_stop :: "pg_home \<Rightarrow> string \<Rightarrow> spawn" where
  "pg_ctl_stop h mode =
    \<lparr>sp_program = bin h ''pg_ctl'', sp_args = [''stop'', ''-D'', ph_data_dir h, ''-m'', mode, ''-w''], sp_env = []\<rparr>"

definition pg_ctl_promote :: "pg_home \<Rightarrow> spawn" where
  "pg_ctl_promote h = \<lparr>sp_program = bin h ''pg_ctl'', sp_args = [''promote'', ''-D'', ph_data_dir h, ''-w''], sp_env = []\<rparr>"

definition pg_ctl_reload :: "pg_home \<Rightarrow> spawn" where
  "pg_ctl_reload h = \<lparr>sp_program = bin h ''pg_ctl'', sp_args = [''reload'', ''-D'', ph_data_dir h], sp_env = []\<rparr>"

definition basebackup_command :: "pg_home \<Rightarrow> string \<Rightarrow> spawn" where
  "basebackup_command h source_connstr =
    \<lparr>sp_program = bin h ''pg_basebackup'',
     sp_args = [''-D'', ph_data_dir h, ''-d'', source_connstr, ''--checkpoint=fast'', ''--wal-method=stream'', ''--no-password''],
     sp_env = superuser_env h\<rparr>"

definition rewind_command :: "pg_home \<Rightarrow> string \<Rightarrow> spawn" where
  "rewind_command h source_connstr =
    \<lparr>sp_program = bin h ''pg_rewind'',
     sp_args = [''--target-pgdata'', ph_data_dir h, ''--source-server'', source_connstr, ''--progress''],
     sp_env = superuser_env h\<rparr>"

definition probe_command :: "pg_home \<Rightarrow> string \<Rightarrow> spawn" where
  "probe_command h conn_url =
    \<lparr>sp_program = bin h ''psql'',
     sp_args = [''-X'', ''-tAq'', ''-w'', ''-d'', conn_url, ''-c'', ''SELECT pg_is_in_recovery()''],
     sp_env = (''PGCONNECT_TIMEOUT'', ''5'') # superuser_env h\<rparr>"

text \<open>How running ends: the program could not be run, it succeeded, or it failed with its error output.\<close>

datatype run_result = Run_Error string | Run_Success | Run_Failure string

definition command_result :: "string \<Rightarrow> run_result \<Rightarrow> (string, unit) res" where
  "command_result what r =
    (case r of Run_Error e \<Rightarrow> Err e | Run_Success \<Rightarrow> Ok () | Run_Failure stderr \<Rightarrow> Err (what @ '' failed: '' @ stderr))"

definition pg_reload :: "(spawn \<Rightarrow> run_result) \<Rightarrow> pg_home \<Rightarrow> (string, unit) res" where
  "pg_reload run h = command_result ''pg_ctl reload'' (run (pg_ctl_reload h))"

definition pg_basebackup :: "(spawn \<Rightarrow> run_result) \<Rightarrow> pg_home \<Rightarrow> string \<Rightarrow> (string, unit) res" where
  "pg_basebackup run h source_connstr = command_result ''pg_basebackup'' (run (basebackup_command h source_connstr))"

definition pg_rewind :: "(spawn \<Rightarrow> run_result) \<Rightarrow> pg_home \<Rightarrow> string \<Rightarrow> (string, unit) res" where
  "pg_rewind run h source_connstr = command_result ''pg_rewind'' (run (rewind_command h source_connstr))"

text \<open>The live probe: \<open>None\<close> of the outer option is the time limit.\<close>

definition source_answers_as_primary :: "(spawn \<Rightarrow> ((bool \<times> string) option) option) \<Rightarrow> pg_home \<Rightarrow> string \<Rightarrow> bool option" where
  "source_answers_as_primary run h conn_url =
    (case run (probe_command h conn_url) of
       Some (Some (success, stdout)) \<Rightarrow> parse_recovery_probe success stdout
     | _ \<Rightarrow> None)"

definition pg_checkpoint :: "(string, unit) res \<Rightarrow> (string, unit) res \<Rightarrow> (string, unit) res" where
  "pg_checkpoint connected queried =
    and_then (map_err (\<lambda>e. ''Connection failed: '' @ e) connected) (\<lambda>_. map_err (\<lambda>e. ''CHECKPOINT failed: '' @ e) queried)"

section \<open>Callbacks\<close>

datatype callback_event = OnStart | OnStop | OnRestart | OnRoleChange | OnReload

fun event_name :: "callback_event \<Rightarrow> string" where
  "event_name OnStart = ''on_start''"
| "event_name OnStop = ''on_stop''"
| "event_name OnRestart = ''on_restart''"
| "event_name OnRoleChange = ''on_role_change''"
| "event_name OnReload = ''on_reload''"

record callbacks_config =
  cb_on_start :: "string option"
  cb_on_stop :: "string option"
  cb_on_restart :: "string option"
  cb_on_role_change :: "string option"
  cb_on_reload :: "string option"

record callback_executor =
  ce_config :: callbacks_config
  ce_scope :: string
  ce_timeout :: nat

definition new_callback_executor :: "callbacks_config \<Rightarrow> string \<Rightarrow> callback_executor" where
  "new_callback_executor config scope = \<lparr>ce_config = config, ce_scope = scope, ce_timeout = 30\<rparr>"

fun callback_command :: "callbacks_config \<Rightarrow> callback_event \<Rightarrow> string option" where
  "callback_command c OnStart = cb_on_start c"
| "callback_command c OnStop = cb_on_stop c"
| "callback_command c OnRestart = cb_on_restart c"
| "callback_command c OnRoleChange = cb_on_role_change c"
| "callback_command c OnReload = cb_on_reload c"

text \<open>The task \<open>fire\<close> spawns, with its time limit; no task without a configured command.\<close>

definition fire :: "callback_executor \<Rightarrow> callback_event \<Rightarrow> string \<Rightarrow> string \<Rightarrow> (nat \<times> spawn) option" where
  "fire x event action role =
    (case callback_command (ce_config x) event of
       None \<Rightarrow> None
     | Some command \<Rightarrow>
         Some (ce_timeout x,
           \<lparr>sp_program = ''sh'', sp_args = [''-c'', command],
            sp_env = [(''PG_HA_ACTION'', action), (''PG_HA_ROLE'', role), (''PG_HA_SCOPE'', ce_scope x),
                      (''PG_HA_EVENT'', event_name event)]\<rparr>))"

section \<open>Lemmas\<close>

text \<open>
  The superuser's password never appears on a command line: the arguments of every program pg-ha runs
  are the same whatever the password is, and so is the whole command of the programs that need none; only
  \<open>pg_basebackup\<close>, \<open>pg_rewind\<close> and the probe get it, in the environment, and only when one is
  configured.
\<close>

theorem password_not_on_command_line:
  "let h' = h\<lparr>ph_superuser_password := pw\<rparr> in
    sp_args (basebackup_command h' source) = sp_args (basebackup_command h source) \<and>
    sp_args (rewind_command h' source) = sp_args (rewind_command h source) \<and>
    sp_args (probe_command h' source) = sp_args (probe_command h source) \<and>
    pg_ctl_start h' = pg_ctl_start h \<and> pg_ctl_stop h' mode = pg_ctl_stop h mode \<and>
    pg_ctl_promote h' = pg_ctl_promote h \<and> pg_ctl_reload h' = pg_ctl_reload h \<and>
    map_of (sp_env (basebackup_command h' source)) ''PGPASSWORD'' = pw \<and>
    map_of (sp_env (rewind_command h' source)) ''PGPASSWORD'' = pw \<and>
    map_of (sp_env (probe_command h' source)) ''PGPASSWORD'' = pw"
  by (simp add: Let_def basebackup_command_def rewind_command_def probe_command_def pg_ctl_start_def pg_ctl_stop_def
      pg_ctl_promote_def pg_ctl_reload_def superuser_env_def bin_def split: option.splits)

text \<open>A callback runs exactly when a command is configured for its event, once, with the event named in its environment.\<close>

theorem fire_runs_configured_callback:
  "(fire x event action role = None \<longleftrightarrow> callback_command (ce_config x) event = None) \<and>
   (\<forall>t c. fire x event action role = Some (t, c) \<longrightarrow>
      callback_command (ce_config x) event = Some (sp_args c ! 1) \<and> t = ce_timeout x \<and>
      map_of (sp_env c) ''PG_HA_EVENT'' = Some (event_name event) \<and> map_of (sp_env c) ''PG_HA_ROLE'' = Some role)"
  by (auto simp: fire_def split: option.splits)

lemma event_name_inject: "event_name a = event_name b \<longleftrightarrow> a = b"
  by (cases a; cases b) simp_all

end
