(* ===== verification/Watchdog_Device.thy ===== *)
theory Watchdog_Device
  imports Ha_State
begin

text \<open>
  The watchdog device (\<open>crates/pg-ha-core/src/watchdog.rs\<close>): the handle with its file descriptor and the
  system calls made on it. The kernel is an argument: which descriptor an open returns, and whether the
  other calls succeed. The engine's view of the watchdog is in theory \<open>Ha_Calls\<close>; the steps here are the
  ones the engine takes, which arms the watchdog only while it is not active.

  The lemmas show that the handle and the descriptor never disagree: a descriptor is open exactly while
  the watchdog is active, every write goes to it, and it is closed with the magic character before it.
\<close>

section \<open>The handle\<close>

record wd_handle =
  wh_mode :: watchdog_mode
  wh_device :: string
  wh_timeout_secs :: u64
  wh_fd :: "int option"
  wh_is_active :: bool

definition new_watchdog :: "watchdog_mode \<Rightarrow> string \<Rightarrow> wd_handle" where
  "new_watchdog mode device =
    \<lparr>wh_mode = mode, wh_device = device, wh_timeout_secs = 30, wh_fd = None, wh_is_active = False\<rparr>"

text \<open>
  A system call with what it returned: \<open>open\<close> its descriptor (negative on error), \<open>ioctl\<close> the timeout as
  a C integer and its result, \<open>write\<close> the byte and its result.
\<close>

datatype syscall =
    Sys_Open string int
  | Sys_Set_Timeout int int int
  | Sys_Write int char int
  | Sys_Close int

text \<open>\<open>timeout_secs as libc::c_int\<close>: the low 32 bits, read as a signed number.\<close>

definition as_c_int :: "u64 \<Rightarrow> int" where
  "as_c_int n = sint (ucast n :: 32 word)"

definition activate_linux :: "int \<Rightarrow> int \<Rightarrow> wd_handle \<Rightarrow> bool \<times> wd_handle \<times> syscall list" where
  "activate_linux fd ioctl_result h =
    (if fd < 0 then (wh_mode h \<noteq> Watchdog_Required, h, [Sys_Open (wh_device h) fd])
     else (True, h\<lparr>wh_fd := Some fd, wh_is_active := True\<rparr>,
           [Sys_Open (wh_device h) fd, Sys_Set_Timeout fd (as_c_int (wh_timeout_secs h)) ioctl_result]))"

definition wd_activate :: "int \<Rightarrow> int \<Rightarrow> u64 \<Rightarrow> wd_handle \<Rightarrow> bool \<times> wd_handle \<times> syscall list" where
  "wd_activate fd ioctl_result timeout_secs h =
    (if wh_mode h = Watchdog_Off then (True, h, [])
     else activate_linux fd ioctl_result (h\<lparr>wh_timeout_secs := max timeout_secs 1\<rparr>))"

definition keepalive_linux :: "int \<Rightarrow> wd_handle \<Rightarrow> syscall list" where
  "keepalive_linux result h = (case wh_fd h of Some fd \<Rightarrow> [Sys_Write fd (CHR ''1'') result] | None \<Rightarrow> [])"

definition wd_keepalive :: "int \<Rightarrow> wd_handle \<Rightarrow> syscall list" where
  "wd_keepalive result h = (if wh_is_active h then keepalive_linux result h else [])"

definition disarm_linux :: "int \<Rightarrow> wd_handle \<Rightarrow> wd_handle \<times> syscall list" where
  "disarm_linux result h =
    (case wh_fd h of
       Some fd \<Rightarrow> (h\<lparr>wh_fd := None\<rparr>, [Sys_Write fd (CHR ''V'') result, Sys_Close fd])
     | None \<Rightarrow> (h, []))"

definition wd_disarm :: "int \<Rightarrow> wd_handle \<Rightarrow> wd_handle \<times> syscall list" where
  "wd_disarm result h =
    (if \<not> wh_is_active h then (h, [])
     else (case disarm_linux result h of (h', calls) \<Rightarrow> (h'\<lparr>wh_is_active := False\<rparr>, calls)))"

section \<open>The steps of the engine\<close>

text \<open>The descriptors open after a sequence of calls, last call last.\<close>

fun open_fds :: "syscall list \<Rightarrow> int set" where
  "open_fds [] = {}"
| "open_fds (c # cs) = (case c of
     Sys_Open _ fd \<Rightarrow> (if fd < 0 then open_fds cs else insert fd (open_fds cs))
   | Sys_Close fd \<Rightarrow> open_fds cs - {fd}
   | _ \<Rightarrow> open_fds cs)"

text \<open>Calls so far, newest first; the kernel never returns a descriptor that is open.\<close>

inductive wd_step :: "wd_handle \<times> syscall list \<Rightarrow> wd_handle \<times> syscall list \<Rightarrow> bool" where
  arm: "\<lbrakk>\<not> wh_is_active h; fd \<notin> open_fds calls; wd_activate fd ioctl_result t h = (ok, h', new)\<rbrakk>
    \<Longrightarrow> wd_step (h, calls) (h', rev new @ calls)"
| pet: "wd_step (h, calls) (h, rev (wd_keepalive result h) @ calls)"
| disarm: "wd_disarm result h = (h', new) \<Longrightarrow> wd_step (h, calls) (h', rev new @ calls)"

inductive wd_reachable :: "watchdog_mode \<Rightarrow> string \<Rightarrow> wd_handle \<times> syscall list \<Rightarrow> bool" for mode device where
  start: "wd_reachable mode device (new_watchdog mode device, [])"
| step: "wd_reachable mode device s \<Longrightarrow> wd_step s s' \<Longrightarrow> wd_reachable mode device s'"

inductive_cases wd_stepE: "wd_step s s'"

text \<open>A call is on an open descriptor, and a close comes right after the magic character.\<close>

fun disciplined :: "syscall list \<Rightarrow> bool" where
  "disciplined [] = True"
| "disciplined (c # cs) \<longleftrightarrow> disciplined cs \<and>
     (case c of
        Sys_Open _ _ \<Rightarrow> True
      | Sys_Set_Timeout fd _ _ \<Rightarrow> fd \<in> open_fds cs
      | Sys_Write fd _ _ \<Rightarrow> fd \<in> open_fds cs
      | Sys_Close fd \<Rightarrow> fd \<in> open_fds cs \<and> (case cs of Sys_Write fd' b _ # _ \<Rightarrow> fd' = fd \<and> b = CHR ''V'' | _ \<Rightarrow> False))"

definition wd_inv :: "watchdog_mode \<Rightarrow> wd_handle \<times> syscall list \<Rightarrow> bool" where
  "wd_inv mode s \<longleftrightarrow> (case s of (h, calls) \<Rightarrow>
     wh_mode h = mode \<and> (wh_is_active h \<longleftrightarrow> wh_fd h \<noteq> None) \<and> open_fds calls = set_option (wh_fd h) \<and> disciplined calls \<and>
     (mode = Watchdog_Off \<longrightarrow> calls = []))"

lemma wd_inv_step: "wd_inv mode s \<Longrightarrow> wd_step s s' \<Longrightarrow> wd_inv mode s'"
  by (erule wd_stepE)
    (auto simp: wd_inv_def wd_activate_def activate_linux_def wd_keepalive_def keepalive_linux_def wd_disarm_def disarm_linux_def
      split: if_splits option.splits prod.splits)

lemma wd_reachable_inv: "wd_reachable mode device s \<Longrightarrow> wd_inv mode s"
proof (induction rule: wd_reachable.induct)
  case start
  show ?case by (simp add: wd_inv_def new_watchdog_def)
qed (rule wd_inv_step)

text \<open>
  C34. The watchdog device is handled with discipline in every run: a descriptor is open exactly while the
  watchdog is active, and then it is the one the handle holds; every call is made on an open descriptor,
  no descriptor is closed without the magic character right before it, none is leaked, and with the mode
  off the device is never touched.
\<close>

theorem watchdog_descriptor_discipline:
  assumes "wd_reachable mode device (h, calls)"
  shows "(wh_is_active h \<longleftrightarrow> open_fds calls \<noteq> {}) \<and> open_fds calls = set_option (wh_fd h) \<and> disciplined calls \<and>
    (mode = Watchdog_Off \<longrightarrow> calls = [] \<and> \<not> wh_is_active h)"
proof -
  have "wd_inv mode (h, calls)" using assms by (rule wd_reachable_inv)
  then show ?thesis by (cases "wh_fd h") (auto simp: wd_inv_def)
qed

theorem watchdog_descriptor_discipline_witness:
  "open_fds [Sys_Set_Timeout 3 25 0, Sys_Open ''/dev/watchdog'' 3] = {3} \<and>
   disciplined [Sys_Set_Timeout 3 25 0, Sys_Open ''/dev/watchdog'' 3]"
proof -
  let ?h = "new_watchdog Watchdog_Required ''/dev/watchdog''"
  have "as_c_int 25 = 25" by (simp add: as_c_int_def)
  then have a: "wd_activate 3 0 25 ?h = (True, ?h\<lparr>wh_timeout_secs := 25, wh_fd := Some 3, wh_is_active := True\<rparr>,
      [Sys_Open ''/dev/watchdog'' 3, Sys_Set_Timeout 3 25 0])"
    by (simp add: wd_activate_def activate_linux_def new_watchdog_def)
  have "wd_reachable Watchdog_Required ''/dev/watchdog''
      (?h\<lparr>wh_timeout_secs := 25, wh_fd := Some 3, wh_is_active := True\<rparr>,
       rev [Sys_Open ''/dev/watchdog'' 3, Sys_Set_Timeout 3 25 0] @ [])"
    by (rule wd_reachable.step [OF wd_reachable.start], rule wd_step.arm [OF _ _ a]) (simp_all add: new_watchdog_def)
  from watchdog_descriptor_discipline [OF this] show ?thesis by simp
qed

text \<open>
  Activation reports success whatever the kernel says to the timeout: when the call that sets it fails
  the device keeps the timeout it had, and the watchdog counts as active with the configured one, even
  where it is required.
\<close>

theorem timeout_result_is_ignored:
  assumes "0 \<le> fd"
  shows "\<exists>h' calls. wd_activate fd (- 1) t h = (True, h', calls) \<and> (wh_mode h \<noteq> Watchdog_Off \<longrightarrow>
    wh_is_active h' \<and> wh_timeout_secs h' = max t 1 \<and> Sys_Set_Timeout fd (as_c_int (max t 1)) (- 1) \<in> set calls)"
  using assms by (simp add: wd_activate_def activate_linux_def)

end
