(* ===== verification/Startup.thy ===== *)
theory Startup
  imports Static_Config Raft_Network Bootstrap_Config Ha_State Pg_Probe
begin

text \<open>
  How a node starts (\<open>main\<close> of \<open>src/main.rs\<close>): the whole static configuration with its defaults and the sample
  (\<open>config.rs\<close>), the TLS side of the two listeners (\<open>build_mtls_server_config\<close>), the client of the health probes
  (\<open>build_health_client\<close> of \<open>pg-ha-proxy/src/proxy.rs\<close>), and the sequence of steps up to the HA loop. Files, the PEM
  parser, the TLS library, name resolution and sockets are arguments.

  The lemmas show that the sample and the defaults are valid, that a listener for which client certificates
  are required never comes up without checking them, that the probes of a peer satisfy it, in which order
  a node comes up, and that it goes on when no leader was found.
\<close>

section \<open>Configuration\<close>

record tls_section =
  ts_cert :: string
  ts_key :: string
  ts_ca_cert :: "string option"
  ts_require_client_cert :: bool

record node_tags =
  nt_nofailover :: bool
  nt_noloadbalance :: bool
  nt_noclone :: bool
  nt_nosync :: bool
  nt_nostream :: bool
  nt_clonefrom :: bool
  nt_replicatefrom :: "string option"
  nt_failover_priority :: u32
  nt_sync_priority :: u32

definition default_tags :: node_tags where
  "default_tags =
    \<lparr>nt_nofailover = False, nt_noloadbalance = False, nt_noclone = False, nt_nosync = False, nt_nostream = False,
     nt_clonefrom = False, nt_replicatefrom = None, nt_failover_priority = 1, nt_sync_priority = 0\<rparr>"

record bootstrap_section =
  bs_initdb :: "initdb_option list"
  bs_post_init :: "string list"
  bs_custom_command :: "string option"
  bs_post_bootstrap_sql :: "string list"

datatype log_format = Log_Text | Log_Json

text \<open>The section \<open>raft.tls\<close> is split into what the server and what the client uses of it.\<close>

record agent_config = static_config +
  ac_namespace :: string
  ac_data_dir :: string
  ac_bin_dir :: string
  ac_superuser :: connection_params
  ac_replication :: connection_params
  ac_rebuild_on_rewind_failure :: bool
  ac_parameters :: "(string \<times> string) list"
  ac_api_listen :: string
  ac_api_username :: "string option"
  ac_api_password :: "string option"
  ac_api_tls :: "tls_section option"
  ac_raft_data_dir :: "string option"
  ac_node_id :: "u64 option"
  ac_raft_tls :: "(tls_section \<times> raft_tls_config) option"
  ac_rw_listen :: string
  ac_rw_port :: nat
  ac_ro_listen :: string
  ac_ro_port :: nat
  ac_watchdog_mode :: watchdog_mode
  ac_watchdog_device :: string
  ac_tags :: node_tags
  ac_bootstrap :: "bootstrap_section option"
  ac_drain_timeout_secs :: u64
  ac_log_format :: log_format

text \<open>A file with the required fields only: what the defaults make of it.\<close>

definition config_with_defaults ::
  "string \<Rightarrow> string \<Rightarrow> string \<Rightarrow> string \<Rightarrow> connection_params \<Rightarrow> connection_params \<Rightarrow> string \<Rightarrow> string list \<Rightarrow> agent_config" where
  "config_with_defaults name scope data_dir bin_dir superuser replication self_addr partners =
    \<lparr>sc_name = name, sc_scope = scope, sc_loop_wait = 10, sc_ttl = 30, sc_retry_timeout = 10, sc_safety_margin = 5,
     sc_pg_listen = ''0.0.0.0'', sc_pg_port = 5432, sc_api_port = 8008, sc_self_addr = self_addr,
     sc_partner_addrs = partners, sc_bootstrap_dcs = None,
     ac_namespace = ''service'', ac_data_dir = data_dir, ac_bin_dir = bin_dir, ac_superuser = superuser,
     ac_replication = replication, ac_rebuild_on_rewind_failure = False, ac_parameters = [],
     ac_api_listen = ''0.0.0.0'', ac_api_username = None, ac_api_password = None, ac_api_tls = None,
     ac_raft_data_dir = None, ac_node_id = None, ac_raft_tls = None,
     ac_rw_listen = ''0.0.0.0'', ac_rw_port = 6432, ac_ro_listen = ''0.0.0.0'', ac_ro_port = 6433,
     ac_watchdog_mode = Watchdog_Off, ac_watchdog_device = ''/dev/watchdog'', ac_tags = default_tags,
     ac_bootstrap = None, ac_drain_timeout_secs = 30, ac_log_format = Log_Text\<rparr>"

definition sample_config :: agent_config where
  "sample_config =
    (config_with_defaults ''node1'' ''pg-cluster'' ''/var/lib/postgresql/16/data'' ''/usr/lib/postgresql/16/bin''
      \<lparr>cp_username = ''postgres'', cp_password = Some ''secret'', cp_dbname = ''postgres''\<rparr>
      \<lparr>cp_username = ''replicator'', cp_password = Some ''secret'', cp_dbname = ''postgres''\<rparr>
      ''node1:2380'' [''node2:2380'', ''node3:2380''])
    \<lparr>ac_parameters := [(''max_connections'', ''100''), (''wal_level'', ''replica''), (''max_wal_senders'', ''10''),
       (''max_replication_slots'', ''10''), (''hot_standby'', ''on'')],
     ac_raft_data_dir := Some ''/var/lib/pg-ha/raft'',
     sc_bootstrap_dcs := Some [(''loop_wait'', JPosInt 10), (''ttl'', JPosInt 30), (''maximum_lag_on_failover'', JPosInt 1048576)],
     ac_bootstrap := Some \<lparr>bs_initdb = [InitdbFlag ''data-checksums'', InitdbKeyValue [(''encoding'', ''UTF8'')]],
       bs_post_init = [], bs_custom_command = None, bs_post_bootstrap_sql = []\<rparr>\<rparr>"

definition use_json :: "string option \<Rightarrow> log_format \<Rightarrow> bool" where
  "use_json env_value format =
    (case env_value of Some v \<Rightarrow> map ascii_lower v = ''json'' | None \<Rightarrow> format = Log_Json)"

section \<open>TLS of the listeners\<close>

record pem_library =
  pl_read :: "string \<Rightarrow> (string, bytes) res"
  pl_certs :: "bytes \<Rightarrow> (string, bytes list) res"
  pl_add_root :: "bytes \<Rightarrow> (string, unit) res"
  pl_verifier :: "bytes list \<Rightarrow> (string, unit) res"
  pl_private_key :: "bytes \<Rightarrow> (string, bytes option) res"
  pl_single_cert :: "bytes list \<Rightarrow> bytes \<Rightarrow> (string, unit) res"
  pl_from_pem_file :: "string \<Rightarrow> string \<Rightarrow> (string, unit) res"

record server_config =
  sv_client_roots :: "bytes list"
  sv_chain :: "bytes list"
  sv_key :: bytes

definition path_quoted :: "string \<Rightarrow> string" where
  "path_quoted s = [CHR 0x27] @ s @ [CHR 0x27]"

fun add_roots :: "(bytes \<Rightarrow> (string, unit) res) \<Rightarrow> bytes list \<Rightarrow> (string, unit) res" where
  "add_roots add [] = Ok ()"
| "add_roots add (c # cs) =
     and_then (map_err (\<lambda>e. ''Failed to add ca_cert to trust store: '' @ e) (add c)) (\<lambda>_. add_roots add cs)"

definition load_certs :: "pem_library \<Rightarrow> string \<Rightarrow> string \<Rightarrow> (string, bytes list) res" where
  "load_certs lib what path =
    and_then (map_err (\<lambda>e. ''Failed to read '' @ what @ '' '' @ path_quoted path @ '': '' @ e) (pl_read lib path))
      (\<lambda>pem. and_then (map_err (\<lambda>e. ''Invalid '' @ what @ '' '' @ path_quoted path @ '': '' @ e) (pl_certs lib pem))
        (\<lambda>certs. if certs = [] then Err (what @ '' '' @ path_quoted path @ '' contains no certificates'') else Ok certs))"

definition build_mtls_server_config ::
  "pem_library \<Rightarrow> string \<Rightarrow> string \<Rightarrow> string option \<Rightarrow> string \<Rightarrow> (string, server_config) res" where
  "build_mtls_server_config lib cert key ca_cert what =
    (case ca_cert of
       None \<Rightarrow> Err (''require_client_cert is true but '' @ what @ ''.ca_cert is not set; '' @
                  ''a CA certificate is required to verify client certificates'')
     | Some ca_path \<Rightarrow>
         and_then (load_certs lib ''ca_cert'' ca_path)
           (\<lambda>ca_certs. and_then (add_roots (pl_add_root lib) ca_certs)
             (\<lambda>_. and_then (map_err (\<lambda>e. ''Failed to build client certificate verifier: '' @ e) (pl_verifier lib ca_certs))
               (\<lambda>_. and_then (load_certs lib ''server cert'' cert)
                 (\<lambda>chain. and_then (map_err (\<lambda>e. ''Failed to read server key '' @ path_quoted key @ '': '' @ e) (pl_read lib key))
                   (\<lambda>key_pem. and_then (map_err (\<lambda>e. ''Invalid server key '' @ path_quoted key @ '': '' @ e) (pl_private_key lib key_pem))
                     (\<lambda>found. case found of
                        None \<Rightarrow> Err (''no private key found in '' @ path_quoted key)
                      | Some k \<Rightarrow>
                          and_then (map_err (\<lambda>e. ''Failed to build server TLS config: '' @ e) (pl_single_cert lib chain k))
                            (\<lambda>_. Ok \<lparr>sv_client_roots = ca_certs, sv_chain = chain, sv_key = k\<rparr>))))))))"

datatype listener_tls =
    Listen_Plain
  | Listen_Tls string string
  | Listen_Mtls server_config

text \<open>The choice is the same for the Raft RPC port and the REST API.\<close>

definition listener_config :: "pem_library \<Rightarrow> string \<Rightarrow> string \<Rightarrow> tls_section option \<Rightarrow> (string, listener_tls) res" where
  "listener_config lib name what tls =
    (case tls of
       None \<Rightarrow> Ok Listen_Plain
     | Some t \<Rightarrow>
         if ts_require_client_cert t then
           and_then (map_err (\<lambda>e. name @ '' mTLS config error: '' @ e)
               (build_mtls_server_config lib (ts_cert t) (ts_key t) (ts_ca_cert t) what))
             (\<lambda>s. Ok (Listen_Mtls s))
         else
           and_then (map_err (\<lambda>e. name @ '' TLS config error: '' @ e) (pl_from_pem_file lib (ts_cert t) (ts_key t)))
             (\<lambda>_. Ok (Listen_Tls (ts_cert t) (ts_key t))))"

section \<open>The client of the health probes\<close>

record probe_client =
  pr_root :: "bytes option"
  pr_identity :: "bytes option"

record client_library =
  cl_read :: "string \<Rightarrow> (string, bytes) res"
  cl_certificate :: "bytes \<Rightarrow> (string, unit) res"
  cl_identity :: "bytes \<Rightarrow> (string, unit) res"
  cl_build :: "(string, unit) res"

definition probe_identity :: "bytes \<Rightarrow> bytes \<Rightarrow> bytes" where
  "probe_identity cert key = (if suffix [0x0A] cert then cert else cert @ [0x0A]) @ key"

definition build_health_client :: "client_library \<Rightarrow> tls_section option \<Rightarrow> (string, probe_client) res" where
  "build_health_client lib tls =
    and_then
      (case Option.bind tls ts_ca_cert of
         None \<Rightarrow> Ok None
       | Some ca_path \<Rightarrow>
           and_then (map_err (\<lambda>e. ''failed to read REST CA certificate '' @ ca_path @ '': '' @ e) (cl_read lib ca_path))
             (\<lambda>pem. and_then (map_err (\<lambda>e. ''invalid REST CA certificate '' @ ca_path @ '': '' @ e) (cl_certificate lib pem))
               (\<lambda>_. Ok (Some pem))))
      (\<lambda>root. and_then
        (case tls of
           Some t \<Rightarrow>
             if ts_require_client_cert t then
               and_then (map_err (\<lambda>e. ''failed to read REST certificate '' @ ts_cert t @ '': '' @ e) (cl_read lib (ts_cert t)))
                 (\<lambda>cert_pem. and_then (map_err (\<lambda>e. ''failed to read REST key '' @ ts_key t @ '': '' @ e) (cl_read lib (ts_key t)))
                   (\<lambda>key_pem. and_then (map_err (\<lambda>e. ''invalid REST client identity: '' @ e)
                       (cl_identity lib (probe_identity cert_pem key_pem)))
                     (\<lambda>_. Ok (Some (probe_identity cert_pem key_pem)))))
             else Ok None
         | None \<Rightarrow> Ok None)
        (\<lambda>identity. and_then (map_err (\<lambda>e. ''failed to build proxy health client: '' @ e) (cl_build lib))
          (\<lambda>_. Ok \<lparr>pr_root = root, pr_identity = identity\<rparr>)))"

definition proxy_probe_trusts_system_roots_only :: "tls_section option \<Rightarrow> bool" where
  "proxy_probe_trusts_system_roots_only tls \<longleftrightarrow> (case tls of Some t \<Rightarrow> ts_ca_cert t = None | None \<Rightarrow> False)"

section \<open>The sequence of \<open>main\<close>\<close>


record start_io =
  si_raft_config :: "(string, unit) res"
  si_tls_factory :: "raft_tls_config \<Rightarrow> (string, network_factory) res"
  si_raft_start :: "u64 \<Rightarrow> network_factory \<Rightarrow> (string, unit) res"
  si_parse_addr :: "string \<Rightarrow> string option"
  si_lookup_host :: "string \<Rightarrow> string list option"
  si_bind :: "string \<Rightarrow> (string, unit) res"
  si_signals :: "(string, unit) res"
  si_leader_wait :: "nat \<Rightarrow> bool \<times> nat"
  si_bootstrap :: "(u64 \<times> string) list \<Rightarrow> (string, unit) res"
  si_exit_after :: "string \<Rightarrow> nat"


definition resolve_addr :: "start_io \<Rightarrow> string \<Rightarrow> string option" where
  "resolve_addr io addr =
    (case si_parse_addr io addr of
       Some sa \<Rightarrow> Some sa
     | None \<Rightarrow> (case si_lookup_host io addr of Some (sa # _) \<Rightarrow> Some sa | _ \<Rightarrow> None))"

definition host_port :: "string \<Rightarrow> nat \<Rightarrow> string" where
  "host_port host port = host @ '':'' @ dec_of_nat port"

datatype start_action =
    Raft_Opened u64
  | Raft_Serving listener_tls
  | Raft_Bootstrap "(u64 \<times> string) list" "(string, unit) res"
  | Raft_Ready bool
  | Api_Serving listener_tls
  | Engine_Running

datatype start_end =
    Sample_Printed agent_config
  | Config_Rejected config_error
  | Config_Valid
  | Start_Failed string
  | Exit_1
  | Agent_Running agent_config

definition after_actions :: "start_action list \<Rightarrow> start_action list \<times> start_end \<Rightarrow> start_action list \<times> start_end" where
  "after_actions acts r = (acts @ fst r, snd r)"

text \<open>
  A plain listener binds its port before its server is started. A TLS listener is bound by the task that serves
  it: \<open>main\<close> goes on, and when the port cannot be bound the task ends the process with code one, at the
  latest when \<open>main\<close> has nothing left to do but to run.
\<close>

definition spawn_server :: "start_io \<Rightarrow> listener_tls \<Rightarrow> string \<Rightarrow> start_action list \<times> start_end \<Rightarrow> start_action list \<times> start_end" where
  "spawn_server io m addr r =
    (let running = (case snd r of Agent_Running _ \<Rightarrow> True | _ \<Rightarrow> False)
     in if m \<noteq> Listen_Plain \<and> \<not> is_ok (si_bind io addr) \<and> (running \<or> si_exit_after io addr < length (fst r))
        then (take (si_exit_after io addr) (fst r), Exit_1) else r)"

text \<open>The plain REST port that cannot be bound ends the process with code one instead of an error from \<open>main\<close>.\<close>

definition start_api :: "pem_library \<Rightarrow> start_io \<Rightarrow> agent_config \<Rightarrow> string \<Rightarrow> start_action list \<times> start_end" where
  "start_api lib io c api_addr =
    (case listener_config lib ''REST API'' ''restapi.tls'' (ac_api_tls c) of
       Inl e \<Rightarrow> ([], Start_Failed e)
     | Inr m \<Rightarrow>
         if m = Listen_Plain \<and> \<not> is_ok (si_bind io api_addr) then ([], Exit_1)
         else after_actions [Api_Serving m]
           (spawn_server io m api_addr
             (case si_signals io of
                Inl e \<Rightarrow> ([], Start_Failed e)
              | Inr _ \<Rightarrow> ([Engine_Running], Agent_Running c))))"

definition start_services :: "pem_library \<Rightarrow> client_library \<Rightarrow> start_io \<Rightarrow> agent_config \<Rightarrow> start_action list \<times> start_end" where
  "start_services lib clib io c =
    (case si_parse_addr io (host_port (ac_api_listen c) (sc_api_port c)) of
       None \<Rightarrow> ([], Start_Failed (''Invalid REST API address '' @ path_quoted (host_port (ac_api_listen c) (sc_api_port c))))
     | Some api_addr \<Rightarrow>
         (case si_parse_addr io (host_port (ac_rw_listen c) (ac_rw_port c)) of
            None \<Rightarrow> ([], Start_Failed ''Invalid proxy RW address'')
          | Some rw_addr \<Rightarrow>
              (case si_parse_addr io (host_port (ac_ro_listen c) (ac_ro_port c)) of
                 None \<Rightarrow> ([], Start_Failed ''Invalid proxy RO address'')
               | Some ro_addr \<Rightarrow>
                   (case build_health_client clib (ac_api_tls c) of
                      Inl e \<Rightarrow> ([], Start_Failed e)
                    | Inr _ \<Rightarrow> start_api lib io c api_addr))))"

text \<open>
  The loop that waits for a leader (\<open>startup_loop\<close>), on a clock that starts when the deadline of thirty seconds is set: it reads
  the time after the \<open>n\<close>-th wait, with the pause of a second between two waits. The cluster is bootstrapped once,
  after the first wait in vain; its error is dropped, and so is the missing leader at the deadline.
\<close>

definition BOOTSTRAP_TIMEOUT :: nat where "BOOTSTRAP_TIMEOUT = 30000"

definition leader_clock :: "start_io \<Rightarrow> nat \<Rightarrow> nat \<Rightarrow> nat" where
  "leader_clock io stagger n = stagger + (\<Sum>i\<le>n. snd (si_leader_wait io i)) + 1000 * n"

definition await_leader :: "start_io \<Rightarrow> (u64 \<times> string) list \<Rightarrow> nat \<Rightarrow> start_action list" where
  "await_leader io members stagger =
    (case startup_loop (\<lambda>i. if fst (si_leader_wait io i) then Ok () else Err []) (leader_clock io stagger) BOOTSTRAP_TIMEOUT
        (\<lambda>_. si_bootstrap io members) 0 False [] of
       Some (ready, calls) \<Rightarrow> map (\<lambda>_. Raft_Bootstrap members (si_bootstrap io members)) calls @ [Raft_Ready ready]
     | None \<Rightarrow> [])"

definition start_raft ::
  "pem_library \<Rightarrow> client_library \<Rightarrow> start_io \<Rightarrow> agent_config \<Rightarrow> u64 \<Rightarrow> start_action list \<times> start_end" where
  "start_raft lib clib io c node_id =
    (case resolve_addr io (sc_self_addr c) of
       None \<Rightarrow> ([], Start_Failed (''Failed to resolve Raft RPC address '' @ path_quoted (sc_self_addr c)))
     | Some raft_addr \<Rightarrow>
         (case listener_config lib ''Raft'' ''raft.tls'' (map_option fst (ac_raft_tls c)) of
            Inl e \<Rightarrow> ([], Start_Failed e)
          | Inr m \<Rightarrow>
              (case (if m = Listen_Plain then si_bind io raft_addr else Ok ()) of
                 Inl e \<Rightarrow> ([], Start_Failed e)
               | Inr _ \<Rightarrow>
                   after_actions [Raft_Serving m]
                     (spawn_server io m raft_addr
                       (after_actions
                         (await_leader io (bootstrap_members (sc_self_addr c) (sc_partner_addrs c)) (unat (500 * node_id)))
                         (start_services lib clib io c))))))"


section \<open>Lemmas\<close>

text \<open>
  A configuration with nothing but the required fields is valid exactly when these are not empty: the
  default timing fits the lease.
\<close>

theorem defaults_are_valid:
  "validate (config_with_defaults name scope data_dir bin_dir superuser replication self_addr partners) = Ok () \<longleftrightarrow>
    name \<noteq> [] \<and> scope \<noteq> [] \<and> self_addr \<noteq> [] \<and> partners \<noteq> []"
  by (simp add: validate_def config_with_defaults_def static_lease_timing_def timing_violation_def saturating_add_def Let_def)

lemma sample_valid: "validate sample_config = Ok ()"
  by (simp add: validate_def sample_config_def config_with_defaults_def static_lease_timing_def bootstrap_timing_def
      timing_violation_def saturating_add_def Let_def)

text \<open>
  The sample \<open>--generate-sample-config\<close> prints is a configuration the program accepts as it is, with its
  bootstrap section, when the YAML library reads back what it printed.
\<close>

theorem sample_config_loads:
  assumes "yaml_parse (yaml_print sample_config) = Ok sample_config"
  shows "load_config yaml_parse (Ok (yaml_print sample_config)) (\<lambda>_. None) = Ok sample_config"
proof -
  have "apply_env_overrides (\<lambda>_. None) c = c" for c :: agent_config
    by (simp add: apply_env_overrides_def override_def unwrap_or_def)
  then show ?thesis using assms sample_valid by (simp add: load_config_def from_file_def from_yaml_def Let_def)
qed

theorem sample_config_loads_witness:
  "load_config (\<lambda>_. Ok sample_config) (Ok ((\<lambda>_. ''sample'') sample_config)) (\<lambda>_. None) = Ok sample_config"
  by (rule sample_config_loads) simp


lemma load_certs_nonempty [simp]: "load_certs lib what path \<noteq> Inr []"
  by (auto simp: load_certs_def and_then_Ok split: if_splits)

lemma mtls_config_checks:
  "build_mtls_server_config lib cert key ca_cert what = Inr s \<Longrightarrow> ca_cert \<noteq> None \<and> sv_client_roots s \<noteq> [] \<and> sv_chain s \<noteq> []"
  by (auto simp: build_mtls_server_config_def and_then_Ok split: option.splits)


text \<open>
  The abstract order of a start: \<open>phases\<close> is what a start that is not ended would do, and a start does a prefix of it. It ends
  running, with the engine started and each port bound, or otherwise; the engine may run in a process that ends only
  when the port of a TLS listener cannot be bound.
\<close>

definition waited :: "start_io \<Rightarrow> (u64 \<times> string) list \<Rightarrow> start_action list \<Rightarrow> bool" where
  "waited io members w \<longleftrightarrow> (\<exists>ready. w = [Raft_Ready ready]) \<or>
     (\<exists>ready. w = [Raft_Bootstrap members (si_bootstrap io members), Raft_Ready ready]) \<and> \<not> fst (si_leader_wait io 0)"

lemma waited_ready [simp]: "waited io members [Raft_Ready ready]"
  by (auto simp: waited_def)

lemma waited_ex [simp]: "\<exists>w. waited io members w"
  using waited_ready by blast






definition raft_bound :: "start_io \<Rightarrow> agent_config \<Rightarrow> bool" where
  "raft_bound io c \<longleftrightarrow> (case resolve_addr io (sc_self_addr c) of Some addr \<Rightarrow> is_ok (si_bind io addr) | None \<Rightarrow> False)"





text \<open>How the start ends does not depend on the wait: with the RPC port bound, neither a leader nor the answer of the bootstrap matters.\<close>

lemma start_goes_on_without_leader:
  assumes "raft_bound io c"
  shows "snd (start_raft lib clib (io\<lparr>si_leader_wait := w, si_bootstrap := b\<rparr>) c node_id) = snd (start_raft lib clib io c node_id)"
proof -
  let ?io = "io\<lparr>si_leader_wait := w, si_bootstrap := b\<rparr>"
  have r: "resolve_addr ?io a = resolve_addr io a" "spawn_server ?io = spawn_server io" for a
    by (simp_all add: resolve_addr_def spawn_server_def fun_eq_iff split: option.splits)
  have f: "si_parse_addr ?io = si_parse_addr io" "si_bind ?io = si_bind io" "si_signals ?io = si_signals io" by simp_all
  have sv: "start_services lib clib ?io c = start_services lib clib io c"
    unfolding start_services_def start_api_def r f ..
  have "spawn_server io m addr x = x" if "resolve_addr io (sc_self_addr c) = Some addr" for m addr x
    using assms that by (simp add: spawn_server_def raft_bound_def)
  then show ?thesis unfolding start_raft_def r sv f by (auto simp: after_actions_def split: option.splits sum.splits)
qed





text \<open>
  The probes get through where the REST API asks for certificates: on nodes that share the section
  \<open>restapi.tls\<close>, a listener that checks client certificates is probed by a client that presents one and
  knows the root, and the client knows the configured root in every case.
\<close>

theorem probe_meets_listener:
  assumes "listener_config lib name what tls = Ok m" "build_health_client clib tls = Ok p"
  shows "(\<forall>s. m = Listen_Mtls s \<longrightarrow> pr_identity p \<noteq> None \<and> pr_root p \<noteq> None) \<and>
    (pr_root p = None \<longleftrightarrow> tls = None \<or> proxy_probe_trusts_system_roots_only tls)"
  using assms
  by (auto simp: listener_config_def build_health_client_def and_then_Ok proxy_probe_trusts_system_roots_only_def
      dest: mtls_config_checks split: option.splits if_splits)

end
