(* ===== verification/Rest_Api.thy ===== *)
theory Rest_Api
  imports Ha_Safety
begin

text \<open>
  The REST API (\<open>crates/pg-ha-api\<close>): the node state that the HA engine publishes (\<open>state.rs\<close>), the health
  endpoints load balancers and the proxy ask, the management and configuration endpoints and the
  credentials check (\<open>routes/\<close>). The DCS, the command channel to the HA loop, \<open>serde_json\<close> and Base64 are
  parameters; a response is a status code and a JSON body, an effect is a command sent or a configuration written.
  The metrics text is in theory \<open>Metrics\<close>.

  The lemmas connect the endpoints with the engine: what \<open>/primary\<close> answers at every moment of a run.
\<close>

section \<open>The published node state\<close>

record node_state =
  ns_name :: string
  ns_scope :: string
  ns_role :: member_role
  ns_state :: member_state
  ns_pg_running :: bool
  ns_is_leader :: bool
  ns_is_paused :: bool
  ns_pending_restart :: bool
  ns_timeline :: "u64 option"
  ns_wal_position :: "u64 option"
  ns_replication_lag :: "u64 option"
  ns_pg_version :: "string option"
  ns_tags :: "(string \<times> json_value) list"
  ns_last_loop_at :: "nat option"
  ns_ttl_seconds :: u64
  ns_dcs_last_seen :: "nat option"
  ns_pg_in_recovery :: "bool option"
  ns_shutting_down :: bool
  ns_rewind_check :: bool

definition new_node_state :: "string \<Rightarrow> string \<Rightarrow> u64 \<Rightarrow> node_state" where
  "new_node_state name scope ttl =
    \<lparr>ns_name = name, ns_scope = scope, ns_role = Uninitialized, ns_state = Unknown, ns_pg_running = False, ns_is_leader = False,
     ns_is_paused = False, ns_pending_restart = False, ns_timeline = None, ns_wal_position = None, ns_replication_lag = None,
     ns_pg_version = None, ns_tags = [], ns_last_loop_at = None, ns_ttl_seconds = ttl, ns_dcs_last_seen = None,
     ns_pg_in_recovery = None, ns_shutting_down = False, ns_rewind_check = False\<rparr>"

definition apply_ha_snapshot :: "api_snapshot \<Rightarrow> node_state \<Rightarrow> node_state" where
  "apply_ha_snapshot snap s =
    s\<lparr>ns_role := as_role snap, ns_state := as_state snap, ns_pg_running := as_pg_running snap,
      ns_pg_in_recovery := as_pg_in_recovery snap, ns_is_leader := as_is_leader snap, ns_is_paused := as_is_paused snap,
      ns_pending_restart := as_pending_restart snap, ns_shutting_down := as_shutting_down snap,
      ns_rewind_check := as_rewind_check snap, ns_timeline := as_timeline snap, ns_wal_position := as_wal_position snap,
      ns_replication_lag := as_replication_lag snap\<rparr>"

definition is_primary_with_lock :: "node_state \<Rightarrow> bool" where
  "is_primary_with_lock s \<longleftrightarrow> ns_is_leader s \<and> ns_state s = Running \<and> ns_role s = Primary \<and>
     ns_pg_in_recovery s = Some False \<and> \<not> ns_shutting_down s"

definition is_healthy_replica :: "node_state \<Rightarrow> bool" where
  "is_healthy_replica s \<longleftrightarrow> ns_state s = Running \<and> ns_role s = Replica \<and> ns_pg_in_recovery s = Some True \<and> \<not> ns_rewind_check s"

definition is_standby_leader :: "node_state \<Rightarrow> bool" where
  "is_standby_leader s \<longleftrightarrow> ns_role s = StandbyLeader"

definition is_live :: "nat \<Rightarrow> node_state \<Rightarrow> bool" where
  "is_live now s \<longleftrightarrow> (case ns_last_loop_at s of None \<Rightarrow> False | Some t \<Rightarrow> (now - t) div 1000 < unat (ns_ttl_seconds s))"

definition node_noloadbalance :: "node_state \<Rightarrow> bool" where
  "node_noloadbalance s = unwrap_or (Option.bind (map_of (ns_tags s) ''noloadbalance'') as_bool) False"

section \<open>Router state, responses, effects\<close>

record dcs_answers =
  da_cluster :: "(string, cluster) res"
  da_config :: "(string, string option) res"
  da_set_config :: "(string, bool) res"
  da_history :: "(string, history_entry list) res"

record config_codec =
  cd_parse_config :: "string \<Rightarrow> (string, global_config) res"
  cd_parse_value :: "string \<Rightarrow> (string, json_value) res"
  cd_from_value :: "json_value \<Rightarrow> (string, global_config) res"
  cd_to_value :: "global_config \<Rightarrow> json_value"
  cd_print :: "global_config \<Rightarrow> string"

record auth_config =
  au_username :: "string option"
  au_password :: "string option"

definition auth_enabled :: "auth_config \<Rightarrow> bool" where
  "auth_enabled a \<longleftrightarrow> au_username a \<noteq> None \<and> au_password a \<noteq> None"

text \<open>The command channel: whether sending succeeds, and the reply of the HA loop (none when it went away).\<close>

record router_state =
  rt_app :: node_state
  rt_dcs :: "dcs_answers option"
  rt_lease_timing :: "lease_timing option"
  rt_cmd_tx :: "(bool \<times> command_response option) option"
  rt_auth :: auth_config

type_synonym http_response = "nat \<times> json_value"

datatype effect = No_Effect | Sent management_command | Wrote_Config string

definition OK :: nat where "OK = 200"
definition BAD_REQUEST :: nat where "BAD_REQUEST = 400"
definition UNAUTHORIZED :: nat where "UNAUTHORIZED = 401"
definition CONFLICT :: nat where "CONFLICT = 409"
definition INTERNAL_SERVER_ERROR :: nat where "INTERNAL_SERVER_ERROR = 500"
definition SERVICE_UNAVAILABLE :: nat where "SERVICE_UNAVAILABLE = 503"

lemmas status_defs = OK_def BAD_REQUEST_def UNAUTHORIZED_def CONFLICT_def INTERNAL_SERVER_ERROR_def SERVICE_UNAVAILABLE_def

definition json_opt :: "u64 option \<Rightarrow> json_value" where
  "json_opt v = (case v of None \<Rightarrow> JNull | Some n \<Rightarrow> JPosInt n)"

fun state_debug :: "member_state \<Rightarrow> string" where
  "state_debug Running = ''Running''" | "state_debug Stopped = ''Stopped''" | "state_debug Starting = ''Starting''"
| "state_debug Crashed = ''Crashed''" | "state_debug Unknown = ''Unknown''"

fun role_debug :: "member_role \<Rightarrow> string" where
  "role_debug Primary = ''Primary''" | "role_debug Replica = ''Replica''" | "role_debug StandbyLeader = ''StandbyLeader''"
| "role_debug Uninitialized = ''Uninitialized''"

definition state_and_role :: "node_state \<Rightarrow> json_value" where
  "state_and_role s = JObject [(''state'', JString (state_debug (ns_state s))), (''role'', JString (role_debug (ns_role s)))]"

section \<open>Health endpoints\<close>

definition health_primary :: "node_state \<Rightarrow> http_response" where
  "health_primary s =
    (if is_primary_with_lock s
     then (OK, JObject [(''state'', JString ''running''), (''role'', JString ''primary''), (''timeline'', json_opt (ns_timeline s)),
                        (''wal_position'', json_opt (ns_wal_position s))])
     else (SERVICE_UNAVAILABLE, state_and_role s))"

definition health_replica :: "u64 option \<Rightarrow> node_state \<Rightarrow> http_response" where
  "health_replica lag_param s =
    (if \<not> is_healthy_replica s then (SERVICE_UNAVAILABLE, state_and_role s)
     else if node_noloadbalance s
     then (SERVICE_UNAVAILABLE, JObject [(''role'', JString ''replica''), (''reason'', JString ''noloadbalance'')])
     else (case (lag_param, ns_replication_lag s) of
             (Some max_lag, Some lag) \<Rightarrow>
               if lag > max_lag
               then (SERVICE_UNAVAILABLE, JObject [(''role'', JString ''replica''), (''lag'', JPosInt lag), (''max_lag'', JPosInt max_lag),
                       (''reason'', JString ''lag exceeds threshold'')])
               else (OK, JObject [(''state'', JString ''running''), (''role'', JString ''replica''), (''timeline'', json_opt (ns_timeline s)),
                       (''wal_position'', json_opt (ns_wal_position s)), (''lag'', json_opt (ns_replication_lag s))])
           | _ \<Rightarrow> (OK, JObject [(''state'', JString ''running''), (''role'', JString ''replica''), (''timeline'', json_opt (ns_timeline s)),
                     (''wal_position'', json_opt (ns_wal_position s)), (''lag'', json_opt (ns_replication_lag s))])))"

definition health_check :: "node_state \<Rightarrow> http_response" where
  "health_check s =
    (if ns_pg_running s then (OK, JObject [(''state'', JString ''running''), (''role'', JString (role_debug (ns_role s)))])
     else (SERVICE_UNAVAILABLE, state_and_role s))"

definition liveness :: "nat \<Rightarrow> node_state \<Rightarrow> http_response" where
  "liveness now s = ((if is_live now s then OK else SERVICE_UNAVAILABLE), JNull)"

definition health_standby_leader :: "node_state \<Rightarrow> http_response" where
  "health_standby_leader s =
    (if is_standby_leader s then (OK, JObject [(''role'', JString ''standby_leader'')])
     else (SERVICE_UNAVAILABLE, JObject [(''role'', JString (role_debug (ns_role s)))]))"

definition is_sync_standby :: "dcs_answers option \<Rightarrow> string \<Rightarrow> bool" where
  "is_sync_standby dcs node_name =
    (case dcs of
       None \<Rightarrow> False
     | Some d \<Rightarrow> (case da_cluster d of
                    Inl _ \<Rightarrow> False
                  | Inr cl \<Rightarrow> is_some_and (cl_sync_state cl) (\<lambda>sync. sync_matches sync node_name)))"

definition health_sync :: "router_state \<Rightarrow> http_response" where
  "health_sync rt =
    (let s = rt_app rt
     in if is_healthy_replica s \<and> is_sync_standby (rt_dcs rt) (ns_name s) then (OK, JObject [(''role'', JString ''sync_standby'')])
        else (SERVICE_UNAVAILABLE, JObject [(''role'', JString (role_debug (ns_role s)))]))"

definition health_async :: "router_state \<Rightarrow> http_response" where
  "health_async rt =
    (let s = rt_app rt
     in if is_healthy_replica s \<and> \<not> is_sync_standby (rt_dcs rt) (ns_name s) then (OK, JObject [(''role'', JString ''async_standby'')])
        else (SERVICE_UNAVAILABLE, JObject [(''role'', JString (role_debug (ns_role s)))]))"

definition node_status :: "node_state \<Rightarrow> http_response" where
  "node_status s =
    (OK, JObject [(''state'', JString (state_debug (ns_state s))), (''role'', JString (role_debug (ns_role s))),
       (''scope'', JString (ns_scope s)), (''name'', JString (ns_name s)), (''timeline'', json_opt (ns_timeline s)),
       (''wal_position'', json_opt (ns_wal_position s)), (''replication_lag'', json_opt (ns_replication_lag s)),
       (''paused'', JBool (ns_is_paused s)), (''pending_restart'', JBool (ns_pending_restart s)),
       (''pg_in_recovery'', (case ns_pg_in_recovery s of None \<Rightarrow> JNull | Some b \<Rightarrow> JBool b)), (''tags'', JObject (ns_tags s))])"

text \<open>The JSON of a topology node and of a history entry come from \<open>serde\<close> and are parameters.\<close>

definition get_cluster_endpoint :: "(cascade_node \<Rightarrow> json_value) \<Rightarrow> router_state \<Rightarrow> http_response" where
  "get_cluster_endpoint node_json rt =
    (OK, JObject [(''scope'', JString (ns_scope (rt_app rt))),
       (''members'', (case rt_dcs rt of
          None \<Rightarrow> JArray []
        | Some d \<Rightarrow> (case da_cluster d of
                       Inl _ \<Rightarrow> JArray []
                     | Inr cl \<Rightarrow> JArray (map node_json (build_cascade_topology cl)))))])"

definition get_history :: "(history_entry \<Rightarrow> json_value) \<Rightarrow> router_state \<Rightarrow> http_response" where
  "get_history entry_json rt =
    (case rt_dcs rt of
       None \<Rightarrow> (OK, JArray [])
     | Some d \<Rightarrow> (case da_history d of
                    Inl e \<Rightarrow> (SERVICE_UNAVAILABLE, JObject [(''error'', JString (''failed to read /history from the DCS: '' @ e))])
                  | Inr entries \<Rightarrow> (OK, JArray (map entry_json entries))))"

section \<open>Management endpoints\<close>

definition send_command :: "router_state \<Rightarrow> management_command \<Rightarrow> http_response \<times> effect" where
  "send_command rt cmd =
    (let answer = (\<lambda>status text. JObject [(''status'', JString status), (''message'', JString text)])
     in case rt_cmd_tx rt of
          None \<Rightarrow> ((SERVICE_UNAVAILABLE, answer ''error'' ''Command channel not available''), No_Effect)
        | Some (False, _) \<Rightarrow> ((INTERNAL_SERVER_ERROR, answer ''error'' ''Failed to send command to HA loop''), No_Effect)
        | Some (True, None) \<Rightarrow> ((INTERNAL_SERVER_ERROR, answer ''error'' ''No response from HA loop''), Sent cmd)
        | Some (True, Some (Accepted m)) \<Rightarrow> ((OK, answer ''accepted'' m), Sent cmd)
        | Some (True, Some (Rejected m)) \<Rightarrow> ((CONFLICT, answer ''rejected'' m), Sent cmd)
        | Some (True, Some (Command_Error m)) \<Rightarrow> ((INTERNAL_SERVER_ERROR, answer ''error'' m), Sent cmd))"

section \<open>Configuration endpoints\<close>

definition error_body :: "string \<Rightarrow> json_value" where
  "error_body e = JObject [(''error'', JString e)]"

text \<open>The text of a timing problem, as \<open>LeaseTiming::violation\<close> writes it.\<close>

fun timing_problem_text :: "lease_timing \<Rightarrow> timing_problem \<Rightarrow> string" where
  "timing_problem_text t Retry_Timeout_Zero = ''retry_timeout must be at least 1 second''"
| "timing_problem_text t (Ttl_Too_Small required) =
    ''ttl ('' @ dec_of_nat (unat (lt_ttl t)) @ '') must be >= loop_wait ('' @ dec_of_nat (unat (lt_loop_wait t)) @
    '') + retry_timeout ('' @ dec_of_nat (unat (lt_retry_timeout t)) @ '') + watchdog.safety_margin ('' @
    dec_of_nat (unat (lt_safety_margin t)) @ '') = '' @ dec_of_nat (unat required) @
    '': a primary that cannot renew the leader lock stops PostgreSQL ttl - safety_margin seconds '' @
    ''after its last renewal began, and one HA cycle plus one DCS write must fit in that time''"

definition reject_lease_timing :: "router_state \<Rightarrow> global_config \<Rightarrow> global_config \<Rightarrow> http_response option" where
  "reject_lease_timing rt current new =
    Option.bind (rt_lease_timing rt)
      (\<lambda>base. case check_lease_timing_change current new base of
                Inr _ \<Rightarrow> None
              | Inl problem \<Rightarrow> Some (BAD_REQUEST, error_body (''Rejected, configuration not changed: '' @
                  timing_problem_text (config_lease_timing new base) problem)))"

definition get_config :: "config_codec \<Rightarrow> router_state \<Rightarrow> http_response" where
  "get_config cd rt =
    (case rt_dcs rt of
       None \<Rightarrow> (SERVICE_UNAVAILABLE, error_body ''DCS not available'')
     | Some d \<Rightarrow>
         (case da_config d of
            Inl e \<Rightarrow> (INTERNAL_SERVER_ERROR, error_body (''Failed to read config from DCS: '' @ e))
          | Inr None \<Rightarrow> (OK, JObject [])
          | Inr (Some val) \<Rightarrow>
              (case cd_parse_config cd val of
                 Inr config \<Rightarrow> (OK, cd_to_value cd config)
               | Inl _ \<Rightarrow> (case cd_parse_value cd val of
                            Inr v \<Rightarrow> (OK, v)
                          | Inl e \<Rightarrow> (INTERNAL_SERVER_ERROR, error_body (''Invalid config in DCS: '' @ e))))))"

definition current_config :: "config_codec \<Rightarrow> string option \<Rightarrow> global_config" where
  "current_config cd stored =
    (case stored of None \<Rightarrow> default_config
     | Some val \<Rightarrow> (case cd_parse_config cd val of Inr c \<Rightarrow> c | Inl _ \<Rightarrow> default_config))"

definition write_config :: "config_codec \<Rightarrow> router_state \<Rightarrow> dcs_answers \<Rightarrow> global_config \<Rightarrow> global_config \<Rightarrow> http_response \<times> effect" where
  "write_config cd rt d current new =
    (case reject_lease_timing rt current new of
       Some rejected \<Rightarrow> (rejected, No_Effect)
     | None \<Rightarrow>
         ((case da_set_config d of
             Inr True \<Rightarrow> (OK, cd_to_value cd new)
           | Inr False \<Rightarrow> (CONFLICT, error_body ''Failed to write config to DCS'')
           | Inl e \<Rightarrow> (INTERNAL_SERVER_ERROR, error_body (''DCS write failed: '' @ e))),
          Wrote_Config (cd_print cd new)))"

definition put_config :: "config_codec \<Rightarrow> json_value \<Rightarrow> router_state \<Rightarrow> http_response \<times> effect" where
  "put_config cd body rt =
    (case rt_dcs rt of
       None \<Rightarrow> ((SERVICE_UNAVAILABLE, error_body ''DCS not available''), No_Effect)
     | Some d \<Rightarrow>
         (case cd_from_value cd body of
            Inl e \<Rightarrow> ((BAD_REQUEST, error_body (''Invalid config: '' @ e)), No_Effect)
          | Inr config \<Rightarrow>
              (case da_config d of
                 Inl e \<Rightarrow> ((INTERNAL_SERVER_ERROR, error_body (''Failed to read current config: '' @ e)), No_Effect)
               | Inr stored \<Rightarrow> write_config cd rt d (current_config cd stored) config)))"

definition patch_config :: "config_codec \<Rightarrow> global_config \<Rightarrow> json_value \<Rightarrow> (string, global_config) res" where
  "patch_config cd base patch = cd_from_value cd (merge_json_patch (cd_to_value cd base) patch)"

definition patch_config_endpoint :: "config_codec \<Rightarrow> json_value \<Rightarrow> router_state \<Rightarrow> http_response \<times> effect" where
  "patch_config_endpoint cd body rt =
    (case rt_dcs rt of
       None \<Rightarrow> ((SERVICE_UNAVAILABLE, error_body ''DCS not available''), No_Effect)
     | Some d \<Rightarrow>
         (case da_config d of
            Inl e \<Rightarrow> ((INTERNAL_SERVER_ERROR, error_body (''Failed to read current config: '' @ e)), No_Effect)
          | Inr stored \<Rightarrow>
              (case patch_config cd (current_config cd stored) body of
                 Inl e \<Rightarrow> ((BAD_REQUEST, error_body (''Invalid patch: '' @ e)), No_Effect)
               | Inr patched \<Rightarrow> write_config cd rt d (current_config cd stored) patched)))"

section \<open>Credentials and routes\<close>

text \<open>\<open>decode\<close>: Base64 to UTF-8 text, if valid; \<open>encode\<close>: text to Base64.\<close>

definition split_once :: "char \<Rightarrow> string \<Rightarrow> (string \<times> string) option" where
  "split_once c s = map_option (\<lambda>i. (take i s, drop (Suc i) s)) (find_char c s)"

definition authorized :: "(string \<Rightarrow> string option) \<Rightarrow> (string \<Rightarrow> string) \<Rightarrow> auth_config \<Rightarrow> string option \<Rightarrow> bool" where
  "authorized decode encode a header =
    (let user = unwrap_or (au_username a) []; pass = unwrap_or (au_password a) []
     in case header of
          None \<Rightarrow> False
        | Some v \<Rightarrow>
            (case strip_prefix_opt ''Basic '' v of
               Some encoded \<Rightarrow>
                 unwrap_or (map_option (\<lambda>(u, p). u = user \<and> p = pass)
                   (Option.bind (decode (str_trim encoded)) (split_once (CHR '':'')))) False
             | None \<Rightarrow>
                 (case strip_prefix_opt ''Bearer '' v of
                    Some token \<Rightarrow> str_trim token = encode (user @ '':'' @ pass)
                  | None \<Rightarrow> False)))"

datatype management_request =
    Post_Switchover "string option" "string option" "string option"
  | Delete_Switchover
  | Post_Failover "string option"
  | Post_Restart
  | Post_Reinitialize
  | Get_Config
  | Put_Config json_value
  | Patch_Config json_value

definition handle_management :: "config_codec \<Rightarrow> router_state \<Rightarrow> management_request \<Rightarrow> http_response \<times> effect" where
  "handle_management cd rt req =
    (case req of
       Post_Switchover l c at \<Rightarrow> send_command rt (Switchover l c at)
     | Delete_Switchover \<Rightarrow> send_command rt CancelSwitchover
     | Post_Failover c \<Rightarrow> send_command rt (Failover_Command c)
     | Post_Restart \<Rightarrow> send_command rt Restart
     | Post_Reinitialize \<Rightarrow> send_command rt Reinitialize
     | Get_Config \<Rightarrow> (get_config cd rt, No_Effect)
     | Put_Config body \<Rightarrow> put_config cd body rt
     | Patch_Config body \<Rightarrow> patch_config_endpoint cd body rt)"

definition basic_auth_middleware ::
  "(string \<Rightarrow> string option) \<Rightarrow> (string \<Rightarrow> string) \<Rightarrow> config_codec \<Rightarrow> router_state \<Rightarrow> string option \<Rightarrow> management_request \<Rightarrow> http_response \<times> effect" where
  "basic_auth_middleware decode encode cd rt header req =
    (if \<not> auth_enabled (rt_auth rt) \<or> authorized decode encode (rt_auth rt) header then handle_management cd rt req
     else ((UNAUTHORIZED, error_body ''Unauthorized''), No_Effect))"

section \<open>What the endpoints say during a run\<close>

text \<open>
  The node state after the calls of a run. The engine publishes from inside a cycle and after it; the times that
  \<open>ha_cycle\<close> also notes matter to \<open>/liveness\<close> and the metrics only.
\<close>

definition rest_state :: "node_state \<Rightarrow> call list \<Rightarrow> node_state" where
  "rest_state s tr = foldl (\<lambda>s c. case tc_event c of Ev_Publish snap \<Rightarrow> apply_ha_snapshot snap s | _ \<Rightarrow> s) s tr"

lemma told_not_primary_state: "told_not_primary tr \<Longrightarrow> \<not> ns_is_leader (rest_state s tr)"
proof -
  assume t: "told_not_primary tr"
  then obtain tr' c where tr: "tr = tr' @ [c]" by (cases tr rule: rev_cases) (auto simp: told_not_primary_def)
  then show ?thesis using t
    by (cases "tc_event c") (simp_all add: told_not_primary_def rest_state_def apply_ha_snapshot_def)
qed

text \<open>
  C12. \<open>/primary\<close> is down before the server is: whenever the engine stops a running server that was last observed
  writable, the endpoint already answers 503, so load balancers and the proxy see the node leave first (H1).
\<close>

theorem primary_unavailable_before_stop:
  "\<nexists>pre c post mode. calls_of (ha_main cycles i rounds drain again) s = pre @ c # post \<and>
     tc_event c = Ev_Stop mode (Some False) \<and> w_running (tc_world c) \<and>
     fst (health_primary (rest_state initial pre)) \<noteq> SERVICE_UNAVAILABLE"
proof (intro notI, elim exE conjE)
  fix pre c post mode
  assume c: "calls_of (ha_main cycles i rounds drain again) s = pre @ c # post" "tc_event c = Ev_Stop mode (Some False)"
    "w_running (tc_world c)" "fst (health_primary (rest_state initial pre)) \<noteq> SERVICE_UNAVAILABLE"
  have "told_not_primary pre" using guardedD(2) [OF process_guarded [OF c(1)] c(2,3)] by simp
  then show False using told_not_primary_state [of pre initial] c(4) by (simp add: health_primary_def is_primary_with_lock_def)
qed

text \<open>
  C11. \<open>/primary\<close> never answers 200 for another node's sake: every snapshot that makes it answer 200 was taken
  while this node was the leader, not shutting down, with PostgreSQL running and last observed out of recovery (H1).
\<close>

theorem primary_endpoint_is_honest:
  "\<nexists>pre c post snap. calls_of (ha_main cycles i rounds drain again) s = pre @ c # post \<and> tc_event c = Ev_Publish snap \<and>
     fst (health_primary (apply_ha_snapshot snap earlier)) = OK \<and>
     \<not> (h_is_leader (tc_ha c) \<and> w_running (tc_world c) \<and> pg_in_recovery (h_pg (tc_ha c)) = Some False \<and>
        \<not> h_shutting_down (tc_ha c))"
proof (intro notI, elim exE conjE, erule notE)
  fix pre c post snap
  assume c: "calls_of (ha_main cycles i rounds drain again) s = pre @ c # post" "tc_event c = Ev_Publish snap"
    "fst (health_primary (apply_ha_snapshot snap earlier)) = OK"
  have p: "as_is_leader snap" "as_state snap = Running" "as_pg_in_recovery snap = Some False" "\<not> as_shutting_down snap"
    using c(3) by (auto simp: health_primary_def is_primary_with_lock_def apply_ha_snapshot_def status_defs split: if_splits)
  have "snap = api_snapshot_of (tc_ha c) (tc_world c)"
    using process_guarded [OF c(1)] c(2) p(1) by (simp add: guarded_def)
  then show "h_is_leader (tc_ha c) \<and> w_running (tc_world c) \<and> pg_in_recovery (h_pg (tc_ha c)) = Some False \<and> \<not> h_shutting_down (tc_ha c)"
    using p by (auto simp: api_snapshot_of_def Let_def advertised_state_def advertised_state_of_def split: if_splits)
qed

text \<open>
  C28. A configuration written through the API of a node that was given its lease timing, as \<open>main\<close> does, came with valid
  credentials when both a user name and a password are configured (with only one of them the endpoints are open), and either it
  keeps the stored TTL, loop wait and retry timeout, or its retry timeout is not zero and a lease, which runs for the TTL less the
  safety margin, outlasts a loop wait and a retry timeout together. The check adds with saturation, so a TTL of exactly
  \<open>u64::MAX\<close> seconds passes it whatever the sum is (\<open>saturated_timing_passes\<close>); that TTL is the one exception to the bound.
\<close>

theorem written_config_fits_lease:
  assumes "snd (basic_auth_middleware decode encode cd rt header req) = Wrote_Config v" "rt_lease_timing rt = Some base"
  shows "(auth_enabled (rt_auth rt) = False \<or> authorized decode encode (rt_auth rt) header) \<and>
    (\<exists>d stored new. rt_dcs rt = Some d \<and> da_config d = Ok stored \<and> v = cd_print cd new \<and>
       (same_timing (current_config cd stored) new \<or> timing_fits (config_lease_timing new base)))"
proof
  show "auth_enabled (rt_auth rt) = False \<or> authorized decode encode (rt_auth rt) header"
    using assms(1) by (auto simp: basic_auth_middleware_def split: if_splits)
  have w: "v = cd_print cd new \<and> (same_timing current new \<or> timing_fits (config_lease_timing new base))"
    if "snd (write_config cd rt d current new) = Wrote_Config v" for d current new
    using that assms(2) accepted_change [of current new base]
    by (auto simp: write_config_def reject_lease_timing_def split: sum.splits)
  have "snd (handle_management cd rt req) = Wrote_Config v"
    using assms(1) by (auto simp: basic_auth_middleware_def split: if_splits)
  then show "\<exists>d stored new. rt_dcs rt = Some d \<and> da_config d = Ok stored \<and> v = cd_print cd new \<and>
       (same_timing (current_config cd stored) new \<or> timing_fits (config_lease_timing new base))"
    by (cases req) (fastforce simp: handle_management_def send_command_def put_config_def patch_config_endpoint_def Let_def
        dest!: w split: option.splits sum.splits prod.splits bool.splits command_response.splits)+
qed

definition example_codec :: config_codec where
  "example_codec = \<lparr>cd_parse_config = (\<lambda>_. Err []), cd_parse_value = (\<lambda>_. Err []),
     cd_from_value = (\<lambda>_. Ok (default_config\<lparr>gc_ttl := Some 40\<rparr>)), cd_to_value = (\<lambda>_. JObject []), cd_print = (\<lambda>_. ''c'')\<rparr>"

definition example_router :: router_state where
  "example_router = \<lparr>rt_app = new_node_state ''a'' ''s'' 30,
     rt_dcs = Some \<lparr>da_cluster = Err [], da_config = Ok None, da_set_config = Ok True, da_history = Err []\<rparr>,
     rt_lease_timing = Some \<lparr>lt_ttl = 30, lt_loop_wait = 10, lt_retry_timeout = 10, lt_safety_margin = 5\<rparr>,
     rt_cmd_tx = None, rt_auth = \<lparr>au_username = None, au_password = None\<rparr>\<rparr>"

theorem written_config_fits_lease_witness:
  "snd (basic_auth_middleware (\<lambda>_. None) (\<lambda>s. s) example_codec example_router None (Put_Config JNull)) = Wrote_Config ''c'' \<and>
   (\<exists>new. same_timing default_config new \<or>
      timing_fits (config_lease_timing new \<lparr>lt_ttl = 30, lt_loop_wait = 10, lt_retry_timeout = 10, lt_safety_margin = 5\<rparr>))"
proof -
  have e: "snd (basic_auth_middleware (\<lambda>_. None) (\<lambda>s. s) example_codec example_router None (Put_Config JNull)) = Wrote_Config ''c''"
    by (simp add: basic_auth_middleware_def example_router_def example_codec_def auth_enabled_def handle_management_def put_config_def
        write_config_def reject_lease_timing_def check_lease_timing_change_def config_lease_timing_def timing_violation_def
        saturating_add_def current_config_def default_config_def)
  then show ?thesis
    using written_config_fits_lease [OF e, of "\<lparr>lt_ttl = 30, lt_loop_wait = 10, lt_retry_timeout = 10, lt_safety_margin = 5\<rparr>"]
    by (auto simp: example_router_def current_config_def)
qed

text \<open>
  Credentials are asked for only when both a user name and a password are configured: with a user name alone
  every management request is served without any, although the guides promise authentication once the user name is set.
\<close>

theorem username_alone_leaves_api_open:
  assumes "au_password (rt_auth rt) = None" and "rt_cmd_tx rt = Some (True, reply)"
  shows "snd (basic_auth_middleware decode encode cd rt None Post_Reinitialize) = Sent Reinitialize"
  using assms
  by (auto simp: basic_auth_middleware_def auth_enabled_def handle_management_def send_command_def Let_def
      split: option.splits command_response.splits)

end
