(* ===== verification/Metrics.thy ===== *)
theory Metrics
  imports Rest_Api
begin

text \<open>
  \<open>GET /metrics\<close> (\<open>get_metrics\<close> of \<open>crates/pg-ha-api/src/routes/observability.rs\<close>): the published state in the text format of
  Prometheus. The seconds since the DCS was seen are a floating-point number; how it is printed is an
  argument.

  The lemma shows which samples a scrape reads: a value that is not known has none.
\<close>

fun role_label :: "member_role \<Rightarrow> string" where
  "role_label Primary = ''primary''"
| "role_label Replica = ''replica''"
| "role_label StandbyLeader = ''standbyleader''"
| "role_label Uninitialized = ''uninitialized''"

fun state_label :: "member_state \<Rightarrow> string" where
  "state_label Running = ''running''"
| "state_label Stopped = ''stopped''"
| "state_label Starting = ''starting''"
| "state_label Crashed = ''crashed''"
| "state_label Unknown = ''unknown''"

definition labelled :: "string \<Rightarrow> string \<Rightarrow> string \<Rightarrow> string" where
  "labelled metric label val = metric @ ''{'' @ label @ ''='' @ [CHR 0x22] @ val @ [CHR 0x22] @ ''} 1''"

definition optional_sample :: "string \<Rightarrow> u64 option \<Rightarrow> string list" where
  "optional_sample metric val = (case val of None \<Rightarrow> [] | Some v \<Rightarrow> [metric @ '' '' @ dec_of_nat (unat v)])"

definition flag_sample :: "string \<Rightarrow> bool \<Rightarrow> string" where
  "flag_sample metric b = metric @ '' '' @ (if b then ''1'' else ''0'')"

definition metric_lines :: "(nat option \<Rightarrow> string) \<Rightarrow> node_state \<Rightarrow> string list" where
  "metric_lines seconds s =
    [''# HELP pg_ha_node_role Current role of this node (1 = active for the labeled role)'',
     ''# TYPE pg_ha_node_role gauge'', labelled ''pg_ha_node_role'' ''role'' (role_label (ns_role s)),
     ''# HELP pg_ha_pg_state Current PostgreSQL state (1 = active for the labeled state)'',
     ''# TYPE pg_ha_pg_state gauge'', labelled ''pg_ha_pg_state'' ''state'' (state_label (ns_state s)),
     ''# HELP pg_ha_replication_lag_bytes Replication lag in bytes'', ''# TYPE pg_ha_replication_lag_bytes gauge''] @
    optional_sample ''pg_ha_replication_lag_bytes'' (ns_replication_lag s) @
    [''# HELP pg_ha_timeline Current PostgreSQL timeline'', ''# TYPE pg_ha_timeline gauge''] @
    optional_sample ''pg_ha_timeline'' (ns_timeline s) @
    [''# HELP pg_ha_dcs_last_seen_seconds Seconds since last successful DCS communication'',
     ''# TYPE pg_ha_dcs_last_seen_seconds gauge'', ''pg_ha_dcs_last_seen_seconds '' @ seconds (ns_dcs_last_seen s),
     ''# HELP pg_ha_pending_restart Whether a PostgreSQL restart is pending (1 = pending)'',
     ''# TYPE pg_ha_pending_restart gauge'', flag_sample ''pg_ha_pending_restart'' (ns_pending_restart s),
     ''# HELP pg_ha_is_paused Whether the cluster is in pause mode (1 = paused)'',
     ''# TYPE pg_ha_is_paused gauge'', flag_sample ''pg_ha_is_paused'' (ns_is_paused s)]"

definition get_metrics :: "(nat option \<Rightarrow> string) \<Rightarrow> router_state \<Rightarrow> nat \<times> string \<times> string" where
  "get_metrics seconds rt =
    (OK, ''text/plain; version=0.0.4; charset=utf-8'',
     concat (map (\<lambda>l. l @ [LF]) (metric_lines seconds (rt_app rt))))"

section \<open>What a scrape reads\<close>

definition clean_line :: "string \<Rightarrow> bool" where
  "clean_line l \<longleftrightarrow> LF \<notin> set l \<and> CR \<notin> set l"

lemma clean_simps [simp]:
  "clean_line []" "clean_line (c # l) \<longleftrightarrow> c \<noteq> LF \<and> c \<noteq> CR \<and> clean_line l"
  "clean_line (a @ b) \<longleftrightarrow> clean_line a \<and> clean_line b"
  by (auto simp: clean_line_def)

lemma clean_dec [simp]: "clean_line (dec_of_nat n)"
  using dec_of_nat_digits [of n] by (auto simp: clean_line_def LF_def CR_def list_all_iff is_digit_def)

lemma clean_labels [simp]: "clean_line (role_label r)" "clean_line (state_label st)"
  by (cases r; simp add: LF_def CR_def) (cases st; simp add: LF_def CR_def)

lemma clean_samples [simp]:
  "clean_line metric \<Longrightarrow> clean_line label \<Longrightarrow> clean_line v \<Longrightarrow> clean_line (labelled metric label v)"
  "clean_line metric \<Longrightarrow> clean_line (flag_sample metric b)"
  by (simp_all add: labelled_def flag_sample_def LF_def CR_def)

lemma clean_metric_lines:
  assumes "clean_line (seconds (ns_dcs_last_seen s))"
  shows "\<forall>l \<in> set (metric_lines seconds s). LF \<notin> set l \<and> CR \<notin> set l"
proof -
  have "\<forall>l \<in> set (metric_lines seconds s). clean_line l"
    using assms by (auto simp: metric_lines_def optional_sample_def LF_def CR_def split: option.splits)
  then show ?thesis by (simp add: clean_line_def)
qed

text \<open>
  A scrape of \<open>/metrics\<close> reads one sample for role, state, the age of the DCS contact and the two flags, and one for
  the lag and for the timeline exactly when they are known: an unknown value is never reported as zero.
\<close>

theorem metrics_omit_unknown:
  assumes "clean_line (seconds (ns_dcs_last_seen (rt_app rt)))"
  shows "filter (\<lambda>l. \<not> prefix ''#'' l) (str_lines (snd (snd (get_metrics seconds rt)))) =
    [labelled ''pg_ha_node_role'' ''role'' (role_label (ns_role (rt_app rt))),
     labelled ''pg_ha_pg_state'' ''state'' (state_label (ns_state (rt_app rt)))] @
    optional_sample ''pg_ha_replication_lag_bytes'' (ns_replication_lag (rt_app rt)) @
    optional_sample ''pg_ha_timeline'' (ns_timeline (rt_app rt)) @
    [''pg_ha_dcs_last_seen_seconds '' @ seconds (ns_dcs_last_seen (rt_app rt)),
     flag_sample ''pg_ha_pending_restart'' (ns_pending_restart (rt_app rt)), flag_sample ''pg_ha_is_paused'' (ns_is_paused (rt_app rt))]"
proof -
  have "str_lines (snd (snd (get_metrics seconds rt))) = metric_lines seconds (rt_app rt)"
    using clean_metric_lines [of seconds "rt_app rt"] assms by (simp add: get_metrics_def str_lines_concat)
  then show ?thesis
    by (simp add: metric_lines_def labelled_def flag_sample_def optional_sample_def split: option.splits)
qed

end
