(* ===== verification/Ctl.thy ===== *)
theory Ctl
  imports Rest_Api
begin

text \<open>
  The command line tool \<open>pg-ha-ctl\<close> (\<open>crates/pg-ha-ctl/src\<close>: \<open>main.rs\<close>, \<open>credentials.rs\<close>, \<open>tls.rs\<close>) and the
  route table it talks to (\<open>build_router_with_commands\<close> of \<open>crates/pg-ha-api/src/routes/mod.rs\<close>). The HTTP
  client, the TLS library, Base64 and the JSON parser are arguments; the requests, the answers and what
  the tool prints are data.

  The lemmas compose the tool with the endpoints of theory \<open>Rest_Api\<close>: a command with the right
  credentials has exactly the effect of its management request, and the exit code tells its outcome.
\<close>

section \<open>Credentials and TLS material\<close>

record credentials =
  cr_username :: string
  cr_password :: string

datatype credential_error = MissingUsername | MissingPassword

definition nonempty :: "string option \<Rightarrow> string option" where
  "nonempty val = (case val of Some t \<Rightarrow> (if t = [] then None else Some t) | None \<Rightarrow> None)"

definition or_else :: "'a option \<Rightarrow> 'a option \<Rightarrow> 'a option" where
  "or_else a b = (case a of Some x \<Rightarrow> Some x | None \<Rightarrow> b)"

definition resolve_credentials ::
  "string option \<Rightarrow> string option \<Rightarrow> string option \<Rightarrow> string option \<Rightarrow> (credential_error, credentials option) res" where
  "resolve_credentials flag_username flag_password env_username env_password =
    (case (or_else (nonempty flag_username) (nonempty env_username), or_else (nonempty flag_password) (nonempty env_password)) of
       (None, None) \<Rightarrow> Ok None
     | (Some _, None) \<Rightarrow> Err MissingPassword
     | (None, Some _) \<Rightarrow> Err MissingUsername
     | (Some u, Some p) \<Rightarrow> Ok (Some \<lparr>cr_username = u, cr_password = p\<rparr>))"

record tls_paths =
  tp_cacert :: "string option"
  tp_cert :: "string option"
  tp_key :: "string option"

datatype tls_path_error = MissingCert | MissingKey

definition resolve_tls_paths ::
  "string option \<Rightarrow> string option \<Rightarrow> string option \<Rightarrow> string option \<Rightarrow> string option \<Rightarrow> string option \<Rightarrow> (tls_path_error, tls_paths) res" where
  "resolve_tls_paths flag_cacert flag_cert flag_key env_cacert env_cert env_key =
    (let cacert = or_else (nonempty flag_cacert) (nonempty env_cacert);
         cert = or_else (nonempty flag_cert) (nonempty env_cert);
         key = or_else (nonempty flag_key) (nonempty env_key)
     in case (cert, key) of
          (Some _, None) \<Rightarrow> Err MissingKey
        | (None, Some _) \<Rightarrow> Err MissingCert
        | (cert, key) \<Rightarrow> Ok \<lparr>tp_cacert = cacert, tp_cert = cert, tp_key = key\<rparr>)"

record tls_library =
  tl_read :: "string \<Rightarrow> (string, bytes) res"
  tl_certificate :: "bytes \<Rightarrow> (string, unit) res"
  tl_identity :: "bytes \<Rightarrow> (string, unit) res"
  tl_build :: "(string, unit) res"

definition identity_pem :: "bytes \<Rightarrow> bytes \<Rightarrow> bytes" where
  "identity_pem key cert = (if suffix [0x0A] key then key else key @ [0x0A]) @ cert"

definition build_client :: "tls_library \<Rightarrow> tls_paths \<Rightarrow> (string, unit) res" where
  "build_client lib paths =
    and_then
      (case tp_cacert paths of
         None \<Rightarrow> Ok ()
       | Some path \<Rightarrow>
           and_then (map_err (\<lambda>e. ''failed to read CA certificate '' @ path @ '': '' @ e) (tl_read lib path))
             (\<lambda>pem. map_err (\<lambda>e. ''invalid CA certificate '' @ path @ '': '' @ e) (tl_certificate lib pem)))
      (\<lambda>_. and_then
        (case (tp_cert paths, tp_key paths) of
           (Some cert_path, Some key_path) \<Rightarrow>
             and_then (map_err (\<lambda>e. ''failed to read client key '' @ key_path @ '': '' @ e) (tl_read lib key_path))
               (\<lambda>key. and_then (map_err (\<lambda>e. ''failed to read client certificate '' @ cert_path @ '': '' @ e) (tl_read lib cert_path))
                 (\<lambda>cert. map_err (\<lambda>e. ''invalid client certificate '' @ cert_path @ '' or key '' @ key_path @ '': '' @ e)
                   (tl_identity lib (identity_pem key cert))))
         | _ \<Rightarrow> Ok ())
        (\<lambda>_. tl_build lib))"

section \<open>Requests and answers\<close>

datatype http_method = GET | POST | PUT | PATCH | DELETE

record ctl_request =
  cq_method :: http_method
  cq_url :: string
  cq_auth :: "string option"
  cq_body :: "json_value option"

definition apply_basic_auth :: "(string \<Rightarrow> string) \<Rightarrow> ctl_request \<Rightarrow> credentials option \<Rightarrow> ctl_request" where
  "apply_basic_auth encode req creds =
    (case creds of
       Some c \<Rightarrow> req\<lparr>cq_auth := Some (''Basic '' @ encode (cr_username c @ '':'' @ cr_password c))\<rparr>
     | None \<Rightarrow> req)"

text \<open>\<open>body["key"]\<close> is null for a missing key and for anything but an object.\<close>

fun json_index :: "json_value \<Rightarrow> string \<Rightarrow> json_value" where
  "json_index (JObject members) key = (case map_of members key of Some v \<Rightarrow> v | None \<Rightarrow> JNull)"
| "json_index _ key = JNull"

definition is_success :: "nat \<Rightarrow> bool" where
  "is_success status \<longleftrightarrow> 200 \<le> status \<and> status < 300"

definition format_http_result :: "nat \<Rightarrow> json_value \<Rightarrow> bool \<Rightarrow> (string, string) res" where
  "format_http_result status body sent_auth =
    (let detail = unwrap_or (or_else (as_str (json_index body ''error'')) (as_str (json_index body ''message''))) [];
         line = (if detail = [] then ''['' @ dec_of_nat status @ '']'' else ''['' @ dec_of_nat status @ ''] '' @ detail)
     in if is_success status then Ok line
        else if status = 401 \<and> \<not> sent_auth then
          Err (line @ [LF] @ ''set --username and --password, or PG_HA_USERNAME and PG_HA_PASSWORD'')
        else Err line)"

definition with_fallback :: "string \<Rightarrow> string \<Rightarrow> string" where
  "with_fallback line fallback = (if sublist ''] '' line then line else line @ '' '' @ fallback)"

text \<open>What sending gives: a transport error, or a status and the text of the body, whose reading may fail.\<close>

type_synonym 'w ctl_send = "ctl_request \<Rightarrow> 'w \<Rightarrow> (string, nat \<times> (string, string) res) res \<times> 'w"

definition ctl_read_body :: "(string \<Rightarrow> json_value option) \<Rightarrow> (string, nat \<times> (string, string) res) res \<Rightarrow> (string, nat \<times> json_value) res" where
  "ctl_read_body parse reply =
    and_then reply (\<lambda>(status, text). and_then text (\<lambda>t. Ok (status, unwrap_or (parse t) JNull)))"

definition send_line :: "(string \<Rightarrow> json_value option) \<Rightarrow> bool \<Rightarrow> (string, nat \<times> (string, string) res) res \<Rightarrow> (string, string) res" where
  "send_line parse sent_auth reply =
    and_then (ctl_read_body parse reply) (\<lambda>(status, body). format_http_result status body sent_auth)"

definition send_json :: "(string \<Rightarrow> json_value option) \<Rightarrow> bool \<Rightarrow> (string, nat \<times> (string, string) res) res \<Rightarrow> (string, json_value) res" where
  "send_json parse sent_auth reply =
    and_then (ctl_read_body parse reply)
      (\<lambda>(status, body). and_then (format_http_result status body sent_auth) (\<lambda>_. Ok body))"

section \<open>The commands\<close>

datatype ctl_command =
    Ctl_List
  | Ctl_Switchover "string option" "string option"
  | Ctl_Failover "string option"
  | Ctl_Restart
  | Ctl_Reinitialize
  | Ctl_Pause
  | Ctl_Resume

record cli =
  cl_endpoint :: string
  cl_username :: "string option"
  cl_password :: "string option"
  cl_cacert :: "string option"
  cl_cert :: "string option"
  cl_key :: "string option"
  cl_command :: ctl_command

definition json_string_opt :: "string option \<Rightarrow> json_value" where
  "json_string_opt v = (case v of None \<Rightarrow> JNull | Some s \<Rightarrow> JString s)"

fun command_method :: "ctl_command \<Rightarrow> http_method" where
  "command_method Ctl_List = GET"
| "command_method Ctl_Pause = PATCH"
| "command_method Ctl_Resume = PATCH"
| "command_method _ = POST"

fun command_path :: "ctl_command \<Rightarrow> string" where
  "command_path Ctl_List = ''/patroni''"
| "command_path (Ctl_Switchover l c) = ''/switchover''"
| "command_path (Ctl_Failover c) = ''/failover''"
| "command_path Ctl_Restart = ''/restart''"
| "command_path Ctl_Reinitialize = ''/reinitialize''"
| "command_path Ctl_Pause = ''/config''"
| "command_path Ctl_Resume = ''/config''"

fun command_body :: "ctl_command \<Rightarrow> json_value option" where
  "command_body (Ctl_Switchover l c) = Some (JObject [(''leader'', json_string_opt l), (''candidate'', json_string_opt c)])"
| "command_body (Ctl_Failover c) = Some (JObject [(''candidate'', json_string_opt c)])"
| "command_body Ctl_Pause = Some (JObject [(''pause'', JBool True)])"
| "command_body Ctl_Resume = Some (JObject [(''pause'', JBool False)])"
| "command_body _ = None"

definition pad_right :: "nat \<Rightarrow> string \<Rightarrow> string" where
  "pad_right w s = s @ replicate (w - length s) (CHR '' '')"

definition list_row :: "string \<Rightarrow> string \<Rightarrow> string \<Rightarrow> string" where
  "list_row name role state = ''  '' @ pad_right 10 name @ '' '' @ pad_right 10 role @ '' '' @ pad_right 10 state"

definition list_output :: "json_value \<Rightarrow> string list" where
  "list_output body =
    (let field = (\<lambda>k. unwrap_or (as_str (json_index body k)) ''?'')
     in [''+ Cluster: '' @ field ''scope'', list_row ''Name'' ''Role'' ''State'',
         list_row (field ''name'') (field ''role'') (field ''state'')])"

fun command_output :: "ctl_command \<Rightarrow> string \<Rightarrow> string list" where
  "command_output Ctl_Pause line = [with_fallback line ''Pause requested'']"
| "command_output Ctl_Resume line = [with_fallback line ''Resume requested'']"
| "command_output _ line = [line]"

text \<open>The end of the program: its exit code, what it printed and what it reported on standard error.\<close>

record ctl_end =
  ce_code :: int
  ce_stdout :: "string list"
  ce_stderr :: "string list"

definition failed :: "int \<Rightarrow> string \<Rightarrow> ctl_end" where
  "failed code msg = \<lparr>ce_code = code, ce_stdout = [], ce_stderr = [msg]\<rparr>"

fun credential_message :: "credential_error \<Rightarrow> string" where
  "credential_message MissingUsername = ''username is required when a password is set; pass --username or set PG_HA_USERNAME''"
| "credential_message MissingPassword = ''password is required when a username is set; pass --password or set PG_HA_PASSWORD''"

fun tls_path_message :: "tls_path_error \<Rightarrow> string" where
  "tls_path_message MissingCert = ''client certificate is required when a client key is set; pass --cert or set PG_HA_CERT''"
| "tls_path_message MissingKey = ''client key is required when a client certificate is set; pass --key or set PG_HA_KEY''"

definition perform_command ::
  "(string \<Rightarrow> string) \<Rightarrow> (string \<Rightarrow> json_value option) \<Rightarrow> 'w ctl_send \<Rightarrow> cli \<Rightarrow> credentials option \<Rightarrow> 'w \<Rightarrow> ctl_end \<times> 'w" where
  "perform_command encode parse send c creds w =
    (let cmd = cl_command c;
         req = apply_basic_auth encode
           \<lparr>cq_method = command_method cmd, cq_url = cl_endpoint c @ command_path cmd, cq_auth = None, cq_body = command_body cmd\<rparr> creds
     in case send req w of
          (reply, w') \<Rightarrow>
            (case (if cmd = Ctl_List then map_sum id list_output (send_json parse (creds \<noteq> None) reply)
                   else map_sum id (command_output cmd) (send_line parse (creds \<noteq> None) reply)) of
               Inl e \<Rightarrow> (failed 1 e, w')
             | Inr out \<Rightarrow> (\<lparr>ce_code = 0, ce_stdout = out, ce_stderr = []\<rparr>, w')))"

definition ctl_run ::
  "(string \<Rightarrow> string) \<Rightarrow> (string \<Rightarrow> json_value option) \<Rightarrow> tls_library \<Rightarrow> 'w ctl_send \<Rightarrow> (string \<Rightarrow> string option) \<Rightarrow> cli \<Rightarrow> 'w \<Rightarrow> ctl_end \<times> 'w" where
  "ctl_run encode parse lib send env c w =
    (case resolve_credentials (cl_username c) (cl_password c) (env ''PG_HA_USERNAME'') (env ''PG_HA_PASSWORD'') of
       Inl e \<Rightarrow> (failed 2 (credential_message e), w)
     | Inr creds \<Rightarrow>
         (case resolve_tls_paths (cl_cacert c) (cl_cert c) (cl_key c) (env ''PG_HA_CACERT'') (env ''PG_HA_CERT'') (env ''PG_HA_KEY'') of
            Inl e \<Rightarrow> (failed 2 (tls_path_message e), w)
          | Inr paths \<Rightarrow>
              (case build_client lib paths of
                 Inl e \<Rightarrow> (failed 1 e, w)
               | Inr _ \<Rightarrow> perform_command encode parse send c creds w)))"

section \<open>The route table\<close>

datatype endpoint =
    Ep_Primary | Ep_Replica | Ep_Health | Ep_Liveness | Ep_Standby_Leader | Ep_Sync | Ep_Async
  | Ep_Status | Ep_Cluster | Ep_Metrics | Ep_History

definition health_routes :: "(string \<times> endpoint) list" where
  "health_routes =
    [(''/primary'', Ep_Primary), (''/'', Ep_Primary), (''/read-write'', Ep_Primary), (''/replica'', Ep_Replica),
     (''/health'', Ep_Health), (''/liveness'', Ep_Liveness), (''/standby-leader'', Ep_Standby_Leader),
     (''/synchronous'', Ep_Sync), (''/sync'', Ep_Sync), (''/asynchronous'', Ep_Async), (''/async'', Ep_Async),
     (''/patroni'', Ep_Status), (''/cluster'', Ep_Cluster), (''/metrics'', Ep_Metrics), (''/history'', Ep_History)]"

text \<open>An optional text field of a request body: missing and null are the same, any other type is refused.\<close>

fun opt_field :: "string \<Rightarrow> json_value \<Rightarrow> string option option" where
  "opt_field key (JObject members) =
    (case map_of members key of
       None \<Rightarrow> Some None | Some JNull \<Rightarrow> Some None | Some (JString s) \<Rightarrow> Some (Some s) | Some _ \<Rightarrow> None)"
| "opt_field key _ = None"

definition switchover_request :: "json_value \<Rightarrow> management_request option" where
  "switchover_request body =
    (case (opt_field ''leader'' body, opt_field ''candidate'' body, opt_field ''scheduled_at'' body) of
       (Some l, Some c, Some at) \<Rightarrow> Some (Post_Switchover l c at) | _ \<Rightarrow> None)"

definition failover_request :: "json_value \<Rightarrow> management_request option" where
  "failover_request body = map_option Post_Failover (opt_field ''candidate'' body)"

text \<open>The management routes: \<open>None\<close> is no such path or method, \<open>Some None\<close> a body the extractor refuses.\<close>

definition management_route :: "http_method \<Rightarrow> string \<Rightarrow> json_value option \<Rightarrow> management_request option option" where
  "management_route m path body =
    (if path = ''/switchover'' then
       (if m = POST then Some (Option.bind body switchover_request)
        else if m = DELETE then Some (Some Delete_Switchover) else None)
     else if path = ''/failover'' \<and> m = POST then Some (Option.bind body failover_request)
     else if path = ''/restart'' \<and> m = POST then Some (Some Post_Restart)
     else if path = ''/reinitialize'' \<and> m = POST then Some (Some Post_Reinitialize)
     else if path = ''/config'' then
       (if m = GET then Some (Some Get_Config)
        else if m = PUT then Some (map_option Put_Config body)
        else if m = PATCH then Some (map_option Patch_Config body) else None)
     else None)"

text \<open>
  The server at \<open>base\<close>. Management routes pass the credentials check before their body is read; \<open>health\<close>
  gives the answers of the open endpoints and \<open>refuse\<close> the framework's own.
\<close>

definition api_serve ::
  "(string \<Rightarrow> string option) \<Rightarrow> (string \<Rightarrow> string) \<Rightarrow> config_codec \<Rightarrow> (json_value \<Rightarrow> string) \<Rightarrow> (endpoint \<Rightarrow> http_response) \<Rightarrow>
   (nat \<Rightarrow> nat \<times> string) \<Rightarrow> string \<Rightarrow> router_state \<Rightarrow> effect ctl_send" where
  "api_serve decode encode cd print health refuse base rt req w =
    (if \<not> prefix base (cq_url req) then (Err ''connection refused'', w)
     else
       let path = drop (length base) (cq_url req);
           json = (\<lambda>(status, body). Ok (status, Ok (print body)));
           refused = (\<lambda>status. Ok (map_prod id Ok (refuse status)))
       in case management_route (cq_method req) path (cq_body req) of
            Some (Some m) \<Rightarrow>
              (case basic_auth_middleware decode encode cd rt (cq_auth req) m of (answer, eff) \<Rightarrow> (json answer, eff))
          | Some None \<Rightarrow>
              (if auth_enabled (rt_auth rt) \<and> \<not> authorized decode encode (rt_auth rt) (cq_auth req)
               then (json (UNAUTHORIZED, error_body ''Unauthorized''), w) else (refused 422, w))
          | None \<Rightarrow>
              (case map_of health_routes path of
                 Some ep \<Rightarrow> (if cq_method req = GET
                            then (json (if ep = Ep_Status then node_status (rt_app rt) else health ep), w)
                            else (refused 405, w))
               | None \<Rightarrow> (refused 404, w)))"

section \<open>A command is its management request\<close>

fun intended :: "ctl_command \<Rightarrow> management_request option" where
  "intended Ctl_List = None"
| "intended (Ctl_Switchover l c) = Some (Post_Switchover l c None)"
| "intended (Ctl_Failover c) = Some (Post_Failover c)"
| "intended Ctl_Restart = Some Post_Restart"
| "intended Ctl_Reinitialize = Some Post_Reinitialize"
| "intended Ctl_Pause = Some (Patch_Config (JObject [(''pause'', JBool True)]))"
| "intended Ctl_Resume = Some (Patch_Config (JObject [(''pause'', JBool False)]))"

lemma command_routed:
  assumes "intended cmd = Some m"
  shows "management_route (command_method cmd) (command_path cmd) (command_body cmd) = Some (Some m)"
  using assms by (cases cmd) (auto simp: management_route_def switchover_request_def failover_request_def json_string_opt_def
      split: option.splits)

definition joined :: "string \<Rightarrow> string \<Rightarrow> string" where
  "joined u p = u @ CHR '':'' # p"

lemma split_once_iff: "split_once c s = Some (a, b) \<longleftrightarrow> s = a @ c # b \<and> c \<notin> set a"
proof
  assume "s = a @ c # b \<and> c \<notin> set a"
  then show "split_once c s = Some (a, b)" by (simp add: split_once_def find_char_append)
next
  show "split_once c s = Some (a, b) \<Longrightarrow> s = a @ c # b \<and> c \<notin> set a"
  proof (induction s arbitrary: a)
    case (Cons x s)
    then show ?case by (cases a) (auto simp: split_once_def split: if_splits)
  qed (simp add: split_once_def)
qed

lemma basic_credentials:
  assumes "\<And>x. decode (encode x) = Some x" "\<And>x. str_trim (encode x) = encode x"
    and "au_username a = Some user" "au_password a = Some pass"
  shows "authorized decode encode a (Some (''Basic '' @ encode (joined u p))) \<longleftrightarrow>
    joined u p = joined user pass \<and> CHR '':'' \<notin> set user"
proof -
  have "authorized decode encode a (Some (''Basic '' @ encode (joined u p))) \<longleftrightarrow>
      split_once (CHR '':'') (joined u p) = Some (user, pass)"
    using assms by (auto simp: authorized_def strip_prefix_opt_def unwrap_or_def Let_def split: option.splits)
  then show ?thesis by (simp add: split_once_iff) (auto simp: joined_def)
qed

lemma format_http_result_ok: "is_ok (format_http_result status body sent) \<longleftrightarrow> is_success status"
  by (simp add: format_http_result_def Let_def)

text \<open>What the tool makes of an answer the server wrote: the exit code is the success of the status.\<close>

lemma perform_command_answer:
  assumes "send (apply_basic_auth encode \<lparr>cq_method = command_method (cl_command c),
      cq_url = cl_endpoint c @ command_path (cl_command c), cq_auth = None, cq_body = command_body (cl_command c)\<rparr> creds) w =
      (Ok (status, Ok text), w')"
  shows "ce_code (fst (perform_command encode parse send c creds w)) = (if is_success status then 0 else 1) \<and>
    snd (perform_command encode parse send c creds w) = w'"
  using assms format_http_result_ok [of status "unwrap_or (parse text) JNull" "creds \<noteq> None"]
  by (auto simp: perform_command_def send_line_def send_json_def ctl_read_body_def failed_def is_ok_def Let_def
      split: sum.splits)

text \<open>The request of a management command, served: the credentials decide, then the request is handled.\<close>

lemma command_served:
  assumes "intended (cl_command c) = Some m"
  shows "api_serve decode encode cd print health refuse (cl_endpoint c) rt
      (apply_basic_auth encode \<lparr>cq_method = command_method (cl_command c), cq_url = cl_endpoint c @ command_path (cl_command c),
         cq_auth = None, cq_body = command_body (cl_command c)\<rparr> creds) w =
    (case basic_auth_middleware decode encode cd rt
        (map_option (\<lambda>k. ''Basic '' @ encode (joined (cr_username k) (cr_password k))) creds) m of
       ((status, body), eff) \<Rightarrow> (Ok (status, Ok (print body)), eff))"
  using command_routed [OF assms]
  by (cases creds) (simp_all add: api_serve_def apply_basic_auth_def joined_def Let_def split: prod.splits)

text \<open>
  What the server takes for its credentials: it splits the text \<open>user:password\<close> it is sent at the first colon. So
  a pair that is the configured one as joined text is accepted, and none is when the configured user name has a colon.
\<close>

definition accepts_credentials :: "auth_config \<Rightarrow> credentials option \<Rightarrow> bool" where
  "accepts_credentials a creds \<longleftrightarrow>
    \<not> auth_enabled a \<or>
    (case (creds, au_username a, au_password a) of
       (Some k, Some user, Some pass) \<Rightarrow> CHR '':'' \<notin> set user \<and> joined (cr_username k) (cr_password k) = joined user pass
     | _ \<Rightarrow> False)"

lemma answer_by_credentials:
  assumes base64: "\<And>x. decode (encode x) = Some x" "\<And>x. str_trim (encode x) = encode x"
  shows "basic_auth_middleware decode encode cd rt
      (map_option (\<lambda>k. ''Basic '' @ encode (joined (cr_username k) (cr_password k))) creds) m =
    (if accepts_credentials (rt_auth rt) creds then handle_management cd rt m
     else ((UNAUTHORIZED, error_body ''Unauthorized''), No_Effect))"
proof (cases "auth_enabled (rt_auth rt)")
  case True
  then obtain user pass where "au_username (rt_auth rt) = Some user" "au_password (rt_auth rt) = Some pass" by (auto simp: auth_enabled_def)
  then show ?thesis using True basic_credentials [OF base64]
    by (cases creds) (auto simp: basic_auth_middleware_def accepts_credentials_def authorized_def)
qed (simp add: basic_auth_middleware_def accepts_credentials_def)

text \<open>
  C33. A command of \<open>pg-ha-ctl\<close> is exactly its management request. With half a pair of credentials, or half a pair of certificate
  and key, it exits with two, and with a TLS client that cannot be built it exits with one, before anything is
  sent. Otherwise the server either accepts the credentials, and then the effect on the node is that of the request
  \<open>intended\<close> by the command and the exit code is zero exactly when the server answered with success; or it does not, and
  then the command has no effect and exits with one. It accepts them when authentication is off, which it is unless both a user
  name and a password are configured, or when the configured user name has no colon and the pair sent is the configured
  one as the text \<open>
  C33. user:password\<close>. Base64 is assumed to read back what it writes and to write no space, and the
  request to reach the server.
\<close>

theorem ctl_command_is_its_request:
  assumes base64: "\<And>x. decode (encode x) = Some x" "\<And>x. str_trim (encode x) = encode x"
    and m: "intended (cl_command c) = Some m"
    and run: "ctl_run encode parse lib (api_serve decode encode cd print health refuse (cl_endpoint c) rt) env c No_Effect = (fin, eff)"
  shows "case (resolve_credentials (cl_username c) (cl_password c) (env ''PG_HA_USERNAME'') (env ''PG_HA_PASSWORD''),
        resolve_tls_paths (cl_cacert c) (cl_cert c) (cl_key c) (env ''PG_HA_CACERT'') (env ''PG_HA_CERT'') (env ''PG_HA_KEY'')) of
      (Inr creds, Inr paths) \<Rightarrow>
        if \<not> is_ok (build_client lib paths) then eff = No_Effect \<and> ce_code fin = 1
        else if accepts_credentials (rt_auth rt) creds
        then eff = snd (handle_management cd rt m) \<and> ce_code fin = (if is_success (fst (fst (handle_management cd rt m))) then 0 else 1)
        else eff = No_Effect \<and> ce_code fin = 1
    | _ \<Rightarrow> eff = No_Effect \<and> ce_code fin = 2"
proof (cases "\<exists>creds paths u. resolve_credentials (cl_username c) (cl_password c) (env ''PG_HA_USERNAME'') (env ''PG_HA_PASSWORD'') = Inr creds \<and>
    resolve_tls_paths (cl_cacert c) (cl_cert c) (cl_key c) (env ''PG_HA_CACERT'') (env ''PG_HA_CERT'') (env ''PG_HA_KEY'') = Inr paths \<and>
    build_client lib paths = Inr u")
  case False
  then show ?thesis using run by (auto simp: ctl_run_def failed_def is_ok_def split: sum.splits)
next
  case True
  then obtain creds paths u where r: "resolve_credentials (cl_username c) (cl_password c) (env ''PG_HA_USERNAME'') (env ''PG_HA_PASSWORD'') = Inr creds"
    "resolve_tls_paths (cl_cacert c) (cl_cert c) (cl_key c) (env ''PG_HA_CACERT'') (env ''PG_HA_CERT'') (env ''PG_HA_KEY'') = Inr paths"
    "build_client lib paths = Inr u" by blast
  let ?send = "api_serve decode encode cd print health refuse (cl_endpoint c) rt"
  let ?header = "map_option (\<lambda>k. ''Basic '' @ encode (joined (cr_username k) (cr_password k))) creds"
  let ?answer = "basic_auth_middleware decode encode cd rt ?header m"
  obtain status body eff' where b: "?answer = ((status, body), eff')" by (cases ?answer) auto
  have "perform_command encode parse ?send c creds No_Effect = (fin, eff)" using run r by (simp add: ctl_run_def)
  then have "ce_code fin = (if is_success (fst (fst ?answer)) then 0 else 1) \<and> eff = snd ?answer"
    using perform_command_answer [of ?send encode c creds No_Effect status "print body" eff' parse]
      command_served [OF m, of decode encode cd print health refuse rt creds No_Effect] b by simp
  then show ?thesis
    unfolding answer_by_credentials [OF base64] r using r(3) by (simp add: UNAUTHORIZED_def is_success_def is_ok_def)
qed

definition demo_encode :: "string \<Rightarrow> string" where
  "demo_encode x = ''='' @ x @ ''=''"

definition demo_decode :: "string \<Rightarrow> string option" where
  "demo_decode t = Some (butlast (tl t))"

definition demo_cli :: cli where
  "demo_cli = \<lparr>cl_endpoint = ''http://h'', cl_username = Some ''u'', cl_password = Some ''p'', cl_cacert = None, cl_cert = None,
     cl_key = None, cl_command = Ctl_Restart\<rparr>"

definition demo_tls :: tls_library where
  "demo_tls = \<lparr>tl_read = (\<lambda>_. Err []), tl_certificate = (\<lambda>_. Ok ()), tl_identity = (\<lambda>_. Ok ()), tl_build = Ok ()\<rparr>"

definition demo_api :: router_state where
  "demo_api = example_router\<lparr>rt_auth := \<lparr>au_username = Some ''u'', au_password = Some ''p''\<rparr>,
     rt_cmd_tx := Some (True, Some (Accepted ''ok''))\<rparr>"

theorem ctl_command_is_its_request_witness:
  "\<exists>fin. ctl_run demo_encode (\<lambda>_. None) demo_tls
       (api_serve demo_decode demo_encode example_codec (\<lambda>_. []) (\<lambda>_. (200, JNull)) (\<lambda>n. (n, [])) ''http://h'' demo_api)
       (\<lambda>_. None) demo_cli No_Effect = (fin, Sent Restart) \<and> ce_code fin = 0"
proof -
  let ?run = "ctl_run demo_encode (\<lambda>_. None) demo_tls
       (api_serve demo_decode demo_encode example_codec (\<lambda>_. []) (\<lambda>_. (200, JNull)) (\<lambda>n. (n, [])) (cl_endpoint demo_cli) demo_api)
       (\<lambda>_. None) demo_cli No_Effect"
  obtain fin eff where run: "?run = (fin, eff)" by fastforce
  have code: "demo_decode (demo_encode x) = Some x" "str_trim (demo_encode x) = demo_encode x" for x
    by (simp_all add: demo_encode_def demo_decode_def str_trim_id is_ascii_space_def)
  have cli: "resolve_credentials (cl_username demo_cli) (cl_password demo_cli) None None = Ok (Some \<lparr>cr_username = ''u'', cr_password = ''p''\<rparr>)"
    "resolve_tls_paths (cl_cacert demo_cli) (cl_cert demo_cli) (cl_key demo_cli) None None None = Ok \<lparr>tp_cacert = None, tp_cert = None, tp_key = None\<rparr>"
    "build_client demo_tls \<lparr>tp_cacert = None, tp_cert = None, tp_key = None\<rparr> = Ok ()"
    by (simp_all add: demo_cli_def demo_tls_def resolve_credentials_def resolve_tls_paths_def build_client_def or_else_def nonempty_def)
  have srv: "accepts_credentials (rt_auth demo_api) (Some \<lparr>cr_username = ''u'', cr_password = ''p''\<rparr>)"
    "handle_management example_codec demo_api Post_Restart =
       ((OK, JObject [(''status'', JString ''accepted''), (''message'', JString ''ok'')]), Sent Restart)"
    by (simp_all add: demo_api_def accepts_credentials_def joined_def handle_management_def send_command_def)
  show ?thesis
    using ctl_command_is_its_request [OF code _ run, of Post_Restart] cli srv run
    by (simp add: OK_def is_success_def is_ok_def) (simp add: demo_cli_def)
qed

text \<open>
  \<open>list\<close> shows one row, that of the node asked, whatever the members of the cluster are; the option is
  described as showing the cluster members.
\<close>

theorem list_shows_one_node:
  "length (list_output (snd (node_status s))) = 3 \<and>
   list_output (snd (node_status s)) ! 2 = list_row (ns_name s) (role_debug (ns_role s)) (state_debug (ns_state s))"
  by (simp add: list_output_def node_status_def unwrap_or_def Let_def)

text \<open>
  The server cannot tell two pairs with the same joined text apart: \<open>a:b\<close> with \<open>c\<close> passes for \<open>a\<close> with \<open>b:c\<close>.
\<close>

lemma joined_text_decides:
  "accepts_credentials \<lparr>au_username = Some ''a'', au_password = Some ''b:c''\<rparr> (Some \<lparr>cr_username = ''a:b'', cr_password = ''c''\<rparr>)"
  by (simp add: accepts_credentials_def joined_def)

text \<open>
  A server configured with a user name that contains a colon accepts no Basic credentials at all, the
  tool's with that very name included.
\<close>

theorem colon_username_is_locked_out:
  assumes "\<And>x. decode (encode x) = Some x" "\<And>x. str_trim (encode x) = encode x"
    and "au_username a = Some user" "au_password a = Some pass" "CHR '':'' \<in> set user"
  shows "\<not> authorized decode encode a (Some (''Basic '' @ encode (joined u p)))"
  using basic_credentials [OF assms(1-4)] assms(5) by simp

end
