(* ===== verification/Proxy.thy ===== *)
theory Proxy
  imports Sync_Replication "HOL-Library.AList"
begin

text \<open>
  The TCP proxy: its backend list, the health checker with its \<open>fall\<close> and \<open>rise\<close> counters and the choice of a
  backend for a connection (\<open>crates/pg-ha-proxy/src/proxy.rs\<close>), and the part of \<open>src/main.rs\<close> that turns the
  published members into backends. A \<open>HashMap\<close> is an association list; the order of its values is the order
  of the list, and the properties hold for every order. Probes are arguments. The semaphore and
  the shutdown channel of a backend are created together when it is registered; their identity is a
  number, and a signal sent on a channel is an output.

  The lemmas show that the health flag is the hysteresis of the probe results, that along any interleaving
  of member lists and rounds a connection on the read-write port goes to a backend confirmed as primary, and where the code falls
  short: the backend list taken over unprobed while no backend is registered, a backend that is registered again, and the
  sessions of a new primary that are shut down.
\<close>

section \<open>Configuration and state\<close>

record health_check_config =
  hk_interval :: nat
  hk_fall :: u32
  hk_rise :: u32
  hk_timeout :: nat
  hk_max_connections :: nat
  hk_shutdown_on_down :: bool

definition default_health_check_config :: health_check_config where
  "default_health_check_config =
    \<lparr>hk_interval = 3000, hk_fall = 3, hk_rise = 2, hk_timeout = 5000, hk_max_connections = 300, hk_shutdown_on_down = True\<rparr>"

type_synonym socket_addr = string

record pg_backend =
  be_addr :: socket_addr
  be_name :: string
  be_is_primary :: bool
  be_is_healthy :: bool
  be_api_url :: string

record backend_health =
  bh_addr :: socket_addr
  bh_api_url :: string
  bh_name :: string
  bh_rw_healthy :: bool
  bh_ro_healthy :: bool
  bh_rw_fail_count :: u32
  bh_rw_success_count :: u32
  bh_ro_fail_count :: u32
  bh_ro_success_count :: u32
  bh_last_probe_error_log :: "nat option"
  bh_channel :: nat

type_synonym upstream_state = "pg_backend list"
type_synonym health_map = "(string \<times> backend_health) list"

definition primary_backend :: "upstream_state \<Rightarrow> pg_backend option" where
  "primary_backend bs = find (\<lambda>b. be_is_primary b \<and> be_is_healthy b) bs"

definition replica_backends :: "upstream_state \<Rightarrow> pg_backend list" where
  "replica_backends bs = filter (\<lambda>b. \<not> be_is_primary b \<and> be_is_healthy b) bs"

record proxy =
  px_upstream :: upstream_state
  px_health :: health_map
  px_next_channel :: nat

definition new_proxy :: proxy where
  "new_proxy = \<lparr>px_upstream = [], px_health = [], px_next_channel = 0\<rparr>"

section \<open>Registration\<close>

definition new_backend_health :: "pg_backend \<Rightarrow> nat \<Rightarrow> backend_health" where
  "new_backend_health b channel =
    \<lparr>bh_addr = be_addr b, bh_api_url = be_api_url b, bh_name = be_name b, bh_rw_healthy = False, bh_ro_healthy = False,
     bh_rw_fail_count = 0, bh_rw_success_count = 0, bh_ro_fail_count = 0, bh_ro_success_count = 0,
     bh_last_probe_error_log = None, bh_channel = channel\<rparr>"

definition register_backend :: "pg_backend \<Rightarrow> proxy \<Rightarrow> proxy" where
  "register_backend b p =
    (if be_api_url b = [] then p
     else (case map_of (px_health p) (be_name b) of
             Some existing \<Rightarrow>
               p\<lparr>px_health := AList.update (be_name b)
                   (existing\<lparr>bh_addr := be_addr b, bh_api_url := be_api_url b\<rparr>) (px_health p)\<rparr>
           | None \<Rightarrow>
               p\<lparr>px_health := AList.update (be_name b) (new_backend_health b (px_next_channel p)) (px_health p),
                 px_next_channel := Suc (px_next_channel p)\<rparr>))"

definition update_backends :: "pg_backend list \<Rightarrow> proxy \<Rightarrow> proxy" where
  "update_backends backends p =
    (let p1 = (if px_health p = [] then p\<lparr>px_upstream := backends\<rparr> else p);
         p2 = fold register_backend backends p1
     in p2\<lparr>px_health := filter (\<lambda>(name, _). name \<in> set (map be_name backends)) (px_health p2)\<rparr>)"

section \<open>Health checks\<close>

definition PROBE_ERROR_LOG_INTERVAL :: nat where "PROBE_ERROR_LOG_INTERVAL = 60000"

definition probe_error_log_due :: "nat option \<Rightarrow> nat \<Rightarrow> nat \<Rightarrow> bool \<Rightarrow> bool \<times> nat option" where
  "probe_error_log_due prev now interval had_error =
    (if \<not> had_error then (False, None)
     else (case prev of
             Some t \<Rightarrow> if now - t < interval then (False, prev) else (True, Some now)
           | None \<Rightarrow> (True, Some now)))"

text \<open>One probe result: the flag with its failure and success counters. The counters are \<open>u32\<close> and wrap.\<close>

type_synonym health_counters = "bool \<times> u32 \<times> u32"

fun count_probe :: "health_check_config \<Rightarrow> bool \<Rightarrow> health_counters \<Rightarrow> health_counters" where
  "count_probe cfg True (healthy, fails, successes) =
    (healthy \<or> hk_rise cfg \<le> successes + 1, 0, successes + 1)"
| "count_probe cfg False (healthy, fails, successes) =
    (healthy \<and> \<not> hk_fall cfg \<le> fails + 1, fails + 1, 0)"

definition rw_counters :: "backend_health \<Rightarrow> health_counters" where
  "rw_counters b = (bh_rw_healthy b, bh_rw_fail_count b, bh_rw_success_count b)"

definition ro_counters :: "backend_health \<Rightarrow> health_counters" where
  "ro_counters b = (bh_ro_healthy b, bh_ro_fail_count b, bh_ro_success_count b)"

definition apply_rw :: "health_check_config \<Rightarrow> bool \<Rightarrow> backend_health \<Rightarrow> backend_health" where
  "apply_rw cfg rw_ok b = (case count_probe cfg rw_ok (rw_counters b) of (h, f, s) \<Rightarrow>
     b\<lparr>bh_rw_healthy := h, bh_rw_fail_count := f, bh_rw_success_count := s\<rparr>)"

definition apply_ro :: "health_check_config \<Rightarrow> bool \<Rightarrow> backend_health \<Rightarrow> backend_health" where
  "apply_ro cfg ro_ok b = (case count_probe cfg ro_ok (ro_counters b) of (h, f, s) \<Rightarrow>
     b\<lparr>bh_ro_healthy := h, bh_ro_fail_count := f, bh_ro_success_count := s\<rparr>)"

text \<open>
  A pass over the results: the changed map, whether a backend was marked up or down, and the channels on
  which a shutdown was sent (a backend that was marked down, when so configured).
\<close>

fun apply_results ::
  "health_check_config \<Rightarrow> (bool \<Rightarrow> backend_health \<Rightarrow> backend_health) \<Rightarrow> (backend_health \<Rightarrow> bool) \<Rightarrow>
   (string \<times> bool) list \<Rightarrow> health_map \<Rightarrow> health_map \<times> bool \<times> nat list" where
  "apply_results cfg step healthy [] m = (m, False, [])"
| "apply_results cfg step healthy ((name, ok) # rs) m =
    (case map_of m name of
       None \<Rightarrow> apply_results cfg step healthy rs m
     | Some b \<Rightarrow>
         (let b' = step ok b;
              signals = (if healthy b \<and> \<not> healthy b' \<and> hk_shutdown_on_down cfg then [bh_channel b] else [])
          in case apply_results cfg step healthy rs (AList.update name b' m) of
               (m', changed, sent) \<Rightarrow> (m', healthy b \<noteq> healthy b' \<or> changed, signals @ sent)))"

record probe_result =
  pr_name :: string
  pr_rw :: "(string, bool) res"
  pr_ro :: "(string, bool) res"

definition probe_ok :: "(string, bool) res \<Rightarrow> bool" where
  "probe_ok r = (case r of Inl _ \<Rightarrow> False | Inr ok \<Rightarrow> ok)"

definition note_probe_error :: "nat \<Rightarrow> probe_result \<Rightarrow> health_map \<Rightarrow> health_map" where
  "note_probe_error now r =
    AList.map_entry (pr_name r)
      (\<lambda>b. b\<lparr>bh_last_probe_error_log :=
         snd (probe_error_log_due (bh_last_probe_error_log b) now PROBE_ERROR_LOG_INTERVAL
                (\<not> is_ok (pr_rw r) \<or> \<not> is_ok (pr_ro r)))\<rparr>)"

definition rebuilt_backend :: "backend_health \<Rightarrow> pg_backend" where
  "rebuilt_backend b =
    \<lparr>be_addr = bh_addr b, be_name = bh_name b, be_is_primary = bh_rw_healthy b,
     be_is_healthy = (bh_rw_healthy b \<or> bh_ro_healthy b \<and> \<not> bh_rw_healthy b), be_api_url = bh_api_url b\<rparr>"

definition backends_to_check :: "proxy \<Rightarrow> (string \<times> string) list" where
  "backends_to_check p = map (\<lambda>(_, b). (bh_name b, bh_api_url b)) (px_health p)"

text \<open>What the checker does with the results of one round; the signals sent are returned.\<close>

definition health_round :: "health_check_config \<Rightarrow> nat \<Rightarrow> probe_result list \<Rightarrow> proxy \<Rightarrow> proxy \<times> nat list" where
  "health_round cfg now results p =
    (let m0 = fold (note_probe_error now) results (px_health p)
     in case apply_results cfg (apply_rw cfg) bh_rw_healthy (map (\<lambda>r. (pr_name r, probe_ok (pr_rw r))) results) m0 of
          (m1, rw_changed, rw_sent) \<Rightarrow>
            (case apply_results cfg (apply_ro cfg) bh_ro_healthy (map (\<lambda>r. (pr_name r, probe_ok (pr_ro r))) results) m1 of
               (m2, ro_changed, ro_sent) \<Rightarrow>
                 (p\<lparr>px_health := m2,
                    px_upstream := (if rw_changed \<or> ro_changed then map (rebuilt_backend \<circ> snd) m2 else px_upstream p)\<rparr>,
                  rw_sent @ ro_sent)))"

section \<open>Connections\<close>

datatype proxy_mode = Read_Write | Read_Only

definition select_backend :: "proxy_mode \<Rightarrow> u64 \<Rightarrow> upstream_state \<Rightarrow> string option" where
  "select_backend mode counter bs =
    (case mode of
       Read_Write \<Rightarrow> map_option be_name (primary_backend bs)
     | Read_Only \<Rightarrow>
         (let replicas = replica_backends bs
          in if replicas = [] then map_option be_name (primary_backend bs)
             else Some (be_name (replicas ! (unat counter mod length replicas)))))"

text \<open>Where a connection goes: address and channel of the chosen backend, or closed.\<close>

definition route_connection :: "proxy_mode \<Rightarrow> u64 \<Rightarrow> proxy \<Rightarrow> (socket_addr \<times> nat) option" where
  "route_connection mode counter p =
    Option.bind (select_backend mode counter (px_upstream p))
      (\<lambda>name. map_option (\<lambda>b. (bh_addr b, bh_channel b)) (map_of (px_health p) name))"

section \<open>Backends from the published members\<close>

definition parse_pg_host_port :: "string \<Rightarrow> (string \<times> nat) option" where
  "parse_pg_host_port conn_url =
    (let words = split_whitespace conn_url
     in Option.bind (find (prefix ''host='') words)
          (\<lambda>h. Some (drop 5 h,
             unwrap_or (Option.bind (find (prefix ''port='') words)
               (\<lambda>w. Option.bind (parse_u64 (drop 5 w)) (\<lambda>n. if n < 2 ^ 16 then Some (unat n) else None))) 5432)))"

definition rest_base_url :: "string \<Rightarrow> nat \<Rightarrow> bool \<Rightarrow> string" where
  "rest_base_url host api_port https = (if https then ''https'' else ''http'') @ ''://'' @ host @ '':'' @ dec_of_nat api_port"

definition api_url_from_conn_url :: "string \<Rightarrow> nat \<Rightarrow> bool \<Rightarrow> string option" where
  "api_url_from_conn_url conn_url api_port https =
    map_option (\<lambda>(host, _). rest_base_url host api_port https) (parse_pg_host_port conn_url)"

definition resolve_pg_addr :: "(string \<Rightarrow> socket_addr option) \<Rightarrow> string \<Rightarrow> socket_addr option" where
  "resolve_pg_addr resolve_addr conn_url =
    Option.bind (parse_pg_host_port conn_url) (\<lambda>(host, port). resolve_addr (host @ '':'' @ dec_of_nat port))"

definition strip_scheme :: "string \<Rightarrow> string" where
  "strip_scheme url = (if prefix ''https://'' url then drop 8 url else if prefix ''http://'' url then drop 7 url else url)"

definition align_api_scheme :: "string \<Rightarrow> bool \<Rightarrow> string" where
  "align_api_scheme url https = (if https then ''https'' else ''http'') @ ''://'' @ strip_scheme url"

definition api_scheme_mismatch :: "string \<Rightarrow> bool \<Rightarrow> bool" where
  "api_scheme_mismatch url https =
    (if prefix ''https://'' url then \<not> https else if prefix ''http://'' url then https else False)"

definition should_warn :: "string set \<Rightarrow> string \<Rightarrow> string \<Rightarrow> bool \<Rightarrow> bool \<times> string set" where
  "should_warn warned name url https =
    (if api_scheme_mismatch url https then (name \<notin> warned, insert name warned) else (False, warned))"

definition retain_members :: "string set \<Rightarrow> member list \<Rightarrow> string set" where
  "retain_members warned members = warned \<inter> set (map mb_name members)"

text \<open>\<open>resolve_addr\<close> and \<open>ip_of\<close> (name resolution, the address without its port) are parameters.\<close>

definition backend_of_member ::
  "(string \<Rightarrow> socket_addr option) \<Rightarrow> (socket_addr \<Rightarrow> string) \<Rightarrow> nat \<Rightarrow> bool \<Rightarrow> member \<Rightarrow> pg_backend option" where
  "backend_of_member resolve_addr ip_of api_port https m =
    map_option
      (\<lambda>addr.
         \<lparr>be_addr = addr, be_name = mb_name m, be_is_primary = (mb_role m = Primary), be_is_healthy = (mb_state m = Running),
          be_api_url =
            (if mb_api_url m = []
             then unwrap_or (api_url_from_conn_url (mb_conn_url m) api_port https) (rest_base_url (ip_of addr) api_port https)
             else align_api_scheme (mb_api_url m) https)\<rparr>)
      (resolve_pg_addr resolve_addr (mb_conn_url m))"

definition refresh_proxy_backends ::
  "(string \<Rightarrow> socket_addr option) \<Rightarrow> (socket_addr \<Rightarrow> string) \<Rightarrow> nat \<Rightarrow> bool \<Rightarrow> member list \<Rightarrow> proxy \<Rightarrow> proxy" where
  "refresh_proxy_backends resolve_addr ip_of api_port https members =
    update_backends (List.map_filter (backend_of_member resolve_addr ip_of api_port https) members)"

section \<open>The flag is the hysteresis of the probe results\<close>

text \<open>The last results, newest first, that are all \<open>b\<close>.\<close>

definition trail :: "bool \<Rightarrow> bool list \<Rightarrow> nat" where
  "trail b ps = length (takeWhile ((=) b) (rev ps))"

lemma trail_simps [simp]:
  "trail b [] = 0" "trail b (ps @ [c]) = (if b = c then Suc (trail b ps) else 0)"
  by (simp_all add: trail_def)

text \<open>Up: \<open>rise\<close> successes in a row, and since then no \<open>fall\<close> failures in a row.\<close>

definition up_after :: "nat \<Rightarrow> nat \<Rightarrow> bool list \<Rightarrow> bool" where
  "up_after rise fall ps \<longleftrightarrow> (\<exists>pre mid. ps = pre @ replicate rise True @ mid \<and> \<not> sublist (replicate fall False) mid)"

lemma suffix_trail: "suffix (replicate n b) ps \<longleftrightarrow> n \<le> trail b ps"
proof (induction ps arbitrary: n rule: rev_induct)
  case (snoc c ps)
  show ?case
  proof (cases n)
    case (Suc k)
    have "replicate n b = replicate k b @ [b]" by (simp add: Suc replicate_append_same)
    then show ?thesis using snoc.IH [of k] Suc by auto
  qed simp
qed simp

lemma sublist_replicate_snoc:
  "sublist (replicate n b) (ps @ [c]) \<longleftrightarrow> sublist (replicate n b) ps \<or> n \<le> trail b (ps @ [c])"
  by (simp only: sublist_snoc suffix_trail) blast

lemma trail_append: "trail b (qs @ ps) = (if set ps \<subseteq> {b} then length ps + trail b qs else trail b ps)"
proof -
  have "(\<forall>x \<in> set ps. b = x) \<longleftrightarrow> set ps \<subseteq> {b}" by auto
  then show ?thesis by (auto simp: trail_def takeWhile_append takeWhile_eq_all_conv)
qed

lemma trail_replicate: "trail b (replicate n c) = (if b = c then n else 0)"
proof (induction n)
  case (Suc n)
  have "replicate (Suc n) c = replicate n c @ [c]" by (simp add: replicate_append_same)
  then show ?case using Suc by (simp only: trail_simps) simp
qed simp

lemma trail_le_length: "trail b ps \<le> length ps"
  using length_takeWhile_le [of "(=) b" "rev ps"] by (simp add: trail_def)

lemma sublist_trail: "n \<le> trail b ps \<Longrightarrow> sublist (replicate n b) ps"
  by (simp add: suffix_trail [symmetric] suffix_imp_sublist)

lemma up_after_success:
  assumes "0 < fall"
  shows "up_after rise fall (ps @ [True]) \<longleftrightarrow> up_after rise fall ps \<or> rise \<le> trail True (ps @ [True])"
proof
  assume "up_after rise fall (ps @ [True])"
  then obtain pre mid where m: "ps @ [True] = pre @ replicate rise True @ mid" "\<not> sublist (replicate fall False) mid"
    by (auto simp: up_after_def)
  show "up_after rise fall ps \<or> rise \<le> trail True (ps @ [True])"
  proof (cases mid rule: rev_cases)
    case Nil
    then have "suffix (replicate rise True) (ps @ [True])" using m(1) by (auto simp: suffix_def)
    then show ?thesis unfolding suffix_trail by blast
  next
    case (snoc mid' c)
    then have "ps = pre @ replicate rise True @ mid'" using m(1) by simp
    then show ?thesis using m(2) snoc sublist_replicate_snoc [of fall False mid' c] by (auto simp: up_after_def)
  qed
next
  assume "up_after rise fall ps \<or> rise \<le> trail True (ps @ [True])"
  then show "up_after rise fall (ps @ [True])"
  proof
    assume "up_after rise fall ps"
    then obtain pre mid where "ps = pre @ replicate rise True @ mid" "\<not> sublist (replicate fall False) mid"
      by (auto simp: up_after_def)
    then have "ps @ [True] = pre @ replicate rise True @ mid @ [True]" "\<not> sublist (replicate fall False) (mid @ [True])"
      using assms by (simp_all only: sublist_replicate_snoc) simp_all
    then show ?thesis by (auto simp: up_after_def)
  next
    assume "rise \<le> trail True (ps @ [True])"
    then obtain pre where "ps @ [True] = pre @ replicate rise True" unfolding suffix_trail [symmetric] suffix_def by blast
    then have "ps @ [True] = pre @ replicate rise True @ []" by simp
    moreover have "\<not> sublist (replicate fall False) []" using assms by simp
    ultimately show ?thesis unfolding up_after_def by blast
  qed
qed

lemma up_after_failure:
  assumes "0 < rise" "0 < fall"
  shows "up_after rise fall (ps @ [False]) \<longleftrightarrow> up_after rise fall ps \<and> \<not> fall \<le> trail False (ps @ [False])"
proof
  assume "up_after rise fall (ps @ [False])"
  then obtain pre mid where m: "ps @ [False] = pre @ replicate rise True @ mid" "\<not> sublist (replicate fall False) mid"
    by (auto simp: up_after_def)
  have "mid \<noteq> []"
  proof
    assume "mid = []"
    then have "last (ps @ [False]) = last (replicate rise True)" using m(1) assms(1) by (metis append_Nil2 last_append last_replicate neq0_conv replicate_empty)
    then show False using assms(1) by simp
  qed
  then obtain mid' where mid: "mid = mid' @ [False]" "ps = pre @ replicate rise True @ mid'"
    using m(1) by (cases mid rule: rev_cases) auto
  have "trail False (ps @ [False]) = trail False mid \<or> trail False (ps @ [False]) \<le> length mid \<and> set mid \<subseteq> {False}"
    unfolding m(1) using assms(1) by (simp add: trail_append trail_replicate)
  moreover have "length mid = trail False mid" if "set mid \<subseteq> {False}"
    using that trail_append [of False "[]" mid] by simp
  ultimately have "\<not> fall \<le> trail False (ps @ [False])" using m(2) sublist_trail [of fall False mid] by auto
  moreover have "up_after rise fall ps"
    using mid m(2) sublist_replicate_snoc [of fall False mid' False] by (auto simp: up_after_def)
  ultimately show "up_after rise fall ps \<and> \<not> fall \<le> trail False (ps @ [False])" by simp
next
  assume a: "up_after rise fall ps \<and> \<not> fall \<le> trail False (ps @ [False])"
  then obtain pre mid where m: "ps = pre @ replicate rise True @ mid" "\<not> sublist (replicate fall False) mid"
    by (auto simp: up_after_def)
  have "trail False (mid @ [False]) \<le> trail False (ps @ [False])"
    unfolding m(1) using trail_le_length [of False mid] by (simp add: trail_append)
  then have "\<not> sublist (replicate fall False) (mid @ [False])" using a m(2) by (simp only: sublist_replicate_snoc) auto
  then show "up_after rise fall (ps @ [False])" using m(1) unfolding up_after_def by (metis append_assoc)
qed

definition counted :: "health_check_config \<Rightarrow> bool list \<Rightarrow> health_counters \<Rightarrow> bool" where
  "counted cfg ps c \<longleftrightarrow> (case c of (healthy, fails, successes) \<Rightarrow>
     healthy = up_after (unat (hk_rise cfg)) (unat (hk_fall cfg)) ps \<and>
     (if healthy then unat fails = trail False ps \<and> trail False ps < unat (hk_fall cfg)
      else unat successes = trail True ps \<and> trail True ps < unat (hk_rise cfg)))"

lemma unat_Suc_less: "unat (n :: u32) < unat (m :: u32) \<Longrightarrow> unat (n + 1) = Suc (unat n)"
  using unsigned_less [of m, where 'a = nat] by (simp add: unat_word_ariths)

lemma counted_step:
  assumes "0 < hk_rise cfg" "0 < hk_fall cfg" "counted cfg ps c"
  shows "counted cfg (ps @ [b]) (count_probe cfg b c)"
proof -
  obtain h f s where c: "c = (h, f, s)" by (cases c)
  have pos: "0 < unat (hk_rise cfg)" "0 < unat (hk_fall cfg)" using assms(1,2) by (simp_all add: word_less_nat_alt)
  note up = up_after_success [OF pos(2)] up_after_failure [OF pos]
  show ?thesis
    using assms(3) pos unat_Suc_less [of s "hk_rise cfg"] unat_Suc_less [of f "hk_fall cfg"]
    by (cases b; cases h) (auto simp: c counted_def up word_le_nat_alt)
qed

lemma counted_fold:
  assumes "0 < hk_rise cfg" "0 < hk_fall cfg"
  shows "counted cfg ps (fold (count_probe cfg) ps (False, 0, 0))"
proof (induction ps rule: rev_induct)
  case Nil
  have "\<not> up_after (unat (hk_rise cfg)) (unat (hk_fall cfg)) []"
    using assms(1) by (simp add: up_after_def word_less_nat_alt)
  then show ?case using assms(1) by (simp add: counted_def word_less_nat_alt)
next
  case (snoc b ps)
  then show ?case using counted_step [OF assms] by simp
qed

text \<open>
  C29. The health flag of the proxy is the hysteresis of the probe results: after any sequence of results a backend
  is up exactly when some \<open>rise\<close> successes in a row are not followed by \<open>fall\<close> failures in a row. The counters
  are 32-bit and wrap; a wrap is never seen.
\<close>

theorem health_flag_is_hysteresis:
  assumes "0 < hk_rise cfg" "0 < hk_fall cfg"
  shows "fst (fold (count_probe cfg) ps (False, 0, 0)) = up_after (unat (hk_rise cfg)) (unat (hk_fall cfg)) ps"
  using counted_fold [OF assms, of ps] by (auto simp: counted_def split: prod.splits)

theorem health_flag_is_hysteresis_witness:
  "0 < hk_rise default_health_check_config \<and> 0 < hk_fall default_health_check_config \<and>
   up_after 2 3 [False, True, True, False, False]"
proof -
  let ?c = default_health_check_config
  have p: "0 < hk_rise ?c" "0 < hk_fall ?c" "unat (hk_rise ?c) = 2" "unat (hk_fall ?c) = 3"
    by (simp_all add: default_health_check_config_def)
  have "fst (fold (count_probe ?c) [False, True, True, False, False] (False, 0, 0))"
    by (simp add: default_health_check_config_def word_le_nat_alt)
  then show ?thesis using health_flag_is_hysteresis [OF p(1,2), of "[False, True, True, False, False]"] p by simp
qed

section \<open>Well-formed states\<close>

definition channels :: "health_map \<Rightarrow> nat list" where
  "channels m = map (bh_channel \<circ> snd) m"

definition proxy_ok :: "proxy \<Rightarrow> bool" where
  "proxy_ok p \<longleftrightarrow> distinct (map fst (px_health p)) \<and> (\<forall>(n, b) \<in> set (px_health p). bh_name b = n) \<and>
     distinct (channels (px_health p)) \<and> (\<forall>c \<in> set (channels (px_health p)). c < px_next_channel p)"

inductive proxy_reachable :: "proxy \<Rightarrow> bool" where
  start: "proxy_reachable new_proxy"
| update: "proxy_reachable p \<Longrightarrow> proxy_reachable (update_backends backends p)"
| round: "proxy_reachable p \<Longrightarrow> proxy_reachable (fst (health_round cfg now results p))"

text \<open>The parts of a map that rounds keep: keys, names, channels, in order.\<close>

definition frame :: "health_map \<Rightarrow> (string \<times> string \<times> nat) list" where
  "frame m = map (\<lambda>(n, b). (n, bh_name b, bh_channel b)) m"

lemma proxy_ok_frame: "proxy_ok p \<Longrightarrow> frame (px_health p') = frame (px_health p) \<Longrightarrow> px_next_channel p' = px_next_channel p \<Longrightarrow> proxy_ok p'"
proof -
  have k: "map fst m = map fst (frame m)" "channels m = map (snd \<circ> snd) (frame m)"
    "(\<forall>(n, b) \<in> set m. bh_name b = n) \<longleftrightarrow> (\<forall>(n, n', c) \<in> set (frame m). n' = n)" for m
    by (auto simp: frame_def channels_def)
  assume "proxy_ok p" "frame (px_health p') = frame (px_health p)" "px_next_channel p' = px_next_channel p"
  then show ?thesis unfolding proxy_ok_def k by simp
qed

lemma frame_update:
  "map_of m n = Some b \<Longrightarrow> bh_name b' = bh_name b \<Longrightarrow> bh_channel b' = bh_channel b \<Longrightarrow> frame (AList.update n b' m) = frame m"
  by (induction m) (auto simp: frame_def split: if_splits)

lemma apply_step_simps [simp]:
  "bh_name (apply_rw cfg ok b) = bh_name b" "bh_channel (apply_rw cfg ok b) = bh_channel b" "bh_addr (apply_rw cfg ok b) = bh_addr b"
  "bh_api_url (apply_rw cfg ok b) = bh_api_url b" "bh_api_url (apply_ro cfg ok b) = bh_api_url b"
  "bh_name (apply_ro cfg ok b) = bh_name b" "bh_channel (apply_ro cfg ok b) = bh_channel b" "bh_addr (apply_ro cfg ok b) = bh_addr b"
  "rw_counters (apply_ro cfg ok b) = rw_counters b" "ro_counters (apply_rw cfg ok b) = ro_counters b"
  "rw_counters (apply_rw cfg ok b) = count_probe cfg ok (rw_counters b)"
  "ro_counters (apply_ro cfg ok b) = count_probe cfg ok (ro_counters b)"
  by (simp_all add: apply_rw_def apply_ro_def rw_counters_def ro_counters_def split: prod.splits)

lemma apply_step_flags [simp]:
  "bh_rw_healthy (apply_ro cfg ok b) = bh_rw_healthy b" "bh_ro_healthy (apply_rw cfg ok b) = bh_ro_healthy b"
  by (simp_all add: apply_rw_def apply_ro_def split: prod.splits)

lemma frame_apply_results:
  assumes "\<And>ok b. bh_name (step ok b) = bh_name b" "\<And>ok b. bh_channel (step ok b) = bh_channel b"
  shows "frame (fst (apply_results cfg step healthy rs m)) = frame m"
proof (induction rs arbitrary: m)
  case (Cons r rs)
  obtain name ok where r: "r = (name, ok)" by (cases r)
  show ?case
  proof (cases "map_of m name")
    case (Some b)
    then have "frame (fst (apply_results cfg step healthy (r # rs) m)) = frame (fst (apply_results cfg step healthy rs (AList.update name (step ok b) m)))"
      by (simp add: r Let_def split: prod.splits)
    then show ?thesis using Cons.IH frame_update [OF Some] assms by simp
  qed (simp add: r Cons.IH)
qed simp

lemma frame_note [simp]: "frame (note_probe_error now r m) = frame m"
  unfolding note_probe_error_def by (induction m) (auto simp: frame_def)

lemma frame_note_fold [simp]: "frame (fold (note_probe_error now) rs m) = frame m"
  by (induction rs arbitrary: m) simp_all

lemma frame_health_round: "frame (px_health (fst (health_round cfg now results p))) = frame (px_health p)"
  using frame_apply_results [of "apply_rw cfg" cfg bh_rw_healthy] frame_apply_results [of "apply_ro cfg" cfg bh_ro_healthy]
  by (auto simp: health_round_def Let_def split: prod.splits) (metis fst_conv frame_note_fold)

lemma proxy_ok_round: "proxy_ok p \<Longrightarrow> proxy_ok (fst (health_round cfg now results p))"
  by (rule proxy_ok_frame [OF _ frame_health_round]) (auto simp: health_round_def Let_def split: prod.splits)

lemma map_of_None_update: "map_of m n = None \<Longrightarrow> AList.update n b m = m @ [(n, b)]"
  by (induction m) (auto split: if_splits)

lemma proxy_ok_register: "proxy_ok p \<Longrightarrow> proxy_ok (register_backend b p)"
proof (cases "map_of (px_health p) (be_name b)")
  case None
  assume p: "proxy_ok p"
  have "be_name b \<notin> set (map fst (px_health p))" using None by (simp add: map_of_eq_None_iff)
  moreover have "px_next_channel p \<notin> set (channels (px_health p))" using p by (auto simp: proxy_ok_def)
  ultimately have "proxy_ok (p\<lparr>px_health := px_health p @ [(be_name b, new_backend_health b (px_next_channel p))],
      px_next_channel := Suc (px_next_channel p)\<rparr>)"
    using p by (auto simp: proxy_ok_def channels_def new_backend_health_def less_Suc_eq)
  then show ?thesis using None p by (simp add: register_backend_def map_of_None_update)
next
  case (Some e)
  assume "proxy_ok p"
  then show ?thesis using Some
    by (auto intro!: proxy_ok_frame [of p] simp: register_backend_def frame_update)
qed

lemma proxy_ok_filter: "proxy_ok p \<Longrightarrow> proxy_ok (p\<lparr>px_health := filter P (px_health p)\<rparr>)"
  by (auto simp: proxy_ok_def channels_def distinct_map_filter)

lemma proxy_ok_update: "proxy_ok p \<Longrightarrow> proxy_ok (update_backends backends p)"
proof -
  assume p: "proxy_ok p"
  have "proxy_ok (fold register_backend bs q)" if "proxy_ok q" for bs q
    using that by (induction bs arbitrary: q) (simp_all add: proxy_ok_register)
  moreover have "proxy_ok (p\<lparr>px_upstream := backends\<rparr>)" using p by (simp add: proxy_ok_def)
  ultimately show ?thesis using p by (simp add: update_backends_def Let_def proxy_ok_filter)
qed

text \<open>
  C30. Every state the proxy reaches is well formed: each registered backend stands under its own name, once,
  and has a shutdown channel that no other backend shares or will share.
\<close>

theorem proxy_state_well_formed:
  assumes "proxy_reachable p"
  shows "proxy_ok p"
  using assms
  by induction (simp_all add: proxy_ok_round proxy_ok_update, simp add: proxy_ok_def new_proxy_def channels_def)

theorem proxy_state_well_formed_witness:
  "proxy_ok (update_backends [\<lparr>be_addr = ''h'', be_name = ''n'', be_is_primary = True, be_is_healthy = True, be_api_url = ''u''\<rparr>] new_proxy)"
  by (intro proxy_state_well_formed proxy_reachable.intros)

section \<open>Rounds over a fixed set of backends\<close>

text \<open>One turn of the checker's loop when the set of backends does not change meanwhile; \<open>f\<close> gives the two probe results.\<close>

type_synonym probes = "string \<Rightarrow> (string, bool) res \<times> (string, bool) res"

definition probe_backends :: "probes \<Rightarrow> proxy \<Rightarrow> probe_result list" where
  "probe_backends f p =
    map (\<lambda>(n, _). \<lparr>pr_name = n, pr_rw = fst (f n), pr_ro = snd (f n)\<rparr>) (backends_to_check p)"

definition check_round :: "health_check_config \<Rightarrow> nat \<times> probes \<Rightarrow> proxy \<Rightarrow> proxy \<times> nat list" where
  "check_round cfg r p = health_round cfg (fst r) (probe_backends (snd r) p) p"

definition run_rounds :: "health_check_config \<Rightarrow> (nat \<times> probes) list \<Rightarrow> proxy \<Rightarrow> proxy" where
  "run_rounds cfg rs p = fold (\<lambda>r q. fst (check_round cfg r q)) rs p"

text \<open>What matters of an entry: everything but the time of the last log line.\<close>

type_synonym core = "health_counters \<times> health_counters \<times> string \<times> socket_addr \<times> string \<times> nat"

definition core_of :: "backend_health \<Rightarrow> core" where
  "core_of b = (rw_counters b, ro_counters b, bh_name b, bh_addr b, bh_api_url b, bh_channel b)"

abbreviation cores :: "health_map \<Rightarrow> (string \<times> core) list" where
  "cores m \<equiv> map (apsnd core_of) m"

definition core_step :: "health_check_config \<Rightarrow> probes \<Rightarrow> string \<times> core \<Rightarrow> string \<times> core" where
  "core_step cfg f = (\<lambda>(n, rw, ro, rest). (n, count_probe cfg (probe_ok (fst (f n))) rw, count_probe cfg (probe_ok (snd (f n))) ro, rest))"

definition flags :: "string \<times> core \<Rightarrow> bool \<times> bool" where
  "flags = (\<lambda>(n, rw, ro, rest). (fst rw, fst ro))"

definition rebuilt_core :: "string \<times> core \<Rightarrow> pg_backend" where
  "rebuilt_core = (\<lambda>(n, (rw, _), (ro, _), name, addr, url, _).
     \<lparr>be_addr = addr, be_name = name, be_is_primary = rw, be_is_healthy = (rw \<or> ro \<and> \<not> rw), be_api_url = url\<rparr>)"

lemma rebuilt_core: "rebuilt_core (apsnd core_of e) = rebuilt_backend (snd e)"
  by (cases e) (simp add: rebuilt_core_def core_of_def rw_counters_def ro_counters_def rebuilt_backend_def)

lemma flags_core: "flags (n, core_of b) = (bh_rw_healthy b, bh_ro_healthy b)"
  by (simp add: flags_def core_of_def rw_counters_def ro_counters_def)

lemma core_of_log [simp]: "core_of (b\<lparr>bh_last_probe_error_log := l\<rparr>) = core_of b"
  by (simp add: core_of_def rw_counters_def ro_counters_def)

lemma cores_note: "cores (fold (note_probe_error now) rs m) = cores m"
proof -
  have "cores (note_probe_error now r m) = cores m" for r m
    unfolding note_probe_error_def by (induction m) auto
  then show ?thesis by (induction rs arbitrary: m) simp_all
qed

lemma cores_fst: "map fst (cores m) = map fst m"
  by simp

lemma update_middle: "n \<notin> set (map fst d) \<Longrightarrow> AList.update n b' (d @ (n, b) # t) = d @ (n, b') # t"
  by (induction d) auto

lemma map_of_middle: "n \<notin> set (map fst d) \<Longrightarrow> map_of (d @ (n, b) # t) n = Some b"
  by (simp add: map_add_def map_of_eq_None_iff [symmetric])

lemma apply_results_all:
  assumes "distinct (map fst (d @ t))"
  shows "apply_results cfg step healthy (map (\<lambda>n. (n, ok n)) (map fst t)) (d @ t) =
    (d @ map (\<lambda>(n, b). (n, step (ok n) b)) t, \<exists>(n, b) \<in> set t. healthy b \<noteq> healthy (step (ok n) b),
     concat (map (\<lambda>(n, b). if healthy b \<and> \<not> healthy (step (ok n) b) \<and> hk_shutdown_on_down cfg then [bh_channel b] else []) t))"
  using assms
proof (induction t arbitrary: d)
  case (Cons e t)
  obtain n b where e: "e = (n, b)" by (cases e)
  have n: "n \<notin> set (map fst d)" using Cons.prems e by simp
  have "distinct (map fst ((d @ [(n, step (ok n) b)]) @ t))" using Cons.prems e by simp
  from Cons.IH [OF this] show ?case
    by (simp add: e map_of_middle [OF n] update_middle [OF n] Let_def del: map_of_append)
qed simp

lemma check_round_result:
  assumes "proxy_ok p"
  shows "cores (px_health (fst (check_round cfg r p))) = map (core_step cfg (snd r)) (cores (px_health p)) \<and>
    px_upstream (fst (check_round cfg r p)) =
      (if \<exists>e \<in> set (cores (px_health p)). flags (core_step cfg (snd r) e) \<noteq> flags e
       then map rebuilt_core (cores (px_health (fst (check_round cfg r p)))) else px_upstream p)"
proof -
  let ?rw = "\<lambda>n. probe_ok (fst (snd r n))" and ?ro = "\<lambda>n. probe_ok (snd (snd r n))"
  define m0 where "m0 = fold (note_probe_error (fst r)) (probe_backends (snd r) p) (px_health p)"
  define m1 where "m1 = map (\<lambda>(n, b). (n, apply_rw cfg (?rw n) b)) m0"
  define m2 where "m2 = map (\<lambda>(n, b). (n, apply_ro cfg (?ro n) b)) m1"
  have c0: "cores m0 = cores (px_health p)" by (simp add: m0_def cores_note)
  have names: "map bh_name (map snd (px_health p)) = map fst (px_health p)"
    using assms by (auto simp: proxy_ok_def intro!: map_cong)
  have k: "map fst m0 = map fst (px_health p)" "map fst m1 = map fst m0" using c0 cores_fst by (metis, simp add: m1_def split_def)
  then have d: "distinct (map fst ([] @ m0))" "distinct (map fst ([] @ m1))" using assms by (simp_all add: proxy_ok_def)
  have rs: "map (\<lambda>x. (pr_name x, probe_ok (g x))) (probe_backends (snd r) p) = map (\<lambda>n. (n, ok n)) (map fst (px_health p))"
    if "\<And>n. probe_ok (g \<lparr>pr_name = n, pr_rw = fst (snd r n), pr_ro = snd (snd r n)\<rparr>) = ok n" for g ok
    using names by (simp add: probe_backends_def backends_to_check_def split_def that comp_def)
  note a1 = apply_results_all [OF d(1), of cfg "apply_rw cfg" bh_rw_healthy ?rw, simplified append_Nil, folded m1_def, unfolded k(1)]
  note a2 = apply_results_all [OF d(2), of cfg "apply_ro cfg" bh_ro_healthy ?ro, simplified append_Nil, folded m2_def, unfolded k]
  have st: "apsnd core_of (n, apply_ro cfg (?ro n) (apply_rw cfg (?rw n) b)) = core_step cfg (snd r) (apsnd core_of (n, b))" for n b
    by (simp add: core_step_def core_of_def)
  have h: "px_health (fst (check_round cfg r p)) = m2"
    by (simp add: check_round_def health_round_def Let_def m0_def [symmetric] rs a1 a2 del: map_map)
  have c2: "cores m2 = map (core_step cfg (snd r)) (cores (px_health p))"
    unfolding c0 [symmetric] m2_def m1_def using st by (auto simp: split_def)
  have ch: "(\<exists>(n, b) \<in> set m0. bh_rw_healthy b \<noteq> bh_rw_healthy (apply_rw cfg (?rw n) b)) \<or>
      (\<exists>(n, b) \<in> set m1. bh_ro_healthy b \<noteq> bh_ro_healthy (apply_ro cfg (?ro n) b)) \<longleftrightarrow>
      (\<exists>e \<in> set (cores m0). flags (core_step cfg (snd r) e) \<noteq> flags e)"
  proof -
    have "flags (core_step cfg (snd r) (apsnd core_of (n, b))) =
        (bh_rw_healthy (apply_rw cfg (?rw n) b), bh_ro_healthy (apply_ro cfg (?ro n) (apply_rw cfg (?rw n) b)))" for n b
      unfolding st [symmetric] by (simp add: flags_core)
    then show ?thesis unfolding m1_def by (fastforce simp: flags_core)
  qed
  have up: "px_upstream (fst (check_round cfg r p)) =
      (if (\<exists>(n, b) \<in> set m0. bh_rw_healthy b \<noteq> bh_rw_healthy (apply_rw cfg (?rw n) b)) \<or>
         (\<exists>(n, b) \<in> set m1. bh_ro_healthy b \<noteq> bh_ro_healthy (apply_ro cfg (?ro n) b))
       then map (rebuilt_backend \<circ> snd) m2 else px_upstream p)"
    by (simp add: check_round_def health_round_def Let_def m0_def [symmetric] rs a1 a2 del: map_map)
  have "map (rebuilt_backend \<circ> snd) m2 = map rebuilt_core (cores m2)" by (simp add: rebuilt_core)
  then show ?thesis unfolding h up ch c0 using c2 by simp
qed

section \<open>Where connections go\<close>

text \<open>No registered backend is up.\<close>

definition never_up :: "proxy \<Rightarrow> bool" where
  "never_up p \<longleftrightarrow> (\<forall>e \<in> set (cores (px_health p)). flags e = (False, False))"

text \<open>
  The two tasks that share the state interleave freely: the HA loop hands over a list of members, and the checker
  applies the results of a round, which may belong to backends that were removed meanwhile. Beside the proxy a
  run keeps, per shutdown channel and so per registration, the results recorded for it, and where the list
  of backends comes from: handed over while the map was empty, or rebuilt when the next channel was \<open>k\<close>.
\<close>

datatype proxy_op = Op_Update "pg_backend list" | Op_Round nat "probe_result list"

datatype list_origin = Handed upstream_state | Rebuilt nat

record proxy_run =
  pw_proxy :: proxy
  pw_results :: "nat \<Rightarrow> bool list"
  pw_origin :: list_origin

definition results_on :: "proxy \<Rightarrow> probe_result list \<Rightarrow> nat \<Rightarrow> bool list" where
  "results_on p results c =
    map (probe_ok \<circ> pr_rw) (filter (\<lambda>r. map_option bh_channel (map_of (px_health p) (pr_name r)) = Some c) results)"

definition round_changed :: "health_check_config \<Rightarrow> nat \<Rightarrow> probe_result list \<Rightarrow> proxy \<Rightarrow> bool" where
  "round_changed cfg now results p =
    (let m0 = fold (note_probe_error now) results (px_health p)
     in case apply_results cfg (apply_rw cfg) bh_rw_healthy (map (\<lambda>r. (pr_name r, probe_ok (pr_rw r))) results) m0 of
          (m1, rw_changed, _) \<Rightarrow>
            (case apply_results cfg (apply_ro cfg) bh_ro_healthy (map (\<lambda>r. (pr_name r, probe_ok (pr_ro r))) results) m1 of
               (_, ro_changed, _) \<Rightarrow> rw_changed \<or> ro_changed))"

fun proxy_op_step :: "health_check_config \<Rightarrow> proxy_op \<Rightarrow> proxy_run \<Rightarrow> proxy_run" where
  "proxy_op_step cfg (Op_Update backends) s =
    s\<lparr>pw_proxy := update_backends backends (pw_proxy s),
      pw_origin := (if px_health (pw_proxy s) = [] then Handed backends else pw_origin s)\<rparr>"
| "proxy_op_step cfg (Op_Round now results) s =
    s\<lparr>pw_proxy := fst (health_round cfg now results (pw_proxy s)),
      pw_results := (\<lambda>c. pw_results s c @ results_on (pw_proxy s) results c),
      pw_origin := (if round_changed cfg now results (pw_proxy s) then Rebuilt (px_next_channel (pw_proxy s)) else pw_origin s)\<rparr>"

definition run_proxy :: "health_check_config \<Rightarrow> proxy_op list \<Rightarrow> proxy_run" where
  "run_proxy cfg ops = fold (proxy_op_step cfg) ops \<lparr>pw_proxy = new_proxy, pw_results = (\<lambda>_. []), pw_origin = Handed []\<rparr>"

lemma apply_results_Some:
  assumes "map_of m n = Some b"
  shows "fst (apply_results cfg step healthy ((n, ok) # rs) m) = fst (apply_results cfg step healthy rs (AList.update n (step ok b) m))"
    "fst (snd (apply_results cfg step healthy ((n, ok) # rs) m)) \<longleftrightarrow>
       healthy b \<noteq> healthy (step ok b) \<or> fst (snd (apply_results cfg step healthy rs (AList.update n (step ok b) m)))"
  using assms by (simp_all add: Let_def split_beta)

lemma apply_results_map_of:
  "map_of (fst (apply_results cfg step healthy rs m)) n =
     map_option (fold step (map snd (filter (\<lambda>r. fst r = n) rs))) (map_of m n)"
proof (induction rs arbitrary: m)
  case (Cons r rs)
  obtain name ok where r: "r = (name, ok)" by (cases r)
  show ?case
  proof (cases "map_of m name")
    case (Some b)
    then show ?thesis unfolding r apply_results_Some [OF Some] Cons.IH by (simp add: update_conv)
  qed (auto simp: r Cons.IH)
qed (simp add: option.map_id)

lemma apply_results_unchanged:
  assumes "\<not> fst (snd (apply_results cfg step healthy rs m))"
  shows "map_option healthy (map_of (fst (apply_results cfg step healthy rs m)) n) = map_option healthy (map_of m n)"
  using assms
proof (induction rs arbitrary: m)
  case (Cons r rs)
  obtain name ok where r: "r = (name, ok)" by (cases r)
  show ?case
  proof (cases "map_of m name")
    case (Some b)
    then show ?thesis using Cons.prems Cons.IH [of "AList.update name (step ok b) m"]
      unfolding r apply_results_Some [OF Some] by (auto simp: update_conv)
  qed (use Cons in \<open>simp add: r\<close>)
qed simp

lemma map_of_cores: "map_of (cores m) n = map_option core_of (map_of m n)"
  by (induction m) auto

lemma fold_apply_rw:
  "rw_counters (fold (apply_rw cfg) oks b) = fold (count_probe cfg) oks (rw_counters b)"
  "bh_channel (fold (apply_rw cfg) oks b) = bh_channel b" "bh_ro_healthy (fold (apply_rw cfg) oks b) = bh_ro_healthy b"
  "rw_counters (fold (apply_ro cfg) oks b) = rw_counters b"
  "bh_channel (fold (apply_ro cfg) oks b) = bh_channel b" "bh_rw_healthy (fold (apply_ro cfg) oks b) = bh_rw_healthy b"
  by (induction oks arbitrary: b) simp_all

text \<open>What a round does to one registered backend.\<close>

lemma health_round_entry:
  assumes "map_of (px_health (fst (health_round cfg now results p))) n = Some b'"
  obtains b where "map_of (px_health p) n = Some b" "bh_channel b' = bh_channel b"
    "rw_counters b' = fold (count_probe cfg) (map (probe_ok \<circ> pr_rw) (filter (\<lambda>r. pr_name r = n) results)) (rw_counters b)"
    "\<not> round_changed cfg now results p \<Longrightarrow> bh_rw_healthy b' = bh_rw_healthy b \<and> bh_ro_healthy b' = bh_ro_healthy b"
proof -
  let ?rws = "map (\<lambda>r. (pr_name r, probe_ok (pr_rw r))) results" and ?ros = "map (\<lambda>r. (pr_name r, probe_ok (pr_ro r))) results"
  let ?f = "map_option core_of"
  define m0 where "m0 = fold (note_probe_error now) results (px_health p)"
  obtain m1 c1 s1 where a1: "apply_results cfg (apply_rw cfg) bh_rw_healthy ?rws m0 = (m1, c1, s1)" by (metis prod_cases3)
  obtain m2 c2 s2 where a2: "apply_results cfg (apply_ro cfg) bh_ro_healthy ?ros m1 = (m2, c2, s2)" by (metis prod_cases3)
  have m2: "map_of m2 n = Some b'" using assms by (simp add: health_round_def Let_def m0_def [symmetric] a1 a2)
  have oks: "map snd (filter (\<lambda>r. fst r = n) ?rws) = map (probe_ok \<circ> pr_rw) (filter (\<lambda>r. pr_name r = n) results)"
    by (simp add: filter_map comp_def)
  note e1 = apply_results_map_of [of cfg "apply_rw cfg" bh_rw_healthy ?rws m0 n, unfolded a1 oks, simplified fst_conv]
  note e2 = apply_results_map_of [of cfg "apply_ro cfg" bh_ro_healthy ?ros m1 n, unfolded a2, simplified fst_conv]
  obtain b1 where b1: "map_of m1 n = Some b1" using m2 e2 by (cases "map_of m1 n") auto
  obtain b0 where b0: "map_of m0 n = Some b0" using b1 e1 by (cases "map_of m0 n") auto
  have "?f (map_of m0 n) = ?f (map_of (px_health p) n)"
    unfolding m0_def map_of_cores [symmetric] cores_note ..
  then obtain b where b: "map_of (px_health p) n = Some b" "core_of b = core_of b0"
    using b0 by (cases "map_of (px_health p) n") auto
  note k = b(2) [unfolded core_of_def rw_counters_def ro_counters_def]
  have v: "b1 = fold (apply_rw cfg) (map (probe_ok \<circ> pr_rw) (filter (\<lambda>r. pr_name r = n) results)) b0"
    "\<exists>oks. b' = fold (apply_ro cfg) oks b1"
    using e1 e2 b0 b1 m2 by auto
  have u: "bh_rw_healthy b' = bh_rw_healthy b \<and> bh_ro_healthy b' = bh_ro_healthy b" if "\<not> round_changed cfg now results p"
  proof -
    have "\<not> c1" "\<not> c2" using that by (simp_all add: round_changed_def Let_def m0_def [symmetric] a1 a2)
    then have "bh_rw_healthy b1 = bh_rw_healthy b0" "bh_ro_healthy b' = bh_ro_healthy b1"
      using apply_results_unchanged [of cfg "apply_rw cfg" bh_rw_healthy ?rws m0 n]
        apply_results_unchanged [of cfg "apply_ro cfg" bh_ro_healthy ?ros m1 n] a1 a2 b0 b1 m2 by simp_all
    then show ?thesis using v k by (auto simp: fold_apply_rw)
  qed
  show thesis
  proof (rule that [OF b(1)])
    show "bh_channel b' = bh_channel b" using v k by (auto simp: fold_apply_rw)
    show "rw_counters b' = fold (count_probe cfg) (map (probe_ok \<circ> pr_rw) (filter (\<lambda>r. pr_name r = n) results)) (rw_counters b)"
      using v b(2) by (auto simp: fold_apply_rw core_of_def)
  qed (rule u)
qed

lemma health_round_upstream:
  "px_upstream (fst (health_round cfg now results p)) =
     (if round_changed cfg now results p then map (rebuilt_backend \<circ> snd) (px_health (fst (health_round cfg now results p)))
      else px_upstream p)"
  "px_next_channel (fst (health_round cfg now results p)) = px_next_channel p"
  by (auto simp: health_round_def round_changed_def Let_def split: prod.splits)

text \<open>A registered backend after an update: it was registered before, with its counters and channel, or it is new.\<close>

definition carried_over :: "proxy \<Rightarrow> string \<Rightarrow> backend_health \<Rightarrow> bool" where
  "carried_over p n b' \<longleftrightarrow>
     (\<exists>b. map_of (px_health p) n = Some b \<and> bh_channel b' = bh_channel b \<and> rw_counters b' = rw_counters b \<and> ro_counters b' = ro_counters b) \<or>
     px_next_channel p \<le> bh_channel b' \<and> rw_counters b' = (False, 0, 0) \<and> ro_counters b' = (False, 0, 0)"

lemma register_carries:
  assumes "\<And>n b. map_of (px_health q) n = Some b \<Longrightarrow> carried_over p n b" "px_next_channel p \<le> px_next_channel q"
    "map_of (px_health (register_backend e q)) n = Some b'"
  shows "carried_over p n b'"
proof (cases "be_api_url e = [] \<or> n \<noteq> be_name e")
  case True
  then show ?thesis using assms(1,3) by (auto simp: register_backend_def update_conv split: if_splits option.splits)
next
  case False
  show ?thesis
  proof (cases "map_of (px_health q) n")
    case None
    then have "b' = new_backend_health e (px_next_channel q)" using False assms(3) by (simp add: register_backend_def update_conv)
    then show ?thesis using assms(2) by (simp add: carried_over_def new_backend_health_def rw_counters_def ro_counters_def)
  next
    case (Some b)
    then have "b' = b\<lparr>bh_addr := be_addr e, bh_api_url := be_api_url e\<rparr>" using False assms(3) by (simp add: register_backend_def update_conv)
    then show ?thesis using assms(1) [OF Some] by (simp add: carried_over_def rw_counters_def ro_counters_def)
  qed
qed

lemma register_next_channel: "px_next_channel p \<le> px_next_channel (fold register_backend es p)"
proof (induction es arbitrary: p)
  case (Cons e es)
  have "px_next_channel p \<le> px_next_channel (register_backend e p)" by (simp add: register_backend_def split: option.splits)
  then show ?case using Cons.IH [of "register_backend e p"] by simp
qed simp

lemma register_fold_carries:
  assumes "\<And>n b. map_of (px_health q) n = Some b \<Longrightarrow> carried_over p n b" "px_next_channel p \<le> px_next_channel q"
    "map_of (px_health (fold register_backend es q)) n = Some b'"
  shows "carried_over p n b'"
  using assms
proof (induction es arbitrary: q)
  case (Cons e es)
  have "px_next_channel p \<le> px_next_channel (register_backend e q)"
    using Cons.prems(2) register_next_channel [of q "[e]"] by simp
  moreover have "carried_over p n b" if "map_of (px_health (register_backend e q)) n = Some b" for n b
    using register_carries [OF Cons.prems(1,2) that] .
  ultimately show ?case using Cons.IH [of "register_backend e q"] Cons.prems(3) by simp
qed simp

lemma update_backends_entry:
  assumes "proxy_ok p" "map_of (px_health (update_backends backends p)) n = Some b'"
  shows "carried_over p n b'"
proof -
  let ?p1 = "if px_health p = [] then p\<lparr>px_upstream := backends\<rparr> else p"
  have p1: "px_health ?p1 = px_health p" "px_next_channel ?p1 = px_next_channel p" "proxy_ok ?p1" using assms(1) by (simp_all add: proxy_ok_def channels_def)
  have "proxy_ok (fold register_backend es q)" if "proxy_ok q" for es q
    using that by (induction es arbitrary: q) (simp_all add: proxy_ok_register)
  then have "distinct (map fst (px_health (fold register_backend backends ?p1)))" using p1(3) by (auto simp: proxy_ok_def)
  moreover have "(n, b') \<in> set (px_health (fold register_backend backends ?p1))"
    using map_of_SomeD [OF assms(2)] by (simp add: update_backends_def Let_def)
  ultimately have "map_of (px_health (fold register_backend backends ?p1)) n = Some b'" by simp
  moreover have "carried_over p m b" if "map_of (px_health ?p1) m = Some b" for m b
    using that p1(1) by (auto simp: carried_over_def)
  ultimately show ?thesis using register_fold_carries [of ?p1 p backends n b'] p1(2) by simp
qed

lemma update_backends_frame:
  "px_upstream (update_backends backends p) = (if px_health p = [] then backends else px_upstream p)"
  "px_next_channel p \<le> px_next_channel (update_backends backends p)"
proof -
  have "px_upstream (fold register_backend es q) = px_upstream q" for es q
    by (induction es arbitrary: q) (simp_all add: register_backend_def split: option.splits)
  then show "px_upstream (update_backends backends p) = (if px_health p = [] then backends else px_upstream p)"
    by (simp add: update_backends_def Let_def)
  show "px_next_channel p \<le> px_next_channel (update_backends backends p)"
    using register_next_channel [of "p\<lparr>px_upstream := backends\<rparr>" backends] register_next_channel [of p backends]
    by (simp add: update_backends_def Let_def)
qed

text \<open>
  What holds along a run: every read-write counter is the count of the results recorded on its channel; a rebuilt
  list agrees with the flags of the backends that were registered when it was built; while a handed list stands,
  no backend is up.
\<close>

definition origin_ok :: "list_origin \<Rightarrow> proxy \<Rightarrow> bool" where
  "origin_ok origin p \<longleftrightarrow>
     (case origin of
        Handed bs \<Rightarrow> px_upstream p = bs \<and>
          (\<forall>n b. map_of (px_health p) n = Some b \<longrightarrow> \<not> bh_rw_healthy b \<and> \<not> bh_ro_healthy b)
      | Rebuilt k \<Rightarrow> k \<le> px_next_channel p \<and>
          (\<forall>n b e. map_of (px_health p) n = Some b \<longrightarrow> bh_channel b < k \<longrightarrow>
             e \<in> set (px_upstream p) \<longrightarrow> be_name e = n \<longrightarrow> be_is_primary e = bh_rw_healthy b))"

definition run_ok :: "health_check_config \<Rightarrow> proxy_run \<Rightarrow> bool" where
  "run_ok cfg s \<longleftrightarrow> proxy_ok (pw_proxy s) \<and>
     (\<forall>c \<ge> px_next_channel (pw_proxy s). pw_results s c = []) \<and>
     (\<forall>n b. map_of (px_health (pw_proxy s)) n = Some b \<longrightarrow>
        rw_counters b = fold (count_probe cfg) (pw_results s (bh_channel b)) (False, 0, 0)) \<and>
     origin_ok (pw_origin s) (pw_proxy s)"

lemma channel_owner:
  assumes "proxy_ok p" "map_of (px_health p) n = Some b"
  shows "map_option bh_channel (map_of (px_health p) m) = Some (bh_channel b) \<longleftrightarrow> m = n"
proof
  assume "map_option bh_channel (map_of (px_health p) m) = Some (bh_channel b)"
  then obtain b' where b': "map_of (px_health p) m = Some b'" "bh_channel b' = bh_channel b" by auto
  have "inj_on (bh_channel \<circ> snd) (set (px_health p))" using assms(1) by (simp add: proxy_ok_def channels_def distinct_map)
  then have "(m, b') = (n, b)"
    by (rule inj_onD) (use map_of_SomeD [OF b'(1)] map_of_SomeD [OF assms(2)] b'(2) in auto)
  then show "m = n" by simp
qed (use assms in simp)

lemma run_ok_update:
  assumes "run_ok cfg s"
  shows "run_ok cfg (proxy_op_step cfg (Op_Update backends) s)"
proof -
  let ?p = "pw_proxy s" and ?q = "update_backends backends (pw_proxy s)"
  have ok: "proxy_ok ?p" using assms by (simp add: run_ok_def)
  note up = update_backends_frame [where backends = backends and p = ?p]
  have e: "carried_over ?p n b" if "map_of (px_health ?q) n = Some b" for n b by (rule update_backends_entry [OF ok that])
  have c: "rw_counters b = fold (count_probe cfg) (pw_results s (bh_channel b)) (False, 0, 0)"
    if "map_of (px_health ?q) n = Some b" for n b
    using e [OF that] assms by (auto simp: carried_over_def run_ok_def)
  have f: "\<not> bh_rw_healthy b \<and> \<not> bh_ro_healthy b"
    if "map_of (px_health ?q) n = Some b" "\<And>n b. map_of (px_health ?p) n = Some b \<Longrightarrow> \<not> bh_rw_healthy b \<and> \<not> bh_ro_healthy b" for n b
    using e [OF that(1)] that(2) by (auto simp: carried_over_def rw_counters_def ro_counters_def)
  have o: "origin_ok (if px_health ?p = [] then Handed backends else pw_origin s) ?q"
  proof (cases "px_health ?p = []")
    case False
    show ?thesis
    proof (cases "pw_origin s")
      case (Handed bs)
      then show ?thesis using False assms up(1) f by (simp add: run_ok_def origin_ok_def)
    next
      case (Rebuilt k)
      have k: "k \<le> px_next_channel ?p" and fl: "\<And>n b e. map_of (px_health ?p) n = Some b \<Longrightarrow> bh_channel b < k \<Longrightarrow>
             e \<in> set (px_upstream ?p) \<Longrightarrow> be_name e = n \<Longrightarrow> be_is_primary e = bh_rw_healthy b"
        using assms Rebuilt by (auto simp: run_ok_def origin_ok_def)
      have "be_is_primary x = bh_rw_healthy b"
        if "map_of (px_health ?q) (be_name x) = Some b" "bh_channel b < k" "x \<in> set (px_upstream ?p)" for x b
        using e [OF that(1)] that k fl by (fastforce simp: carried_over_def rw_counters_def)
      then show ?thesis using Rebuilt False k up by (auto simp: origin_ok_def)
    qed
  qed (use f up in \<open>auto simp: origin_ok_def\<close>)
  show ?thesis
    using assms c o proxy_ok_update [OF ok] up(2) by (simp add: run_ok_def)
qed

lemma run_ok_round:
  assumes "run_ok cfg s"
  shows "run_ok cfg (proxy_op_step cfg (Op_Round now results) s)"
proof -
  let ?p = "pw_proxy s" and ?q = "fst (health_round cfg now results (pw_proxy s))"
  have ok: "proxy_ok ?p" "proxy_ok ?q" using assms proxy_ok_round by (simp_all add: run_ok_def)
  note up = health_round_upstream [of cfg now results ?p]
  have r: "results_on ?p results c = []" if "px_next_channel ?p \<le> c" for c
    using ok(1) that by (force simp: results_on_def filter_empty_conv proxy_ok_def channels_def dest: map_of_SomeD)
  have c: "rw_counters b = fold (count_probe cfg) (pw_results s (bh_channel b) @ results_on ?p results (bh_channel b)) (False, 0, 0)"
    if "map_of (px_health ?q) n = Some b" for n b
  proof -
    from that obtain b0 where b0: "map_of (px_health ?p) n = Some b0" "bh_channel b = bh_channel b0"
      "rw_counters b = fold (count_probe cfg) (map (probe_ok \<circ> pr_rw) (filter (\<lambda>r. pr_name r = n) results)) (rw_counters b0)"
      by (rule health_round_entry)
    have "rw_counters b0 = fold (count_probe cfg) (pw_results s (bh_channel b0)) (False, 0, 0)" using assms b0(1) by (simp add: run_ok_def)
    then show ?thesis unfolding b0(2,3) results_on_def channel_owner [OF ok(1) b0(1)] by simp
  qed
  have o: "origin_ok (if round_changed cfg now results ?p then Rebuilt (px_next_channel ?p) else pw_origin s) ?q"
  proof (cases "round_changed cfg now results ?p")
    case True
    have "be_is_primary e = bh_rw_healthy b" if "map_of (px_health ?q) n = Some b" "e \<in> set (px_upstream ?q)" "be_name e = n" for n b e
    proof -
      from that(2) True up(1) obtain m b' where b': "(m, b') \<in> set (px_health ?q)" "e = rebuilt_backend b'" by auto
      then have "map_of (px_health ?q) n = Some b'" using ok(2) that(3) by (auto simp: proxy_ok_def rebuilt_backend_def)
      then show ?thesis using that(1) b'(2) by (simp add: rebuilt_backend_def)
    qed
    then show ?thesis using True up(2) by (simp add: origin_ok_def)
  next
    case False
    have same: "\<exists>b0. map_of (px_health ?p) n = Some b0 \<and> bh_channel b = bh_channel b0 \<and>
        bh_rw_healthy b = bh_rw_healthy b0 \<and> bh_ro_healthy b = bh_ro_healthy b0"
      if "map_of (px_health ?q) n = Some b" for n b
      using health_round_entry [OF that] False by metis
    show ?thesis
    proof (cases "pw_origin s")
      case (Handed bs)
      then show ?thesis using False assms up(1) same by (fastforce simp: run_ok_def origin_ok_def)
    next
      case (Rebuilt k)
      then show ?thesis using False assms up same by (fastforce simp: run_ok_def origin_ok_def)
    qed
  qed
  show ?thesis using assms c o r ok(2) up(2) by (simp add: run_ok_def)
qed

lemma run_ok_run: "run_ok cfg (run_proxy cfg ops)"
proof (induction ops rule: rev_induct)
  case Nil
  show ?case by (simp add: run_proxy_def run_ok_def origin_ok_def new_proxy_def proxy_ok_def channels_def)
next
  case (snoc op ops)
  then show ?case using run_ok_update run_ok_round by (cases op) (simp_all add: run_proxy_def)
qed

lemma route_read_write:
  assumes "route_connection Read_Write k p = Some (addr, c)"
  obtains e b where "e \<in> set (px_upstream p)" "be_is_primary e" "map_of (px_health p) (be_name e) = Some b" "bh_addr b = addr" "bh_channel b = c"
proof -
  obtain e where e: "primary_backend (px_upstream p) = Some e" "map_option (\<lambda>b. (bh_addr b, bh_channel b)) (map_of (px_health p) (be_name e)) = Some (addr, c)"
    using assms by (auto simp: route_connection_def select_backend_def bind_eq_Some_conv)
  then have "e \<in> set (px_upstream p)" "be_is_primary e" by (auto simp: primary_backend_def find_Some_iff in_set_conv_nth)
  then show thesis using that e(2) by auto
qed

text \<open>
  C13. Along any interleaving of handed-over member lists and rounds of the checker, with \<open>rise\<close> and \<open>fall\<close> positive, a
  connection on the read-write port goes to a registered backend, and one of three things holds. Either the list
  is the checker's, the backend was registered when it was built, and the \<open>/primary\<close> results recorded for this registration
  hold \<open>rise\<close> successes in a row with no \<open>fall\<close> failures in a row since. Or the list is the checker's and the
  backend was registered after it was built. Or the list is the one handed over when no backend was registered,
  and no registered backend is up. The two exceptions are real, as the lemmas below show.
\<close>

theorem rw_goes_to_confirmed_primary:
  assumes "0 < hk_rise cfg" "0 < hk_fall cfg"
    "route_connection Read_Write k (pw_proxy (run_proxy cfg ops)) = Some (addr, c)"
  shows "(\<exists>n b. map_of (px_health (pw_proxy (run_proxy cfg ops))) n = Some b \<and> bh_addr b = addr \<and> bh_channel b = c) \<and>
    (case pw_origin (run_proxy cfg ops) of
       Rebuilt built \<Rightarrow> c < built \<longrightarrow> up_after (unat (hk_rise cfg)) (unat (hk_fall cfg)) (pw_results (run_proxy cfg ops) c)
     | Handed bs \<Rightarrow> px_upstream (pw_proxy (run_proxy cfg ops)) = bs \<and> never_up (pw_proxy (run_proxy cfg ops)))"
proof -
  let ?s = "run_proxy cfg ops"
  have ok: "run_ok cfg ?s" by (rule run_ok_run)
  obtain e b where e: "e \<in> set (px_upstream (pw_proxy ?s))" "be_is_primary e" "map_of (px_health (pw_proxy ?s)) (be_name e) = Some b"
    "bh_addr b = addr" "bh_channel b = c" using assms(3) by (rule route_read_write)
  have up: "up_after (unat (hk_rise cfg)) (unat (hk_fall cfg)) (pw_results ?s c)" if "bh_rw_healthy b"
    proof -
    have "rw_counters b = fold (count_probe cfg) (pw_results ?s c) (False, 0, 0)" using ok e(3,5) by (auto simp: run_ok_def)
    then have "counted cfg (pw_results ?s c) (rw_counters b)" using counted_fold [OF assms(1,2)] by simp
    then show ?thesis using that by (simp add: counted_def rw_counters_def)
  qed
  show ?thesis
  proof (cases "pw_origin ?s")
    case (Handed bs)
    have "distinct (map fst (px_health (pw_proxy ?s)))" using ok by (simp add: run_ok_def proxy_ok_def)
    then have "never_up (pw_proxy ?s)" using ok Handed by (auto simp: never_up_def run_ok_def origin_ok_def flags_core)
    then show ?thesis using e Handed ok by (auto simp: run_ok_def origin_ok_def)
  next
    case (Rebuilt built)
    have "bh_rw_healthy b" if "c < built" using ok Rebuilt e that by (fastforce simp: run_ok_def origin_ok_def)
    then show ?thesis using e up Rebuilt by auto
  qed
qed

text \<open>A proxy with one backend.\<close>

definition one_backend :: "bool \<Rightarrow> pg_backend" where
  "one_backend up = \<lparr>be_addr = ''h'', be_name = ''n'', be_is_primary = True, be_is_healthy = up, be_api_url = ''u''\<rparr>"

lemma update_one: "be_api_url b \<noteq> [] \<Longrightarrow>
  update_backends [b] new_proxy = \<lparr>px_upstream = [b], px_health = [(be_name b, new_backend_health b 0)], px_next_channel = 1\<rparr>"
  by (simp add: update_backends_def new_proxy_def register_backend_def)

lemma one_ok: "be_api_url b \<noteq> [] \<Longrightarrow> proxy_ok (update_backends [b] new_proxy)"
  by (simp add: update_one proxy_ok_def channels_def new_backend_health_def)

lemmas round_defs = run_rounds_def check_round_def health_round_def probe_backends_def backends_to_check_def note_probe_error_def
  apply_rw_def apply_ro_def rw_counters_def ro_counters_def
lemmas route_defs = route_connection_def select_backend_def primary_backend_def rebuilt_backend_def

lemma small_u32: "\<not> (3 :: u32) \<le> 1" "\<not> (2 :: u32) \<le> 1" "\<not> (3 :: u32) \<le> 2"
  by (simp_all add: word_le_nat_alt)

definition primary_answer :: "string \<Rightarrow> probe_result" where
  "primary_answer n = \<lparr>pr_name = n, pr_rw = Ok True, pr_ro = Ok False\<rparr>"

definition other_backend :: pg_backend where
  "other_backend = \<lparr>be_addr = ''g'', be_name = ''m'', be_is_primary = False, be_is_healthy = True, be_api_url = ''v''\<rparr>"

lemmas run_defs = run_proxy_def new_proxy_def update_backends_def register_backend_def new_backend_health_def
  health_round_def round_changed_def results_on_def note_probe_error_def primary_answer_def one_backend_def other_backend_def
  apply_rw_def apply_ro_def rw_counters_def ro_counters_def default_health_check_config_def

text \<open>The backend is confirmed by two rounds, whatever the list handed over says of it.\<close>

definition confirmed_ops :: "proxy_op list" where
  "confirmed_ops = [Op_Update [one_backend False, other_backend], Op_Round 0 [primary_answer ''n''], Op_Round 3000 [primary_answer ''n'']]"

lemma confirmed_run:
  "route_connection Read_Write 0 (pw_proxy (run_proxy default_health_check_config confirmed_ops)) = Some (''h'', 0)"
  "pw_origin (run_proxy default_health_check_config confirmed_ops) = Rebuilt 2"
  "pw_results (run_proxy default_health_check_config confirmed_ops) 0 = [True, True]"
  by (simp_all add: confirmed_ops_def run_defs route_defs small_u32 probe_ok_def)

theorem rw_goes_to_confirmed_primary_witness:
  "route_connection Read_Write 0 (pw_proxy (run_proxy default_health_check_config confirmed_ops)) = Some (''h'', 0) \<and>
   up_after 2 3 [True, True]"
proof -
  let ?c = default_health_check_config
  have c: "0 < hk_rise ?c" "0 < hk_fall ?c" "unat (hk_rise ?c) = 2" "unat (hk_fall ?c) = 3"
    by (simp_all add: default_health_check_config_def)
  from rw_goes_to_confirmed_primary [OF c(1,2) confirmed_run(1)] have "up_after 2 3 [True, True]"
    by (simp add: confirmed_run c)
  then show ?thesis using confirmed_run(1) by simp
qed

text \<open>
  The exceptions. A backend that leaves the member list for one cycle and comes back is routed to at once under its
  new registration, without a single probe: the checker's list still names it. And when the member list was empty
  for one cycle, the list of the HA loop decides again, although the checker had been in charge before.
\<close>

theorem reregistered_backend_routed_unprobed:
  "let s = run_proxy default_health_check_config (confirmed_ops @ [Op_Update [other_backend], Op_Update [one_backend False, other_backend]])
   in route_connection Read_Write 0 (pw_proxy s) = Some (''h'', 2) \<and> pw_results s 2 = [] \<and> pw_origin s = Rebuilt 2"
  by (simp add: confirmed_ops_def run_defs route_defs small_u32 probe_ok_def)

theorem refilled_list_decides_again:
  "let s = run_proxy default_health_check_config (confirmed_ops @ [Op_Update [], Op_Update [one_backend True]])
   in route_connection Read_Write 0 (pw_proxy s) = Some (''h'', 2) \<and> pw_results s 2 = [] \<and> pw_origin s = Handed [one_backend True]"
  by (simp add: confirmed_ops_def run_defs route_defs small_u32 probe_ok_def)

lemma failing_rounds:
  assumes "be_api_url b \<noteq> []" "\<forall>r \<in> set rs. \<forall>n. \<not> probe_ok (fst (snd r n)) \<and> \<not> probe_ok (snd (snd r n))"
  shows "let p = run_rounds cfg rs (update_backends [b] new_proxy)
    in proxy_ok p \<and> px_upstream p = [b] \<and> never_up p \<and>
       map (snd \<circ> snd \<circ> snd) (cores (px_health p)) = [(be_name b, be_addr b, be_api_url b, 0)]"
  using assms(2)
proof (induction rs rule: rev_induct)
  case Nil
  show ?case using one_ok [OF assms(1)]
    by (simp add: run_rounds_def update_one [OF assms(1)] never_up_def core_of_def new_backend_health_def flags_def rw_counters_def ro_counters_def)
next
  case (snoc r rs)
  let ?p = "run_rounds cfg rs (update_backends [b] new_proxy)"
  have p: "proxy_ok ?p" "px_upstream ?p = [b]" "never_up ?p"
    "map (snd \<circ> snd \<circ> snd) (cores (px_health ?p)) = [(be_name b, be_addr b, be_api_url b, 0)]"
    using snoc by (simp_all add: Let_def comp_def)
  have r: "\<not> probe_ok (fst (snd r n))" "\<not> probe_ok (snd (snd r n))" for n using snoc.prems by simp_all
  have f: "flags (core_step cfg (snd r) e) = (False, False)" if "flags e = (False, False)" for e
    using that r by (auto simp: flags_def core_step_def split: prod.splits)
  note c = check_round_result [OF p(1), of cfg r]
  have k: "map (snd \<circ> snd \<circ> snd) (map (core_step cfg (snd r)) es) = map (snd \<circ> snd \<circ> snd) es" for es
    by (simp add: core_step_def split_def)
  have run: "run_rounds cfg (rs @ [r]) (update_backends [b] new_proxy) = fst (check_round cfg r ?p)" by (simp add: run_rounds_def)
  have "never_up (fst (check_round cfg r ?p))" unfolding never_up_def conjunct1 [OF c] using p(3) f by (auto simp: never_up_def)
  moreover have "\<not> (\<exists>e \<in> set (cores (px_health ?p)). flags (core_step cfg (snd r) e) \<noteq> flags e)" using p(3) f by (auto simp: never_up_def)
  moreover have "proxy_ok (fst (check_round cfg r ?p))" unfolding check_round_def by (rule proxy_ok_round [OF p(1)])
  ultimately show ?case unfolding run Let_def using c p(2,4) k by (simp only: if_False simp_thms)
qed

text \<open>
  The list handed over at the start is not checked: a member that the HA loop reported as primary keeps the
  read-write connections while every one of its probes fails, for any number of rounds.
\<close>

theorem unprobed_primary_stays_routed:
  assumes "be_is_primary b" "be_is_healthy b" "be_api_url b \<noteq> []"
    "\<forall>r \<in> set rs. \<forall>n. \<not> probe_ok (fst (snd r n)) \<and> \<not> probe_ok (snd (snd r n))"
  shows "route_connection Read_Write k (run_rounds cfg rs (update_backends [b] new_proxy)) = Some (be_addr b, 0)"
proof -
  let ?p = "run_rounds cfg rs (update_backends [b] new_proxy)"
  have p: "proxy_ok ?p" "px_upstream ?p = [b]" "map (snd \<circ> snd \<circ> snd) (cores (px_health ?p)) = [(be_name b, be_addr b, be_api_url b, 0)]"
    using failing_rounds [OF assms(3,4), of cfg] by (simp_all add: Let_def)
  then obtain n e where e: "px_health ?p = [(n, e)]" "bh_name e = be_name b" "bh_addr e = be_addr b" "bh_channel e = 0"
    by (auto simp: core_of_def Cons_eq_map_conv)
  then show ?thesis using p(1,2) assms(1,2)
    by (simp add: route_connection_def select_backend_def primary_backend_def proxy_ok_def)
qed

theorem unprobed_primary_stays_routed_witness:
  "route_connection Read_Write 0 (run_rounds default_health_check_config
     (replicate 9 (0, \<lambda>_. (Err ''refused'', Err ''refused''))) (update_backends [one_backend True] new_proxy)) = Some (''h'', 0)"
  using unprobed_primary_stays_routed [of "one_backend True" "replicate 9 (0, \<lambda>_. (Err ''refused'', Err ''refused''))" 0]
  by (simp add: one_backend_def probe_ok_def)

text \<open>
  A replica that becomes the primary loses its first sessions: with the default settings it is up for read-write
  connections after two rounds, and the third round, which marks it down for reading, sends the shutdown on the
  channel those sessions listen to, although it stays the target of read-write connections.
\<close>

theorem promotion_cuts_new_sessions:
  assumes "px_health p = [(n, b)]" "bh_name b = n" "rw_counters b = (False, fails, 0)" "ro_counters b = (True, 0, successes)"
    "probe_ok (fst (f n))" "\<not> probe_ok (snd (f n))"
  shows "let cfg = default_health_check_config; q = run_rounds cfg [(t1, f), (t2, f)] p; next = check_round cfg (t3, f) q
    in route_connection Read_Write k q = Some (bh_addr b, bh_channel b) \<and>
       snd next = [bh_channel b] \<and> route_connection Read_Write k (fst next) = Some (bh_addr b, bh_channel b)"
proof -
  have c: "hk_rise default_health_check_config = 2" "hk_fall default_health_check_config = 3" "hk_shutdown_on_down default_health_check_config"
    by (simp_all add: default_health_check_config_def)
  show ?thesis using assms by (cases b) (simp add: Let_def round_defs route_defs c small_u32)
qed

theorem promotion_cuts_new_sessions_witness:
  "let cfg = default_health_check_config; f = (\<lambda>_. (Ok True, Ok False));
       b = (new_backend_health (one_backend False) 7)\<lparr>bh_ro_healthy := True\<rparr>;
       q = run_rounds cfg [(0, f), (3000, f)] \<lparr>px_upstream = [], px_health = [(''n'', b)], px_next_channel = 8\<rparr>
   in route_connection Read_Write 0 q = Some (''h'', 7) \<and> snd (check_round cfg (6000, f) q) = [7]"
  using promotion_cuts_new_sessions
    [of "\<lparr>px_upstream = [], px_health = [(''n'', (new_backend_health (one_backend False) 7)\<lparr>bh_ro_healthy := True\<rparr>)], px_next_channel = 8\<rparr>"
        "''n''" "(new_backend_health (one_backend False) 7)\<lparr>bh_ro_healthy := True\<rparr>" 0 0 "\<lambda>_. (Ok True, Ok False)" 0 3000 6000 0]
  by (simp add: Let_def new_backend_health_def one_backend_def rw_counters_def ro_counters_def probe_ok_def)

end
