(* ===== verification/Proxy_Sessions.thy ===== *)
theory Proxy_Sessions
  imports Proxy
begin

text \<open>
  The connections the proxy carries (\<open>run_listener\<close> and \<open>handle_connection\<close> of
  \<open>crates/pg-ha-proxy/src/proxy.rs\<close>). A session is the channel of its backend; it holds one permit of
  the backend's semaphore from its acceptance to its end, whether the connect succeeds or not. Each
  of the two listeners counts the connections it accepts. Copying the bytes is not modelled.

  The lemmas show that a registration of a backend never has more sessions than \<open>maxconn\<close>, that a backend which is
  registered again may carry twice as many, and that a backend marked down has no session left.
\<close>

section \<open>The listener\<close>

record listener =
  ln_proxy :: proxy
  ln_sessions :: "nat list"
  ln_counter :: "proxy_mode \<Rightarrow> u64"

definition new_listener :: listener where
  "new_listener = \<lparr>ln_proxy = new_proxy, ln_sessions = [], ln_counter = (\<lambda>_. 0)\<rparr>"

datatype connection_result = No_Backend | Unknown_Backend string | At_Maxconn string | Connecting socket_addr nat

definition handle_connection :: "health_check_config \<Rightarrow> proxy_mode \<Rightarrow> u64 \<Rightarrow> proxy \<Rightarrow> nat list \<Rightarrow> connection_result" where
  "handle_connection cfg mode counter p sessions =
    (case select_backend mode counter (px_upstream p) of
       None \<Rightarrow> No_Backend
     | Some name \<Rightarrow>
         (case map_of (px_health p) name of
            None \<Rightarrow> Unknown_Backend name
          | Some b \<Rightarrow>
              (if hk_max_connections cfg \<le> count_list sessions (bh_channel b) then At_Maxconn name
               else Connecting (bh_addr b) (bh_channel b))))"

definition accept_connection :: "health_check_config \<Rightarrow> proxy_mode \<Rightarrow> listener \<Rightarrow> listener" where
  "accept_connection cfg mode l =
    (let l' = l\<lparr>ln_counter := (ln_counter l)(mode := ln_counter l mode + 1)\<rparr>
     in case handle_connection cfg mode (ln_counter l mode) (ln_proxy l) (ln_sessions l) of
          Connecting _ c \<Rightarrow> l'\<lparr>ln_sessions := c # ln_sessions l\<rparr>
        | _ \<Rightarrow> l')"

text \<open>A session that listens for the shutdown of its backend ends when it is sent.\<close>

definition cut_sessions :: "health_check_config \<Rightarrow> nat list \<Rightarrow> nat list \<Rightarrow> nat list" where
  "cut_sessions cfg sent sessions = (if hk_shutdown_on_down cfg then filter (\<lambda>c. c \<notin> set sent) sessions else sessions)"

definition listener_round :: "health_check_config \<Rightarrow> nat \<Rightarrow> probe_result list \<Rightarrow> listener \<Rightarrow> listener" where
  "listener_round cfg now results l =
    (case health_round cfg now results (ln_proxy l) of
       (p', sent) \<Rightarrow> l\<lparr>ln_proxy := p', ln_sessions := cut_sessions cfg sent (ln_sessions l)\<rparr>)"

text \<open>The listeners, the checker and the refresher in any order; backends may change while a round probes.\<close>

inductive listener_reachable :: "health_check_config \<Rightarrow> listener \<Rightarrow> bool" for cfg where
  start: "listener_reachable cfg new_listener"
| accept: "listener_reachable cfg l \<Longrightarrow> listener_reachable cfg (accept_connection cfg mode l)"
| finish: "listener_reachable cfg l \<Longrightarrow> listener_reachable cfg (l\<lparr>ln_sessions := remove1 c (ln_sessions l)\<rparr>)"
| round: "listener_reachable cfg l \<Longrightarrow> listener_reachable cfg (listener_round cfg now results l)"
| update: "listener_reachable cfg l \<Longrightarrow> listener_reachable cfg (l\<lparr>ln_proxy := update_backends backends (ln_proxy l)\<rparr>)"

section \<open>The limit\<close>

definition within_maxconn :: "health_check_config \<Rightarrow> nat list \<Rightarrow> bool" where
  "within_maxconn cfg sessions \<longleftrightarrow> (\<forall>c. count_list sessions c \<le> hk_max_connections cfg)"

lemma count_list_filter_le: "count_list (filter P xs) c \<le> count_list xs c"
  by (induction xs) auto

lemma count_list_remove1_le: "count_list (remove1 d xs) c \<le> count_list xs c"
  by (induction xs) auto

lemma within_accept: "within_maxconn cfg (ln_sessions l) \<Longrightarrow> within_maxconn cfg (ln_sessions (accept_connection cfg mode l))"
  by (auto simp: accept_connection_def handle_connection_def within_maxconn_def Let_def split: option.splits)

lemma within_cut: "within_maxconn cfg sessions \<Longrightarrow> within_maxconn cfg (cut_sessions cfg sent sessions)"
  by (auto simp: cut_sessions_def within_maxconn_def intro: order_trans [OF count_list_filter_le])

lemma within_remove: "within_maxconn cfg sessions \<Longrightarrow> within_maxconn cfg (remove1 d sessions)"
  unfolding within_maxconn_def by (meson count_list_remove1_le order_trans)

text \<open>
  C31. The sessions accepted under one registration of a backend never exceed \<open>maxconn\<close>: however connections arrive and end,
  on both ports, while backends are probed, marked down, removed and registered, the sessions that hold a permit of
  one semaphore, which a registration creates together with its shutdown channel \<open>c\<close>, stay within the limit. The limit
  is not one per backend: \<open>reregistered_backend_exceeds_maxconn\<close> below.
\<close>

theorem sessions_within_maxconn:
  assumes "listener_reachable cfg l"
  shows "count_list (ln_sessions l) c \<le> hk_max_connections cfg"
proof -
  from assms have "within_maxconn cfg (ln_sessions l)"
    by induction
      (simp_all add: within_accept within_cut within_remove listener_round_def case_prod_beta, simp add: within_maxconn_def new_listener_def)
  then show ?thesis by (simp add: within_maxconn_def)
qed

theorem sessions_within_maxconn_witness:
  "let l = accept_connection default_health_check_config Read_Write
         (new_listener\<lparr>ln_proxy := update_backends [one_backend True] (ln_proxy new_listener)\<rparr>)
   in ln_sessions l = [0] \<and> count_list (ln_sessions l) 0 \<le> 300"
proof -
  let ?l = "accept_connection default_health_check_config Read_Write
         (new_listener\<lparr>ln_proxy := update_backends [one_backend True] (ln_proxy new_listener)\<rparr>)"
  have "listener_reachable default_health_check_config ?l" by (intro listener_reachable.intros)
  then have "count_list (ln_sessions ?l) 0 \<le> hk_max_connections default_health_check_config" by (rule sessions_within_maxconn)
  moreover have "ln_sessions ?l = [0]" by code_simp
  ultimately show ?thesis by (simp add: default_health_check_config_def)
qed

text \<open>
  A backend that leaves the member list and comes back gets a new semaphore, while the sessions accepted before go on: with a
  limit of one session the same server carries two.
\<close>

theorem reregistered_backend_exceeds_maxconn:
  "\<exists>cfg l. hk_max_connections cfg = 1 \<and> listener_reachable cfg l \<and> ln_sessions l = [1, 0] \<and>
     map_of (px_health (ln_proxy l)) ''n'' = Some (new_backend_health (one_backend True) 1)"
proof (intro exI conjI)
  let ?cfg = "default_health_check_config\<lparr>hk_max_connections := 1\<rparr>" and ?u = "\<lambda>bs l. l\<lparr>ln_proxy := update_backends bs (ln_proxy l)\<rparr>"
  let ?l1 = "accept_connection ?cfg Read_Write (?u [one_backend True] new_listener)"
  let ?l2 = "accept_connection ?cfg Read_Write (?u [one_backend True] (?u [] ?l1))"
  show "listener_reachable ?cfg ?l2" by (intro listener_reachable.intros)
  show "ln_sessions ?l2 = [1, 0]" by code_simp
  show "map_of (px_health (ln_proxy ?l2)) ''n'' = Some (new_backend_health (one_backend True) 1)" by code_simp
qed (simp add: default_health_check_config_def)

section \<open>Sessions of a backend that is marked down\<close>

lemma apply_results_signals:
  assumes "\<And>ok b. bh_channel (step ok b) = bh_channel b" "hk_shutdown_on_down cfg"
    and "map_of m n = Some b" "healthy b"
    and "map_of (fst (apply_results cfg step healthy rs m)) n = Some b'" "\<not> healthy b'"
  shows "bh_channel b \<in> set (snd (snd (apply_results cfg step healthy rs m)))"
  using assms(3-6)
proof (induction rs arbitrary: m b)
  case (Cons r rs)
  obtain name ok where r: "r = (name, ok)" by fastforce
  show ?case
  proof (cases "map_of m name")
    case None
    then show ?thesis using Cons by (simp add: r)
  next
    case (Some d)
    let ?m = "AList.update name (step ok d) m"
    have u: "map_of ?m n = (if n = name then Some (step ok d) else Some b)"
      using Cons.prems(1) by (simp add: update_conv')
    have "\<lbrakk>map_of ?m n = Some e; healthy e\<rbrakk> \<Longrightarrow> bh_channel e \<in> set (snd (snd (apply_results cfg step healthy rs ?m)))" for e
      using Cons.IH [of ?m e] Cons.prems(3,4) Some by (simp add: r Let_def case_prod_beta)
    then show ?thesis
      using u Some Cons.prems(1,2) assms(1,2) by (cases "n = name"; cases "healthy (step ok d)")
        (auto simp: r Let_def case_prod_beta)
  qed
qed simp

lemma apply_results_keeps:
  assumes "\<And>ok b. f (step ok b) = f b"
  shows "map_option f (map_of (fst (apply_results cfg step healthy rs m)) n) = map_option f (map_of m n)"
proof (induction rs arbitrary: m)
  case (Cons r rs)
  obtain name ok where r: "r = (name, ok)" by fastforce
  show ?case
    using Cons.IH assms by (cases "map_of m name") (auto simp: r Let_def case_prod_beta update_conv')
qed simp

lemma note_keeps:
  assumes "\<And>b x. f (b\<lparr>bh_last_probe_error_log := x\<rparr>) = f b"
  shows "map_option f (map_of (fold (note_probe_error now) rs m) n) = map_option f (map_of m n)"
proof (induction rs arbitrary: m)
  case (Cons r rs)
  have "map_option f (map_of (note_probe_error now r m) n) = map_option f (map_of m n)"
    using assms by (cases "map_of m n") (auto simp: note_probe_error_def map_of_map_entry)
  then show ?case using Cons by simp
qed simp

text \<open>
  Marking a backend down ends its sessions: after a round in which a backend went down for one of
  the two ports, no session is left on its channel, when sessions are to be shut down.
\<close>

theorem marked_down_backend_has_no_session:
  assumes "hk_shutdown_on_down cfg" and "map_of (px_health (ln_proxy l)) n = Some b"
    and "map_of (px_health (ln_proxy (listener_round cfg now rs l))) n = Some b'"
    and "bh_rw_healthy b \<and> \<not> bh_rw_healthy b' \<or> bh_ro_healthy b \<and> \<not> bh_ro_healthy b'"
  shows "bh_channel b \<notin> set (ln_sessions (listener_round cfg now rs l))"
proof -
  let ?m = "px_health (ln_proxy l)"
  define m0 where "m0 = fold (note_probe_error now) rs ?m"
  define r1 where "r1 = apply_results cfg (apply_rw cfg) bh_rw_healthy (map (\<lambda>r. (pr_name r, probe_ok (pr_rw r))) rs) m0"
  define r2 where "r2 = apply_results cfg (apply_ro cfg) bh_ro_healthy (map (\<lambda>r. (pr_name r, probe_ok (pr_ro r))) rs) (fst r1)"
  have round: "ln_sessions (listener_round cfg now rs l) = filter (\<lambda>c. c \<notin> set (snd (snd r1) @ snd (snd r2))) (ln_sessions l)"
    "px_health (ln_proxy (listener_round cfg now rs l)) = fst r2"
    using assms(1)
    by (simp_all add: listener_round_def health_round_def cut_sessions_def m0_def [symmetric] r1_def [symmetric] r2_def [symmetric] case_prod_beta)
  let ?f = "\<lambda>b. (bh_rw_healthy b, bh_ro_healthy b, bh_channel b)" and ?g = "\<lambda>b. (bh_ro_healthy b, bh_channel b)"
  have "map_option ?f (map_of m0 n) = Some (?f b)" unfolding m0_def using assms(2) by (subst note_keeps) simp_all
  then obtain b0 where b0: "map_of m0 n = Some b0" "?f b0 = ?f b" by blast
  have "map_option ?g (map_of (fst r1) n) = Some (?g b0)" unfolding r1_def using b0(1) by (subst apply_results_keeps) simp_all
  then obtain b1 where b1: "map_of (fst r1) n = Some b1" "?g b1 = ?g b0" by blast
  have "map_option bh_rw_healthy (map_of (fst r2) n) = Some (bh_rw_healthy b1)"
    unfolding r2_def using b1(1) by (subst apply_results_keeps) simp_all
  then have b2: "bh_rw_healthy b' = bh_rw_healthy b1" "map_of (fst r2) n = Some b'" using assms(3) round(2) by simp_all
  from assms(4) have "bh_channel b \<in> set (snd (snd r1) @ snd (snd r2))"
  proof
    assume "bh_rw_healthy b \<and> \<not> bh_rw_healthy b'"
    then have "bh_channel b0 \<in> set (snd (snd r1))"
      using apply_results_signals [of "apply_rw cfg" cfg m0 n b0 bh_rw_healthy _ b1, OF _ assms(1) b0(1), folded r1_def] b0(2) b1(1) b2(1)
      unfolding r1_def by simp
    then show ?thesis using b0(2) by simp
  next
    assume "bh_ro_healthy b \<and> \<not> bh_ro_healthy b'"
    then have "bh_channel b1 \<in> set (snd (snd r2))"
      using apply_results_signals [of "apply_ro cfg" cfg "fst r1" n b1 bh_ro_healthy _ b', OF _ assms(1) b1(1)] b0(2) b1(2) b2(2)
      unfolding r2_def by simp
    then show ?thesis using b0(2) b1(2) by simp
  qed
  then show ?thesis by (simp add: round(1))
qed

theorem marked_down_backend_has_no_session_witness:
  "let b = (new_backend_health (one_backend True) 4)\<lparr>bh_rw_healthy := True, bh_rw_fail_count := 2\<rparr>;
       l = \<lparr>ln_proxy = \<lparr>px_upstream = [], px_health = [(''n'', b)], px_next_channel = 5\<rparr>, ln_sessions = [4], ln_counter = (\<lambda>_. 1)\<rparr>
   in 4 \<notin> set (ln_sessions (listener_round default_health_check_config 0
        [\<lparr>pr_name = ''n'', pr_rw = Err ''refused'', pr_ro = Err ''refused''\<rparr>] l))"
proof -
  let ?b = "(new_backend_health (one_backend True) 4)\<lparr>bh_rw_healthy := True, bh_rw_fail_count := 2\<rparr>"
  let ?l = "\<lparr>ln_proxy = \<lparr>px_upstream = [], px_health = [(''n'', ?b)], px_next_channel = 5\<rparr>, ln_sessions = [4], ln_counter = (\<lambda>_. 1)\<rparr>"
  let ?r = "[\<lparr>pr_name = ''n'', pr_rw = Err ''refused'', pr_ro = Err ''refused''\<rparr>]"
  have "map_of (px_health (ln_proxy (listener_round default_health_check_config 0 ?r ?l))) ''n'' =
      Some (apply_ro default_health_check_config False (apply_rw default_health_check_config False (?b\<lparr>bh_last_probe_error_log := Some 0\<rparr>)))"
    by (simp add: listener_round_def health_round_def note_probe_error_def probe_error_log_due_def probe_ok_def case_prod_beta Let_def
        new_backend_health_def)
  moreover have "\<not> bh_rw_healthy (apply_ro default_health_check_config False (apply_rw default_health_check_config False (?b\<lparr>bh_last_probe_error_log := Some 0\<rparr>)))"
    by (simp add: apply_rw_def rw_counters_def default_health_check_config_def)
  ultimately show ?thesis
    using marked_down_backend_has_no_session [of default_health_check_config ?l "''n''" ?b 0 ?r]
    by (simp add: default_health_check_config_def new_backend_health_def)
qed

end
