(* ===== verification/Slots.thy ===== *)
theory Slots
  imports Standby_Config
begin

text \<open>
  Replication slots of the members on the primary (\<open>crates/pg-ha-core/src/slots.rs\<close>): slot names, the
  difference between wanted and existing slots, and the retention of slots of absent members. Member
  names are ASCII; \<open>Instant::now()\<close> is an argument, in milliseconds. A \<open>HashMap\<close> whose keys alone are read is
  the list of its keys, in some order.

  The lemmas show that slot names are valid and that a slot is dropped only after it was orphaned for the
  retention time, and that two members can share a slot.
\<close>

section \<open>The slot manager\<close>

record slot_manager =
  sl_retained :: "string \<Rightarrow> nat option"
  sl_retention_ttl :: nat
  sl_ignore_patterns :: "string list"

definition new_slot_manager :: "u64 \<Rightarrow> slot_manager" where
  "new_slot_manager retention_ttl_secs =
    \<lparr>sl_retained = (\<lambda>_. None), sl_retention_ttl = unat retention_ttl_secs * 1000, sl_ignore_patterns = []\<rparr>"

definition set_ignore_patterns :: "string list \<Rightarrow> slot_manager \<Rightarrow> slot_manager" where
  "set_ignore_patterns patterns m = m\<lparr>sl_ignore_patterns := patterns\<rparr>"

definition is_lower_alnum :: "char \<Rightarrow> bool" where
  "is_lower_alnum c \<longleftrightarrow> is_digit c \<or> 97 \<le> (of_char c :: nat) \<and> (of_char c :: nat) \<le> 122"

definition slot_char :: "char \<Rightarrow> char" where
  "slot_char c = (if is_lower_alnum c \<or> c = CHR ''_'' then c else CHR ''_'')"

definition slot_name_from_member :: "string \<Rightarrow> string" where
  "slot_name_from_member name = take 63 (map slot_char (map ascii_lower name))"

definition matches_pattern :: "string \<Rightarrow> string \<Rightarrow> bool" where
  "matches_pattern slot_name pattern =
    (if CHR ''*'' \<in> set pattern
     then (if last pattern = CHR ''*'' then prefix (butlast pattern) slot_name
           else if hd pattern = CHR ''*'' then suffix (tl pattern) slot_name
           else slot_name = pattern)
     else slot_name = pattern)"

definition is_ignored :: "slot_manager \<Rightarrow> string \<Rightarrow> bool" where
  "is_ignored m slot_name = list_ex (matches_pattern slot_name) (sl_ignore_patterns m)"

definition desired_slots :: "string list \<Rightarrow> string \<Rightarrow> string list" where
  "desired_slots current_members my_name =
    remdups (map slot_name_from_member (filter (\<lambda>m. m \<noteq> my_name) current_members))"

fun scan_slots :: "nat \<Rightarrow> string list \<Rightarrow> slot_manager \<Rightarrow> string list \<Rightarrow> slot_manager \<times> string list" where
  "scan_slots now desired m [] = (m, [])"
| "scan_slots now desired m (slot # slots) =
     (if slot \<in> set desired then scan_slots now desired (m\<lparr>sl_retained := (sl_retained m)(slot := None)\<rparr>) slots
      else if is_ignored m slot then scan_slots now desired m slots
      else
        (let first_seen_absent = unwrap_or (sl_retained m slot) now
         in if sl_retention_ttl m \<le> now - first_seen_absent
            then apsnd (Cons slot) (scan_slots now desired (m\<lparr>sl_retained := (sl_retained m)(slot := None)\<rparr>) slots)
            else scan_slots now desired (m\<lparr>sl_retained := (sl_retained m)(slot := Some first_seen_absent)\<rparr>) slots))"

definition compute_slot_diff ::
  "nat \<Rightarrow> string list \<Rightarrow> string list \<Rightarrow> string \<Rightarrow> slot_manager \<Rightarrow> slot_manager \<times> string list \<times> string list" where
  "compute_slot_diff now current_members existing_slots my_name m =
    (let desired = desired_slots current_members my_name;
         to_create = filter (\<lambda>s. s \<notin> set existing_slots) desired;
         (m', to_drop) = scan_slots now desired m existing_slots
     in (m', to_create, to_drop))"

section \<open>Names\<close>

text \<open>
  Every slot name is one PostgreSQL accepts: at most 63 lower-case letters, digits and underscores.
\<close>

theorem slot_name_valid:
  "length (slot_name_from_member name) \<le> 63 \<and>
   (\<forall>c \<in> set (slot_name_from_member name). is_lower_alnum c \<or> c = CHR ''_'')"
  by (auto simp: slot_name_from_member_def slot_char_def dest!: in_set_takeD)

text \<open>
  The translation is not injective, so two members can be given one slot between them, which only one of
  them can use at a time: the diff asks for a single slot.
\<close>

theorem members_share_a_slot:
  "slot_name_from_member ''node-1'' = slot_name_from_member ''node.1'' \<and>
   fst (snd (compute_slot_diff now [''node-1'', ''node.1'', ''me''] [] ''me'' (new_slot_manager ttl))) = [''node_1'']"
  by (simp add: compute_slot_diff_def desired_slots_def slot_name_from_member_def slot_char_def is_lower_alnum_def
      is_digit_def ascii_lower_def)

section \<open>Retention\<close>

lemma scan_slots_keeps [simp]:
  "sl_retention_ttl (fst (scan_slots now desired m slots)) = sl_retention_ttl m"
  "sl_ignore_patterns (fst (scan_slots now desired m slots)) = sl_ignore_patterns m"
  by (induction now desired m slots rule: scan_slots.induct) (auto simp: Let_def)

lemma scan_slots_retained:
  "sl_retained (fst (scan_slots now desired m slots)) s = Some t \<Longrightarrow>
    (sl_retained m s = Some t \<or> t = now \<and> s \<in> set slots) \<and> (s \<in> set slots \<longrightarrow> s \<notin> set desired)"
proof (induction now desired m slots rule: scan_slots.induct)
  case (2 now desired m slot slots)
  then show ?case
    by (cases "sl_retained m slot") (auto simp: Let_def split: if_splits)
qed simp

lemma is_ignored_retained [simp]: "is_ignored (m\<lparr>sl_retained := r\<rparr>) s = is_ignored m s"
  by (simp add: is_ignored_def)

lemma scan_slots_dropped:
  "s \<in> set (snd (scan_slots now desired m slots)) \<Longrightarrow>
    s \<in> set slots \<and> s \<notin> set desired \<and> \<not> is_ignored m s \<and>
    (\<exists>t. (sl_retained m s = Some t \<or> t = now) \<and> sl_retention_ttl m \<le> now - t)"
proof (induction now desired m slots rule: scan_slots.induct)
  case (2 now desired m slot slots)
  then show ?case
    by (cases "sl_retained m slot") (auto simp: Let_def split: if_splits)
qed simp

text \<open>A call: time, members, existing slots, own name. What a run of calls drops at its last call.\<close>

type_synonym slot_call = "nat \<times> string list \<times> string list \<times> string"

definition slot_step :: "slot_manager \<Rightarrow> slot_call \<Rightarrow> slot_manager" where
  "slot_step m = (\<lambda>(now, members, existing, me). fst (compute_slot_diff now members existing me m))"

definition orphan :: "slot_call \<Rightarrow> string \<Rightarrow> bool" where
  "orphan = (\<lambda>(now, members, existing, me) s. s \<in> set existing \<and> s \<notin> set (desired_slots members me))"

definition wanted :: "slot_call \<Rightarrow> string \<Rightarrow> bool" where
  "wanted = (\<lambda>(now, members, existing, me) s. s \<in> set existing \<and> s \<in> set (desired_slots members me))"

definition orphaned_since :: "slot_call list \<Rightarrow> string \<Rightarrow> nat \<Rightarrow> bool" where
  "orphaned_since calls s t \<longleftrightarrow>
    (\<exists>pre c post. calls = pre @ c # post \<and> fst c = t \<and> orphan c s \<and> (\<forall>d \<in> set post. \<not> wanted d s))"

lemma orphaned_since_snoc: "orphaned_since calls s t \<Longrightarrow> \<not> wanted c s \<Longrightarrow> orphaned_since (calls @ [c]) s t"
  unfolding orphaned_since_def by (metis (no_types, lifting) append_Cons append_assoc rotate1.simps(2) set_ConsD set_rotate1)

lemma orphaned_now: "orphan c s \<Longrightarrow> orphaned_since (calls @ [c]) s (fst c)"
  unfolding orphaned_since_def by (intro exI [of _ calls] exI [of _ c] exI [of _ "[]"]) simp

lemma slot_step_eq:
  "slot_step m (now, members, existing, me) = fst (scan_slots now (desired_slots members me) m existing)"
  "snd (snd (compute_slot_diff now members existing me m)) = snd (scan_slots now (desired_slots members me) m existing)"
  by (simp_all add: slot_step_def compute_slot_diff_def Let_def case_prod_beta)

lemma retained_orphaned:
  "sl_retained (foldl slot_step (new_slot_manager ttl) calls) s = Some t \<Longrightarrow> orphaned_since calls s t"
proof (induction calls arbitrary: t rule: rev_induct)
  case (snoc c calls)
  obtain now members existing me where c: "c = (now, members, existing, me)" by (cases c) auto
  let ?m = "foldl slot_step (new_slot_manager ttl) calls"
  have r: "sl_retained (fst (scan_slots now (desired_slots members me) ?m existing)) s = Some t"
    using snoc.prems by (simp add: c slot_step_eq)
  note k = scan_slots_retained [OF r]
  then show ?case
  proof (cases "sl_retained ?m s = Some t")
    case True
    then show ?thesis using snoc.IH [OF True] k by (intro orphaned_since_snoc) (auto simp: wanted_def c)
  next
    case False
    then have "orphan c s" "t = fst c" using k by (auto simp: orphan_def c)
    then show ?thesis using orphaned_now by blast
  qed
qed (simp add: new_slot_manager_def)

lemma ttl_run: "sl_retention_ttl (foldl slot_step m calls) = sl_retention_ttl m"
  by (induction calls rule: rev_induct) (auto simp: slot_step_eq(1))

text \<open>
  A slot is dropped only after the retention time: when a call drops a slot, some call at least the
  retention time earlier (or the same, for a retention of zero) found it without a member, and no call
  since has found it wanted by one.
\<close>

theorem slot_dropped_after_retention:
  assumes "s \<in> set (snd (snd (compute_slot_diff now members existing me (foldl slot_step (new_slot_manager ttl) calls))))"
  shows "\<exists>t. orphaned_since (calls @ [(now, members, existing, me)]) s t \<and> unat ttl * 1000 \<le> now - t"
proof -
  let ?m = "foldl slot_step (new_slot_manager ttl) calls" and ?c = "(now, members, existing, me)"
  have d: "s \<in> set existing" "s \<notin> set (desired_slots members me)"
    "\<exists>t. (sl_retained ?m s = Some t \<or> t = now) \<and> sl_retention_ttl ?m \<le> now - t"
    using scan_slots_dropped [of s now "desired_slots members me" ?m existing] assms by (auto simp: slot_step_eq(2))
  then obtain t where t: "sl_retained ?m s = Some t \<or> t = now" "unat ttl * 1000 \<le> now - t"
    by (auto simp: ttl_run new_slot_manager_def)
  have "orphaned_since (calls @ [?c]) s t"
    using t(1)
  proof
    assume "sl_retained ?m s = Some t"
    then show ?thesis using d(2) by (intro orphaned_since_snoc retained_orphaned) (auto simp: wanted_def)
  next
    assume "t = now"
    then show ?thesis using d orphaned_now [of ?c s calls] by (auto simp: orphan_def)
  qed
  then show ?thesis using t(2) by blast
qed

theorem slot_dropped_after_retention_witness:
  "\<exists>t. orphaned_since [(0, [''me''], [''old''], ''me''), (5000, [''me''], [''old''], ''me'')] ''old'' t \<and> 5 * 1000 \<le> 5000 - t"
proof -
  have "''old'' \<in> set (snd (snd (compute_slot_diff 5000 [''me''] [''old''] ''me''
      (foldl slot_step (new_slot_manager 5) [(0, [''me''], [''old''], ''me'')]))))"
    by (simp add: compute_slot_diff_def slot_step_def desired_slots_def is_ignored_def new_slot_manager_def Let_def)
  from slot_dropped_after_retention [OF this] show ?thesis by simp
qed

end
