(* ===== verification/Spec2Isabelle.thy ===== *)
theory Spec2Isabelle
  imports Raft_Store Lock_Protocol Raft_Network Ha_Sync Standby_Promote Files_World Bootstrap_Config Pg_Commands
    Watchdog_Device Startup Metrics Ctl Proxy_Sessions Slots
begin

text \<open>
  A verification of pg-ha, a high-availability manager for PostgreSQL with an embedded Raft store.

  \<^bold>\<open>The program.\<close> Every node runs one \<open>pg-ha\<close> process beside its PostgreSQL server. The processes
  share a small replicated key-value store (crate \<open>pg-ha-dcs\<close>: a state machine replicated by
  openraft, with a write-ahead log and JSON files on disk). The HA engine (crate \<open>pg-ha-core\<close>) runs a
  cycle every few seconds: it reads the cluster view from the store, observes the local server, and
  renews the leader lock, follows the leader, or takes part in an election. The lock comes with a
  lease: a primary that cannot renew in time is stopped before anybody else may take the lock.

  \<^bold>\<open>Theories and the code they model.\<close>
  \<^item> \<open>Prelude\<close>, \<open>Btree_Map\<close>: machine integers, Rust's \<open>Result\<close>, saturating arithmetic, \<open>BTreeMap\<close>.
  \<^item> \<open>Kv_State_Machine\<close> (\<open>pg-ha-dcs/src/state_machine.rs\<close>): entries with expiry, the requests, \<open>apply\<close>,
    reads and expiry sweeps. Lemmas: compare-and-swap semantics over the live view, replicas that
    apply the same stamped log agree, sweeps are unobservable, versions identify writes.
  \<^item> \<open>Wal\<close> (\<open>wal.rs\<close>): record format, reader, writer, replay, compaction. Lemmas: replay inverts the
    writer, an interrupted append leaves a prefix, opening is idempotent, compaction keeps the log.
  \<^item> \<open>Raft_Store\<close> (\<open>store.rs\<close>): the storage calls of openraft over memory, log file and JSON files.
    Lemmas: acknowledged state survives a restart, when the log was opened and its records fit the limit of the
    reader; the three ways a crash or failed open shows.
  \<^item> \<open>Cluster\<close> (\<open>cluster.rs\<close>, \<open>history.rs\<close>): the cluster view and the bounded history.
  \<^item> \<open>Raft_Dcs\<close> (\<open>raft_dcs.rs\<close>, the write endpoint of \<open>raft_server.rs\<close>): the adapter calls, their
    requests, forwarding to the Raft leader, the cluster view. Lemmas: the lock contract, versioned
    writes, read back, leader clock.
  \<^item> \<open>Raft_Network\<close> (\<open>network.rs\<close>, \<open>raft_server.rs\<close>, the start in \<open>src/main.rs\<close>): RPC client and server, identifiers and
    membership, the bootstrap. Lemmas: an RPC is a remote call or fails, all nodes derive one membership, the
    start ends; and four ways the code falls short (a snapshot too large, a route that is not served, host names
    that look like a URL, an explicit identifier).
  \<^item> \<open>Lease\<close> (\<open>ha/lease.rs\<close>, \<open>ha/lag.rs\<close>): leases on two clocks, the wait for expiry, lag.
  \<^item> \<open>Lock_Protocol\<close>: nodes, network and state machine together, a step relation. A node that asks for
    a release keeps its lease until the code clears it, and is marked meanwhile. Lemmas: at most one valid lease among
    the nodes not so marked, the lease that outlives a release, and the schedule that breaks lease safety when a release is
    delivered late.
  \<^item> \<open>Lineage\<close> (\<open>ha/lineage.rs\<close>): the latest timeline, eligibility, promote plans, what a lock holder
    records. \<open>Identity\<close> (\<open>ha/identity.rs\<close>): the decision tables. \<open>Election\<close> (\<open>ha/election.rs\<close>, parts of
    \<open>ha/helpers.rs\<close>): who campaigns; at most one of the nodes with one view, unless all of them take part by the operator's override,
    and at least one when the published records are current. \<open>Standby_Config\<close> (\<open>standby_config.rs\<close>): configuration text.
  \<^item> \<open>Utc_Time\<close>, \<open>Standby_Files\<close> (\<open>standby_config.rs\<close>): the time stamp, the files with every system call that may fail, the
    walk over the data directory. A name is a regular file, a symbolic link or a directory, since the markers count only as
    regular files. \<open>Files_World\<close>: the abstraction from files to the engine's world. Lemmas: the stamp is
    the reading of a Gregorian clock, the configuration is replaced atomically, the walk ends with the total size, a
    hold reads back, and the file operations refine the engine's own calls.
  \<^item> \<open>Bootstrap_Config\<close> (\<open>bootstrap.rs\<close>): initdb options, post-bootstrap SQL, \<open>postgresql.conf\<close>, \<open>pg_hba.conf\<close>. Lemmas: a
    rewrite is stable, plain values read back, quoted ones do not. \<open>Pg_Commands\<close> (\<open>postgresql.rs\<close>, \<open>callbacks.rs\<close>): the
    processes that are started; no password on a command line. \<open>Watchdog_Device\<close> (\<open>watchdog.rs\<close>): the device under the
    handle; the discipline of its descriptor.

  \<^item> \<open>Dynamic_Config\<close> (\<open>dynamic_config.rs\<close>, the lease timing of \<open>config.rs\<close>), \<open>Sync_Replication\<close> (\<open>sync.rs\<close>): the
    configuration kept in the DCS and the synchronous standby list.
  \<^item> \<open>Ha_State\<close>, \<open>Ha_Calls\<close>: the struct \<open>Ha\<close>, the handles on PostgreSQL and the watchdog, and every call the
    engine makes, in a state monad over engine, world, environment and trace. \<open>Ha_Fence\<close>, \<open>Ha_Timeline\<close>
    (\<open>ha/helpers.rs\<close>, \<open>ha/history_log.rs\<close>), \<open>Ha_Follow\<close> (\<open>ha/follow.rs\<close>, \<open>cascading.rs\<close>), \<open>Ha_Leader\<close> (\<open>ha/mod.rs\<close>,
    \<open>ha/election.rs\<close>), \<open>Ha_Commands\<close> (\<open>ha/commands.rs\<close>), \<open>Ha_Cycle\<close> (\<open>ha/mod.rs\<close>, \<open>bootstrap.rs\<close>), \<open>Ha_Shutdown\<close>
    (\<open>ha/shutdown.rs\<close>, the HA loop of \<open>src/main.rs\<close>): the engine functions, one definition each.
  \<^item> \<open>Ha_Logic\<close>: rules to run engine functions; \<open>Ha_Contract\<close>: the guards of the calls; \<open>Ha_Invariant\<close>, \<open>Ha_Keeps\<close>:
    an invariant locale and the lemma that every engine function keeps an instance of it. \<open>Ha_Safety\<close>: its
    instances and what no run of the process does, for every environment, every point of interruption:
    no start without \<open>standby.signal\<close> or lock, no promote without a record the DCS granted, a granted lease and the watchdog, no stop
    of a writable server unannounced but by a restart command, no lock released over one, no lease that was not granted. \<open>Ha_Behaviour\<close>: the fence of a
    lost lease, the return of the shutdown, the reinitialize that ignores a failed stop. \<open>Ha_Sync\<close>: \<open>/sync\<close> stays
    within the synchronous list of PostgreSQL for the node that wrote it, and what a successor does to it. \<open>Standby_Promote\<close> (\<open>standby_cluster.rs\<close>, \<open>cascading.rs\<close>): the cascade promote of a
    standby cluster, which acts in one order and only on the leader.
  \<^item> \<open>Rest_Api\<close> (crate \<open>pg-ha-api\<close>): the node state the engine publishes, the endpoints, the credentials. Lemmas: over
    every run of the engine, \<open>/primary\<close> answers 503 before a writable server is stopped and 200 only for a leader with
    a server observed writable; a configuration that is written fits the lease.
  \<^item> \<open>Ctl\<close> (crate \<open>pg-ha-ctl\<close>, the router in \<open>routes/mod.rs\<close>): the command line tool against the REST API. Lemma: a command is
    exactly its management request, and nothing without credentials the server accepts.
  \<^item> \<open>Proxy\<close>, \<open>Proxy_Sessions\<close> (crate \<open>pg-ha-proxy\<close>, the refresher in \<open>src/main.rs\<close>): registration of backends, the health
    checker, the choice of a backend, the connection limit, the shutdown of sessions. Lemmas: the health flag is the
    hysteresis of the probe results, along any interleaving of member lists and rounds read-write connections go to
    a confirmed primary, the limit holds per registration, a backend marked down keeps no session; and where the
    code falls short (the unprobed list, a backend registered again, the sessions of a new primary).
  \<^item> \<open>Pg_Probe\<close> (\<open>postgresql.rs\<close>, \<open>standby_cluster.rs\<close>), \<open>Timeline_Files\<close> (\<open>timeline_files.rs\<close>): what is read from the server,
    from programs and from the data directory. Lemmas: a replica never overstates its timeline, positions and
    history files are read back as written, the generation file is replaced atomically.
  \<^item> \<open>Static_Config\<close> (\<open>config.rs\<close>): validation and overrides; a loaded configuration fits the lease. \<open>Startup\<close> (\<open>config.rs\<close>, \<open>src/main.rs\<close>,
    \<open>build_health_client\<close> of \<open>proxy.rs\<close>): defaults and sample, the TLS side of the listeners, the steps of \<open>main\<close> with the wait for a leader and
    the servers that bind in tasks of their own. Lemmas: a node comes up in one order, goes on without a leader, a port that requires
    client certificates is never served without checking them, the probes of a peer satisfy it. \<open>Metrics\<close> (\<open>routes/observability.rs\<close>): an unknown value has no sample. \<open>Slots\<close> (\<open>slots.rs\<close>):
    replication slots; a slot is dropped only after its retention time.

  \<^bold>\<open>Composition.\<close> \<open>Lock_Protocol\<close> joins \<open>Lease\<close>, \<open>Raft_Dcs\<close> and \<open>Kv_State_Machine\<close>; its premise, that every lease was granted
  by a lock write, is the theorem \<open>leases_are_granted\<close> of the engine. \<open>Rest_Api\<close> reads the trace of the engine. \<open>Files_World\<close> relates the
  effects the engine's calls have on its world to the operations on files. \<open>Ctl\<close> runs the tool against the endpoints of
  \<open>Rest_Api\<close>, \<open>Raft_Network\<close> the RPC client against the server. The proxy
  probes the REST endpoints over the network, so there its input is any sequence of probe results.

  \<^bold>\<open>Parameters.\<close> openraft, the HTTP client, \<open>serde_json\<close>, \<open>bincode\<close> and \<open>crc32fast\<close> are arguments of
  the definitions that use them; what is assumed of them (a decoder inverts its encoder) is named in
  the statements. Clocks are arguments. In the engine the environment is a record of functions that
  answer the numbered calls (\<open>pg_ctl\<close>, \<open>psql\<close>, \<open>pg_rewind\<close>, the DCS) and move the world meanwhile; the safety
  theorems hold for every such record.

  \<^bold>\<open>Loops.\<close> Loops over files and lists are structural or have a termination measure. The endless loops of
  \<open>main\<close> and the drain take a number of rounds: the safety theorems hold for every number, and
  \<open>graceful_shutdown_returns\<close> gives the number that is enough for the drain. The waits for the Raft leader are partial
  functions; \<open>cluster_start_returns\<close> shows that they return when time passes between the rounds.

  \<^bold>\<open>Not modelled.\<close> openraft itself, a third-party protocol. \<open>format_size\<close>, which prints a size through \<open>f64\<close> for a log
  line; the TLS handshake; logging; the copying of bytes in the proxy; the parsers of YAML and of command line arguments.
  Messages of the engine's results are shortened.
\<close>

end
